(* ===== verification/Prelude.thy ===== *)
theory Prelude
  imports Main "HOL-Library.Word" "HOL-Library.AList"
begin

text \<open>
  Shared vocabulary of the development: bytes and big-endian reads as \<open>node:buffer\<close> offers
  them, decimal printing and reading of numbers, splitting and joining of strings as
  \<open>String.split\<close> and \<open>Array.join\<close> do, the lowercase-hex pattern of keys and secrets, and
  the insertion-ordered \<open>Map\<close> and \<open>Set\<close> of JavaScript with the locale that states what the
  components rely on.  JavaScript strings are modelled as character lists, that is, strings
  whose code units are below 256.
\<close>

unbundle bit_operations_syntax

named_theorems byte_simps "big-endian reads and writes"
named_theorems string_simps "decimal printing, splitting and joining"
named_theorems inv_intros "introduction of component invariants"
named_theorems eval_simps "evaluation of the model on concrete inputs"

section \<open>Bytes\<close>

type_synonym byte = "8 word"
type_synonym bytes = "8 word list"
type_synonym u32 = "32 word"

text \<open>
  An index past the end of a buffer reads \<open>undefined\<close>, which the bitwise operators of
  JavaScript turn into 0.
\<close>

definition byte_at :: "bytes \<Rightarrow> nat \<Rightarrow> nat" where
  "byte_at bs i = (if i < length bs then unat (bs ! i) else 0)"

definition readUInt16BE :: "bytes \<Rightarrow> nat \<Rightarrow> nat" where
  "readUInt16BE bs i = 256 * byte_at bs i + byte_at bs (i + 1)"

definition readUInt32BE :: "bytes \<Rightarrow> nat \<Rightarrow> u32" where
  "readUInt32BE bs i = of_nat (65536 * readUInt16BE bs i + readUInt16BE bs (i + 2))"

definition writeUInt16BE :: "nat \<Rightarrow> bytes" where
  "writeUInt16BE n = [of_nat (n div 256), of_nat n]"

lemmas byte_eval [eval_simps] = byte_at_def readUInt16BE_def readUInt32BE_def writeUInt16BE_def

lemma byte_at_less [simp]: "byte_at bs i < 256"
  using unsigned_less [of "bs ! i", where ?'a = nat] by (simp add: byte_at_def)

lemma byte_at_le [simp]: "byte_at bs i \<le> 255"
  using byte_at_less [of bs i] by linarith

lemma byte_at_Cons_0 [byte_simps]: "byte_at (b # bs) 0 = unat b"
  by (simp add: byte_at_def)

lemma byte_at_Cons_Suc [byte_simps]: "byte_at (b # bs) (Suc i) = byte_at bs i"
  by (simp add: byte_at_def)

lemma byte_at_drop: "byte_at (drop n bs) i = byte_at bs (n + i)"
  by (auto simp: byte_at_def)

lemma byte_at_take: "i < n \<Longrightarrow> byte_at (take n bs) i = byte_at bs i"
  by (auto simp: byte_at_def)

lemma readUInt16BE_less [simp]: "readUInt16BE bs i < 65536"
  using byte_at_le [of bs i] byte_at_le [of bs "i + 1"]
  by (simp add: readUInt16BE_def del: byte_at_le)

lemma unat_byte_of_nat: "unat (of_nat n :: byte) = n mod 256"
  by (simp add: unat_of_nat)

lemma length_writeUInt16BE [simp]: "length (writeUInt16BE n) = 2"
  by (simp add: writeUInt16BE_def)

lemma read_writeUInt16BE [byte_simps]:
  "n < 65536 \<Longrightarrow> readUInt16BE (writeUInt16BE n @ bs) 0 = n"
  by (simp add: readUInt16BE_def writeUInt16BE_def byte_at_def unat_byte_of_nat)

lemma read_writeUInt16BE_exact [byte_simps]:
  "n < 65536 \<Longrightarrow> readUInt16BE (writeUInt16BE n) 0 = n"
  using read_writeUInt16BE [of n "[]"] by simp

section \<open>Decimal numbers\<close>

definition digit_char :: "nat \<Rightarrow> char" where
  "digit_char d = char_of (48 + d)"

definition is_digit :: "char \<Rightarrow> bool" where
  "is_digit c \<longleftrightarrow> 48 \<le> (of_char c :: nat) \<and> (of_char c :: nat) \<le> 57"

definition digit_value :: "char \<Rightarrow> nat" where
  "digit_value c = of_char c - 48"

text \<open>\<open>String(n)\<close> of a natural number, and \<open>Number(s)\<close> of a string of decimal digits.\<close>

fun show_nat :: "nat \<Rightarrow> string" where
  "show_nat n = (if n < 10 then [digit_char n] else show_nat (n div 10) @ [digit_char (n mod 10)])"

declare show_nat.simps [simp del]

definition read_nat :: "string \<Rightarrow> nat" where
  "read_nat s = foldl (\<lambda>a c. 10 * a + digit_value c) 0 s"

lemma digit_chars [eval_simps]:
  "digit_char 0 = CHR ''0''" "digit_char 1 = CHR ''1''" "digit_char 2 = CHR ''2''"
  "digit_char 3 = CHR ''3''" "digit_char 4 = CHR ''4''" "digit_char 5 = CHR ''5''"
  "digit_char 6 = CHR ''6''" "digit_char 7 = CHR ''7''" "digit_char 8 = CHR ''8''"
  "digit_char 9 = CHR ''9''" "digit_char (Suc 0) = CHR ''1''"
  by (simp_all add: digit_char_def char_of_def bit_Suc_0_iff)

lemmas show_nat_eval [eval_simps] = show_nat.simps

lemma digit_value_char: "d < 10 \<Longrightarrow> digit_value (digit_char d) = d"
  by (simp add: digit_value_def digit_char_def)

lemma is_digit_char: "d < 10 \<Longrightarrow> is_digit (digit_char d)"
  by (simp add: is_digit_def digit_char_def)

lemma read_show_nat [string_simps]: "read_nat (show_nat n) = n"
proof (induction n rule: show_nat.induct)
  case (1 n)
  show ?case
  proof (cases "n < 10")
    case True
    then show ?thesis
      by (subst show_nat.simps) (simp add: read_nat_def digit_value_char)
  next
    case False
    with 1 have "read_nat (show_nat (n div 10)) = n div 10" by simp
    with False show ?thesis
      by (subst show_nat.simps) (simp add: read_nat_def digit_value_char)
  qed
qed

lemma show_nat_inj: "show_nat m = show_nat n \<longleftrightarrow> m = n"
  by (metis read_show_nat)

lemma show_nat_digits: "c \<in> set (show_nat n) \<Longrightarrow> is_digit c"
proof (induction n rule: show_nat.induct)
  case (1 n)
  then show ?case
    by (cases "n < 10") (auto simp: show_nat.simps [of n] is_digit_char)
qed

lemma show_nat_nonempty [simp]: "show_nat n \<noteq> []"
  by (subst show_nat.simps) simp

lemma dot_colon_not_digit [simp]:
  "\<not> is_digit CHR ''.''" "\<not> is_digit CHR '':''" "\<not> is_digit CHR ''/''" "\<not> is_digit CHR '',''"
  by (simp_all add: is_digit_def)

lemma show_nat_no_dot [simp]: "CHR ''.'' \<notin> set (show_nat n)"
  using show_nat_digits dot_colon_not_digit(1) by blast

lemma show_nat_no_colon [simp]: "CHR '':'' \<notin> set (show_nat n)"
  using show_nat_digits dot_colon_not_digit(2) by blast

lemma show_nat_no_slash [simp]: "CHR ''/'' \<notin> set (show_nat n)"
  using show_nat_digits dot_colon_not_digit(3) by blast

section \<open>Splitting and joining\<close>

fun split_on :: "char \<Rightarrow> string \<Rightarrow> string list" where
  "split_on c [] = [[]]"
| "split_on c (x # xs) =
     (if x = c then [] # split_on c xs
      else (case split_on c xs of [] \<Rightarrow> [[x]] | y # ys \<Rightarrow> (x # y) # ys))"

fun join :: "string \<Rightarrow> string list \<Rightarrow> string" where
  "join sep [] = []"
| "join sep [x] = x"
| "join sep (x # y # ys) = x @ sep @ join sep (y # ys)"

lemma split_on_nonempty [simp]: "split_on c s \<noteq> []"
  by (induction s) (auto split: list.splits)

lemma split_on_no_sep: "c \<notin> set s \<Longrightarrow> split_on c s = [s]"
  by (induction s) auto

lemma split_on_append: "c \<notin> set s \<Longrightarrow> split_on c (s @ c # t) = s # split_on c t"
  by (induction s) auto

lemma split_on_parts: "x \<in> set (split_on c s) \<Longrightarrow> c \<notin> set x"
proof (induction s arbitrary: x)
  case Nil
  then show ?case by simp
next
  case (Cons a s)
  then show ?case
    by (cases "split_on c s") (auto split: if_splits)
qed

lemma join_split_on [string_simps]: "join [c] (split_on c s) = s"
proof (induction s)
  case Nil
  then show ?case by simp
next
  case (Cons a s)
  obtain y ys where "split_on c s = y # ys"
    by (cases "split_on c s") auto
  with Cons show ?case by (cases ys) auto
qed

lemma split_on_join [string_simps]:
  "xs \<noteq> [] \<Longrightarrow> (\<And>x. x \<in> set xs \<Longrightarrow> c \<notin> set x) \<Longrightarrow> split_on c (join [c] xs) = xs"
  by (induction "[c]" xs rule: join.induct) (auto simp: split_on_no_sep split_on_append)

lemma join_inj:
  assumes "join [c] xs = join [c] ys" and "xs \<noteq> []" and "ys \<noteq> []"
    and "\<And>x. x \<in> set xs \<Longrightarrow> c \<notin> set x" and "\<And>y. y \<in> set ys \<Longrightarrow> c \<notin> set y"
  shows "xs = ys"
  by (metis assms split_on_join)

text \<open>\<open>String.startsWith\<close>.\<close>

definition starts_with :: "'a list \<Rightarrow> 'a list \<Rightarrow> bool" where
  "starts_with p s \<longleftrightarrow> take (length p) s = p"

lemma starts_with_append [simp]: "starts_with p (p @ s)"
  by (simp add: starts_with_def)

lemma starts_withD: "starts_with p s \<Longrightarrow> s = p @ drop (length p) s"
  by (metis append_take_drop_id starts_with_def)

section \<open>Keys and secrets\<close>

text \<open>The pattern \<open>/^[0-9a-f]{64}$/\<close> that every key, seed, secret and digest has to match.\<close>

definition is_hex :: "char \<Rightarrow> bool" where
  "is_hex c \<longleftrightarrow> is_digit c \<or> (97 \<le> (of_char c :: nat) \<and> (of_char c :: nat) \<le> 102)"

definition key_hex :: "string \<Rightarrow> bool" where
  "key_hex s \<longleftrightarrow> length s = 64 \<and> (\<forall>c \<in> set s. is_hex c)"

lemma colon_not_hex [simp]: "\<not> is_hex CHR '':''"
  by (simp add: is_hex_def)

lemma key_hex_length: "key_hex s \<Longrightarrow> length s = 64"
  by (simp add: key_hex_def)

lemma key_hex_no_colon: "key_hex s \<Longrightarrow> CHR '':'' \<notin> set s"
  using colon_not_hex by (auto simp: key_hex_def)

section \<open>Results and grants\<close>

text \<open>The message of a thrown \<open>Error\<close>; a computation that may throw returns \<open>error + 'a\<close>.\<close>

type_synonym error = string

text \<open>\<open>"all" | number[]\<close>, the TCP grant of a peer.\<close>

datatype grant = All_ports | Ports "nat list"

end
