(* ===== verification/Js_Map.thy ===== *)
theory Js_Map
  imports Prelude
begin

text \<open>
  The \<open>Map\<close> and \<open>Set\<close> objects of JavaScript.  Both iterate in insertion order and
  \<open>Map.set\<close> on a present key keeps its position, so a map is an association list
  (\<open>AList.update\<close>, \<open>AList.delete\<close>, \<open>map_of\<close>) and a set is a list without
  repetition.  The locale \<open>ordered_map\<close> is what the components use of a map; it is
  interpreted on these lists.
\<close>

section \<open>Set\<close>

definition set_add :: "'a \<Rightarrow> 'a list \<Rightarrow> 'a list" where
  "set_add x xs = (if x \<in> set xs then xs else xs @ [x])"

definition set_delete :: "'a \<Rightarrow> 'a list \<Rightarrow> 'a list" where
  "set_delete x xs = filter (\<lambda>y. y \<noteq> x) xs"

lemma set_set_add [simp]: "set (set_add x xs) = insert x (set xs)"
  by (auto simp: set_add_def)

lemma set_set_delete [simp]: "set (set_delete x xs) = set xs - {x}"
  by (auto simp: set_delete_def)

lemma distinct_set_add [simp]: "distinct xs \<Longrightarrow> distinct (set_add x xs)"
  by (simp add: set_add_def)

lemma distinct_set_delete [simp]: "distinct xs \<Longrightarrow> distinct (set_delete x xs)"
  by (simp add: set_delete_def)

section \<open>Map\<close>

type_synonym ('k, 'v) js_map = "('k \<times> 'v) list"

abbreviation map_get :: "('k, 'v) js_map \<Rightarrow> 'k \<Rightarrow> 'v option" where
  "map_get \<equiv> map_of"

abbreviation map_set :: "'k \<Rightarrow> 'v \<Rightarrow> ('k, 'v) js_map \<Rightarrow> ('k, 'v) js_map" where
  "map_set \<equiv> AList.update"

abbreviation map_delete :: "'k \<Rightarrow> ('k, 'v) js_map \<Rightarrow> ('k, 'v) js_map" where
  "map_delete \<equiv> AList.delete"

abbreviation map_keys :: "('k, 'v) js_map \<Rightarrow> 'k list" where
  "map_keys m \<equiv> map fst m"

definition map_wf :: "('k, 'v) js_map \<Rightarrow> bool" where
  "map_wf m \<longleftrightarrow> distinct (map_keys m)"

text \<open>
  The contract: lookup after an insertion or a removal, the keys, and the size, all for maps
  that satisfy the representation invariant, which every operation keeps.
\<close>

locale ordered_map =
  fixes lookup :: "'m \<Rightarrow> 'k \<Rightarrow> 'v option"
    and insert_at :: "'k \<Rightarrow> 'v \<Rightarrow> 'm \<Rightarrow> 'm"
    and remove_at :: "'k \<Rightarrow> 'm \<Rightarrow> 'm"
    and key_list :: "'m \<Rightarrow> 'k list"
    and wf :: "'m \<Rightarrow> bool"
  assumes lookup_insert: "lookup (insert_at k v m) k' = (if k' = k then Some v else lookup m k')"
    and lookup_remove: "lookup (remove_at k m) k' = (if k' = k then None else lookup m k')"
    and wf_insert: "wf m \<Longrightarrow> wf (insert_at k v m)"
    and wf_remove: "wf m \<Longrightarrow> wf (remove_at k m)"
    and distinct_keys: "wf m \<Longrightarrow> distinct (key_list m)"
    and key_iff: "k \<in> set (key_list m) \<longleftrightarrow> lookup m k \<noteq> None"
begin

lemma keys_insert: "set (key_list (insert_at k v m)) = insert k (set (key_list m))"
  by (rule set_eqI) (simp add: key_iff lookup_insert)

lemma keys_remove: "set (key_list (remove_at k m)) = set (key_list m) - {k}"
  by (rule set_eqI) (simp add: key_iff lookup_remove)

lemma size_insert:
  assumes "wf m"
  shows "length (key_list (insert_at k v m)) =
    (if lookup m k = None then Suc (length (key_list m)) else length (key_list m))"
proof -
  have "length (key_list (insert_at k v m)) = card (insert k (set (key_list m)))"
    using assms by (metis distinct_card distinct_keys keys_insert wf_insert)
  moreover have "card (set (key_list m)) = length (key_list m)"
    using assms by (simp add: distinct_card distinct_keys)
  ultimately show ?thesis
    by (auto simp: key_iff card_insert_if)
qed

lemma size_remove:
  assumes "wf m"
  shows "length (key_list (remove_at k m)) =
    (if lookup m k = None then length (key_list m) else length (key_list m) - 1)"
proof -
  have "length (key_list (remove_at k m)) = card (set (key_list m) - {k})"
    using assms by (metis distinct_card distinct_keys keys_remove wf_remove)
  moreover have "card (set (key_list m)) = length (key_list m)"
    using assms by (simp add: distinct_card distinct_keys)
  ultimately show ?thesis
    by (simp add: key_iff)
qed

lemma size_remove_le: "wf m \<Longrightarrow> length (key_list (remove_at k m)) \<le> length (key_list m)"
  by (simp add: size_remove)

lemma insert_all:
  assumes "\<And>k v. lookup m k = Some v \<Longrightarrow> P k v" and "P k v"
    and "lookup (insert_at k v m) k' = Some v'"
  shows "P k' v'"
  using assms by (auto simp: lookup_insert split: if_splits)

lemma remove_all:
  assumes "\<And>k v. lookup m k = Some v \<Longrightarrow> P k v"
    and "lookup (remove_at k m) k' = Some v'"
  shows "P k' v'"
  using assms by (auto simp: lookup_remove split: if_splits)

end

interpretation jm: ordered_map map_of AList.update AList.delete "map fst" map_wf
proof
  fix k k' :: 'a and v :: 'b and m :: "('a, 'b) js_map"
  show "map_of (AList.update k v m) k' = (if k' = k then Some v else map_of m k')"
    by (simp add: update_conv')
  show "map_of (AList.delete k m) k' = (if k' = k then None else map_of m k')"
    by (simp add: AList.delete_conv')
  show "map_wf m \<Longrightarrow> map_wf (AList.update k v m)"
    by (simp add: map_wf_def distinct_update)
  show "map_wf m \<Longrightarrow> map_wf (AList.delete k m)"
    by (simp add: map_wf_def distinct_delete)
  show "map_wf m \<Longrightarrow> distinct (map fst m)"
    by (simp add: map_wf_def)
  show "k \<in> set (map fst m) \<longleftrightarrow> map_of m k \<noteq> None"
    by (auto simp: map_of_eq_None_iff)
qed

lemmas map_simps = jm.lookup_insert jm.lookup_remove jm.wf_insert jm.wf_remove

lemma map_wf_empty [simp]: "map_wf []"
  by (simp add: map_wf_def)

lemma map_wf_filter [simp]: "map_wf m \<Longrightarrow> map_wf (filter P m)"
  by (simp add: map_wf_def distinct_map_filter)

lemma map_of_filter:
  "map_wf m \<Longrightarrow> map_of (filter (\<lambda>(k, v). P k v) m) k =
     (case map_of m k of None \<Rightarrow> None | Some v \<Rightarrow> if P k v then Some v else None)"
proof (induction m)
  case Nil
  then show ?case by simp
next
  case (Cons p m)
  obtain a b where p: "p = (a, b)" by fastforce
  from Cons.prems p have wf: "map_wf m" and a: "a \<notin> set (map fst m)"
    by (auto simp: map_wf_def)
  from a have "map_of m a = None" by (simp add: map_of_eq_None_iff)
  with Cons.IH [OF wf] p show ?case by (auto split: option.splits)
qed

text \<open>Of a list with distinct keys a filter on one key keeps one element.\<close>

lemma filter_key_singleton:
  "distinct (map f xs) \<Longrightarrow> x \<in> set xs \<Longrightarrow> f x = k \<Longrightarrow> filter (\<lambda>y. f y = k) xs = [x]"
proof (induction xs)
  case (Cons a xs)
  show ?case
  proof (cases "f a = k")
    case True
    with Cons.prems have "a = x" by (auto simp: image_iff)
    moreover have "filter (\<lambda>y. f y = k) xs = []"
      using Cons.prems(1) True by (auto simp: filter_empty_conv image_iff)
    ultimately show ?thesis using True by simp
  next
    case False
    with Cons show ?thesis by auto
  qed
qed simp

end
