(* ===== verification/Acceptance.thy ===== *)
theory Acceptance
  imports Js_Map
begin

text \<open>
  The acceptance diagnostics of \<open>src/vpn/acceptance-diagnostics.ts\<close>: a module-level budget
  of at most three reports of each event per sink, with positive controls withheld until an
  address mismatch has been seen.  The module's variables are the fields of a record; the calls
  of the sink are returned as a list.
\<close>

datatype acceptance_event =
  Admission_unknown | Admission_accepted | Source_mismatch |
  Policy_rejected | Policy_admitted | Packet_busy

record diagnostics =
  diag_enabled :: bool
  diag_sink :: bool
  diag_emitted :: "(acceptance_event, nat) js_map"
  diag_mismatchSeen :: bool

definition setAcceptanceSink :: "bool \<Rightarrow> diagnostics \<Rightarrow> diagnostics" where
  "setAcceptanceSink next_sink d =
     (if \<not> diag_enabled d then d
      else d\<lparr>diag_sink := next_sink, diag_emitted := [], diag_mismatchSeen := False\<rparr>)"

definition emitted_count :: "diagnostics \<Rightarrow> acceptance_event \<Rightarrow> nat" where
  "emitted_count d e = (case map_get (diag_emitted d) e of None \<Rightarrow> 0 | Some n \<Rightarrow> n)"

definition acceptanceEvent ::
  "acceptance_event \<Rightarrow> diagnostics \<Rightarrow> diagnostics \<times> acceptance_event list" where
  "acceptanceEvent e d =
     (if \<not> diag_enabled d \<or> \<not> diag_sink d then (d, [])
      else
        let d1 = (if e = Source_mismatch then d\<lparr>diag_mismatchSeen := True\<rparr> else d) in
        if e = Policy_admitted \<and> \<not> diag_mismatchSeen d1 then (d1, [])
        else if emitted_count d1 e \<ge> 3 then (d1, [])
        else (d1\<lparr>diag_emitted := map_set e (emitted_count d1 e + 1) (diag_emitted d1)\<rparr>, [e]))"

text \<open>A sequence of events after a sink has been set, with everything the sink is called with.\<close>

fun acceptance_run ::
  "acceptance_event list \<Rightarrow> diagnostics \<Rightarrow> diagnostics \<times> acceptance_event list" where
  "acceptance_run [] d = (d, [])"
| "acceptance_run (e # es) d =
     (let (d1, out1) = acceptanceEvent e d; (d2, out2) = acceptance_run es d1
      in (d2, out1 @ out2))"

lemma emitted_count_event:
  "emitted_count (fst (acceptanceEvent e d)) x =
     emitted_count d x + count_list (snd (acceptanceEvent e d)) x"
  by (auto simp: acceptanceEvent_def emitted_count_def Let_def map_simps split: option.splits)

lemma emitted_count_bound:
  "emitted_count d x \<le> 3 \<Longrightarrow> emitted_count (fst (acceptanceEvent e d)) x \<le> 3"
  by (auto simp: acceptanceEvent_def emitted_count_def Let_def map_simps split: option.splits)

lemma acceptance_run_count:
  "emitted_count (fst (acceptance_run es d)) x =
     emitted_count d x + count_list (snd (acceptance_run es d)) x"
  by (induction es arbitrary: d) (simp_all add: split_beta Let_def emitted_count_event)

lemma acceptance_run_bound:
  "emitted_count d x \<le> 3 \<Longrightarrow> emitted_count (fst (acceptance_run es d)) x \<le> 3"
  by (induction es arbitrary: d) (simp_all add: split_beta Let_def emitted_count_bound)

lemma no_mismatch_no_control:
  assumes "Source_mismatch \<notin> set es" and "\<not> diag_mismatchSeen d"
  shows "Policy_admitted \<notin> set (snd (acceptance_run es d))"
  using assms
proof (induction es arbitrary: d)
  case Nil
  then show ?case by simp
next
  case (Cons e es)
  then have "\<not> diag_mismatchSeen (fst (acceptanceEvent e d))"
    and "Policy_admitted \<notin> set (snd (acceptanceEvent e d))"
    by (auto simp: acceptanceEvent_def Let_def)
  with Cons show ?case by (simp add: split_beta Let_def)
qed

lemma emitted_count_fresh: "diag_enabled d \<Longrightarrow> emitted_count (setAcceptanceSink s d) x = 0"
  by (simp add: setAcceptanceSink_def emitted_count_def)

lemma acceptance_disabled: "\<not> diag_enabled d \<Longrightarrow> acceptance_run es d = (d, [])"
  by (induction es) (simp_all add: acceptanceEvent_def)

end
