(* ===== verification/Length_Prefix.thy ===== *)
theory Length_Prefix
  imports Prelude
begin

text \<open>
  The reading loop that \<open>src/vpn/framing.ts\<close> and \<open>src/vpn/worklet-framing.ts\<close> share: frames
  of a two-byte big-endian length and a body, arriving in chunks of any size.  \<open>feed\<close> is the
  inner loop over one chunk, \<open>receive_chunks\<close> the loop over the stream; bounds and the
  delivery callback are parameters that the two modules instantiate.  The locale \<open>framed_stream\<close>
  states what they have in common and proves, once, that the loop equals a machine that reads
  single bytes, that chunking is irrelevant, and that reading inverts writing.
\<close>

section \<open>The loop\<close>

text \<open>
  \<open>rd_header\<close> holds the header bytes read so far, \<open>rd_packet\<close> the number of bytes that the
  current body still lacks and the bytes it has (\<open>packet.length - packetBytes\<close> and the filled
  part of the buffer).
\<close>

record reader =
  rd_header :: bytes
  rd_packet :: "(nat \<times> bytes) option"

definition reader_init :: reader where
  "reader_init = \<lparr>rd_header = [], rd_packet = None\<rparr>"

text \<open>The delivery callback: a state, a complete body, and possibly the error it throws.\<close>

type_synonym 's deliver = "bytes \<Rightarrow> 's \<Rightarrow> error option \<times> 's"

text \<open>
  The part of an iteration before the body: it reads header bytes when no body is open.  The
  result still has no body when the source says \<open>continue\<close>.
\<close>

definition take_header ::
  "error \<Rightarrow> nat \<Rightarrow> nat \<Rightarrow> bytes \<Rightarrow> reader \<Rightarrow> error option \<times> bytes \<times> reader" where
  "take_header bad lo hi rest rd =
     (case rd_packet rd of
        Some _ \<Rightarrow> (None, rest, rd)
      | None \<Rightarrow>
          let size = min (2 - length (rd_header rd)) (length rest);
              header = rd_header rd @ take size rest;
              rest' = drop size rest in
          if length header < 2 then (None, rest', rd\<lparr>rd_header := header\<rparr>)
          else
            let len = readUInt16BE header 0 in
            if len < lo \<or> len > hi then (Some bad, rest', rd\<lparr>rd_header := header\<rparr>)
            else (None, rest', \<lparr>rd_header = [], rd_packet = Some (len, [])\<rparr>))"

lemma take_header_measure:
  assumes "take_header bad lo hi rest rd = (e, rest1, rd1)"
  shows "length rest1 \<le> length rest" and
    "rest \<noteq> [] \<Longrightarrow> rd_packet rd = None \<Longrightarrow> rd_packet rd1 = None \<Longrightarrow> e = None \<Longrightarrow> length rest1 < length rest"
  using assms by (auto simp: take_header_def Let_def split: option.splits if_splits)

lemma take_header_opens:
  assumes "take_header bad lo hi rest rd = (None, rest1, rd1)" and "rd_packet rd1 \<noteq> None"
    and "rest \<noteq> []"
  shows "rest1 = rest \<and> rd1 = rd \<or>
    rd_packet rd = None \<and> rd_header rd1 = [] \<and>
    (length rest1 < length rest \<or> length rest1 = length rest \<and> \<not> length (rd_header rd) < 2)"
  using assms by (cases rest) (auto simp: take_header_def Let_def split: option.splits if_splits)

function feed ::
  "error \<Rightarrow> nat \<Rightarrow> nat \<Rightarrow> 's deliver \<Rightarrow> bytes \<Rightarrow> reader \<Rightarrow> 's \<Rightarrow> error option \<times> reader \<times> 's" where
  "feed bad lo hi dl rest rd s =
     (if rest = [] then (None, rd, s)
      else
        (case take_header bad lo hi rest rd of
           (Some e, rest1, rd1) \<Rightarrow> (Some e, rd1, s)
         | (None, rest1, rd1) \<Rightarrow>
             (case rd_packet rd1 of
                None \<Rightarrow> feed bad lo hi dl rest1 rd1 s
              | Some (left, got) \<Rightarrow>
                  let size = min left (length rest1);
                      got' = got @ take size rest1;
                      rest2 = drop size rest1 in
                  if left - size = 0 then
                    (case dl got' s of
                       (Some e, s') \<Rightarrow> (Some e, rd1\<lparr>rd_packet := None\<rparr>, s')
                     | (None, s') \<Rightarrow> feed bad lo hi dl rest2 (rd1\<lparr>rd_packet := None\<rparr>) s')
                  else feed bad lo hi dl rest2 (rd1\<lparr>rd_packet := Some (left - size, got')\<rparr>) s)))"
  by pat_completeness auto

text \<open>Each iteration consumes bytes of the chunk or closes a body that was already complete.\<close>

termination feed
proof (relation "measures [\<lambda>(bad, lo, hi, dl, rest, rd, s). length rest,
    \<lambda>(bad, lo, hi, dl, rest, rd, s).
      (if rd_packet rd = None then 0 else 2) + (if length (rd_header rd) < 2 then 0 else 1)]",
    goal_cases)
  case 1
  show ?case by simp
next
  case (2 bad lo hi dl rest rd s x rest1' rest1 rd1)
  then have th: "take_header bad lo hi rest rd = (None, rest1, rd1)" by simp
  with 2 have "rd_packet rd = None"
    by (auto simp: take_header_def split: option.splits)
  then show ?case using take_header_measure(2) [OF th] 2 by simp
next
  case (3 bad lo hi dl rest rd s x y rest1 rd1 a left got size got' rest2 b c)
  then have "take_header bad lo hi rest rd = (None, rest1, rd1)" and "rd_packet rd1 \<noteq> None"
    by simp_all
  from take_header_opens [OF this "3"(1)] 3 show ?case
    by (auto simp: le_diff_conv)
next
  case (4 bad lo hi dl rest rd s x y rest1 rd1 a left got size got' rest2)
  then have "take_header bad lo hi rest rd = (None, rest1, rd1)" and "rd_packet rd1 \<noteq> None"
    by simp_all
  from take_header_opens [OF this "4"(1)] 4 show ?case
    by (cases rest) auto
qed

declare feed.simps [simp del]

fun receive_chunks ::
  "error \<Rightarrow> nat \<Rightarrow> nat \<Rightarrow> 's deliver \<Rightarrow> bytes list \<Rightarrow> reader \<Rightarrow> 's \<Rightarrow> error option \<times> reader \<times> 's" where
  "receive_chunks bad lo hi dl [] rd s = (None, rd, s)"
| "receive_chunks bad lo hi dl (c # cs) rd s =
     (case feed bad lo hi dl c rd s of
        (Some e, rd', s') \<Rightarrow> (Some e, rd', s')
      | (None, rd', s') \<Rightarrow> receive_chunks bad lo hi dl cs rd' s')"

text \<open>
  The whole call: \<open>ended\<close> is the error with which the stream itself stops, if any, and the
  check after the loop reports an unfinished frame.
\<close>

definition receive_stream ::
  "error \<Rightarrow> error \<Rightarrow> nat \<Rightarrow> nat \<Rightarrow> 's deliver \<Rightarrow> bytes list \<Rightarrow> error option \<Rightarrow> 's \<Rightarrow> error option \<times> 's" where
  "receive_stream bad truncated lo hi dl chunks ended s =
     (case receive_chunks bad lo hi dl chunks reader_init s of
        (Some e, rd, s') \<Rightarrow> (Some e, s')
      | (None, rd, s') \<Rightarrow>
          (case ended of
             Some e \<Rightarrow> (Some e, s')
           | None \<Rightarrow>
               if rd_header rd \<noteq> [] \<or> rd_packet rd \<noteq> None then (Some truncated, s') else (None, s')))"

definition write_frame :: "bytes \<Rightarrow> bytes" where
  "write_frame p = writeUInt16BE (length p) @ p"

section \<open>The byte machine\<close>

text \<open>The reference: one byte at a time, no chunks, no copying.\<close>

definition byte_step ::
  "error \<Rightarrow> nat \<Rightarrow> nat \<Rightarrow> 's deliver \<Rightarrow> byte \<Rightarrow> reader \<Rightarrow> 's \<Rightarrow> error option \<times> reader \<times> 's" where
  "byte_step bad lo hi dl b rd s =
     (case rd_packet rd of
        None \<Rightarrow>
          if rd_header rd = [] then (None, rd\<lparr>rd_header := [b]\<rparr>, s)
          else
            let header = rd_header rd @ [b]; len = readUInt16BE header 0 in
            if len < lo \<or> len > hi then (Some bad, rd\<lparr>rd_header := header\<rparr>, s)
            else (None, \<lparr>rd_header = [], rd_packet = Some (len, [])\<rparr>, s)
      | Some (left, got) \<Rightarrow>
          if left = 1 then
            (case dl (got @ [b]) s of
               (Some e, s') \<Rightarrow> (Some e, rd\<lparr>rd_packet := None\<rparr>, s')
             | (None, s') \<Rightarrow> (None, rd\<lparr>rd_packet := None\<rparr>, s'))
          else (None, rd\<lparr>rd_packet := Some (left - 1, got @ [b])\<rparr>, s))"

fun byte_run ::
  "error \<Rightarrow> nat \<Rightarrow> nat \<Rightarrow> 's deliver \<Rightarrow> bytes \<Rightarrow> reader \<Rightarrow> 's \<Rightarrow> error option \<times> reader \<times> 's" where
  "byte_run bad lo hi dl [] rd s = (None, rd, s)"
| "byte_run bad lo hi dl (b # bs) rd s =
     (case byte_step bad lo hi dl b rd s of
        (Some e, rd', s') \<Rightarrow> (Some e, rd', s')
      | (None, rd', s') \<Rightarrow> byte_run bad lo hi dl bs rd' s')"

text \<open>A reader between two bytes: at most one header byte, or an unfinished body.\<close>

definition reader_wf :: "reader \<Rightarrow> bool" where
  "reader_wf rd \<longleftrightarrow>
     (case rd_packet rd of
        None \<Rightarrow> length (rd_header rd) < 2
      | Some (left, got) \<Rightarrow> 0 < left \<and> rd_header rd = [])"

lemma reader_init_wf [simp]: "reader_wf reader_init"
  by (simp add: reader_wf_def reader_init_def)

lemma byte_run_append:
  "byte_run bad lo hi dl (xs @ ys) rd s =
     (case byte_run bad lo hi dl xs rd s of
        (Some e, rd', s') \<Rightarrow> (Some e, rd', s')
      | (None, rd', s') \<Rightarrow> byte_run bad lo hi dl ys rd' s')"
  by (induction xs arbitrary: rd s) (auto split: option.splits prod.splits)

lemma byte_run_body:
  "length xs < left \<Longrightarrow>
   byte_run bad lo hi dl xs \<lparr>rd_header = h, rd_packet = Some (left, got)\<rparr> s =
     (None, \<lparr>rd_header = h, rd_packet = Some (left - length xs, got @ xs)\<rparr>, s)"
  by (induction xs arbitrary: left got) (auto simp: byte_step_def)

lemma byte_run_full_body:
  assumes "length xs = left" and "0 < left"
  shows "byte_run bad lo hi dl xs \<lparr>rd_header = h, rd_packet = Some (left, got)\<rparr> s =
     (let (e, s') = dl (got @ xs) s in (e, \<lparr>rd_header = h, rd_packet = None\<rparr>, s'))"
proof -
  obtain ys y where xs: "xs = ys @ [y]"
    using assms by (metis length_greater_0_conv rev_exhaust)
  have "left - length ys = 1" using assms xs by auto
  with assms xs show ?thesis
    by (auto simp: byte_run_append byte_run_body byte_step_def split: option.splits prod.splits)
qed

lemma byte_run_body_append:
  assumes "length xs = left" and "0 < left"
  shows "byte_run bad lo hi dl (xs @ ys) \<lparr>rd_header = [], rd_packet = Some (left, got)\<rparr> s =
    (case dl (got @ xs) s of
       (Some e, s') \<Rightarrow> (Some e, reader_init, s')
     | (None, s') \<Rightarrow> byte_run bad lo hi dl ys reader_init s')"
  by (auto simp: byte_run_append byte_run_full_body [OF assms] reader_init_def Let_def
      split: option.splits prod.splits)

section \<open>Streams of length-prefixed frames\<close>

text \<open>A callback that keeps what it is given, and the effect of delivering whole frames.\<close>

definition collect :: "bytes list deliver" where
  "collect p s = (None, s @ [p])"

fun deliver_all :: "'s deliver \<Rightarrow> bytes list \<Rightarrow> 's \<Rightarrow> error option \<times> 's" where
  "deliver_all dl [] s = (None, s)"
| "deliver_all dl (p # ps) s =
     (case dl p s of (Some e, s') \<Rightarrow> (Some e, s') | (None, s') \<Rightarrow> deliver_all dl ps s')"

lemma deliver_all_collect: "deliver_all collect ps s = (None, s @ ps)"
  by (induction ps arbitrary: s) (auto simp: collect_def)

text \<open>The bytes a reader has taken and not yet delivered.\<close>

definition pending_bytes :: "reader \<Rightarrow> bytes" where
  "pending_bytes rd =
     (case rd_packet rd of
        None \<Rightarrow> rd_header rd
      | Some (left, got) \<Rightarrow> writeUInt16BE (left + length got) @ got)"

lemma header_two_bytes: "length h = 2 \<Longrightarrow> writeUInt16BE (readUInt16BE h 0) = h"
proof -
  assume "length h = 2"
  then obtain a b where "h = [a, b]" by (auto simp: length_Suc_conv numeral_2_eq_2)
  moreover have "unat a < 256" and "unat b < 256"
    using unsigned_less [of a, where ?'a = nat] unsigned_less [of b, where ?'a = nat] by simp_all
  ultimately show ?thesis
    by (simp add: writeUInt16BE_def readUInt16BE_def byte_at_def div_add1_eq word_unat_eq_iff
        unat_of_nat del: of_nat_add of_nat_mult)
qed

text \<open>
  What the code relies on is that a frame is never empty and its length fits the header; both
  modules' bounds satisfy it.
\<close>

locale framed_stream =
  fixes bad truncated :: error and lo hi :: nat
  assumes lo_pos: "1 \<le> lo" and hi_fits: "hi < 65536"
begin

lemma byte_step_wf:
  assumes "reader_wf rd" and "byte_step bad lo hi dl b rd s = (None, rd', s')"
  shows "reader_wf rd'"
  using assms lo_pos
  by (auto simp: byte_step_def reader_wf_def Let_def split: option.splits if_splits prod.splits)

lemma byte_run_wf:
  "reader_wf rd \<Longrightarrow> byte_run bad lo hi dl bs rd s = (None, rd', s') \<Longrightarrow> reader_wf rd'"
proof (induction bs arbitrary: rd s)
  case (Cons b bs)
  then show ?case
    by (auto split: prod.splits option.splits dest: byte_step_wf)
qed simp

lemma take_header_run:
  assumes "reader_wf rd" and "take_header bad lo hi rest rd = (e, rest1, rd1)"
  shows "byte_run bad lo hi dl rest rd s =
    (case e of Some x \<Rightarrow> (Some x, rd1, s) | None \<Rightarrow> byte_run bad lo hi dl rest1 rd1 s)"
    and "e = None \<Longrightarrow> reader_wf rd1"
    and "e = None \<Longrightarrow> rd_packet rd1 = None \<Longrightarrow> rest1 = []"
proof -
  consider "rd_packet rd \<noteq> None" | "rd_packet rd = None" "rd_header rd = []"
    | h where "rd_packet rd = None" "rd_header rd = [h]"
    using assms(1) by (cases "rd_packet rd"; cases "rd_header rd") (auto simp: reader_wf_def)
  then have "byte_run bad lo hi dl rest rd s =
      (case e of Some x \<Rightarrow> (Some x, rd1, s) | None \<Rightarrow> byte_run bad lo hi dl rest1 rd1 s) \<and>
    (e = None \<longrightarrow> reader_wf rd1) \<and> (e = None \<longrightarrow> rd_packet rd1 = None \<longrightarrow> rest1 = [])"
  proof cases
    case 1
    with assms show ?thesis by (auto simp: take_header_def split: option.splits)
  next
    case 2
    then have rd: "rd = \<lparr>rd_header = [], rd_packet = None\<rparr>" by simp
    consider "rest = []" | b where "rest = [b]" | b c r where "rest = b # c # r"
      by (cases rest; cases "tl rest") auto
    then show ?thesis
    proof cases
      case (3 b c r)
      let ?len = "readUInt16BE [b, c] 0"
      have "take_header bad lo hi rest rd =
        (if ?len < lo \<or> ?len > hi then (Some bad, r, \<lparr>rd_header = [b, c], rd_packet = None\<rparr>)
         else (None, r, \<lparr>rd_header = [], rd_packet = Some (?len, [])\<rparr>))"
        by (simp add: 3 rd take_header_def Let_def)
      with assms(2) lo_pos show ?thesis
        by (cases "?len < lo \<or> ?len > hi") (auto simp: 3 rd byte_step_def reader_wf_def Let_def)
    qed (use rd assms in \<open>auto simp: take_header_def byte_step_def reader_wf_def\<close>)
  next
    case (3 h)
    then have rd: "rd = \<lparr>rd_header = [h], rd_packet = None\<rparr>" by simp
    show ?thesis
    proof (cases rest)
      case (Cons b r)
      let ?len = "readUInt16BE [h, b] 0"
      have "take_header bad lo hi rest rd =
        (if ?len < lo \<or> ?len > hi then (Some bad, r, \<lparr>rd_header = [h, b], rd_packet = None\<rparr>)
         else (None, r, \<lparr>rd_header = [], rd_packet = Some (?len, [])\<rparr>))"
        by (simp add: Cons rd take_header_def Let_def)
      with assms(2) lo_pos show ?thesis
        by (cases "?len < lo \<or> ?len > hi") (auto simp: Cons rd byte_step_def reader_wf_def Let_def)
    qed (use rd assms in \<open>auto simp: take_header_def reader_wf_def\<close>)
  qed
  then show "byte_run bad lo hi dl rest rd s =
      (case e of Some x \<Rightarrow> (Some x, rd1, s) | None \<Rightarrow> byte_run bad lo hi dl rest1 rd1 s)"
    and "e = None \<Longrightarrow> reader_wf rd1"
    and "e = None \<Longrightarrow> rd_packet rd1 = None \<Longrightarrow> rest1 = []" by blast+
qed

text \<open>The copying loop over a chunk computes what the byte machine computes.\<close>

lemma feed_eq: "reader_wf rd \<Longrightarrow> feed bad lo hi dl rest rd s = byte_run bad lo hi dl rest rd s"
proof (induction "length rest" arbitrary: rest rd s rule: less_induct)
  case less
  show ?case
  proof (cases "rest = []")
    case True
    then show ?thesis by (simp add: feed.simps)
  next
    case False
    obtain e rest1 rd1 where th: "take_header bad lo hi rest rd = (e, rest1, rd1)"
      by (metis prod_cases3)
    note run1 = take_header_run(1) [OF less.prems th, of dl s]
      and run2 = take_header_run(2,3) [OF less.prems th]
    note unfold = feed.simps [of bad lo hi dl rest rd s]
    show ?thesis
    proof (cases e)
      case (Some x)
      with False th run1 unfold show ?thesis by simp
    next
      case None
      show ?thesis
      proof (cases "rd_packet rd1")
        case nobody: None
        with None run2(2) have "rest1 = []" by simp
        with False th run1 unfold None nobody show ?thesis
          by (simp add: feed.simps [of _ _ _ _ "[]"])
      next
        case (Some body)
        then obtain left got where body: "rd_packet rd1 = Some (left, got)" by (cases body) auto
        with None run2(1) have left: "0 < left" and h: "rd_header rd1 = []"
          by (simp_all add: reader_wf_def)
        have rd1: "rd1 = \<lparr>rd_header = [], rd_packet = Some (left, got)\<rparr>"
          using body h by simp
        show ?thesis
        proof (cases "length rest1 < left")
          case True
          with False th run1 unfold None body rd1 show ?thesis
            by (simp add: Let_def byte_run_body feed.simps [of _ _ _ _ "[]"])
        next
          case full: False
          let ?xs = "take left rest1" and ?ys = "drop left rest1"
          have "length rest1 \<le> length rest"
            using th by (rule take_header_measure)
          with left full False have "length ?ys < length rest" by (cases rest) auto
          then have IH: "feed bad lo hi dl ?ys reader_init t = byte_run bad lo hi dl ?ys reader_init t" for t
            by (rule less.hyps) simp
          have "byte_run bad lo hi dl rest1 rd1 s =
            (case dl (got @ ?xs) s of
               (Some x, s') \<Rightarrow> (Some x, reader_init, s')
             | (None, s') \<Rightarrow> byte_run bad lo hi dl ?ys reader_init s')"
            using byte_run_body_append [of ?xs left bad lo hi dl ?ys got s] full left rd1 by simp
          with False th run1 unfold None body rd1 full IH show ?thesis
            by (simp add: Let_def reader_init_def split: prod.splits option.splits)
        qed
      qed
    qed
  qed
qed

lemma receive_chunks_eq:
  "reader_wf rd \<Longrightarrow> receive_chunks bad lo hi dl cs rd s = byte_run bad lo hi dl (concat cs) rd s"
  by (induction cs arbitrary: rd s)
     (auto simp: feed_eq byte_run_append split: prod.splits option.splits dest: byte_run_wf)

lemma receive_stream_concat:
  "receive_stream bad truncated lo hi dl cs ended s =
   receive_stream bad truncated lo hi dl [concat cs] ended s"
  by (simp add: receive_stream_def receive_chunks_eq del: receive_chunks.simps)

text \<open>One written frame is delivered as one body.\<close>

lemma byte_run_write:
  assumes "lo \<le> length p" and "length p \<le> hi"
  shows "byte_run bad lo hi dl (write_frame p @ rest) reader_init s =
    (case dl p s of
       (Some e, s') \<Rightarrow> (Some e, reader_init, s')
     | (None, s') \<Rightarrow> byte_run bad lo hi dl rest reader_init s')"
proof -
  obtain b c where bc: "writeUInt16BE (length p) = [b, c]"
    by (simp add: writeUInt16BE_def)
  have pos: "0 < length p" using assms lo_pos by linarith
  have "readUInt16BE [b, c] 0 = length p"
    using read_writeUInt16BE_exact [of "length p"] assms hi_fits bc by simp
  then have "byte_run bad lo hi dl (write_frame p @ rest) reader_init s =
      byte_run bad lo hi dl (p @ rest) \<lparr>rd_header = [], rd_packet = Some (length p, [])\<rparr> s"
    using assms by (simp add: write_frame_def bc reader_init_def byte_step_def)
  also have "\<dots> = (case dl p s of
       (Some e, s') \<Rightarrow> (Some e, reader_init, s')
     | (None, s') \<Rightarrow> byte_run bad lo hi dl rest reader_init s')"
    using byte_run_body_append [OF refl pos, of bad lo hi dl rest "[]" s] by simp
  finally show ?thesis .
qed

lemma byte_run_frames:
  assumes "\<forall>p \<in> set ps. lo \<le> length p \<and> length p \<le> hi"
  shows "byte_run bad lo hi dl (concat (map write_frame ps)) reader_init s =
    (let (e, s') = deliver_all dl ps s in (e, reader_init, s'))"
  using assms
  by (induction ps arbitrary: s) (auto simp: byte_run_write split: prod.splits option.splits)

theorem receive_frames:
  assumes "\<forall>p \<in> set ps. lo \<le> length p \<and> length p \<le> hi"
    and "concat cs = concat (map write_frame ps)"
  shows "receive_stream bad truncated lo hi dl cs None s = deliver_all dl ps s"
proof -
  have "receive_chunks bad lo hi dl cs reader_init s =
      (let (e, s') = deliver_all dl ps s in (e, reader_init, s'))"
    by (simp add: receive_chunks_eq assms byte_run_frames)
  then show ?thesis
    by (auto simp: receive_stream_def reader_init_def split: prod.splits option.splits)
qed

text \<open>Nothing is lost or invented: delivered frames and pending bytes are the bytes read.\<close>

lemma byte_step_flat:
  assumes "reader_wf rd" and "byte_step bad lo hi collect b rd s = (None, rd', s')"
  shows "concat (map write_frame s') @ pending_bytes rd' =
    concat (map write_frame s) @ pending_bytes rd @ [b]"
proof (cases "rd_packet rd")
  case None
  show ?thesis
  proof (cases "rd_header rd = []")
    case True
    with None assms show ?thesis
      by (auto simp: byte_step_def pending_bytes_def)
  next
    case False
    with None assms(1) have "length (rd_header rd @ [b]) = 2"
      by (cases "rd_header rd") (auto simp: reader_wf_def)
    then have "writeUInt16BE (readUInt16BE (rd_header rd @ [b]) 0) = rd_header rd @ [b]"
      by (rule header_two_bytes)
    with None False assms(2) show ?thesis
      by (auto simp: byte_step_def pending_bytes_def Let_def split: if_splits)
  qed
next
  case (Some body)
  then obtain left got where "rd_packet rd = Some (left, got)" by (cases body) auto
  with assms show ?thesis
    by (auto simp: byte_step_def pending_bytes_def collect_def write_frame_def reader_wf_def
        split: if_splits)
qed

lemma byte_run_flat:
  "reader_wf rd \<Longrightarrow> byte_run bad lo hi collect bs rd s = (None, rd', s') \<Longrightarrow>
   concat (map write_frame s') @ pending_bytes rd' =
   concat (map write_frame s) @ pending_bytes rd @ bs"
proof (induction bs arbitrary: rd s)
  case (Cons b bs)
  obtain e rd1 s1 where step: "byte_step bad lo hi collect b rd s = (e, rd1, s1)"
    by (metis prod_cases3)
  with Cons.prems have "e = None" and run: "byte_run bad lo hi collect bs rd1 s1 = (None, rd', s')"
    by (auto split: option.splits)
  have step': "byte_step bad lo hi collect b rd s = (None, rd1, s1)"
    using step \<open>e = None\<close> by simp
  note wf = byte_step_wf [OF Cons.prems(1) step'] and flat = byte_step_flat [OF Cons.prems(1) step']
  have "concat (map write_frame s') @ pending_bytes rd' =
      (concat (map write_frame s1) @ pending_bytes rd1) @ bs"
    using Cons.IH [OF wf run] by (simp only: append_assoc)
  then show ?case by (simp only: flat append_assoc append_Cons append_Nil)
qed simp

theorem receive_complete:
  assumes "receive_stream bad truncated lo hi collect cs None [] = (None, ps)"
  shows "concat cs = concat (map write_frame ps)"
proof -
  obtain e rd s' where run: "byte_run bad lo hi collect (concat cs) reader_init [] = (e, rd, s')"
    by (metis prod_cases3)
  have rd: "e = None" "s' = ps" "rd_header rd = []" "rd_packet rd = None"
    using assms run
    by (cases "rd_packet rd";
        auto simp: receive_stream_def receive_chunks_eq split: option.splits if_splits)+
  from byte_run_flat [OF reader_init_wf run [unfolded rd(1,2)]] rd show ?thesis
    by (simp add: pending_bytes_def reader_init_def)
qed

end

end
