(* ===== verification/Framing.thy ===== *)
theory Framing
  imports Length_Prefix
begin

text \<open>
  The peer protocol framing of \<open>src/vpn/framing.ts\<close>: packets of 20 to 1400 bytes over an
  authenticated stream, one write at a time, each delivery awaited before the next read.
  The sender is a small state machine because a write may have to wait for the stream to drain.
\<close>

section \<open>Sending\<close>

definition framing_MTU :: nat where "framing_MTU = 1400"

text \<open>
  \<open>snd_written\<close> is everything handed to \<open>writable.write\<close>; \<open>snd_waiting\<close> holds while the
  promise of a write that was not accepted at once is pending.
\<close>

record sender =
  snd_writing :: bool
  snd_waiting :: bool
  snd_destroyed :: bool
  snd_written :: bytes

definition sender_init :: sender where
  "sender_init = \<lparr>snd_writing = False, snd_waiting = False, snd_destroyed = False, snd_written = []\<rparr>"

datatype send_result = Sent | Waiting | Failed error

text \<open>
  The synchronous part of \<open>send\<close>.  \<open>accepted\<close> is what \<open>writable.write\<close> returns, and
  \<open>destroyed_after\<close> whether the stream is destroyed once the listeners are in place.
\<close>

definition frame_send :: "bytes \<Rightarrow> bool \<Rightarrow> bool \<Rightarrow> sender \<Rightarrow> send_result \<times> sender" where
  "frame_send p accepted destroyed_after st =
     (if length p < 20 \<or> length p > framing_MTU then (Failed ''invalid VPN packet length'', st)
      else if snd_writing st then (Failed ''concurrent VPN packet writes are not supported'', st)
      else if snd_destroyed st then (Failed ''VPN stream is closed'', st)
      else
        let st1 = st\<lparr>snd_writing := True, snd_written := snd_written st @ write_frame p\<rparr> in
        if accepted then (Sent, st1\<lparr>snd_writing := False\<rparr>)
        else if destroyed_after then
          (Failed ''VPN stream closed during write'', st1\<lparr>snd_writing := False\<rparr>)
        else (Waiting, st1\<lparr>snd_waiting := True\<rparr>))"

text \<open>The three listeners; each settles the promise once and the \<open>finally\<close> block follows.\<close>

datatype stream_event = Drain | Close | Stream_error error

definition frame_event :: "stream_event \<Rightarrow> sender \<Rightarrow> send_result option \<times> sender" where
  "frame_event ev st =
     (let st0 = (case ev of Drain \<Rightarrow> st | _ \<Rightarrow> st\<lparr>snd_destroyed := True\<rparr>) in
      if \<not> snd_waiting st then (None, st0)
      else
        let st1 = st0\<lparr>snd_waiting := False, snd_writing := False\<rparr> in
        (case ev of
           Drain \<Rightarrow> (Some Sent, st1)
         | Close \<Rightarrow> (Some (Failed ''VPN stream closed during write''), st1)
         | Stream_error e \<Rightarrow> (Some (Failed e), st1)))"

datatype send_step = Send bytes bool bool | Event stream_event

fun send_run :: "send_step list \<Rightarrow> sender \<Rightarrow> sender" where
  "send_run [] st = st"
| "send_run (Send p a d # steps) st = send_run steps (snd (frame_send p a d st))"
| "send_run (Event ev # steps) st = send_run steps (snd (frame_event ev st))"

definition whole_packets :: "bytes \<Rightarrow> bool" where
  "whole_packets bs \<longleftrightarrow>
     (\<exists>ps. bs = concat (map write_frame ps) \<and>
           (\<forall>p \<in> set ps. 20 \<le> length p \<and> length p \<le> framing_MTU))"

lemma whole_packets_append:
  assumes "whole_packets bs" and "20 \<le> length p" and "length p \<le> framing_MTU"
  shows "whole_packets (bs @ write_frame p)"
proof -
  obtain ps where "bs = concat (map write_frame ps)"
    "\<forall>p \<in> set ps. 20 \<le> length p \<and> length p \<le> framing_MTU"
    using assms(1) by (auto simp: whole_packets_def)
  with assms(2,3) show ?thesis
    unfolding whole_packets_def by (intro exI [of _ "ps @ [p]"]) auto
qed

definition sender_inv :: "sender \<Rightarrow> bool" where
  "sender_inv st \<longleftrightarrow> (snd_writing st \<longleftrightarrow> snd_waiting st) \<and> whole_packets (snd_written st)"

lemma sender_inv_init [inv_intros]: "sender_inv sender_init"
  by (auto simp: sender_inv_def sender_init_def whole_packets_def intro!: exI [of _ "[]"])

lemma frame_send_inv: "sender_inv st \<Longrightarrow> sender_inv (snd (frame_send p a d st))"
  by (auto simp: sender_inv_def frame_send_def Let_def intro: whole_packets_append)

lemma frame_event_inv: "sender_inv st \<Longrightarrow> sender_inv (snd (frame_event ev st))"
  by (auto simp: sender_inv_def frame_event_def Let_def split: stream_event.splits)

lemma send_run_inv: "sender_inv st \<Longrightarrow> sender_inv (send_run steps st)"
  by (induction steps st rule: send_run.induct) (auto intro: frame_send_inv frame_event_inv)

section \<open>Receiving\<close>

text \<open>
  \<open>receive\<close> returns the error it throws, the state of the callback and whether it destroyed the
  streams, which the \<open>catch\<close> block does for every error.
\<close>

definition frame_receive ::
  "'s deliver \<Rightarrow> bytes list \<Rightarrow> error option \<Rightarrow> 's \<Rightarrow> error option \<times> 's \<times> bool" where
  "frame_receive dl chunks ended s =
     (let (e, s') = receive_stream ''invalid VPN frame length'' ''truncated VPN frame'' 20 framing_MTU
                      dl chunks ended s
      in (e, s', e \<noteq> None))"

interpretation vpn: framed_stream "''invalid VPN frame length''" "''truncated VPN frame''" 20 framing_MTU
  by unfold_locales (simp_all add: framing_MTU_def)

end
