(* ===== verification/Worklet_Framing.thy ===== *)
theory Worklet_Framing
  imports Length_Prefix
begin

text \<open>
  The provider/worklet IPC of \<open>src/vpn/worklet-framing.ts\<close>: frames of a kind byte and a payload,
  a bounded queue of writes (32 messages and one best-effort diagnostic), and the reading side.
  The promise chain \<open>writeTail\<close> is a queue of tasks; the front task is the one being written,
  and its settling is one step.
\<close>

definition IPC_CONTROL :: byte where "IPC_CONTROL = 1"
definition IPC_PACKET :: byte where "IPC_PACKET = 2"
definition IPC_MAX_FRAME :: nat where "IPC_MAX_FRAME = 32768"

section \<open>Writing\<close>

datatype ipc_task = Message bytes | Diagnostic bytes

record ipc =
  ipc_queue :: "ipc_task list"
  ipc_pending :: nat
  ipc_diagnosticPending :: bool
  ipc_destroyed :: bool
  ipc_output :: bytes

definition ipc_init :: ipc where
  "ipc_init = \<lparr>ipc_queue = [], ipc_pending = 0, ipc_diagnosticPending = False,
               ipc_destroyed = False, ipc_output = []\<rparr>"

definition ipc_frame :: "byte \<Rightarrow> bytes \<Rightarrow> bytes" where
  "ipc_frame kind payload = writeUInt16BE (length payload + 1) @ [kind] @ payload"

definition ipc_send :: "nat \<Rightarrow> bytes \<Rightarrow> ipc \<Rightarrow> error option \<times> ipc" where
  "ipc_send kind payload st =
     (if (kind \<noteq> unat IPC_CONTROL \<and> kind \<noteq> unat IPC_PACKET) \<or> length payload + 1 > IPC_MAX_FRAME then
        (Some ''invalid IPC frame'', st)
      else if ipc_pending st \<ge> 32 then (Some ''IPC output is congested'', st)
      else (None, st\<lparr>ipc_pending := ipc_pending st + 1,
                     ipc_queue := ipc_queue st @ [Message (ipc_frame (of_nat kind) payload)]\<rparr>))"

definition ipc_sendDiagnostic :: "bytes \<Rightarrow> ipc \<Rightarrow> ipc" where
  "ipc_sendDiagnostic payload st =
     (if ipc_pending st \<noteq> 0 \<or> ipc_diagnosticPending st \<or> ipc_destroyed st \<or>
         length payload + 1 > IPC_MAX_FRAME then st
      else st\<lparr>ipc_diagnosticPending := True,
              ipc_queue := ipc_queue st @ [Diagnostic (ipc_frame IPC_CONTROL payload)]\<rparr>)"

text \<open>
  The front task runs: it writes unless the stream is destroyed, settles, and its \<open>finally\<close>
  handler frees its slot.  The result is the error with which its promise rejects, if any; that
  of a diagnostic is discarded.
\<close>

definition task_bytes :: "ipc_task \<Rightarrow> bytes" where
  "task_bytes t = (case t of Message b \<Rightarrow> b | Diagnostic b \<Rightarrow> b)"

datatype write_outcome = Accepted | Drained | Closed | Errored error

definition ipc_write :: "bytes \<Rightarrow> write_outcome \<Rightarrow> ipc \<Rightarrow> error option \<times> ipc" where
  "ipc_write frame outcome st =
     (if ipc_destroyed st then (Some ''IPC is closed'', st)
      else
        (case outcome of
           Closed \<Rightarrow> Some ''IPC is closed''
         | Errored e \<Rightarrow> Some e
         | _ \<Rightarrow> None,
         st\<lparr>ipc_output := ipc_output st @ frame\<rparr>))"

definition ipc_settle :: "write_outcome \<Rightarrow> ipc \<Rightarrow> error option \<times> ipc" where
  "ipc_settle outcome st =
     (case ipc_queue st of
        [] \<Rightarrow> (None, st)
      | t # rest \<Rightarrow>
          let (e, st1) = ipc_write (task_bytes t) outcome st; st2 = st1\<lparr>ipc_queue := rest\<rparr> in
          (case t of
             Message _ \<Rightarrow> (e, st2\<lparr>ipc_pending := ipc_pending st2 - 1\<rparr>)
           | Diagnostic _ \<Rightarrow> (None, st2\<lparr>ipc_diagnosticPending := False\<rparr>)))"

datatype ipc_event = Ipc_send nat bytes | Ipc_diagnostic bytes | Ipc_settle write_outcome | Ipc_destroy

fun ipc_step :: "ipc_event \<Rightarrow> ipc \<Rightarrow> ipc" where
  "ipc_step (Ipc_send k p) st = snd (ipc_send k p st)"
| "ipc_step (Ipc_diagnostic p) st = ipc_sendDiagnostic p st"
| "ipc_step (Ipc_settle c) st = snd (ipc_settle c st)"
| "ipc_step Ipc_destroy st = st\<lparr>ipc_destroyed := True\<rparr>"

fun ipc_run :: "ipc_event list \<Rightarrow> ipc \<Rightarrow> ipc" where
  "ipc_run [] st = st"
| "ipc_run (x # xs) st = ipc_run xs (ipc_step x st)"

section \<open>The queue\<close>

definition is_message :: "ipc_task \<Rightarrow> bool" where
  "is_message t = (case t of Message _ \<Rightarrow> True | Diagnostic _ \<Rightarrow> False)"

lemma is_message_simps [simp]: "is_message (Message b)" "\<not> is_message (Diagnostic b)"
  by (simp_all add: is_message_def)

definition valid_ipc_frame :: "bytes \<Rightarrow> bool" where
  "valid_ipc_frame b \<longleftrightarrow>
     (\<exists>kind payload. b = ipc_frame kind payload \<and> (kind = IPC_CONTROL \<or> kind = IPC_PACKET) \<and>
        length payload + 1 \<le> IPC_MAX_FRAME)"

lemma valid_ipc_frameI:
  "kind = IPC_CONTROL \<or> kind = IPC_PACKET \<Longrightarrow> length payload + 1 \<le> IPC_MAX_FRAME \<Longrightarrow>
   valid_ipc_frame (ipc_frame kind payload)"
  unfolding valid_ipc_frame_def by blast

lemma task_bytes_simps [simp]: "task_bytes (Message b) = b" "task_bytes (Diagnostic b) = b"
  by (simp_all add: task_bytes_def)

definition ipc_inv :: "ipc \<Rightarrow> bool" where
  "ipc_inv st \<longleftrightarrow>
     ipc_pending st = length (filter is_message (ipc_queue st)) \<and> ipc_pending st \<le> 32 \<and>
     length (filter (Not \<circ> is_message) (ipc_queue st)) = (if ipc_diagnosticPending st then 1 else 0) \<and>
     (\<forall>t \<in> set (ipc_queue st). valid_ipc_frame (task_bytes t)) \<and>
     (\<exists>fs. ipc_output st = concat fs \<and> (\<forall>f \<in> set fs. valid_ipc_frame f))"

lemma ipc_inv_init [inv_intros]: "ipc_inv ipc_init"
  by (auto simp: ipc_inv_def ipc_init_def intro!: exI [of _ "[]"])

lemma kind_byte:
  "k = unat IPC_CONTROL \<or> k = unat IPC_PACKET \<Longrightarrow> of_nat k = IPC_CONTROL \<or> of_nat k = IPC_PACKET"
  by (auto simp: IPC_CONTROL_def IPC_PACKET_def)

lemma ipc_send_inv: "ipc_inv st \<Longrightarrow> ipc_inv (snd (ipc_send k p st))"
  using kind_byte [of k]
  by (auto simp: ipc_inv_def ipc_send_def intro: valid_ipc_frameI)

lemma ipc_sendDiagnostic_inv: "ipc_inv st \<Longrightarrow> ipc_inv (ipc_sendDiagnostic p st)"
  by (auto simp: ipc_inv_def ipc_sendDiagnostic_def intro: valid_ipc_frameI)

lemma concat_snoc_all:
  "\<exists>fs. bs = concat fs \<and> (\<forall>f \<in> set fs. P f) \<Longrightarrow> P x \<Longrightarrow>
   \<exists>fs. bs @ x = concat fs \<and> (\<forall>f \<in> set fs. P f)"
proof -
  assume "\<exists>fs. bs = concat fs \<and> (\<forall>f \<in> set fs. P f)" and "P x"
  then obtain fs where "bs = concat fs" "\<forall>f \<in> set fs. P f" by blast
  with \<open>P x\<close> show ?thesis by (intro exI [of _ "fs @ [x]"]) auto
qed

lemma ipc_settle_inv: "ipc_inv st \<Longrightarrow> ipc_inv (snd (ipc_settle c st))"
proof (cases "ipc_queue st")
  case (Cons t rest)
  assume inv: "ipc_inv st"
  with Cons have valid: "valid_ipc_frame (task_bytes t)" by (simp add: ipc_inv_def)
  have out: "\<exists>fs. ipc_output st @ task_bytes t = concat fs \<and> (\<forall>f \<in> set fs. valid_ipc_frame f)"
    using inv valid by (intro concat_snoc_all) (auto simp: ipc_inv_def)
  show ?thesis
    using inv Cons out
    by (cases t) (auto simp: ipc_inv_def ipc_settle_def ipc_write_def Let_def split: if_splits)
qed (simp add: ipc_settle_def)

lemma ipc_step_inv: "ipc_inv st \<Longrightarrow> ipc_inv (ipc_step x st)"
  by (cases x) (auto simp: ipc_send_inv ipc_sendDiagnostic_inv ipc_settle_inv, simp add: ipc_inv_def)

lemma ipc_run_inv: "ipc_inv st \<Longrightarrow> ipc_inv (ipc_run xs st)"
  by (induction xs st rule: ipc_run.induct) (auto intro: ipc_step_inv)

section \<open>Reading\<close>

definition ipc_deliver :: "(nat \<Rightarrow> bytes \<Rightarrow> 's \<Rightarrow> error option \<times> 's) \<Rightarrow> 's deliver" where
  "ipc_deliver dl frame s =
     (if byte_at frame 0 \<noteq> unat IPC_CONTROL \<and> byte_at frame 0 \<noteq> unat IPC_PACKET then
        (Some ''unknown IPC frame kind'', s)
      else dl (byte_at frame 0) (drop 1 frame) s)"

definition ipc_receive ::
  "(nat \<Rightarrow> bytes \<Rightarrow> 's \<Rightarrow> error option \<times> 's) \<Rightarrow> bytes list \<Rightarrow> error option \<Rightarrow> 's \<Rightarrow>
   error option \<times> 's" where
  "ipc_receive dl chunks ended s =
     receive_stream ''invalid IPC frame length'' ''truncated IPC frame'' 1 IPC_MAX_FRAME
       (ipc_deliver dl) chunks ended s"

interpretation ipc: framed_stream "''invalid IPC frame length''" "''truncated IPC frame''" 1 IPC_MAX_FRAME
  by unfold_locales (simp_all add: IPC_MAX_FRAME_def)

lemma ipc_frame_write_frame: "ipc_frame k p = write_frame (k # p)"
  by (simp add: ipc_frame_def write_frame_def)

text \<open>The callback applied to a list of messages, stopping at the first error.\<close>

fun deliver_messages ::
  "(nat \<Rightarrow> bytes \<Rightarrow> 's \<Rightarrow> error option \<times> 's) \<Rightarrow> (byte \<times> bytes) list \<Rightarrow> 's \<Rightarrow> error option \<times> 's" where
  "deliver_messages dl [] s = (None, s)"
| "deliver_messages dl ((k, p) # ms) s =
     (case dl (unat k) p s of (Some e, s') \<Rightarrow> (Some e, s') | (None, s') \<Rightarrow> deliver_messages dl ms s')"

lemma deliver_all_messages:
  "\<forall>(k, p) \<in> set ms. k = IPC_CONTROL \<or> k = IPC_PACKET \<Longrightarrow>
   deliver_all (ipc_deliver dl) (map (\<lambda>(k, p). k # p) ms) s = deliver_messages dl ms s"
  by (induction dl ms s rule: deliver_messages.induct)
     (auto simp: ipc_deliver_def byte_at_def split: prod.splits option.splits)

end
