(* ===== verification/Framing_Properties.thy ===== *)
theory Framing_Properties
  imports Framing Worklet_Framing
begin

text \<open>
  What the two framings guarantee: reading inverts writing whatever the chunks, a clean end of
  the stream accounts for every byte, and whatever the two senders put on a stream is a sequence
  of whole frames that the receiver accepts.
\<close>

section \<open>The peer protocol\<close>

lemma frame_receive_roundtrip:
  assumes "\<forall>p \<in> set ps. 20 \<le> length p \<and> length p \<le> framing_MTU"
    and "concat chunks = concat (map write_frame ps)"
  shows "frame_receive dl chunks None s = (let (e, s') = deliver_all dl ps s in (e, s', e \<noteq> None))"
  using vpn.receive_frames [OF assms, of dl s] by (simp add: frame_receive_def)

text \<open>
  C34: packets of 20 to 1400 bytes written one after the other are handed to the callback one by
  one, unchanged and in order, however the stream cuts them into chunks; the first error the
  callback throws ends the call, and only an error destroys the streams.
\<close>

theorem framing_roundtrip:
  assumes "\<forall>p \<in> set ps. 20 \<le> length p \<and> length p \<le> 1400"
    and "concat chunks = concat (map write_frame ps)"
  shows "frame_receive dl chunks None s = (let (e, s') = deliver_all dl ps s in (e, s', e \<noteq> None))"
  using assms by (intro frame_receive_roundtrip) (auto simp: framing_MTU_def)

theorem framing_roundtrip_witness:
  "frame_receive collect [[0], [20] @ replicate 20 7 @ [0], [21], replicate 21 9] None [] =
     (let (e, s') = deliver_all collect [replicate 20 7, replicate 21 9] [] in (e, s', e \<noteq> None))"
  by (rule framing_roundtrip) (simp_all add: write_frame_def writeUInt16BE_def)

text \<open>
  the outcome of reading a stream, errors included, depends on its bytes only and not on the
  chunks they arrive in.
\<close>

theorem framing_chunk_independent:
  "frame_receive dl chunks ended s = frame_receive dl [concat chunks] ended s"
  using vpn.receive_stream_concat [of dl chunks ended s] by (simp add: frame_receive_def)

text \<open>
  when a stream ends without an error, the packets delivered account for every byte of it:
  none was dropped, added or left over.
\<close>

theorem framing_complete:
  assumes "frame_receive collect chunks None [] = (None, ps, destroyed)"
  shows "concat chunks = concat (map write_frame ps) \<and> \<not> destroyed"
  using assms vpn.receive_complete [of chunks ps]
  by (auto simp: frame_receive_def Let_def split: prod.splits)

theorem framing_complete_witness:
  "concat [[0, 20] @ replicate 20 3] = concat (map write_frame [replicate 20 3 :: bytes]) \<and> \<not> False"
proof (rule framing_complete)
  show "frame_receive collect [[0, 20] @ replicate 20 3] None [] = (None, [replicate 20 3], False)"
    using frame_receive_roundtrip [of "[replicate 20 3]" "[[0, 20] @ replicate 20 3]" collect "[]"]
    by (simp add: framing_MTU_def write_frame_def writeUInt16BE_def collect_def)
qed

text \<open>
  whatever calls of \<open>send\<close> and stream events happen in whatever order, at most one write is in
  flight and a receiver of the bytes written so far, in any chunks, gets whole packets and no error.
\<close>

theorem sent_stream_received:
  assumes "concat chunks = snd_written (send_run steps sender_init)"
  shows "(snd_writing (send_run steps sender_init) \<longleftrightarrow> snd_waiting (send_run steps sender_init)) \<and>
    (\<exists>ps. snd_written (send_run steps sender_init) = concat (map write_frame ps) \<and>
          frame_receive collect chunks None [] = (None, ps, False))"
proof -
  have inv: "sender_inv (send_run steps sender_init)"
    by (intro send_run_inv inv_intros)
  then obtain ps where ps: "snd_written (send_run steps sender_init) = concat (map write_frame ps)"
    "\<forall>p \<in> set ps. 20 \<le> length p \<and> length p \<le> framing_MTU"
    by (auto simp: sender_inv_def whole_packets_def)
  have "frame_receive collect chunks None [] = (None, ps, False)"
    using frame_receive_roundtrip [OF ps(2), of chunks collect "[]"] assms ps(1)
    by (simp add: deliver_all_collect)
  with inv ps(1) show ?thesis by (auto simp: sender_inv_def)
qed

theorem sent_stream_received_witness:
  "let st = send_run [Send (replicate 20 5) False False, Send (replicate 20 6) True False, Event Drain] sender_init
   in (snd_writing st \<longleftrightarrow> snd_waiting st) \<and>
      (\<exists>ps. snd_written st = concat (map write_frame ps) \<and>
            frame_receive collect [write_frame (replicate 20 5)] None [] = (None, ps, False))"
  unfolding Let_def
  by (rule sent_stream_received)
     (simp add: frame_send_def frame_event_def sender_init_def framing_MTU_def)

section \<open>The worklet IPC\<close>

lemma valid_messages:
  assumes "\<forall>f \<in> set fs. valid_ipc_frame f"
  obtains ms where "fs = map (\<lambda>(k, p). ipc_frame k p) ms"
    and "\<forall>(k, p) \<in> set ms. (k = IPC_CONTROL \<or> k = IPC_PACKET) \<and> length p + 1 \<le> IPC_MAX_FRAME"
proof -
  have "\<exists>ms. fs = map (\<lambda>(k, p). ipc_frame k p) ms \<and>
      (\<forall>(k, p) \<in> set ms. (k = IPC_CONTROL \<or> k = IPC_PACKET) \<and> length p + 1 \<le> IPC_MAX_FRAME)"
    using assms
  proof (induction fs)
    case (Cons f fs)
    then obtain ms k p where "fs = map (\<lambda>(k, p). ipc_frame k p) ms" "f = ipc_frame k p"
      "k = IPC_CONTROL \<or> k = IPC_PACKET" "length p + 1 \<le> IPC_MAX_FRAME"
      "\<forall>(k, p) \<in> set ms. (k = IPC_CONTROL \<or> k = IPC_PACKET) \<and> length p + 1 \<le> IPC_MAX_FRAME"
      by (auto simp: valid_ipc_frame_def)
    then show ?case by (intro exI [of _ "(k, p) # ms"]) auto
  qed simp
  with that show ?thesis by blast
qed

lemma ipc_receive_messages:
  assumes ms: "\<forall>(k, p) \<in> set ms. (k = IPC_CONTROL \<or> k = IPC_PACKET) \<and> length p + 1 \<le> IPC_MAX_FRAME"
    and chunks: "concat chunks = concat (map (\<lambda>(k, p). ipc_frame k p) ms)"
  shows "ipc_receive dl chunks None s = deliver_messages dl ms s"
proof -
  let ?ps = "map (\<lambda>(k, p). k # p) ms"
  have "map (\<lambda>(k, p). ipc_frame k p) ms = map write_frame ?ps"
    by (auto simp: ipc_frame_write_frame)
  with ipc.receive_frames [of ?ps chunks "ipc_deliver dl" s] ms chunks
  have "ipc_receive dl chunks None s = deliver_all (ipc_deliver dl) ?ps s"
    by (fastforce simp: ipc_receive_def)
  also have "\<dots> = deliver_messages dl ms s"
    using ms by (intro deliver_all_messages) auto
  finally show ?thesis .
qed

text \<open>
  control messages and packets of at most 32767 bytes, framed for the IPC stream, reach the
  callback with their kind and payload, in order and for every chunking.
\<close>

theorem ipc_roundtrip:
  assumes "\<forall>(k, p) \<in> set ms. (k = IPC_CONTROL \<or> k = IPC_PACKET) \<and> length p + 1 \<le> IPC_MAX_FRAME"
    and "concat chunks = concat (map (\<lambda>(k, p). ipc_frame k p) ms)"
  shows "ipc_receive dl chunks None s = deliver_messages dl ms s"
  using assms by (rule ipc_receive_messages)

theorem ipc_roundtrip_witness:
  "ipc_receive (\<lambda>k p s. (None, s + k * length p)) [[0], [3, 1, 65], [66, 0, 1, 2]] None 0 =
   deliver_messages (\<lambda>k p s. (None, s + k * length p)) [(1, [65, 66]), (2, [])] 0"
  by (rule ipc_roundtrip)
     (simp_all add: IPC_CONTROL_def IPC_PACKET_def IPC_MAX_FRAME_def ipc_frame_def writeUInt16BE_def)

text \<open>
  in every state the IPC writer can reach, at most 32 messages and one diagnostic are queued,
  the counter is the number of queued messages, and the output is a sequence of whole frames that
  the reader accepts without an error.
\<close>

theorem ipc_writer_bounded:
  assumes "concat chunks = ipc_output (ipc_run xs ipc_init)"
  shows "length (ipc_queue (ipc_run xs ipc_init)) \<le> 33 \<and>
    ipc_pending (ipc_run xs ipc_init) = length (filter is_message (ipc_queue (ipc_run xs ipc_init))) \<and>
    ipc_pending (ipc_run xs ipc_init) \<le> 32 \<and>
    (\<exists>ms. ipc_receive (\<lambda>k p s. (None, s @ [(k, p)])) chunks None [] = (None, ms))"
proof -
  let ?st = "ipc_run xs ipc_init"
  have inv: "ipc_inv ?st" by (intro ipc_run_inv inv_intros)
  then obtain fs where fs: "ipc_output ?st = concat fs" "\<forall>f \<in> set fs. valid_ipc_frame f"
    by (auto simp: ipc_inv_def)
  obtain ms where ms: "fs = map (\<lambda>(k, p). ipc_frame k p) ms"
    "\<forall>(k, p) \<in> set ms. (k = IPC_CONTROL \<or> k = IPC_PACKET) \<and> length p + 1 \<le> IPC_MAX_FRAME"
    using fs(2) by (rule valid_messages)
  have all: "deliver_messages (\<lambda>k p s. (None, s @ [(k, p)])) ms s =
      (None, s @ map (\<lambda>(k, p). (unat k, p)) ms)" for s
    by (induction ms arbitrary: s) auto
  have "ipc_receive (\<lambda>k p s. (None, s @ [(k, p)])) chunks None [] =
      deliver_messages (\<lambda>k p s. (None, s @ [(k, p)])) ms []"
    using assms fs(1) ms by (intro ipc_receive_messages) auto
  moreover have "length (filter is_message (ipc_queue ?st)) +
      length (filter (\<lambda>t. \<not> is_message t) (ipc_queue ?st)) = length (ipc_queue ?st)"
    by (rule sum_length_filter_compl)
  then have "length (ipc_queue ?st) \<le> 33"
    using inv by (auto simp: ipc_inv_def comp_def split: if_splits)
  ultimately show ?thesis using inv all by (simp add: ipc_inv_def)
qed

theorem ipc_writer_bounded_witness:
  "let st = ipc_run [Ipc_send 1 [65], Ipc_diagnostic [66], Ipc_send 3 [], Ipc_settle Drained] ipc_init
   in length (ipc_queue st) \<le> 33 \<and> ipc_pending st = length (filter is_message (ipc_queue st)) \<and>
      ipc_pending st \<le> 32 \<and>
      (\<exists>ms. ipc_receive (\<lambda>k p s. (None, s @ [(k, p)])) [[0, 2], [1, 65]] None [] = (None, ms))"
  unfolding Let_def
  by (rule ipc_writer_bounded)
     (simp add: ipc_send_def ipc_sendDiagnostic_def ipc_settle_def ipc_write_def ipc_init_def
       ipc_frame_def IPC_CONTROL_def IPC_PACKET_def IPC_MAX_FRAME_def writeUInt16BE_def)

end
