(* ===== verification/Checksum.thy ===== *)
theory Checksum
  imports Prelude
begin

text \<open>
  The Internet checksum of \<open>src/vpn/packet-policy.ts\<close> and the dotted form of an address in a
  packet.  The lemmas give the folding loop a closed form (the residue modulo 65535, with 0 only
  for 0) and show that the sum of a buffer changes when any one of its bytes does.
\<close>

section \<open>The code\<close>

fun sum16 :: "bytes \<Rightarrow> nat \<Rightarrow> nat" where
  "sum16 [] s = s"
| "sum16 [a] s = s + 256 * unat a"
| "sum16 (a # b # bs) s = sum16 bs (s + (256 * unat a + unat b))"

text \<open>
  The folding loop.  \<open>sum >>> 16\<close> reads the number modulo \<open>2 ^ 32\<close> before shifting.
\<close>

function fold16 :: "nat \<Rightarrow> nat" where
  "fold16 s = (if (s mod 2 ^ 32) div 65536 \<noteq> 0 then fold16 (s mod 65536 + (s mod 2 ^ 32) div 65536) else s)"
  by pat_completeness auto

lemma fold16_decreases:
  fixes s :: nat
  assumes "(s mod 2 ^ 32) div 65536 \<noteq> 0"
  shows "s mod 65536 + (s mod 2 ^ 32) div 65536 < s"
proof -
  have "(s mod 2 ^ 32) mod 65536 = s mod 65536"
    by (rule mod_mod_cancel) simp
  moreover have "(s mod 2 ^ 32) mod 65536 + 65536 * ((s mod 2 ^ 32) div 65536) = s mod 2 ^ 32"
    by (rule mod_mult_div_eq)
  moreover have "s mod 2 ^ 32 \<le> s" by (rule mod_less_eq_dividend)
  ultimately show ?thesis using assms by linarith
qed

termination fold16
  by (relation "measure id") (use fold16_decreases in auto)

declare fold16.simps [simp del]

definition checksum :: "bytes \<Rightarrow> nat \<Rightarrow> nat" where
  "checksum bs initial = fold16 (sum16 bs initial) mod 65536"

definition address :: "bytes \<Rightarrow> nat \<Rightarrow> string" where
  "address bs offset = join ''.'' (map (\<lambda>b. show_nat (unat b)) (take 4 (drop offset bs)))"

lemmas checksum_eval [eval_simps] = checksum_def fold16.simps address_def

section \<open>The sum of a buffer\<close>

fun word_sum :: "bytes \<Rightarrow> nat" where
  "word_sum [] = 0"
| "word_sum [a] = 256 * unat a"
| "word_sum (a # b # bs) = 256 * unat a + unat b + word_sum bs"

lemma unat_byte_le [simp]: "unat (a :: byte) \<le> 255"
  using unsigned_less [of a, where ?'a = nat] by simp

lemma sum16_word_sum: "sum16 bs s = s + word_sum bs"
  by (induction bs s rule: sum16.induct) auto

lemma word_sum_bound: "word_sum bs \<le> 65280 * length bs"
proof (induction bs rule: word_sum.induct)
  case 1
  then show ?case by simp
next
  case (2 a)
  show ?case using unat_byte_le [of a] by (simp del: unat_byte_le)
next
  case (3 a b bs)
  show ?case using "3" unat_byte_le [of a] unat_byte_le [of b] by (simp del: unat_byte_le)
qed

text \<open>The weight of a byte in the sum is 256 at even positions and 1 at odd ones.\<close>

lemma word_sum_update:
  "i < length bs \<Longrightarrow>
   word_sum (bs[i := b]) + (if even i then 256 else 1) * unat (bs ! i) =
   word_sum bs + (if even i then 256 else 1) * unat b"
proof (induction bs arbitrary: i rule: word_sum.induct)
  case 1
  then show ?case by simp
next
  case (2 a)
  then show ?case by simp
next
  case (3 a c bs)
  consider "i = 0" | "i = 1" | j where "i = Suc (Suc j)" "j < length bs"
    using "3.prems" by (metis One_nat_def Suc_less_eq length_Cons not0_implies_Suc)
  then show ?case
  proof cases
    case (3 j)
    then show ?thesis using "3.IH" [of j] by simp
  qed simp_all
qed

section \<open>The folding loop\<close>

definition ones_residue :: "nat \<Rightarrow> nat" where
  "ones_residue s = (if s = 0 then 0 else (s - 1) mod 65535 + 1)"

lemma mod_pred_eq:
  fixes r s m :: nat
  assumes "r mod m = s mod m" and "0 < r" and "0 < s"
  shows "(r - 1) mod m = (s - 1) mod m"
proof -
  obtain a b where "r + m * a = s + m * b"
    using assms(1) by (auto simp: nat_mod_eq_iff)
  with assms(2,3) have "(r - 1) + m * a = (s - 1) + m * b" by linarith
  then show ?thesis by (auto simp: nat_mod_eq_iff)
qed

lemma ones_residue_unique:
  assumes "r < 65536" and "r mod 65535 = s mod 65535" and "r = 0 \<longleftrightarrow> s = 0"
  shows "r = ones_residue s"
proof (cases "s = 0")
  case True
  with assms(3) show ?thesis by (simp add: ones_residue_def)
next
  case False
  with assms(3) have "r > 0" and s: "s > 0" by simp_all
  then have "r - 1 < 65535" using assms(1) by simp
  then have "(r - 1) mod 65535 = r - 1" by (rule mod_less)
  moreover have "(r - 1) mod 65535 = (s - 1) mod 65535"
    using assms(2) \<open>r > 0\<close> s by (rule mod_pred_eq)
  ultimately show ?thesis using \<open>r > 0\<close> s by (simp add: ones_residue_def)
qed

lemma fold16_step:
  fixes s :: nat
  shows "(s mod 65536 + s div 65536) mod 65535 = s mod 65535"
    and "s mod 65536 + s div 65536 = 0 \<longleftrightarrow> s = 0"
proof -
  have s: "s = (s mod 65536 + s div 65536) + 65535 * (s div 65536)"
    using mod_mult_div_eq [of s 65536] by linarith
  show "(s mod 65536 + s div 65536) mod 65535 = s mod 65535"
    using arg_cong [OF s, of "\<lambda>x. x mod 65535"] mod_mult_self2 [of "s mod 65536 + s div 65536" 65535 "s div 65536"]
    by (rule trans [THEN sym, OF _ _])
  show "s mod 65536 + s div 65536 = 0 \<longleftrightarrow> s = 0"
    using s by linarith
qed

lemma fold16_spec:
  "s < 2 ^ 32 \<Longrightarrow> fold16 s < 65536 \<and> fold16 s mod 65535 = s mod 65535 \<and> (fold16 s = 0 \<longleftrightarrow> s = 0)"
proof (induction s rule: fold16.induct)
  case (1 s)
  then have s: "s mod 2 ^ 32 = s" by simp
  let ?t = "s mod 65536 + s div 65536"
  show ?case
  proof (cases "s div 65536 = 0")
    case True
    with s show ?thesis by (simp add: fold16.simps [of s])
  next
    case False
    have "?t < s" using fold16_decreases [of s] False s by simp
    then have "?t < 2 ^ 32" using "1.prems" by linarith
    then have "fold16 ?t < 65536 \<and> fold16 ?t mod 65535 = ?t mod 65535 \<and> (fold16 ?t = 0 \<longleftrightarrow> ?t = 0)"
      using "1.IH" False s by simp
    then have "fold16 ?t < 65536 \<and> fold16 ?t mod 65535 = s mod 65535 \<and> (fold16 ?t = 0 \<longleftrightarrow> s = 0)"
      unfolding fold16_step [of s] .
    moreover have "fold16 s = fold16 ?t"
      using False s by (subst fold16.simps) simp
    ultimately show ?thesis by simp
  qed
qed

lemma fold16_ones_residue: "s < 2 ^ 32 \<Longrightarrow> fold16 s = ones_residue s"
  using fold16_spec [of s] by (intro ones_residue_unique) auto

lemma ones_residue_less: "ones_residue s < 65536"
proof -
  have "(s - 1) mod 65535 < 65535" by simp
  then show ?thesis unfolding ones_residue_def by simp
qed

text \<open>The optimised loop computes the ones' complement sum of the 16-bit words.\<close>

lemma checksum_eq:
  assumes "length bs \<le> 65536" and "initial < 65536"
  shows "checksum bs initial = ones_residue (initial + word_sum bs)"
proof -
  have "initial + word_sum bs < 2 ^ 32"
    using word_sum_bound [of bs] assms by simp
  then show ?thesis
    using ones_residue_less [of "initial + word_sum bs"]
    by (simp add: checksum_def sum16_word_sum fold16_ones_residue)
qed

lemma ones_residue_full: "ones_residue s = 65535 \<longleftrightarrow> 0 < s \<and> s mod 65535 = 0"
proof (cases "s = 0")
  case False
  then have "(s - 1) mod 65535 = 65534 \<longleftrightarrow> s mod 65535 = 0"
    using mod_Suc [of "s - 1" 65535] by (simp split: if_splits)
  with False show ?thesis by (simp add: ones_residue_def)
qed (simp add: ones_residue_def)

lemma checksum_less: "checksum bs initial < 65536"
  by (simp add: checksum_def)

lemma residue_near:
  fixes m n :: nat
  assumes "m mod 65535 = 0" and "n mod 65535 = 0" and "m < n + 65535" and "n < m + 65535"
  shows "m = n"
proof -
  from assms(1,2) obtain a b where "m = 65535 * a" and "n = 65535 * b"
    by (auto elim!: dvdE simp flip: dvd_eq_mod_eq_0)
  with assms(3,4) show ?thesis by simp
qed

lemma corrupted_checksum:
  assumes len: "length bs \<le> 65536" and init: "initial < 65536" and i: "i < length bs"
    and ok: "checksum bs initial = 65535" and b: "bs ! i \<noteq> b"
  shows "checksum (bs[i := b]) initial \<noteq> 65535"
proof
  assume bad: "checksum (bs[i := b]) initial = 65535"
  let ?w = "if even i then 256 else 1 :: nat"
  define x y where "x = ?w * unat (bs ! i)" and "y = ?w * unat b"
  have eq: "word_sum (bs[i := b]) + x = word_sum bs + y"
    unfolding x_def y_def using i by (rule word_sum_update)
  have x: "x < 65535" and y: "y < 65535"
    using unat_byte_le [of "bs ! i"] unat_byte_le [of b]
    by (auto simp: x_def y_def simp del: unat_byte_le)
  have "(initial + word_sum bs) mod 65535 = 0"
    using ok len init by (simp add: checksum_eq ones_residue_full)
  moreover have "(initial + word_sum (bs[i := b])) mod 65535 = 0"
    using bad len init by (simp add: checksum_eq ones_residue_full)
  moreover have "initial + word_sum bs < initial + word_sum (bs[i := b]) + 65535"
    and "initial + word_sum (bs[i := b]) < initial + word_sum bs + 65535"
    using eq x y by linarith+
  ultimately have "initial + word_sum bs = initial + word_sum (bs[i := b])"
    by (rule residue_near)
  with eq have "x = y" by linarith
  then have "unat (bs ! i) = unat b" by (auto simp: x_def y_def split: if_splits)
  with b show False by (simp add: word_unat_eq_iff)
qed

text \<open>Dotted addresses determine the four bytes they come from.\<close>

lemma address_bytes:
  assumes "address bs i = address cs j" and "i + 4 \<le> length bs" and "j + 4 \<le> length cs"
  shows "take 4 (drop i bs) = take 4 (drop j cs)"
proof -
  let ?f = "\<lambda>b :: byte. show_nat (unat b)"
  have "map ?f (take 4 (drop i bs)) = map ?f (take 4 (drop j cs))"
  proof (rule join_inj)
    show "join [CHR ''.''] (map ?f (take 4 (drop i bs))) = join [CHR ''.''] (map ?f (take 4 (drop j cs)))"
      using assms(1) by (simp add: address_def)
  qed (use assms in auto)
  moreover have "inj ?f"
    by (rule injI) (simp add: show_nat_inj word_unat_eq_iff)
  ultimately show ?thesis
    by (simp add: inj_map_eq_map)
qed

end
