(* ===== verification/Packet_Policy.thy ===== *)
theory Packet_Policy
  imports Acceptance Checksum
begin

text \<open>
  The IPv4 packet admission of \<open>src/vpn/packet-policy.ts\<close>: parsing and checksums, the table
  of TCP flows of one authenticated peer, and the handlers \<open>admit\<close> and \<open>admitIcmp\<close>.
  A packet is its list of bytes; sequence numbers are 32-bit words, so the source's
  \<open>>>> 0\<close> and \<open>| 0\<close> are the wrap-around and the signed reading of the word.
\<close>

section \<open>Constants, packets and checksums\<close>

definition VPN_MTU :: nat where "VPN_MTU = 1400"
definition MAX_FLOWS :: nat where "MAX_FLOWS = 4096"
definition HANDSHAKE_IDLE_MS :: int where "HANDSHAKE_IDLE_MS = 5 * 60000"
definition CLOSED_GRACE_MS :: int where "CLOSED_GRACE_MS = 60000"

datatype direction = In | Out

record packet =
  pk_source :: string
  pk_destination :: string
  pk_protocol :: nat
  pk_header :: nat
  pk_bytes :: bytes

text \<open>\<open>((value - target) | 0) >= 0\<close>: the signed reading of the wrapped difference.\<close>

definition reaches :: "u32 \<Rightarrow> u32 \<Rightarrow> bool" where
  "reaches value target \<longleftrightarrow> 0 \<le> sint (value - target)"

text \<open>\<open>readUInt16BE(6) & 0xbfff\<close>: the reserved flag, more-fragments and the offset.\<close>

definition fragment_bits :: "bytes \<Rightarrow> nat" where
  "fragment_bits bs = readUInt16BE bs 6 AND 49151"

definition ipv4 :: "bytes \<Rightarrow> packet option" where
  "ipv4 bs =
     (if length bs < 20 \<or> length bs > VPN_MTU \<or> byte_at bs 0 div 16 \<noteq> 4 then None
      else
        let header = (byte_at bs 0 mod 16) * 4 in
        if header \<noteq> 20 \<or> readUInt16BE bs 2 \<noteq> length bs \<or> byte_at bs 8 = 0 then None
        else if fragment_bits bs \<noteq> 0 \<or> checksum (take header bs) 0 \<noteq> 65535 then None
        else Some \<lparr>pk_source = address bs 12, pk_destination = address bs 16,
                   pk_protocol = byte_at bs 9, pk_header = header, pk_bytes = bs\<rparr>)"

definition tuple :: "nat \<Rightarrow> nat \<Rightarrow> string" where
  "tuple localPort remotePort = show_nat localPort @ '':'' @ show_nat remotePort"

section \<open>Flows and the policy object\<close>

record flow =
  fl_initiator :: direction
  fl_sequence :: u32
  fl_replied :: bool
  fl_established :: bool
  fl_responseSequence :: "u32 option"
  fl_finIn :: "u32 option"
  fl_finOut :: "u32 option"
  fl_ackIn :: "u32 option"
  fl_ackOut :: "u32 option"
  fl_closedAt :: "int option"
  fl_lastSeen :: int

record policy =
  localAddress :: string
  peerAddress :: string
  ports :: grant
  allowOutboundInitiation :: bool
  flows :: "(string, flow) js_map"
  closed_keys :: "string list"
  nextSweep :: int

definition new_policy :: "string \<Rightarrow> string \<Rightarrow> grant \<Rightarrow> bool \<Rightarrow> policy" where
  "new_policy local peer ps outbound =
     \<lparr>localAddress = local, peerAddress = peer, ports = ps, allowOutboundInitiation = outbound,
      flows = [], closed_keys = [], nextSweep = 0\<rparr>"

definition policy_clear :: "policy \<Rightarrow> policy" where
  "policy_clear p = p\<lparr>flows := [], closed_keys := []\<rparr>"

definition policy_remove :: "string \<Rightarrow> policy \<Rightarrow> policy" where
  "policy_remove key p =
     p\<lparr>flows := map_delete key (flows p), closed_keys := set_delete key (closed_keys p)\<rparr>"

definition granted :: "grant \<Rightarrow> nat \<Rightarrow> bool" where
  "granted g port = (case g of All_ports \<Rightarrow> True | Ports ps \<Rightarrow> port \<in> set ps)"

text \<open>The periodic sweep: iteration over the flow table, removing the expired ones.\<close>

definition expired :: "int \<Rightarrow> flow \<Rightarrow> bool" where
  "expired now f \<longleftrightarrow>
     (case fl_closedAt f of Some t \<Rightarrow> now - t \<ge> CLOSED_GRACE_MS | None \<Rightarrow> False) \<or>
     (\<not> fl_established f \<and> now - fl_lastSeen f \<ge> HANDSHAKE_IDLE_MS)"

fun sweep_loop :: "int \<Rightarrow> (string, flow) js_map \<Rightarrow> policy \<Rightarrow> policy" where
  "sweep_loop now [] p = p"
| "sweep_loop now ((key, f) # rest) p =
     sweep_loop now rest (if expired now f then policy_remove key p else p)"

definition sweep :: "int \<Rightarrow> policy \<Rightarrow> policy" where
  "sweep now p =
     (if now \<ge> nextSweep p then (sweep_loop now (flows p) p)\<lparr>nextSweep := now + 1000\<rparr> else p)"

section \<open>TCP segments\<close>

record segment =
  sg_sourcePort :: nat
  sg_destinationPort :: nat
  sg_syn :: bool
  sg_ack :: bool
  sg_rst :: bool
  sg_fin :: bool
  sg_seq :: u32
  sg_ackno :: u32
  sg_dataLength :: nat

definition tcp_offset :: "bytes \<Rightarrow> nat" where
  "tcp_offset tcp = (byte_at tcp 12 div 16) * 4"

text \<open>The pseudo header: both addresses, a zero, the protocol number and the TCP length.\<close>

definition pseudo_header :: "bytes \<Rightarrow> nat \<Rightarrow> bytes" where
  "pseudo_header bs tcp_length = take 8 (drop 12 bs) @ [0, 6] @ writeUInt16BE tcp_length"

definition tcp_segment :: "bytes \<Rightarrow> nat \<Rightarrow> segment option" where
  "tcp_segment bs header =
     (let tcp = drop header bs in
      if length tcp < 20 \<or> tcp_offset tcp < 20 \<or> tcp_offset tcp > length tcp then None
      else if checksum tcp (checksum (pseudo_header bs (length tcp)) 0) \<noteq> 65535 then None
      else
        let sourcePort = readUInt16BE tcp 0; destinationPort = readUInt16BE tcp 2;
            flags = byte_at tcp 13;
            syn = (flags AND 2 \<noteq> 0); ack = (flags AND 16 \<noteq> 0); rst = (flags AND 4 \<noteq> 0) in
        if sourcePort = 0 \<or> destinationPort = 0 then None
        else if syn \<and> (flags AND 5 \<noteq> 0 \<or> length tcp \<noteq> tcp_offset tcp) then None
        else Some \<lparr>sg_sourcePort = sourcePort, sg_destinationPort = destinationPort,
                   sg_syn = syn, sg_ack = ack, sg_rst = rst, sg_fin = (flags AND 1 \<noteq> 0),
                   sg_seq = readUInt32BE tcp 4, sg_ackno = readUInt32BE tcp 8,
                   sg_dataLength = length tcp - tcp_offset tcp\<rparr>)"

definition segment_key :: "direction \<Rightarrow> segment \<Rightarrow> string" where
  "segment_key d sg =
     (if d = Out then tuple (sg_sourcePort sg) (sg_destinationPort sg)
      else tuple (sg_destinationPort sg) (sg_sourcePort sg))"

section \<open>The flow table\<close>

text \<open>A segment of no tracked flow: only a pure SYN may open one.\<close>

definition new_flow :: "int \<Rightarrow> direction \<Rightarrow> segment \<Rightarrow> flow" where
  "new_flow now d sg =
     \<lparr>fl_initiator = d, fl_sequence = sg_seq sg, fl_replied = False, fl_established = False,
      fl_responseSequence = None, fl_finIn = None, fl_finOut = None, fl_ackIn = None,
      fl_ackOut = None, fl_closedAt = None, fl_lastSeen = now\<rparr>"

definition open_flow :: "int \<Rightarrow> direction \<Rightarrow> segment \<Rightarrow> string \<Rightarrow> policy \<Rightarrow> bool \<times> policy" where
  "open_flow now d sg key p =
     (if \<not> sg_syn sg \<or> sg_ack sg \<or> sg_rst sg then (False, p)
      else if d = Out \<and> \<not> allowOutboundInitiation p then (False, p)
      else if d = In \<and> \<not> granted (ports p) (sg_destinationPort sg) then (False, p)
      else if length (flows p) \<ge> MAX_FLOWS then
        (case closed_keys p of
           [] \<Rightarrow> (False, p)
         | oldest # _ \<Rightarrow>
             (let p1 = policy_remove oldest p
              in (True, p1\<lparr>flows := map_set key (new_flow now d sg) (flows p1)\<rparr>)))
      else (True, p\<lparr>flows := map_set key (new_flow now d sg) (flows p)\<rparr>))"

text \<open>
  What the handshake part of the handler does with a segment of a tracked flow: reject it,
  admit it and forget the flow, admit it and only refresh the flow, or go on with the
  (possibly updated) flow.
\<close>

datatype handshake = Reject | Forget | Refresh | Continue flow

definition response_next :: "flow \<Rightarrow> u32" where
  "response_next f = (case fl_responseSequence f of None \<Rightarrow> 0 | Some r \<Rightarrow> r + 1)"

definition handshake_step :: "direction \<Rightarrow> segment \<Rightarrow> flow \<Rightarrow> handshake" where
  "handshake_step d sg f =
     (if \<not> fl_replied f then
        if d = fl_initiator f then
          if \<not> sg_syn sg \<or> sg_ack sg \<or> sg_seq sg \<noteq> fl_sequence f then Reject else Continue f
        else if sg_rst sg \<and> sg_ack sg \<and> sg_ackno sg = fl_sequence f + 1 then Forget
        else if \<not> sg_syn sg \<or> \<not> sg_ack sg \<or> sg_ackno sg \<noteq> fl_sequence f + 1 then Reject
        else Continue (f\<lparr>fl_replied := True, fl_responseSequence := Some (sg_seq sg)\<rparr>)
      else if \<not> fl_established f then
        if d = fl_initiator f then
          if sg_syn sg \<and> \<not> sg_ack sg \<and> sg_seq sg = fl_sequence f then Refresh
          else if sg_rst sg \<and> \<not> sg_syn sg \<and> sg_seq sg = fl_sequence f + 1 \<and>
                  (\<not> sg_ack sg \<or> sg_ackno sg = response_next f) then Forget
          else if \<not> sg_ack sg \<or> sg_syn sg \<or> sg_seq sg \<noteq> fl_sequence f + 1 \<or>
                  sg_ackno sg \<noteq> response_next f then Reject
          else Continue (f\<lparr>fl_established := True\<rparr>)
        else if \<not> sg_syn sg \<or> \<not> sg_ack sg \<or> Some (sg_seq sg) \<noteq> fl_responseSequence f \<or>
                sg_ackno sg \<noteq> fl_sequence f + 1 then Reject
        else Continue f
      else if sg_syn sg \<and> \<not> sg_ack sg \<and> d \<noteq> fl_initiator f then Reject
      else Continue f)"

definition note_ack :: "direction \<Rightarrow> segment \<Rightarrow> flow \<Rightarrow> flow" where
  "note_ack d sg f =
     (if sg_ack sg \<and>
         (case (if d = In then fl_ackIn f else fl_ackOut f) of
            None \<Rightarrow> True | Some previous \<Rightarrow> reaches (sg_ackno sg) previous)
      then if d = In then f\<lparr>fl_ackIn := Some (sg_ackno sg)\<rparr>
           else f\<lparr>fl_ackOut := Some (sg_ackno sg)\<rparr>
      else f)"

definition fin_end :: "segment \<Rightarrow> u32" where
  "fin_end sg = sg_seq sg + of_nat (sg_dataLength sg) + 1"

definition note_fin :: "direction \<Rightarrow> segment \<Rightarrow> flow \<Rightarrow> flow" where
  "note_fin d sg f =
     (if \<not> sg_fin sg then f
      else if d = In then
        (case fl_finIn f of None \<Rightarrow> f\<lparr>fl_finIn := Some (fin_end sg)\<rparr> | Some _ \<Rightarrow> f)
      else
        (case fl_finOut f of None \<Rightarrow> f\<lparr>fl_finOut := Some (fin_end sg)\<rparr> | Some _ \<Rightarrow> f))"

text \<open>Both directions have sent a FIN that the other has acknowledged.\<close>

definition acknowledged :: "u32 option \<Rightarrow> u32 option \<Rightarrow> bool" where
  "acknowledged ack fin =
     (case (ack, fin) of (Some a, Some e) \<Rightarrow> reaches a e | _ \<Rightarrow> False)"

definition both_closed :: "flow \<Rightarrow> bool" where
  "both_closed f \<longleftrightarrow> acknowledged (fl_ackOut f) (fl_finIn f) \<and> acknowledged (fl_ackIn f) (fl_finOut f)"

text \<open>The rest of the handler for an admitted segment of a tracked flow.\<close>

definition finish_flow :: "int \<Rightarrow> direction \<Rightarrow> segment \<Rightarrow> string \<Rightarrow> flow \<Rightarrow> policy \<Rightarrow> policy" where
  "finish_flow now d sg key f p =
     (let f1 = f\<lparr>fl_lastSeen := now\<rparr> in
      if sg_rst sg then policy_remove key p
      else if \<not> fl_established f1 then p\<lparr>flows := map_set key f1 (flows p)\<rparr>
      else
        let f2 = note_fin d sg (note_ack d sg f1) in
        if fl_closedAt f2 = None \<and> both_closed f2 then
          p\<lparr>flows := map_set key (f2\<lparr>fl_closedAt := Some now\<rparr>) (flows p),
            closed_keys := set_add key (closed_keys p)\<rparr>
        else p\<lparr>flows := map_set key f2 (flows p)\<rparr>)"

definition tracked_segment ::
  "int \<Rightarrow> direction \<Rightarrow> segment \<Rightarrow> string \<Rightarrow> flow \<Rightarrow> policy \<Rightarrow> bool \<times> policy" where
  "tracked_segment now d sg key f p =
     (case handshake_step d sg f of
        Reject \<Rightarrow> (False, p)
      | Forget \<Rightarrow> (True, policy_remove key p)
      | Refresh \<Rightarrow> (True, p\<lparr>flows := map_set key (f\<lparr>fl_lastSeen := now\<rparr>) (flows p)\<rparr>)
      | Continue f' \<Rightarrow> (True, finish_flow now d sg key f' p))"

text \<open>
  A fresh SYN on a closed tuple is a new connection: it passes the grant again and the old flow
  is dropped before the new one is opened.
\<close>

definition admit_tcp :: "int \<Rightarrow> direction \<Rightarrow> segment \<Rightarrow> policy \<Rightarrow> bool \<times> policy" where
  "admit_tcp now d sg p =
     (let key = segment_key d sg in
      case map_get (flows p) key of
        None \<Rightarrow> open_flow now d sg key p
      | Some f \<Rightarrow>
          if fl_closedAt f \<noteq> None \<and> sg_syn sg \<and> \<not> sg_ack sg then
            if d = In \<and> \<not> granted (ports p) (sg_destinationPort sg) then (False, p)
            else open_flow now d sg key (policy_remove key p)
          else tracked_segment now d sg key f p)"

text \<open>ICMP errors are admitted for the TCP flow whose header they quote.\<close>

definition admitIcmp :: "packet \<Rightarrow> direction \<Rightarrow> int \<Rightarrow> policy \<Rightarrow> bool \<times> policy" where
  "admitIcmp pk d now p =
     (let icmp = drop (pk_header pk) (pk_bytes pk) in
      if length icmp < 8 + 20 + 8 \<or> byte_at icmp 0 \<notin> {3, 11, 12} \<or> checksum icmp 0 \<noteq> 65535
      then (False, p)
      else
        let inner = drop 8 icmp; header = (byte_at inner 0 mod 16) * 4 in
        if byte_at inner 0 div 16 \<noteq> 4 \<or> header \<noteq> 20 \<or> length inner < header + 8 \<or>
           readUInt16BE inner 2 < header + 8 \<or> byte_at inner 9 \<noteq> 6 \<or>
           fragment_bits inner \<noteq> 0 \<or> checksum (take header inner) 0 \<noteq> 65535
        then (False, p)
        else
          let expectedSource = (if d = In then localAddress p else peerAddress p);
              expectedDestination = (if d = In then peerAddress p else localAddress p) in
          if address inner 12 \<noteq> expectedSource \<or> address inner 16 \<noteq> expectedDestination
          then (False, p)
          else
            let sourcePort = readUInt16BE inner header;
                destinationPort = readUInt16BE inner (header + 2);
                key = (if d = In then tuple sourcePort destinationPort
                       else tuple destinationPort sourcePort) in
            case map_get (flows p) key of
              None \<Rightarrow> (False, p)
            | Some f \<Rightarrow> (True, p\<lparr>flows := map_set key (f\<lparr>fl_lastSeen := now\<rparr>) (flows p)\<rparr>))"

definition expectedSource :: "direction \<Rightarrow> policy \<Rightarrow> string" where
  "expectedSource d p = (if d = In then peerAddress p else localAddress p)"

definition expectedDestination :: "direction \<Rightarrow> policy \<Rightarrow> string" where
  "expectedDestination d p = (if d = In then localAddress p else peerAddress p)"

text \<open>
  The handler.  It returns the verdict, the new policy and the diagnostic events it raised.
\<close>

definition admit ::
  "int \<Rightarrow> bytes \<Rightarrow> direction \<Rightarrow> policy \<Rightarrow> bool \<times> policy \<times> acceptance_event list" where
  "admit now bs d p =
     (case ipv4 bs of
        None \<Rightarrow> (False, p, [])
      | Some pk \<Rightarrow>
          if pk_source pk \<noteq> expectedSource d p \<or> pk_destination pk \<noteq> expectedDestination d p then
            (False, p, if d = In \<and> pk_source pk \<noteq> expectedSource d p then [Source_mismatch] else [])
          else
            let p1 = sweep now p in
            if pk_protocol pk = 1 then
              (let (ok, p2) = admitIcmp pk d now p1 in (ok, p2, []))
            else if pk_protocol pk \<noteq> 6 then (False, p1, [])
            else
              (case tcp_segment bs (pk_header pk) of
                 None \<Rightarrow> (False, p1, [])
               | Some sg \<Rightarrow> (let (ok, p2) = admit_tcp now d sg p1 in (ok, p2, []))))"

text \<open>A run of packets, and the packets it admits.\<close>

type_synonym arrival = "int \<times> bytes \<times> direction"

fun policy_run :: "arrival list \<Rightarrow> policy \<Rightarrow> policy" where
  "policy_run [] p = p"
| "policy_run ((now, bs, d) # es) p = policy_run es (fst (snd (admit now bs d p)))"

fun admitted :: "arrival list \<Rightarrow> policy \<Rightarrow> arrival list" where
  "admitted [] p = []"
| "admitted ((now, bs, d) # es) p =
     (if fst (admit now bs d p) then [(now, bs, d)] else []) @
     admitted es (fst (snd (admit now bs d p)))"

lemmas policy_eval [eval_simps] =
  VPN_MTU_def MAX_FLOWS_def HANDSHAKE_IDLE_MS_def CLOSED_GRACE_MS_def ipv4_def fragment_bits_def
  tuple_def new_policy_def policy_clear_def policy_remove_def granted_def expired_def sweep_def
  tcp_offset_def pseudo_header_def tcp_segment_def segment_key_def new_flow_def open_flow_def
  response_next_def handshake_step_def note_ack_def fin_end_def note_fin_def acknowledged_def
  both_closed_def finish_flow_def tracked_segment_def admit_tcp_def admitIcmp_def
  expectedSource_def expectedDestination_def admit_def set_add_def set_delete_def Let_def

section \<open>Basic facts\<close>

lemma tuple_inj: "tuple a b = tuple c d \<longleftrightarrow> a = c \<and> b = d"
proof
  assume eq: "tuple a b = tuple c d"
  have "split_on CHR '':'' (tuple a b) = [show_nat a, show_nat b]" for a b
    by (simp add: tuple_def split_on_append split_on_no_sep)
  with eq have "[show_nat a, show_nat b] = [show_nat c, show_nat d]" by metis
  then show "a = c \<and> b = d" by (simp add: show_nat_inj)
qed simp

text \<open>Serial arithmetic: a value reaches the targets of the half space behind it.\<close>

lemma sint_nonneg_iff: "0 \<le> sint w \<longleftrightarrow> unat w < 2 ^ 31" for w :: u32
proof -
  have "sint w < 0 \<longleftrightarrow> odd (unat w div 2 ^ 31)"
    using bit_last_iff [of w] bit_unsigned_iff [of w 31, where ?'a = nat]
    by (simp add: bit_iff_odd)
  moreover have "unat w < 2 * 2 ^ 31"
    using unsigned_less [of w, where ?'a = nat] by simp
  then have "unat w div 2 ^ 31 < 2"
    by (simp add: div_less_iff_less_mult)
  then have "odd (unat w div 2 ^ 31) \<longleftrightarrow> \<not> unat w < 2 ^ 31"
    by (auto simp: less_2_cases_iff div_eq_0_iff)
  ultimately show ?thesis by linarith
qed

lemma reaches_iff: "reaches v t \<longleftrightarrow> unat (v - t) < 2 ^ 31"
  unfolding reaches_def by (rule sint_nonneg_iff)

lemma ipv4_SomeD:
  assumes "ipv4 bs = Some pk"
  shows "20 \<le> length bs" and "length bs \<le> VPN_MTU" and "pk_header pk = 20" and "pk_bytes pk = bs"
    and "readUInt16BE bs 2 = length bs" and "byte_at bs 8 \<noteq> 0" and "fragment_bits bs = 0"
    and "checksum (take 20 bs) 0 = 65535"
    and "pk_source pk = address bs 12" and "pk_destination pk = address bs 16"
    and "pk_protocol pk = byte_at bs 9"
  using assms by (auto simp: ipv4_def Let_def split: if_splits)

text \<open>The verdict and the state of the policy behind the address check.\<close>

definition admit_packet :: "int \<Rightarrow> packet \<Rightarrow> direction \<Rightarrow> policy \<Rightarrow> bool \<times> policy" where
  "admit_packet now pk d p =
     (let p1 = sweep now p in
      if pk_protocol pk = 1 then admitIcmp pk d now p1
      else if pk_protocol pk \<noteq> 6 then (False, p1)
      else (case tcp_segment (pk_bytes pk) (pk_header pk) of
              None \<Rightarrow> (False, p1) | Some sg \<Rightarrow> admit_tcp now d sg p1))"

lemma admit_eq:
  "admit now bs d p =
     (case ipv4 bs of
        None \<Rightarrow> (False, p, [])
      | Some pk \<Rightarrow>
          if pk_source pk \<noteq> expectedSource d p \<or> pk_destination pk \<noteq> expectedDestination d p then
            (False, p, if d = In \<and> pk_source pk \<noteq> expectedSource d p then [Source_mismatch] else [])
          else (fst (admit_packet now pk d p), snd (admit_packet now pk d p), []))"
  by (simp add: admit_def admit_packet_def Let_def split_beta ipv4_SomeD(4) split: option.splits)

lemma admit_cases:
  assumes "\<And>pk. ipv4 bs = Some pk \<Longrightarrow> pk_source pk = expectedSource d p \<Longrightarrow>
      pk_destination pk = expectedDestination d p \<Longrightarrow>
      P (fst (admit_packet now pk d p)) (snd (admit_packet now pk d p))"
    and "P False p"
  shows "P (fst (admit now bs d p)) (fst (snd (admit now bs d p)))"
  using assms by (auto simp: admit_eq split: option.splits)

section \<open>The invariant of the policy\<close>

definition flow_inv :: "flow \<Rightarrow> bool" where
  "flow_inv f \<longleftrightarrow>
     (fl_established f \<longrightarrow> fl_replied f) \<and>
     (fl_replied f \<longleftrightarrow> fl_responseSequence f \<noteq> None) \<and>
     (\<not> fl_established f \<longrightarrow> fl_finIn f = None \<and> fl_finOut f = None \<and> fl_closedAt f = None) \<and>
     (fl_closedAt f \<noteq> None \<longrightarrow> fl_finIn f \<noteq> None \<and> fl_finOut f \<noteq> None)"

text \<open>A tracked flow was opened the way the configuration allows.\<close>

definition flow_allowed :: "policy \<Rightarrow> string \<Rightarrow> flow \<Rightarrow> bool" where
  "flow_allowed p key f \<longleftrightarrow>
     (\<exists>local remote. key = tuple local remote \<and>
        (fl_initiator f = In \<longrightarrow> granted (ports p) local) \<and>
        (fl_initiator f = Out \<longrightarrow> allowOutboundInitiation p))"

definition policy_inv :: "policy \<Rightarrow> bool" where
  "policy_inv p \<longleftrightarrow>
     map_wf (flows p) \<and> length (flows p) \<le> MAX_FLOWS \<and> distinct (closed_keys p) \<and>
     set (closed_keys p) = {k. \<exists>f. map_get (flows p) k = Some f \<and> fl_closedAt f \<noteq> None} \<and>
     (\<forall>k f. map_get (flows p) k = Some f \<longrightarrow> flow_inv f \<and> flow_allowed p k f)"

lemma policy_inv_flow:
  "policy_inv p \<Longrightarrow> map_get (flows p) k = Some f \<Longrightarrow> flow_inv f \<and> flow_allowed p k f"
  by (simp add: policy_inv_def)

lemma size_update:
  "map_wf m \<Longrightarrow> length (map_set k v m) = (if map_get m k = None then Suc (length m) else length m)"
  using jm.size_insert [of m k v] by simp

lemma size_delete_le: "map_wf m \<Longrightarrow> length (map_delete k m) \<le> length m"
  using jm.size_remove_le [of m k] by simp

lemma inv_new [inv_intros]: "policy_inv (new_policy l r ps out)"
  by (simp add: policy_inv_def new_policy_def)

lemma inv_clear [inv_intros]: "policy_inv p \<Longrightarrow> policy_inv (policy_clear p)"
  by (simp add: policy_inv_def policy_clear_def)

lemma inv_remove [inv_intros]:
  assumes "policy_inv p"
  shows "policy_inv (policy_remove k p)"
  using assms size_delete_le [of "flows p" k]
  by (auto simp: policy_inv_def policy_remove_def map_simps flow_allowed_def split: if_splits)

lemma remove_simps [simp]:
  "map_get (flows (policy_remove k p)) k' = (if k' = k then None else map_get (flows p) k')"
  "flow_allowed (policy_remove k p) = flow_allowed p"
  "ports (policy_remove k p) = ports p"
  "allowOutboundInitiation (policy_remove k p) = allowOutboundInitiation p"
  by (auto simp: policy_remove_def map_simps flow_allowed_def fun_eq_iff)

lemma inv_nextSweep [inv_intros]: "policy_inv p \<Longrightarrow> policy_inv (p\<lparr>nextSweep := t\<rparr>)"
  by (simp add: policy_inv_def flow_allowed_def)

lemma inv_update [inv_intros]:
  assumes "policy_inv p" and "map_get (flows p) k = Some f" and "flow_inv f'"
    and "fl_initiator f' = fl_initiator f" and "fl_closedAt f' = fl_closedAt f"
  shows "policy_inv (p\<lparr>flows := map_set k f' (flows p)\<rparr>)"
  using assms
  by (auto simp: policy_inv_def map_simps flow_allowed_def size_update split: if_splits)

lemma inv_close [inv_intros]:
  assumes "policy_inv p" and "map_get (flows p) k = Some f" and "flow_inv f'"
    and "fl_initiator f' = fl_initiator f" and "fl_closedAt f' = Some now"
  shows "policy_inv (p\<lparr>flows := map_set k f' (flows p), closed_keys := set_add k (closed_keys p)\<rparr>)"
  using assms
  by (auto simp: policy_inv_def map_simps flow_allowed_def size_update split: if_splits)

lemma inv_open [inv_intros]:
  assumes "policy_inv p" and "map_get (flows p) k = None" and "length (flows p) < MAX_FLOWS"
    and "flow_inv f" and "fl_closedAt f = None" and "flow_allowed p k f"
  shows "policy_inv (p\<lparr>flows := map_set k f (flows p)\<rparr>)"
  using assms
  by (auto simp: policy_inv_def map_simps flow_allowed_def size_update split: if_splits)

section \<open>Every operation keeps the invariant\<close>

text \<open>The configuration of the object is never written after its construction.\<close>

definition same_config :: "policy \<Rightarrow> policy \<Rightarrow> bool" where
  "same_config p q \<longleftrightarrow>
     localAddress q = localAddress p \<and> peerAddress q = peerAddress p \<and> ports q = ports p \<and>
     allowOutboundInitiation q = allowOutboundInitiation p"

lemma same_config_refl [simp]: "same_config p p"
  by (simp add: same_config_def)

lemma same_config_trans [trans]: "same_config p q \<Longrightarrow> same_config q r \<Longrightarrow> same_config p r"
  by (simp add: same_config_def)

lemma config_remove [simp]: "same_config p (policy_remove k p)"
  by (simp add: same_config_def policy_remove_def)

lemma sweep_loop_inv: "policy_inv p \<Longrightarrow> policy_inv (sweep_loop now m p)"
  by (induction now m p rule: sweep_loop.induct) (simp_all add: inv_remove)

lemma sweep_loop_config: "same_config p (sweep_loop now m p)"
  by (induction now m p rule: sweep_loop.induct) (auto intro: same_config_trans [OF config_remove])

lemma sweep_inv [inv_intros]: "policy_inv p \<Longrightarrow> policy_inv (sweep now p)"
  by (simp add: sweep_def sweep_loop_inv inv_nextSweep)

lemma sweep_config [simp]: "same_config p (sweep now p)"
  using sweep_loop_config [of p now "flows p"] by (simp add: sweep_def same_config_def)

text \<open>The sweep removes exactly the expired flows.\<close>

lemma sweep_loop_get:
  "map_get (flows (sweep_loop now m p)) k =
     (if \<exists>f. (k, f) \<in> set m \<and> expired now f then None else map_get (flows p) k)"
  by (induction now m p rule: sweep_loop.induct) (auto simp: policy_remove_def map_simps)

lemma sweep_get:
  assumes "map_wf (flows p)"
  shows "map_get (flows (sweep now p)) k =
     (case map_get (flows p) k of
        None \<Rightarrow> None
      | Some f \<Rightarrow> if nextSweep p \<le> now \<and> expired now f then None else Some f)"
proof -
  have "(k, f) \<in> set (flows p) \<longleftrightarrow> map_get (flows p) k = Some f" for f
    using assms by (simp add: map_wf_def)
  then show ?thesis
    by (auto simp: sweep_def sweep_loop_get split: option.splits)
qed

lemma note_ack_fields [simp]:
  "fl_initiator (note_ack d sg f) = fl_initiator f" "fl_closedAt (note_ack d sg f) = fl_closedAt f"
  "fl_established (note_ack d sg f) = fl_established f" "fl_replied (note_ack d sg f) = fl_replied f"
  "fl_responseSequence (note_ack d sg f) = fl_responseSequence f"
  "fl_finIn (note_ack d sg f) = fl_finIn f" "fl_finOut (note_ack d sg f) = fl_finOut f"
  "fl_lastSeen (note_ack d sg f) = fl_lastSeen f" "fl_sequence (note_ack d sg f) = fl_sequence f"
  by (auto simp: note_ack_def)

lemma note_fin_fields [simp]:
  "fl_initiator (note_fin d sg f) = fl_initiator f" "fl_closedAt (note_fin d sg f) = fl_closedAt f"
  "fl_established (note_fin d sg f) = fl_established f" "fl_replied (note_fin d sg f) = fl_replied f"
  "fl_responseSequence (note_fin d sg f) = fl_responseSequence f"
  "fl_ackIn (note_fin d sg f) = fl_ackIn f" "fl_ackOut (note_fin d sg f) = fl_ackOut f"
  "fl_lastSeen (note_fin d sg f) = fl_lastSeen f" "fl_sequence (note_fin d sg f) = fl_sequence f"
  "fl_finIn f \<noteq> None \<Longrightarrow> fl_finIn (note_fin d sg f) = fl_finIn f"
  "fl_finOut f \<noteq> None \<Longrightarrow> fl_finOut (note_fin d sg f) = fl_finOut f"
  by (auto simp: note_fin_def split: option.splits)

lemma note_flow_inv:
  "flow_inv f \<Longrightarrow> fl_established f \<Longrightarrow> flow_inv (note_fin d sg (note_ack d sg f))"
  by (auto simp: flow_inv_def)

lemma lastSeen_flow_inv [simp]: "flow_inv (f\<lparr>fl_lastSeen := t\<rparr>) = flow_inv f"
  by (simp add: flow_inv_def)

lemma handshake_Continue:
  assumes "handshake_step d sg f = Continue f'" and "flow_inv f"
  shows "flow_inv f'" and "fl_initiator f' = fl_initiator f" and "fl_closedAt f' = fl_closedAt f"
    and "fl_lastSeen f' = fl_lastSeen f"
  using assms by (auto simp: handshake_step_def flow_inv_def split: if_splits)

lemma both_closed_fins: "both_closed f \<Longrightarrow> fl_finIn f \<noteq> None \<and> fl_finOut f \<noteq> None"
  by (auto simp: both_closed_def acknowledged_def split: option.splits)

lemma finish_flow_inv:
  assumes p: "policy_inv p" and get: "map_get (flows p) k = Some f"
    and f': "flow_inv f'" "fl_initiator f' = fl_initiator f" "fl_closedAt f' = fl_closedAt f"
  shows "policy_inv (finish_flow now d sg k f' p)"
proof -
  let ?g = "note_fin d sg (note_ack d sg (f'\<lparr>fl_lastSeen := now\<rparr>))"
  have g: "flow_inv ?g" if "fl_established f'"
    using f'(1) that by (intro note_flow_inv) auto
  have "flow_inv (?g\<lparr>fl_closedAt := Some now\<rparr>)" if "fl_established f'" "both_closed ?g"
    using g [OF that(1)] both_closed_fins [OF that(2)] that(1) by (auto simp: flow_inv_def)
  with p get f' g show ?thesis
    by (auto simp: finish_flow_def Let_def intro!: inv_remove inv_update inv_close)
qed

lemma tracked_segment_inv:
  assumes "policy_inv p" and "map_get (flows p) k = Some f"
  shows "policy_inv (snd (tracked_segment now d sg k f p))"
proof (cases "handshake_step d sg f")
  case (Continue f')
  have f: "flow_inv f" using policy_inv_flow [OF assms] by simp
  show ?thesis
    using finish_flow_inv [OF assms handshake_Continue(1-3) [OF Continue f]] Continue
    by (simp add: tracked_segment_def)
qed (use assms policy_inv_flow in \<open>auto simp: tracked_segment_def intro!: inv_remove inv_update\<close>)

lemma new_flow_inv [simp]: "flow_inv (new_flow now d sg)" "fl_closedAt (new_flow now d sg) = None"
  by (simp_all add: flow_inv_def new_flow_def)

lemma new_flow_allowed:
  assumes "d = Out \<Longrightarrow> allowOutboundInitiation p"
    and "d = In \<Longrightarrow> granted (ports p) (sg_destinationPort sg)"
  shows "flow_allowed p (segment_key d sg) (new_flow now d sg)"
  using assms by (cases d) (auto simp: flow_allowed_def segment_key_def new_flow_def)

lemma closed_head:
  assumes "policy_inv p" and "closed_keys p = oldest # rest"
  shows "map_get (flows p) oldest \<noteq> None"
    and "length (flows (policy_remove oldest p)) < MAX_FLOWS"
proof -
  have "oldest \<in> set (closed_keys p)" using assms(2) by simp
  then show get: "map_get (flows p) oldest \<noteq> None"
    using assms(1) by (auto simp: policy_inv_def)
  then obtain n where n: "length (flows p) = Suc n"
    by (cases "flows p") auto
  have "length (flows (policy_remove oldest p)) = n"
    using get assms(1) n jm.size_remove [of "flows p" oldest]
    by (auto simp: policy_inv_def policy_remove_def)
  with n assms(1) show "length (flows (policy_remove oldest p)) < MAX_FLOWS"
    by (simp add: policy_inv_def)
qed

lemma open_flow_inv:
  assumes p: "policy_inv p" and get: "map_get (flows p) (segment_key d sg) = None"
  shows "policy_inv (snd (open_flow now d sg (segment_key d sg) p))"
proof -
  let ?k = "segment_key d sg"
  have full: "policy_inv ((policy_remove old p)\<lparr>flows :=
      map_set ?k (new_flow now d sg) (flows (policy_remove old p))\<rparr>)"
    if "closed_keys p = old # rest" "flow_allowed p ?k (new_flow now d sg)" for old rest
    using p get closed_head [OF p that(1)] that(2) by (intro inv_open inv_remove) auto
  show ?thesis
    using p get
    by (auto simp: open_flow_def Let_def intro!: full inv_open new_flow_allowed
        split: list.splits)
qed

lemma admit_tcp_inv: "policy_inv p \<Longrightarrow> policy_inv (snd (admit_tcp now d sg p))"
  by (auto simp: admit_tcp_def Let_def intro!: open_flow_inv tracked_segment_inv inv_remove
      split: option.splits)

lemma admitIcmp_inv: "policy_inv p \<Longrightarrow> policy_inv (snd (admitIcmp pk d now p))"
  by (auto simp: admitIcmp_def Let_def policy_inv_flow intro!: inv_update split: option.splits)

lemma admit_packet_inv: "policy_inv p \<Longrightarrow> policy_inv (snd (admit_packet now pk d p))"
  by (auto simp: admit_packet_def Let_def intro: sweep_inv admitIcmp_inv admit_tcp_inv
      split: option.splits)

lemma admit_inv: "policy_inv p \<Longrightarrow> policy_inv (fst (snd (admit now bs d p)))"
  by (rule admit_cases [where P = "\<lambda>_ q. policy_inv q"]) (auto intro: admit_packet_inv)

lemma policy_run_inv: "policy_inv p \<Longrightarrow> policy_inv (policy_run es p)"
  by (induction es p rule: policy_run.induct) (auto intro: admit_inv)

lemma open_flow_config: "same_config p (snd (open_flow now d sg k p))"
  by (auto simp: open_flow_def Let_def same_config_def policy_remove_def split: list.splits)

lemma admit_tcp_config: "same_config p (snd (admit_tcp now d sg p))"
proof -
  have "same_config p (snd (open_flow now d sg k (policy_remove k' p)))" for k k'
    using config_remove open_flow_config by (rule same_config_trans)
  then show ?thesis
    using open_flow_config
    by (auto simp: admit_tcp_def tracked_segment_def finish_flow_def Let_def policy_remove_def
        same_config_def split: option.splits handshake.splits)
qed

lemma admit_config: "same_config p (fst (snd (admit now bs d p)))"
proof (rule admit_cases [where P = "\<lambda>_ q. same_config p q"])
  fix pk
  let ?s = "sweep now p"
  have icmp: "same_config ?s (snd (admitIcmp pk d now ?s))"
    by (auto simp: admitIcmp_def Let_def same_config_def split: option.splits)
  show "same_config p (snd (admit_packet now pk d p))"
    using same_config_trans [OF sweep_config icmp]
      same_config_trans [OF sweep_config admit_tcp_config, of p now]
    by (simp add: admit_packet_def Let_def split: option.splits)
qed simp

lemma policy_run_config: "same_config p (policy_run es p)"
  by (induction es p rule: policy_run.induct) (auto intro: same_config_trans admit_config)

end
