(* ===== verification/Ipv4.thy ===== *)
theory Ipv4
  imports Prelude
begin

text \<open>
  Dotted unicast IPv4 addresses as \<open>src/vpn/receiver-state.ts\<close> and \<open>src/config.ts\<close> read and
  print them, the CIDR pools of the receiver, and the lemmas that make reading and printing
  inverse to each other.
\<close>

section \<open>Reading and printing\<close>

text \<open>\<open>/^(0|[1-9][0-9]{0,2})$/\<close> and at most 255.\<close>

definition octet_ok :: "string \<Rightarrow> bool" where
  "octet_ok part \<longleftrightarrow>
     (part = ''0'' \<or>
      (part \<noteq> [] \<and> length part \<le> 3 \<and> (\<forall>c \<in> set part. is_digit c) \<and> hd part \<noteq> CHR ''0'')) \<and>
     read_nat part \<le> 255"

definition unicast :: "nat list \<Rightarrow> bool" where
  "unicast bytes \<longleftrightarrow>
     \<not> (bytes ! 0 = 0 \<or> bytes ! 0 = 127 \<or> bytes ! 0 \<ge> 224 \<or> (bytes ! 0 = 169 \<and> bytes ! 1 = 254))"

text \<open>The shifts and the disjunction of four bytes are a sum.\<close>

definition ipv4_number :: "string \<Rightarrow> error + nat" where
  "ipv4_number value =
     (let parts = split_on CHR ''.'' value in
      if length parts \<noteq> 4 \<or> (\<exists>part \<in> set parts. \<not> octet_ok part) then Inl ''invalid IPv4 address''
      else
        let bytes = map read_nat parts in
        if \<not> unicast bytes then Inl ''invalid IPv4 address''
        else Inr (16777216 * bytes ! 0 + 65536 * bytes ! 1 + 256 * bytes ! 2 + bytes ! 3))"

definition ipv4_text :: "nat \<Rightarrow> string" where
  "ipv4_text n =
     join ''.'' (map show_nat [n div 16777216, (n div 65536) mod 256, (n div 256) mod 256, n mod 256])"

record pool_range =
  pr_first :: nat
  pr_last :: nat

text \<open>\<open>/^([^/]+)\/(\d+)$/\<close>, with the canonical prefix length 16 to 30.\<close>

definition poolRange :: "string \<Rightarrow> error + pool_range" where
  "poolRange pool =
     (case split_on CHR ''/'' pool of
        [a, d] \<Rightarrow>
          if a = [] \<or> d = [] \<or> (\<exists>c \<in> set d. \<not> is_digit c) then Inl ''pool must be an IPv4 CIDR''
          else
            let bits = read_nat d in
            if bits < 16 \<or> bits > 30 \<or> show_nat bits \<noteq> d then Inl ''pool prefix must be from 16 through 30''
            else
              (case ipv4_number a of
                 Inl e \<Rightarrow> Inl e
               | Inr base \<Rightarrow>
                   let size = 2 ^ (32 - bits) in
                   if base mod size \<noteq> 0 then Inl ''pool must be a network address''
                   else
                     (case ipv4_number (ipv4_text (base + size - 1)) of
                        Inl e \<Rightarrow> Inl e
                      | Inr _ \<Rightarrow> Inr \<lparr>pr_first = base + 1, pr_last = base + size - 2\<rparr>))
      | _ \<Rightarrow> Inl ''pool must be an IPv4 CIDR'')"

lemmas ipv4_eval [eval_simps] =
  octet_ok_def unicast_def ipv4_number_def ipv4_text_def poolRange_def is_digit_def read_nat_def
  digit_value_def

section \<open>Canonical decimals\<close>

lemma read_nat_snoc: "read_nat (p @ [c]) = 10 * read_nat p + digit_value c"
  by (simp add: read_nat_def)

lemma digit_value_less: "is_digit c \<Longrightarrow> digit_value c < 10"
  by (auto simp: is_digit_def digit_value_def)

lemma digit_char_value: "is_digit c \<Longrightarrow> digit_char (digit_value c) = c"
  by (simp add: is_digit_def digit_value_def digit_char_def)

lemma digit_value_zero: "is_digit c \<Longrightarrow> digit_value c = 0 \<longleftrightarrow> c = CHR ''0''"
proof
  assume c: "is_digit c" and "digit_value c = 0"
  then have "digit_char 0 = c" using digit_char_value by metis
  then show "c = CHR ''0''" by (simp add: digit_chars)
qed (simp add: digit_value_def)

lemma read_nat_pos:
  "p \<noteq> [] \<Longrightarrow> \<forall>c \<in> set p. is_digit c \<Longrightarrow> hd p \<noteq> CHR ''0'' \<Longrightarrow> 0 < read_nat p"
proof (induction p rule: rev_induct)
  case (snoc c p)
  show ?case
  proof (cases "p = []")
    case True
    with snoc.prems digit_value_zero show ?thesis by (auto simp: read_nat_def)
  next
    case False
    with snoc show ?thesis by (simp add: read_nat_snoc)
  qed
qed simp

lemma show_read_nat:
  "p \<noteq> [] \<Longrightarrow> \<forall>c \<in> set p. is_digit c \<Longrightarrow> hd p \<noteq> CHR ''0'' \<Longrightarrow> show_nat (read_nat p) = p"
proof (induction p rule: rev_induct)
  case (snoc c p)
  then have c: "is_digit c" by simp
  show ?case
  proof (cases "p = []")
    case True
    with c digit_value_less digit_char_value show ?thesis
      by (simp add: read_nat_def show_nat.simps)
  next
    case False
    with snoc have p: "show_nat (read_nat p) = p" "0 < read_nat p"
      by (simp_all add: read_nat_pos)
    have "(10 * read_nat p + digit_value c) div 10 = read_nat p"
      "(10 * read_nat p + digit_value c) mod 10 = digit_value c"
      using digit_value_less [OF c] by simp_all
    with p c show ?thesis
      by (subst show_nat.simps) (simp add: read_nat_snoc digit_char_value)
  qed
qed simp

lemma show_nat_zero: "show_nat 0 = ''0''"
  by (subst show_nat.simps) (simp add: digit_chars)

lemma octet_show: "octet_ok p \<Longrightarrow> show_nat (read_nat p) = p"
proof -
  assume "octet_ok p"
  then consider "p = ''0''" | "p \<noteq> []" "\<forall>c \<in> set p. is_digit c" "hd p \<noteq> CHR ''0''"
    by (auto simp: octet_ok_def)
  then show ?thesis
  proof cases
    case 1
    then have "read_nat p = 0" by (simp add: read_nat_def digit_value_def)
    with 1 show ?thesis by (simp only: show_nat_zero)
  qed (rule show_read_nat)
qed

lemma show_nat_length: "n < 10 ^ k \<Longrightarrow> 0 < k \<Longrightarrow> length (show_nat n) \<le> k"
proof (induction k arbitrary: n)
  case (Suc k)
  show ?case
  proof (cases "n < 10")
    case True
    then show ?thesis by (simp add: show_nat.simps [of n])
  next
    case False
    with Suc.prems have "n div 10 < 10 ^ k" and "0 < k"
      by (simp_all add: div_less_iff_less_mult mult.commute) (cases k; simp)
    with Suc.IH False show ?thesis by (simp add: show_nat.simps [of n])
  qed
qed simp

lemma show_nat_hd: "0 < n \<Longrightarrow> hd (show_nat n) \<noteq> CHR ''0''"
proof (induction n rule: show_nat.induct)
  case (1 n)
  show ?case
  proof (cases "n < 10")
    case True
    with "1.prems" digit_value_char [of n] show ?thesis
      by (auto simp: show_nat.simps [of n] digit_value_def)
  next
    case False
    with 1 show ?thesis by (simp add: show_nat.simps [of n])
  qed
qed

lemma octet_ok_show: "n \<le> 255 \<Longrightarrow> octet_ok (show_nat n)"
proof (cases "n = 0")
  case True
  then show ?thesis
    by (simp add: octet_ok_def show_nat_zero read_nat_def digit_value_def)
next
  case False
  assume "n \<le> 255"
  with False show ?thesis
    using show_nat_length [of n 3] show_nat_hd [of n] show_nat_digits [of _ n]
    by (auto simp: octet_ok_def read_show_nat)
qed

section \<open>Addresses\<close>

lemma four_octets:
  fixes a b c d :: nat
  assumes "b < 256" "c < 256" "d < 256"
  defines "n \<equiv> 16777216 * a + 65536 * b + 256 * c + d"
  shows "n div 16777216 = a" "(n div 65536) mod 256 = b" "(n div 256) mod 256 = c" "n mod 256 = d"
proof -
  have "n = d + 256 * (65536 * a + 256 * b + c)" by (simp add: n_def)
  then have "n div 256 = 65536 * a + 256 * b + c" "n mod 256 = d"
    using assms(3) by (simp_all only: div_mult_self2 mod_mult_self2) simp_all
  moreover from this have "n div 65536 = 256 * a + b"
    using assms(2) div_mult2_eq [of n 256 256] by simp
  moreover from this have "n div 16777216 = a"
    using assms(1) div_mult2_eq [of n 65536 256] by simp
  moreover have "65536 * a + 256 * b + c = c + 256 * (256 * a + b)" by simp
  then have "(65536 * a + 256 * b + c) mod 256 = c"
    using assms(2) by (simp only: mod_mult_self2) simp
  ultimately show "n div 16777216 = a" "(n div 65536) mod 256 = b" "(n div 256) mod 256 = c"
    "n mod 256 = d"
    using assms(1) by simp_all
qed

lemma ipv4_numberD:
  assumes "ipv4_number s = Inr n"
  obtains a b c d where "s = join ''.'' (map show_nat [a, b, c, d])"
    and "a \<le> 255" "b \<le> 255" "c \<le> 255" "d \<le> 255" "unicast [a, b, c, d]"
    and "n = 16777216 * a + 65536 * b + 256 * c + d"
proof -
  let ?parts = "split_on CHR ''.'' s"
  from assms have len: "length ?parts = 4" and ok: "\<forall>p \<in> set ?parts. octet_ok p"
    and uni: "unicast (map read_nat ?parts)"
    and n: "n = 16777216 * map read_nat ?parts ! 0 + 65536 * map read_nat ?parts ! 1 +
        256 * map read_nat ?parts ! 2 + map read_nat ?parts ! 3"
    by (auto simp: ipv4_number_def Let_def split: if_splits)
  from len obtain p q r t where parts: "?parts = [p, q, r, t]"
    by (auto simp: numeral_eq_Suc length_Suc_conv)
  have "s = join ''.'' ?parts" by (simp add: join_split_on)
  with parts ok have "s = join ''.'' (map show_nat [read_nat p, read_nat q, read_nat r, read_nat t])"
    by (simp add: octet_show)
  moreover have "read_nat p \<le> 255" "read_nat q \<le> 255" "read_nat r \<le> 255" "read_nat t \<le> 255"
    using ok parts by (simp_all add: octet_ok_def)
  ultimately show ?thesis
    using that uni n parts by simp
qed

lemma ipv4_number_join:
  assumes "a \<le> 255" "b \<le> 255" "c \<le> 255" "d \<le> 255"
  shows "ipv4_number (join ''.'' (map show_nat [a, b, c, d])) =
    (if unicast [a, b, c, d] then Inr (16777216 * a + 65536 * b + 256 * c + d)
     else Inl ''invalid IPv4 address'')"
proof -
  have "split_on CHR ''.'' (join ''.'' (map show_nat [a, b, c, d])) = map show_nat [a, b, c, d]"
    by (rule split_on_join) auto
  with assms show ?thesis
    by (simp add: ipv4_number_def octet_ok_show read_show_nat Let_def)
qed

lemma ipv4_text_number:
  assumes "ipv4_number s = Inr n"
  shows "ipv4_text n = s" and "n < 2 ^ 32"
proof -
  from assms obtain a b c d where s: "s = join ''.'' (map show_nat [a, b, c, d])"
    and le: "a \<le> 255" "b \<le> 255" "c \<le> 255" "d \<le> 255"
    and n: "n = 16777216 * a + 65536 * b + 256 * c + d"
    by (rule ipv4_numberD)
  then show "ipv4_text n = s"
    using four_octets [of b c d a] by (simp add: ipv4_text_def)
  from le n show "n < 2 ^ 32" by simp
qed

lemma ipv4_number_inj: "ipv4_number s = Inr n \<Longrightarrow> ipv4_number t = Inr n \<Longrightarrow> s = t"
  using ipv4_text_number(1) by metis

text \<open>The numbers of unicast addresses: below 224.0.0.0, outside 0/8, 127/8 and 169.254/16.\<close>

definition unicast_number :: "nat \<Rightarrow> bool" where
  "unicast_number n \<longleftrightarrow>
     16777216 \<le> n \<and> n < 224 * 16777216 \<and> n div 16777216 \<noteq> 127 \<and> n div 65536 \<noteq> 169 * 256 + 254"

lemma ipv4_number_text:
  assumes "n < 2 ^ 32"
  shows "ipv4_number (ipv4_text n) = (if unicast_number n then Inr n else Inl ''invalid IPv4 address'')"
proof -
  define a b c d where "a = n div 16777216" and "b = (n div 65536) mod 256"
    and "c = (n div 256) mod 256" and "d = n mod 256"
  have 1: "n = 256 * (n div 256) + d" by (simp add: d_def)
  have 2: "n div 256 = 256 * (n div 65536) + c"
    using mult_div_mod_eq [of 256 "n div 256"] by (simp add: c_def div_mult2_eq [of n 256 256, simplified, symmetric])
  have 3: "n div 65536 = 256 * a + b"
    using mult_div_mod_eq [of 256 "n div 65536"] by (simp add: a_def b_def div_mult2_eq [of n 65536 256, simplified, symmetric])
  have n: "n = 16777216 * a + 65536 * b + 256 * c + d" using 1 2 3 by linarith
  have le: "a \<le> 255" "b \<le> 255" "c \<le> 255" "d \<le> 255"
    using assms by (auto simp: a_def b_def c_def d_def less_Suc_eq_le [symmetric] div_less_iff_less_mult)
  have "16777216 \<le> n \<longleftrightarrow> a \<noteq> 0" and "n < 224 * 16777216 \<longleftrightarrow> a < 224"
    using n le by auto
  moreover have "n div 65536 = 169 * 256 + 254 \<longleftrightarrow> a = 169 \<and> b = 254"
    unfolding 3 using le(2) by presburger
  ultimately have "unicast [a, b, c, d] \<longleftrightarrow> unicast_number n"
    unfolding unicast_def unicast_number_def a_def [symmetric] by auto
  with ipv4_number_join [OF le] n show ?thesis
    unfolding ipv4_text_def a_def [symmetric] b_def [symmetric] c_def [symmetric] d_def [symmetric]
    by simp
qed

end
