(* ===== verification/Js_Value.thy ===== *)
theory Js_Value
  imports Js_Map "HOL-Library.List_Lexorder" "HOL-Library.Char_ord"
begin

text \<open>
  Values of type \<open>unknown\<close>: what \<open>JSON.parse\<close>, the TOML parser and the callers of the
  validators produce.  A number is \<open>JInt\<close> when it is integral and \<open>JNum\<close> otherwise (a
  fraction, an infinity or not a number); the code never looks further into the latter.  Sums of
  integers are exact, which holds below \<open>2 ^ 53\<close>.  An object is the list of its own enumerable
  properties, with distinct keys.
\<close>

datatype js =
  JUndefined | JNull | JBool bool | JInt int | JNum | JStr string | JArr "js list" |
  JObj "(string \<times> js) list"

text \<open>Reading a property: \<open>undefined\<close> when it is absent.\<close>

definition prop_of :: "(string, js) js_map \<Rightarrow> string \<Rightarrow> js" where
  "prop_of ps k = (case map_get ps k of None \<Rightarrow> JUndefined | Some v \<Rightarrow> v)"

text \<open>\<open>Object.keys(value).sort().join(",")\<close>.\<close>

definition joined_keys :: "string list \<Rightarrow> string" where
  "joined_keys ks = join '','' (sort ks)"

definition isInteger :: "js \<Rightarrow> bool" where
  "isInteger v = (case v of JInt _ \<Rightarrow> True | _ \<Rightarrow> False)"

definition MAX_SAFE_INTEGER :: int where "MAX_SAFE_INTEGER = 9007199254740991"

definition safe_integer :: "int \<Rightarrow> bool" where
  "safe_integer n \<longleftrightarrow> - MAX_SAFE_INTEGER \<le> n \<and> n \<le> MAX_SAFE_INTEGER"

text \<open>An integer from \<open>lo\<close> to 65535, as every port check of the code demands.\<close>

definition port_value :: "nat \<Rightarrow> js \<Rightarrow> nat option" where
  "port_value lo v =
     (case v of JInt n \<Rightarrow> if int lo \<le> n \<and> n \<le> 65535 then Some (nat n) else None | _ \<Rightarrow> None)"

text \<open>The first failure of a sequence of results, or all of them.\<close>

fun all_ok :: "('e + 'a) list \<Rightarrow> 'e + 'a list" where
  "all_ok [] = Inr []"
| "all_ok (Inl e # _) = Inl e"
| "all_ok (Inr x # rs) = (case all_ok rs of Inl e \<Rightarrow> Inl e | Inr xs \<Rightarrow> Inr (x # xs))"

definition js_grant :: "grant \<Rightarrow> js" where
  "js_grant g = (case g of All_ports \<Rightarrow> JStr ''all'' | Ports ps \<Rightarrow> JArr (map (\<lambda>p. JInt (int p)) ps))"

lemmas js_eval [eval_simps] =
  prop_of_def joined_keys_def isInteger_def safe_integer_def MAX_SAFE_INTEGER_def port_value_def

text \<open>For keys without a comma the joined form says which keys there are.\<close>

lemma joined_keys_iff:
  assumes "distinct ks" and "distinct ns" and "ns \<noteq> []" and "ks \<noteq> []"
    and "\<And>k. k \<in> set ks \<Longrightarrow> CHR '','' \<notin> set k" and "\<And>n. n \<in> set ns \<Longrightarrow> CHR '','' \<notin> set n"
  shows "joined_keys ks = joined_keys ns \<longleftrightarrow> set ks = set ns"
proof
  assume "joined_keys ks = joined_keys ns"
  then have "join [CHR '',''] (sort ks) = join [CHR '',''] (sort ns)"
    by (simp add: joined_keys_def)
  moreover have "sort ks \<noteq> []" and "sort ns \<noteq> []"
    using assms(3,4) by (metis set_empty set_sort)+
  ultimately have "sort ks = sort ns"
    using assms(5,6) by (intro join_inj) simp_all
  then show "set ks = set ns" by (metis set_sort)
next
  assume "set ks = set ns"
  with assms(1,2) have "sort ks = sort ns"
    by (intro sorted_distinct_set_unique) auto
  then show "joined_keys ks = joined_keys ns" by (simp add: joined_keys_def)
qed

lemma port_value_int: "port_value lo (JInt (int p)) = (if lo \<le> p \<and> p \<le> 65535 then Some p else None)"
  by (auto simp: port_value_def)

lemma all_ok_map: "(\<And>x. x \<in> set xs \<Longrightarrow> f x = Inr (g x)) \<Longrightarrow> all_ok (map f xs) = Inr (map g xs)"
  by (induction xs) auto

lemma all_ok_InrD: "all_ok rs = Inr xs \<Longrightarrow> rs = map Inr xs"
  by (induction rs arbitrary: xs rule: all_ok.induct) (auto split: sum.splits)

fun_cases all_ok_ConsE: "all_ok (r # rs) = Inr xs"

lemma all_ok_Cons_iff:
  "all_ok (r # rs) = Inr xs \<longleftrightarrow> (\<exists>x ys. r = Inr x \<and> all_ok rs = Inr ys \<and> xs = x # ys)"
  by (auto elim!: all_ok_ConsE split: sum.splits)

end
