(* ===== verification/Js_Number.thy ===== *)
theory Js_Number
  imports Js_Value
begin

text \<open>
  \<open>Number(s)\<close> of a string, as far as the code looks into the result: whether it is an integer,
  and which.  White space at both ends is ignored, an empty string is 0, a prefix \<open>0x\<close>,
  \<open>0o\<close> or \<open>0b\<close> chooses the base, and a decimal literal may have a sign, a point and an
  exponent.  Values are exact, where JavaScript rounds to the nearest double.
\<close>

section \<open>Strings\<close>

text \<open>White space and line terminators below 256, which \<open>trim\<close> and \<open>Number\<close> remove at both ends.\<close>

definition is_space :: "char \<Rightarrow> bool" where
  "is_space c \<longleftrightarrow> (of_char c :: nat) \<in> {9, 10, 11, 12, 13, 32, 160}"

definition trim :: "string \<Rightarrow> string" where
  "trim s = rev (dropWhile is_space (rev (dropWhile is_space s)))"

text \<open>The value of a digit in bases up to sixteen.\<close>

definition hex_value :: "char \<Rightarrow> nat option" where
  "hex_value c =
     (let n = (of_char c :: nat) in
      if 48 \<le> n \<and> n \<le> 57 then Some (n - 48)
      else if 97 \<le> n \<and> n \<le> 102 then Some (n - 87)
      else if 65 \<le> n \<and> n \<le> 70 then Some (n - 55) else None)"

fun digits_in :: "nat \<Rightarrow> nat \<Rightarrow> string \<Rightarrow> nat option" where
  "digits_in base a [] = Some a"
| "digits_in base a (c # s) =
     (case hex_value c of
        Some d \<Rightarrow> if d < base then digits_in base (base * a + d) s else None
      | None \<Rightarrow> None)"

section \<open>Literals\<close>

definition based_literal :: "nat \<Rightarrow> string \<Rightarrow> js" where
  "based_literal base s =
     (if s = [] then JNum else case digits_in base 0 s of None \<Rightarrow> JNum | Some n \<Rightarrow> JInt (int n))"

text \<open>An optional sign.\<close>

definition split_sign :: "string \<Rightarrow> bool \<times> string" where
  "split_sign s =
     (case s of [] \<Rightarrow> (False, [])
      | c # r \<Rightarrow> if c = CHR ''-'' then (True, r) else if c = CHR ''+'' then (False, r) else (False, s))"

text \<open>The exponent after the digits: absent, or a signed number.\<close>

definition exponent :: "string \<Rightarrow> int option" where
  "exponent s =
     (case s of [] \<Rightarrow> Some 0
      | c # r \<Rightarrow>
          if c \<noteq> CHR ''e'' \<and> c \<noteq> CHR ''E'' then None
          else
            (let (neg, ds) = split_sign r in
             if ds = [] \<or> (\<exists>d \<in> set ds. \<not> is_digit d) then None
             else Some (if neg then - int (read_nat ds) else int (read_nat ds))))"

text \<open>\<open>m * 10 ^ e\<close>, when that is an integer.\<close>

definition scaled :: "int \<Rightarrow> int \<Rightarrow> js" where
  "scaled m e =
     (if 0 \<le> e then JInt (m * 10 ^ nat e)
      else if m mod 10 ^ nat (- e) = 0 then JInt (m div 10 ^ nat (- e)) else JNum)"

definition decimal_literal :: "string \<Rightarrow> js" where
  "decimal_literal s =
     (let (neg, r) = split_sign s;
          whole = takeWhile is_digit r; r1 = dropWhile is_digit r;
          fraction = (if r1 \<noteq> [] \<and> hd r1 = CHR ''.'' then takeWhile is_digit (tl r1) else []);
          r2 = (if r1 \<noteq> [] \<and> hd r1 = CHR ''.'' then dropWhile is_digit (tl r1) else r1);
          m = int (read_nat (whole @ fraction)) in
      if whole = [] \<and> fraction = [] then JNum
      else
        (case exponent r2 of
           None \<Rightarrow> JNum
         | Some e \<Rightarrow> scaled (if neg then - m else m) (e - int (length fraction))))"

definition js_Number :: "string \<Rightarrow> js" where
  "js_Number s =
     (let t = trim s in
      if t = [] then JInt 0
      else if take 2 t = ''0x'' \<or> take 2 t = ''0X'' then based_literal 16 (drop 2 t)
      else if take 2 t = ''0o'' \<or> take 2 t = ''0O'' then based_literal 8 (drop 2 t)
      else if take 2 t = ''0b'' \<or> take 2 t = ''0B'' then based_literal 2 (drop 2 t)
      else decimal_literal t)"

lemmas number_eval [eval_simps] =
  js_Number_def trim_def is_space_def based_literal_def decimal_literal_def split_sign_def
  exponent_def scaled_def hex_value_def

section \<open>Decimal numbers read back\<close>

lemma digit_not_space: "is_digit c \<Longrightarrow> \<not> is_space c"
  by (auto simp: is_digit_def is_space_def)

lemma trim_no_space: "(\<And>c. c \<in> set s \<Longrightarrow> \<not> is_space c) \<Longrightarrow> trim s = s"
proof -
  assume n: "\<And>c. c \<in> set s \<Longrightarrow> \<not> is_space c"
  have d: "dropWhile is_space t = t" if "\<And>c. c \<in> set t \<Longrightarrow> \<not> is_space c" for t
    using that by (cases t) auto
  have "dropWhile is_space s = s" "dropWhile is_space (rev s) = rev s"
    using n by (auto intro!: d)
  then show ?thesis by (simp add: trim_def)
qed

text \<open>A string of decimal digits is its number.\<close>

lemma js_Number_digits:
  assumes "s \<noteq> []" and "\<forall>c \<in> set s. is_digit c"
  shows "js_Number s = JInt (int (read_nat s))"
proof -
  have t: "trim s = s" using assms(2) digit_not_space by (intro trim_no_space) blast
  have letters: "\<not> is_digit c" if "c \<in> {CHR ''x'', CHR ''X'', CHR ''o'', CHR ''O'', CHR ''b'', CHR ''B''}" for c
    using that by (auto simp: is_digit_def)
  have prefix: "take 2 s \<noteq> [a, c]" if "c \<in> {CHR ''x'', CHR ''X'', CHR ''o'', CHR ''O'', CHR ''b'', CHR ''B''}" for a c
  proof
    assume "take 2 s = [a, c]"
    then have "c \<in> set s" using in_set_takeD [of c 2 s] by simp
    with letters [OF that] assms(2) show False by blast
  qed
  obtain c r where s: "s = c # r" using assms(1) by (cases s) auto
  then have "is_digit c" using assms(2) by simp
  then have "split_sign s = (False, s)" using s by (auto simp: split_sign_def is_digit_def)
  moreover have "takeWhile is_digit s = s" "dropWhile is_digit s = []" using assms(2) by simp_all
  ultimately have "decimal_literal s = JInt (int (read_nat s))"
    using assms(1) by (simp add: decimal_literal_def exponent_def scaled_def Let_def del: takeWhile_eq_all_conv dropWhile_eq_Nil_conv)
  then show ?thesis
    using assms(1) prefix unfolding js_Number_def t Let_def by simp
qed

lemma js_Number_show: "js_Number (show_nat n) = JInt (int n)"
  using js_Number_digits [of "show_nat n"] show_nat_digits read_show_nat by simp

end
