(* ===== verification/Config.thy ===== *)
theory Config
  imports Ipv4 Js_Number
begin

text \<open>
  The strict peer configuration, \<open>src/config.ts\<close> and \<open>src/mux/route.ts\<close>: every check of
  \<open>parsePeerConfig\<close> with its message, over the values of \<open>Js_Value\<close>.  Strings are
  sequences of code units below 256, so the UTF-8 length of a label counts one or two bytes for
  each.
\<close>

section \<open>Data\<close>

datatype route = Auto | Public

datatype connection = Dial | Accept

record peer_definition =
  pf_label :: string
  pf_publicKey :: string
  pf_connection :: connection

record vpn_peer =
  vp_peer :: string
  vp_address :: string
  vp_allowTcp :: grant

record peer_vpn =
  vc_address :: string
  vc_peers :: "vpn_peer list"

record peer_network =
  nw_bootstrap :: "(string \<times> nat) list option"
  nw_route :: "route option"

record peer_config =
  pc_vpn :: "peer_vpn option"
  pc_network :: "peer_network option"
  pc_peers :: "peer_definition list"

section \<open>Routes\<close>

definition parseRoute :: "string \<Rightarrow> error + route" where
  "parseRoute value =
     (if value = ''auto'' then Inr Auto else if value = ''public'' then Inr Public
      else Inl ''route must be auto or public'')"

text \<open>\<open>localConnection\<close>; the other option is the constant \<open>reusableSocket\<close>.\<close>

definition connectionOptionsForRoute :: "string \<Rightarrow> error + bool" where
  "connectionOptionsForRoute r =
     (case parseRoute r of Inl e \<Rightarrow> Inl e | Inr parsed \<Rightarrow> Inr (parsed = Auto))"

section \<open>Fields\<close>

definition peerLabelMaximumBytes :: nat where "peerLabelMaximumBytes = 128"

definition isRecord :: "js \<Rightarrow> (string, js) js_map option" where
  "isRecord value = (case value of JObj ps \<Rightarrow> Some ps | _ \<Rightarrow> None)"

definition byteLength :: "string \<Rightarrow> nat" where
  "byteLength s = sum_list (map (\<lambda>c. if (of_char c :: nat) < 128 then 1 else 2) s)"

definition control_char :: "char \<Rightarrow> bool" where
  "control_char c \<longleftrightarrow> (of_char c :: nat) < 32 \<or> (of_char c :: nat) = 127"

definition parseKeyHex :: "js \<Rightarrow> string \<Rightarrow> error + string" where
  "parseKeyHex value field =
     (case value of
        JStr s \<Rightarrow> if key_hex s then Inr s else Inl (field @ '' must be 32 bytes of lowercase hex'')
      | _ \<Rightarrow> Inl (field @ '' must be 32 bytes of lowercase hex''))"

text \<open>The found field is tested for truth, so that an empty name counts as not found.\<close>

definition rejectUnknownFields :: "(string, js) js_map \<Rightarrow> string list \<Rightarrow> string \<Rightarrow> error option" where
  "rejectUnknownFields ps allowedFields subject =
     (case find (\<lambda>field. field \<notin> set allowedFields) (map_keys ps) of
        None \<Rightarrow> None
      | Some unknownField \<Rightarrow>
          if unknownField = [] then None else Some (subject @ '' has unknown field: '' @ unknownField))"

definition parsePeerReference :: "js \<Rightarrow> string \<Rightarrow> error + string" where
  "parsePeerReference value field =
     (case value of
        JStr s \<Rightarrow>
          if trim s \<noteq> s \<or> s = [] then Inl (field @ '' must be a non-empty peer label or public key'')
          else if byteLength s > peerLabelMaximumBytes then Inl (field @ '' exceeds 128 bytes'')
          else Inr s
      | _ \<Rightarrow> Inl (field @ '' must be a non-empty peer label or public key''))"

definition parsePeerPort :: "js \<Rightarrow> string \<Rightarrow> bool \<Rightarrow> error + nat" where
  "parsePeerPort value field allowZero =
     (let minimum = if allowZero then 0 else 1 in
      case port_value minimum value of
        None \<Rightarrow> Inl (field @ '' must be an integer from '' @ show_nat minimum @ '' through 65535'')
      | Some n \<Rightarrow> Inr n)"

definition parsePeerDefinition :: "js \<Rightarrow> string \<Rightarrow> error + peer_definition" where
  "parsePeerDefinition value field =
     (case isRecord value of
        None \<Rightarrow> Inl (field @ '' must be an object'')
      | Some ps \<Rightarrow>
          (case rejectUnknownFields ps [''label'', ''publicKey'', ''connection''] field of
             Some e \<Rightarrow> Inl e
           | None \<Rightarrow>
               (case prop_of ps ''label'' of
                  JStr label \<Rightarrow>
                    if label = [] \<or> trim label \<noteq> label \<or> byteLength label > peerLabelMaximumBytes \<or>
                       (\<exists>c \<in> set label. control_char c)
                    then Inl (field @ ''.label must be a non-empty bounded label'')
                    else
                      (case parseKeyHex (prop_of ps ''publicKey'') (field @ ''.publicKey'') of
                         Inl e \<Rightarrow> Inl e
                       | Inr publicKey \<Rightarrow>
                           if prop_of ps ''connection'' = JStr ''dial'' then
                             Inr \<lparr>pf_label = label, pf_publicKey = publicKey, pf_connection = Dial\<rparr>
                           else if prop_of ps ''connection'' = JStr ''accept'' then
                             Inr \<lparr>pf_label = label, pf_publicKey = publicKey, pf_connection = Accept\<rparr>
                           else Inl (field @ ''.connection must be dial or accept''))
                | _ \<Rightarrow> Inl (field @ ''.label must be a non-empty bounded label''))))"

definition resolvePeerReference :: "string \<Rightarrow> peer_definition list \<Rightarrow> string \<Rightarrow> error option" where
  "resolvePeerReference reference peers field =
     (if key_hex reference then
        (if \<exists>p \<in> set peers. pf_publicKey p = reference then None
         else Some (field @ '' references an unknown peer public key''))
      else if \<exists>p \<in> set peers. pf_label p = reference then None
      else Some (field @ '' references an unknown peer label''))"

text \<open>\<open>value.map((entry, index) => ...)\<close> with a callback that may throw.\<close>

fun parse_each :: "(nat \<Rightarrow> js \<Rightarrow> error + 'a) \<Rightarrow> nat \<Rightarrow> js list \<Rightarrow> error + 'a list" where
  "parse_each f i [] = Inr []"
| "parse_each f i (v # vs) =
     (case f i v of
        Inl e \<Rightarrow> Inl e
      | Inr x \<Rightarrow> (case parse_each f (i + 1) vs of Inl e \<Rightarrow> Inl e | Inr xs \<Rightarrow> Inr (x # xs)))"

definition indexed :: "string \<Rightarrow> nat \<Rightarrow> string" where
  "indexed field i = field @ ''['' @ show_nat i @ '']''"

fun check_duplicates :: "string list \<Rightarrow> string list \<Rightarrow> peer_definition list \<Rightarrow> error option" where
  "check_duplicates labels publicKeys [] = None"
| "check_duplicates labels publicKeys (p # ps) =
     (if pf_label p \<in> set labels then Some (''duplicate peer label: '' @ pf_label p)
      else if pf_publicKey p \<in> set publicKeys then Some (''duplicate peer public key: '' @ pf_publicKey p)
      else check_duplicates (set_add (pf_label p) labels) (set_add (pf_publicKey p) publicKeys) ps)"

definition parseVpnAddress :: "js \<Rightarrow> string \<Rightarrow> error + string" where
  "parseVpnAddress value field =
     (case value of
        JStr s \<Rightarrow>
          let parts = split_on CHR ''.'' s in
          if length parts \<noteq> 4 \<or> (\<exists>part \<in> set parts. \<not> octet_ok part) then
            Inl (field @ '' must be a unicast IPv4 address'')
          else if \<not> unicast (map read_nat parts) then Inl (field @ '' must be a unicast IPv4 address'')
          else Inr s
      | _ \<Rightarrow> Inl (field @ '' must be a unicast IPv4 address''))"

definition parse_allowTcp :: "js \<Rightarrow> string \<Rightarrow> error + grant" where
  "parse_allowTcp value field =
     (if value = JStr ''all'' then Inr All_ports
      else if value = JUndefined then Inr (Ports [])
      else
        (case value of
           JArr vs \<Rightarrow>
             (case parse_each (\<lambda>i port. parsePeerPort port (indexed (field @ ''.allowTcp'') i) False) 0 vs of
                Inl e \<Rightarrow> Inl e
              | Inr ps \<Rightarrow>
                  if distinct ps then Inr (Ports ps)
                  else Inl (field @ ''.allowTcp contains a duplicate port''))
         | _ \<Rightarrow> Inl (field @ ''.allowTcp must be all or an array of TCP ports'')))"

text \<open>The key that a reference that resolves stands for.\<close>

definition reference_key :: "string \<Rightarrow> peer_definition list \<Rightarrow> string option" where
  "reference_key reference peers =
     (if key_hex reference then Some reference
      else map_option pf_publicKey (find (\<lambda>p. pf_label p = reference) peers))"

fun parse_vpn_peers ::
  "peer_definition list \<Rightarrow> string list \<Rightarrow> string list \<Rightarrow> nat \<Rightarrow> js list \<Rightarrow> error + vpn_peer list" where
  "parse_vpn_peers peers keys addresses i [] = Inr []"
| "parse_vpn_peers peers keys addresses i (item # items) =
     (let field = indexed ''vpn.peers'' i in
      case isRecord item of
        None \<Rightarrow> Inl (field @ '' must be an object'')
      | Some ps \<Rightarrow>
          (case rejectUnknownFields ps [''peer'', ''address'', ''allowTcp''] field of
             Some e \<Rightarrow> Inl e
           | None \<Rightarrow>
               (case parsePeerReference (prop_of ps ''peer'') (field @ ''.peer'') of
                  Inl e \<Rightarrow> Inl e
                | Inr peer \<Rightarrow>
                    (case resolvePeerReference peer peers (field @ ''.peer'') of
                       Some e \<Rightarrow> Inl e
                     | None \<Rightarrow>
                         let key = the (reference_key peer peers) in
                         if key \<in> set keys then Inl (field @ '' duplicates a VPN peer'')
                         else
                           (case parseVpnAddress (prop_of ps ''address'') (field @ ''.address'') of
                              Inl e \<Rightarrow> Inl e
                            | Inr peerAddress \<Rightarrow>
                                if peerAddress \<in> set addresses then
                                  Inl (field @ '' duplicates a VPN address'')
                                else
                                  (case parse_allowTcp (prop_of ps ''allowTcp'') field of
                                     Inl e \<Rightarrow> Inl e
                                   | Inr g \<Rightarrow>
                                       (case parse_vpn_peers peers (set_add key keys)
                                               (set_add peerAddress addresses) (i + 1) items of
                                          Inl e \<Rightarrow> Inl e
                                        | Inr entries \<Rightarrow>
                                            Inr (\<lparr>vp_peer = peer, vp_address = peerAddress,
                                                  vp_allowTcp = g\<rparr> # entries))))))))"

definition parsePeerVpn :: "js \<Rightarrow> peer_definition list \<Rightarrow> error + peer_vpn" where
  "parsePeerVpn value peers =
     (case isRecord value of
        None \<Rightarrow> Inl ''vpn must be an object''
      | Some ps \<Rightarrow>
          (case rejectUnknownFields ps [''address'', ''peers''] ''vpn'' of
             Some e \<Rightarrow> Inl e
           | None \<Rightarrow>
               (case parseVpnAddress (prop_of ps ''address'') ''vpn.address'' of
                  Inl e \<Rightarrow> Inl e
                | Inr addr \<Rightarrow>
                    (case prop_of ps ''peers'' of
                       JArr items \<Rightarrow>
                         if length items > 16 then Inl ''vpn supports at most 16 peers''
                         else
                           (case parse_vpn_peers peers [] [addr] 0 items of
                              Inl e \<Rightarrow> Inl e
                            | Inr entries \<Rightarrow> Inr \<lparr>vc_address = addr, vc_peers = entries\<rparr>)
                     | _ \<Rightarrow> Inl ''vpn.peers must be an array''))))"

definition parse_bootstrap_entry :: "nat \<Rightarrow> js \<Rightarrow> error + string \<times> nat" where
  "parse_bootstrap_entry i entry =
     (let field = indexed ''network.bootstrap'' i in
      case isRecord entry of
        None \<Rightarrow> Inl (field @ '' must be an object'')
      | Some ps \<Rightarrow>
          (case rejectUnknownFields ps [''host'', ''port''] field of
             Some e \<Rightarrow> Inl e
           | None \<Rightarrow>
               (case prop_of ps ''host'' of
                  JStr host \<Rightarrow>
                    if host = [] then Inl (field @ ''.host must be non-empty'')
                    else
                      (case parsePeerPort (prop_of ps ''port'') (field @ ''.port'') False of
                         Inl e \<Rightarrow> Inl e
                       | Inr port \<Rightarrow> Inr (host, port))
                | _ \<Rightarrow> Inl (field @ ''.host must be non-empty''))))"

definition parsePeerRoute :: "js \<Rightarrow> error + route" where
  "parsePeerRoute value =
     (if value = JStr ''auto'' then Inr Auto else if value = JStr ''public'' then Inr Public
      else Inl ''network.route must be auto or public'')"

definition parsePeerNetwork :: "js \<Rightarrow> error + peer_network" where
  "parsePeerNetwork value =
     (case isRecord value of
        None \<Rightarrow> Inl ''network must be an object''
      | Some ps \<Rightarrow>
          (case rejectUnknownFields ps [''bootstrap'', ''route''] ''network'' of
             Some e \<Rightarrow> Inl e
           | None \<Rightarrow>
               (case (case prop_of ps ''bootstrap'' of
                        JUndefined \<Rightarrow> Inr None
                      | JArr vs \<Rightarrow>
                          (case parse_each parse_bootstrap_entry 0 vs of
                             Inl e \<Rightarrow> Inl e
                           | Inr bs \<Rightarrow> Inr (if bs = [] then None else Some bs))
                      | _ \<Rightarrow> Inl ''network.bootstrap must be an array'') of
                  Inl e \<Rightarrow> Inl e
                | Inr bootstrap \<Rightarrow>
                    if prop_of ps ''route'' = JUndefined then
                      Inr \<lparr>nw_bootstrap = bootstrap, nw_route = None\<rparr>
                    else
                      (case parsePeerRoute (prop_of ps ''route'') of
                         Inl e \<Rightarrow> Inl e
                       | Inr r \<Rightarrow> Inr \<lparr>nw_bootstrap = bootstrap, nw_route = Some r\<rparr>))))"

text \<open>A field that may be absent.\<close>

definition parse_optional :: "(js \<Rightarrow> error + 'a) \<Rightarrow> js \<Rightarrow> error + 'a option" where
  "parse_optional f v =
     (if v = JUndefined then Inr None else (case f v of Inl e \<Rightarrow> Inl e | Inr x \<Rightarrow> Inr (Some x)))"

definition parsePeerConfig :: "js \<Rightarrow> error + peer_config" where
  "parsePeerConfig value =
     (case isRecord value of
        None \<Rightarrow> Inl ''peer config must be an object''
      | Some ps \<Rightarrow>
          (case rejectUnknownFields ps [''network'', ''vpn'', ''peers''] ''peer config'' of
             Some e \<Rightarrow> Inl e
           | None \<Rightarrow>
               (case prop_of ps ''peers'' of
                  JArr vs \<Rightarrow>
                    (case parse_each (\<lambda>i entry. parsePeerDefinition entry (indexed ''peers'' i)) 0 vs of
                       Inl e \<Rightarrow> Inl e
                     | Inr peers \<Rightarrow>
                         (case check_duplicates [] [] peers of
                            Some e \<Rightarrow> Inl e
                          | None \<Rightarrow>
                              (case parse_optional (\<lambda>v. parsePeerVpn v peers) (prop_of ps ''vpn'') of
                                 Inl e \<Rightarrow> Inl e
                               | Inr vpn \<Rightarrow>
                                   (case parse_optional parsePeerNetwork (prop_of ps ''network'') of
                                      Inl e \<Rightarrow> Inl e
                                    | Inr network \<Rightarrow>
                                        Inr \<lparr>pc_vpn = vpn, pc_network = network, pc_peers = peers\<rparr>))))
                | _ \<Rightarrow> Inl ''peers must be an array'')))"

end
