(* ===== verification/Invitation.thy ===== *)
theory Invitation
  imports Prelude
begin

text \<open>
  Invitations and enrollment requests, \<open>src/vpn/invitation.ts\<close>: the one-use bearer text
  \<open>kepos1:<receiver key>:<secret>\<close> and the frame that carries a secret to the receiver.
\<close>

record invitation =
  iv_receiverKey :: string
  iv_secret :: string

text \<open>\<open>/^kepos1:([0-9a-f]{64}):([0-9a-f]{64})$/\<close>.\<close>

definition parseInvitation :: "string \<Rightarrow> error + invitation" where
  "parseInvitation s =
     (let receiverKey = take 64 (drop 7 s); secret = drop 72 s in
      if take 7 s = ''kepos1:'' \<and> key_hex receiverKey \<and> take 1 (drop 71 s) = '':'' \<and> key_hex secret
      then Inr \<lparr>iv_receiverKey = receiverKey, iv_secret = secret\<rparr>
      else Inl ''unusable invitation'')"

definition formatInvitation :: "invitation \<Rightarrow> error + string" where
  "formatInvitation i =
     (let t = ''kepos1:'' @ iv_receiverKey i @ '':'' @ iv_secret i in
      case parseInvitation t of Inl e \<Rightarrow> Inl e | Inr _ \<Rightarrow> Inr t)"

definition ENROLLMENT_PREFIX :: string where
  "ENROLLMENT_PREFIX = ''Kepos enrollment v1 ''"

text \<open>
  \<open>Buffer.from(s, "ascii")\<close> keeps the low byte of each code unit; \<open>toString("ascii")\<close> clears
  the high bit of each byte.
\<close>

definition ascii_encode :: "string \<Rightarrow> bytes" where
  "ascii_encode s = map of_char s"

definition ascii_decode :: "bytes \<Rightarrow> string" where
  "ascii_decode bs = map (\<lambda>b. char_of (unat b mod 128)) bs"

definition enrollmentRequest :: "string \<Rightarrow> error + bytes" where
  "enrollmentRequest secret =
     (if \<not> key_hex secret then Inl ''unusable invitation''
      else Inr (ascii_encode (ENROLLMENT_PREFIX @ secret)))"

definition enrollmentSecret :: "bytes \<Rightarrow> error + string option" where
  "enrollmentSecret frame =
     (let request = ascii_decode frame in
      if \<not> starts_with ENROLLMENT_PREFIX request then Inr None
      else
        let secret = drop (length ENROLLMENT_PREFIX) request in
        if length frame \<noteq> length ENROLLMENT_PREFIX + 64 \<or> \<not> key_hex secret
        then Inl ''unusable invitation'' else Inr (Some secret))"

section \<open>Round trips\<close>

lemma prefix_length [simp]: "length ENROLLMENT_PREFIX = 20"
  by (simp add: ENROLLMENT_PREFIX_def)

lemma ascii_roundtrip:
  "(\<And>c. c \<in> set s \<Longrightarrow> (of_char c :: nat) < 128) \<Longrightarrow> ascii_decode (ascii_encode s) = s"
proof (induction s)
  case (Cons c s)
  have "unat (of_char c :: byte) = of_char c"
    using Cons.prems [of c]
    by (simp add: of_char_def unat_of_nat flip: of_nat_of_char)
  with Cons show ?case
    by (simp add: ascii_encode_def ascii_decode_def)
qed (simp add: ascii_encode_def ascii_decode_def)

lemma hex_ascii: "is_hex c \<Longrightarrow> (of_char c :: nat) < 128"
  by (auto simp: is_hex_def is_digit_def)

lemma prefix_ascii: "c \<in> set ENROLLMENT_PREFIX \<Longrightarrow> (of_char c :: nat) < 128"
  by (auto simp: ENROLLMENT_PREFIX_def)

lemma parse_format:
  "key_hex (iv_receiverKey i) \<Longrightarrow> key_hex (iv_secret i) \<Longrightarrow>
   parseInvitation (''kepos1:'' @ iv_receiverKey i @ '':'' @ iv_secret i) = Inr i"
  by (simp add: parseInvitation_def key_hex_length Let_def)

lemma parse_inverse:
  assumes "parseInvitation s = Inr i"
  shows "s = ''kepos1:'' @ iv_receiverKey i @ '':'' @ iv_secret i"
    and "key_hex (iv_receiverKey i)" and "key_hex (iv_secret i)"
proof -
  from assms have i: "i = \<lparr>iv_receiverKey = take 64 (drop 7 s), iv_secret = drop 72 s\<rparr>"
    and s: "take 7 s = ''kepos1:''" "take 1 (drop 71 s) = '':''"
    and hex: "key_hex (take 64 (drop 7 s))" "key_hex (drop 72 s)"
    by (auto simp: parseInvitation_def Let_def split: if_splits)
  have "drop 71 s = take 1 (drop 71 s) @ drop 72 s"
    using append_take_drop_id [of 1 "drop 71 s"] by simp
  moreover have "drop 7 s = take 64 (drop 7 s) @ drop 71 s"
    using append_take_drop_id [of 64 "drop 7 s"] by simp
  moreover have "s = take 7 s @ drop 7 s" by simp
  ultimately have "s = take 7 s @ take 64 (drop 7 s) @ take 1 (drop 71 s) @ drop 72 s"
    by (simp only:)
  with s i show "s = ''kepos1:'' @ iv_receiverKey i @ '':'' @ iv_secret i" by simp
  from hex i show "key_hex (iv_receiverKey i)" "key_hex (iv_secret i)" by simp_all
qed

lemma format_Inr:
  assumes "formatInvitation i = Inr t"
  shows "parseInvitation t = Inr i"
proof -
  from assms have t: "t = ''kepos1:'' @ iv_receiverKey i @ '':'' @ iv_secret i"
    and "\<not> isl (parseInvitation t)"
    by (auto simp: formatInvitation_def Let_def split: sum.splits)
  then obtain j where j: "parseInvitation t = Inr j" by (cases "parseInvitation t") auto
  have "iv_receiverKey j @ CHR '':'' # iv_secret j = iv_receiverKey i @ CHR '':'' # iv_secret i"
    using parse_inverse(1) [OF j] t by simp
  then have "iv_receiverKey j = iv_receiverKey i \<and> iv_secret j = iv_secret i"
    using parse_inverse(2,3) [OF j, THEN key_hex_no_colon] by (simp add: append_Cons_eq_iff)
  with j show ?thesis by simp
qed

lemma parse_iff_format: "parseInvitation t = Inr i \<longleftrightarrow> formatInvitation i = Inr t"
proof
  assume "parseInvitation t = Inr i"
  with parse_inverse(1) [OF this] show "formatInvitation i = Inr t"
    by (simp add: formatInvitation_def)
qed (rule format_Inr)

lemma request_roundtrip:
  assumes "key_hex secret"
  shows "enrollmentSecret (ascii_encode (ENROLLMENT_PREFIX @ secret)) = Inr (Some secret)"
proof -
  let ?frame = "ascii_encode (ENROLLMENT_PREFIX @ secret)"
  have "length ?frame = 84" using assms by (simp add: ascii_encode_def key_hex_length)
  moreover have "ascii_decode ?frame = ENROLLMENT_PREFIX @ secret"
    using assms hex_ascii prefix_ascii by (intro ascii_roundtrip) (auto simp: key_hex_def)
  ultimately show ?thesis using assms by (simp add: enrollmentSecret_def)
qed

end
