(* ===== verification/Receiver_State.thy ===== *)
theory Receiver_State
  imports Ipv4 Js_Value Invitation
begin

text \<open>
  The durable store of the managed receiver, \<open>src/vpn/receiver-state.ts\<close> and
  \<open>src/vpn/enrollment-errors.ts\<close>: validation of the stored value, opening, saving with its
  failure modes, and the five operations.  The class serialises its operations, so each is one
  step on a record that also shows the contents of \<open>receiver.json\<close>.  SHA-256 is the parameter
  \<open>sha\<close> (of the hex text of a secret); random secrets, the clock and the outcome of the file
  system calls are arguments.
\<close>

section \<open>Data\<close>

definition TTL :: int where "TTL = 10 * 60000"
definition MAX_DEVICES :: nat where "MAX_DEVICES = 16"
definition MAX_INVITATIONS :: nat where "MAX_INVITATIONS = 16"
definition MAX_PORTS :: nat where "MAX_PORTS = 256"

datatype enrollment_rejection = Capacity | Pool | Route | Excluded

datatype rs_error =
  Storage_failure | Exclusion_invalid | Exclusion_allocated |
  Enrollment_rejected enrollment_rejection | Plain error

record receiver_device =
  dv_publicKey :: string
  dv_address :: string
  dv_allowTcp :: grant

record pending_invitation =
  pd_digest :: string
  pd_issuedAt :: int
  pd_expiresAt :: int
  pd_excludeAddress :: "string option"

record receiver_identity =
  id_receiverKey :: string
  id_receiverAddress :: string
  id_pool :: string

record receiver_state =
  rs_identity :: receiver_identity
  rs_devices :: "receiver_device list"
  rs_invitations :: "pending_invitation list"

section \<open>Validation of a stored value\<close>

definition checkedPorts :: "js \<Rightarrow> error + grant" where
  "checkedPorts value =
     (case value of
        JStr s \<Rightarrow> if s = ''all'' then Inr All_ports else Inl ''invalid TCP grant''
      | JArr vs \<Rightarrow>
          let ports = map (port_value 1) vs in
          if length vs > MAX_PORTS \<or> None \<in> set ports \<or> \<not> distinct ports then Inl ''invalid TCP grant''
          else Inr (Ports (map the ports))
      | _ \<Rightarrow> Inl ''invalid TCP grant'')"

text \<open>\<open>keys(value, names)\<close>: the properties of an object with these keys, otherwise nothing.\<close>

definition exact_object :: "js \<Rightarrow> string list \<Rightarrow> (string, js) js_map option" where
  "exact_object value names =
     (case value of
        JObj ps \<Rightarrow> if joined_keys (map_keys ps) = joined_keys names then Some ps else None
      | _ \<Rightarrow> None)"

definition validExclusion :: "string \<Rightarrow> string \<Rightarrow> pool_range \<Rightarrow> bool" where
  "validExclusion value receiverAddress rng =
     (case ipv4_number value of
        Inl _ \<Rightarrow> False
      | Inr n \<Rightarrow> value \<noteq> receiverAddress \<and> n \<ge> pr_first rng \<and> n \<le> pr_last rng)"

fun validate_devices ::
  "pool_range \<Rightarrow> string list \<Rightarrow> string list \<Rightarrow> js list \<Rightarrow> error + receiver_device list" where
  "validate_devices rng addresses deviceKeys [] = Inr []"
| "validate_devices rng addresses deviceKeys (entry # rest) =
     (case exact_object entry [''publicKey'', ''address'', ''allowTcp''] of
        None \<Rightarrow> Inl ''invalid receiver device''
      | Some ps \<Rightarrow>
          (case (prop_of ps ''publicKey'', prop_of ps ''address'') of
             (JStr key, JStr addr) \<Rightarrow>
               if \<not> key_hex key \<or> key \<in> set deviceKeys \<or> addr \<in> set addresses then
                 Inl ''invalid receiver device''
               else
                 (case ipv4_number addr of
                    Inl e \<Rightarrow> Inl e
                  | Inr n \<Rightarrow>
                      if n < pr_first rng \<or> n > pr_last rng then
                        Inl ''receiver device address outside pool''
                      else
                        (case checkedPorts (prop_of ps ''allowTcp'') of
                           Inl e \<Rightarrow> Inl e
                         | Inr ports \<Rightarrow>
                             (case validate_devices rng (set_add addr addresses)
                                     (set_add key deviceKeys) rest of
                                Inl e \<Rightarrow> Inl e
                              | Inr ds \<Rightarrow>
                                  Inr (\<lparr>dv_publicKey = key, dv_address = addr, dv_allowTcp = ports\<rparr> # ds))))
           | _ \<Rightarrow> Inl ''invalid receiver device''))"

definition has_exclusion :: "js \<Rightarrow> bool" where
  "has_exclusion entry =
     (case entry of JObj ps \<Rightarrow> ''excludeAddress'' \<in> set (map_keys ps) | _ \<Rightarrow> False)"

fun validate_invitations ::
  "pool_range \<Rightarrow> string \<Rightarrow> string list \<Rightarrow> js list \<Rightarrow> error + pending_invitation list" where
  "validate_invitations rng receiverAddress hashes [] = Inr []"
| "validate_invitations rng receiverAddress hashes (entry # rest) =
     (let hasExclusion = has_exclusion entry in
      case exact_object entry
        (if hasExclusion then [''digest'', ''issuedAt'', ''expiresAt'', ''excludeAddress'']
         else [''digest'', ''issuedAt'', ''expiresAt'']) of
        None \<Rightarrow> Inl ''invalid receiver invitation state''
      | Some ps \<Rightarrow>
          (case (prop_of ps ''digest'', prop_of ps ''issuedAt'', prop_of ps ''expiresAt'') of
             (JStr digest, JInt issuedAt, JInt expiresAt) \<Rightarrow>
               if \<not> key_hex digest \<or> digest \<in> set hashes \<or> \<not> safe_integer issuedAt \<or>
                  expiresAt \<noteq> issuedAt + TTL then Inl ''invalid receiver invitation state''
               else if hasExclusion \<and>
                  (case prop_of ps ''excludeAddress'' of
                     JStr a \<Rightarrow> \<not> validExclusion a receiverAddress rng | _ \<Rightarrow> True)
               then Inl ''invalid receiver invitation state''
               else
                 (case validate_invitations rng receiverAddress (set_add digest hashes) rest of
                    Inl e \<Rightarrow> Inl e
                  | Inr invs \<Rightarrow>
                      Inr (\<lparr>pd_digest = digest, pd_issuedAt = issuedAt, pd_expiresAt = expiresAt,
                            pd_excludeAddress =
                              (if hasExclusion then
                                 (case prop_of ps ''excludeAddress'' of JStr a \<Rightarrow> Some a | _ \<Rightarrow> None)
                               else None)\<rparr> # invs))
           | _ \<Rightarrow> Inl ''invalid receiver invitation state''))"

definition validate :: "js \<Rightarrow> receiver_identity \<Rightarrow> error + receiver_state" where
  "validate value idn =
     (case exact_object value [''version'', ''receiverKey'', ''receiverAddress'', ''pool'', ''devices'',
                               ''invitations''] of
        None \<Rightarrow> Inl ''invalid receiver state or configuration conflict''
      | Some ps \<Rightarrow>
          if prop_of ps ''version'' \<noteq> JInt 1 \<or>
             prop_of ps ''receiverKey'' \<noteq> JStr (id_receiverKey idn) \<or>
             prop_of ps ''receiverAddress'' \<noteq> JStr (id_receiverAddress idn) \<or>
             prop_of ps ''pool'' \<noteq> JStr (id_pool idn)
          then Inl ''invalid receiver state or configuration conflict''
          else
            (case (prop_of ps ''devices'', prop_of ps ''invitations'') of
               (JArr ds, JArr invs) \<Rightarrow>
                 if length ds > MAX_DEVICES \<or> length invs > MAX_INVITATIONS then
                   Inl ''invalid receiver state or configuration conflict''
                 else
                   (case poolRange (id_pool idn) of
                      Inl e \<Rightarrow> Inl e
                    | Inr rng \<Rightarrow>
                        (case validate_devices rng [id_receiverAddress idn] [id_receiverKey idn] ds of
                           Inl e \<Rightarrow> Inl e
                         | Inr devices \<Rightarrow>
                             (case validate_invitations rng (id_receiverAddress idn) [] invs of
                                Inl e \<Rightarrow> Inl e
                              | Inr invitations \<Rightarrow>
                                  Inr \<lparr>rs_identity = idn, rs_devices = devices,
                                       rs_invitations = invitations\<rparr>)))
             | _ \<Rightarrow> Inl ''invalid receiver state or configuration conflict''))"

text \<open>The value that \<open>JSON.stringify\<close> writes for a state.\<close>

definition device_json :: "receiver_device \<Rightarrow> js" where
  "device_json d =
     JObj [(''publicKey'', JStr (dv_publicKey d)), (''address'', JStr (dv_address d)),
           (''allowTcp'', js_grant (dv_allowTcp d))]"

definition invitation_json :: "pending_invitation \<Rightarrow> js" where
  "invitation_json i =
     JObj ([(''digest'', JStr (pd_digest i)), (''issuedAt'', JInt (pd_issuedAt i)),
            (''expiresAt'', JInt (pd_expiresAt i))] @
           (case pd_excludeAddress i of None \<Rightarrow> [] | Some a \<Rightarrow> [(''excludeAddress'', JStr a)]))"

definition state_json :: "receiver_state \<Rightarrow> js" where
  "state_json s =
     JObj [(''version'', JInt 1),
           (''receiverKey'', JStr (id_receiverKey (rs_identity s))),
           (''receiverAddress'', JStr (id_receiverAddress (rs_identity s))),
           (''pool'', JStr (id_pool (rs_identity s))),
           (''devices'', JArr (map device_json (rs_devices s))),
           (''invitations'', JArr (map invitation_json (rs_invitations s)))]"

section \<open>The store\<close>

record store =
  st_state :: receiver_state
  st_failed :: bool
  st_disk :: "receiver_state option"

text \<open>
  How the file system calls of \<open>save\<close> may go.  A failure before or after the rename makes the
  store refuse everything afterwards; the \<open>finally\<close> block may throw in either case, and its
  error then replaces the other.
\<close>

datatype save_outcome =
  Committed "error option" |
  Uncommitted bool "error option"

definition save :: "save_outcome \<Rightarrow> receiver_state \<Rightarrow> store \<Rightarrow> rs_error option \<times> store" where
  "save outcome next st =
     (case outcome of
        Committed cleanup \<Rightarrow>
          (map_option Plain cleanup, st\<lparr>st_state := next, st_disk := Some next\<rparr>)
      | Uncommitted renamed cleanup \<Rightarrow>
          (Some (case cleanup of None \<Rightarrow> Storage_failure | Some e \<Rightarrow> Plain e),
           st\<lparr>st_failed := True, st_disk := (if renamed then Some next else st_disk st)\<rparr>))"

text \<open>An operation on the store: its result or the error it rejects with, and the new store.\<close>

type_synonym 'a operation = "store \<Rightarrow> (rs_error + 'a) \<times> store"

definition serial :: "'a operation \<Rightarrow> 'a operation" where
  "serial operation st = (if st_failed st then (Inl Storage_failure, st) else operation st)"

text \<open>\<open>await this.save(next); return result\<close>.\<close>

definition save_then :: "save_outcome \<Rightarrow> receiver_state \<Rightarrow> rs_error + 'a \<Rightarrow> 'a operation" where
  "save_then outcome next result st =
     (case save outcome next st of
        (Some e, st') \<Rightarrow> (Inl e, st')
      | (None, st') \<Rightarrow> (result, st'))"

definition list_devices :: "receiver_device list operation" where
  "list_devices = serial (\<lambda>st. (Inr (rs_devices (st_state st)), st))"

definition live :: "int \<Rightarrow> pending_invitation \<Rightarrow> bool" where
  "live now i \<longleftrightarrow> pd_issuedAt i \<le> now \<and> now < pd_expiresAt i"

definition exclusion_error :: "string option \<Rightarrow> receiver_state \<Rightarrow> rs_error option" where
  "exclusion_error excludeAddress s =
     (case excludeAddress of
        None \<Rightarrow> None
      | Some a \<Rightarrow>
          (case poolRange (id_pool (rs_identity s)) of
             Inl e \<Rightarrow> Some (Plain e)
           | Inr rng \<Rightarrow>
               if \<not> validExclusion a (id_receiverAddress (rs_identity s)) rng then Some Exclusion_invalid
               else if \<exists>d \<in> set (rs_devices s). dv_address d = a then Some Exclusion_allocated
               else None))"

definition createInvitation ::
  "(string \<Rightarrow> string) \<Rightarrow> string option \<Rightarrow> int \<Rightarrow> string \<Rightarrow> save_outcome \<Rightarrow> string operation" where
  "createInvitation sha excludeAddress now secret outcome = serial (\<lambda>st.
     let s = st_state st in
     case exclusion_error excludeAddress s of
       Some e \<Rightarrow> (Inl e, st)
     | None \<Rightarrow>
         let invitations = filter (live now) (rs_invitations s) in
         if length invitations \<ge> MAX_INVITATIONS then
           (Inl (Plain ''too many outstanding invitations''), st)
         else
           let issued = \<lparr>pd_digest = sha secret, pd_issuedAt = now, pd_expiresAt = now + TTL,
                         pd_excludeAddress = excludeAddress\<rparr> in
           save_then outcome (s\<lparr>rs_invitations := invitations @ [issued]\<rparr>)
             (case formatInvitation \<lparr>iv_receiverKey = id_receiverKey (rs_identity s), iv_secret = secret\<rparr> of
                Inl e \<Rightarrow> Inl (Plain e) | Inr text \<Rightarrow> Inr text)
             st)"

text \<open>\<open>invitations.find\<close>, as a position, because the found object is later removed by identity.\<close>

fun find_position :: "('a \<Rightarrow> bool) \<Rightarrow> 'a list \<Rightarrow> nat option" where
  "find_position P [] = None"
| "find_position P (x # xs) = (if P x then Some 0 else map_option Suc (find_position P xs))"

text \<open>The address loop: the first number from \<open>n\<close> to \<open>final\<close> whose text is not taken.\<close>

function first_free :: "string list \<Rightarrow> nat \<Rightarrow> nat \<Rightarrow> string option" where
  "first_free taken n final =
     (if n \<le> final then
        (if ipv4_text n \<notin> set taken then Some (ipv4_text n) else first_free taken (n + 1) final)
      else None)"
  by pat_completeness auto

termination first_free
  by (relation "measure (\<lambda>(taken, n, final). Suc final - n)") auto

declare first_free.simps [simp del]

text \<open>The device that an enrollment returns: the known one, or a new one with a free address.\<close>

definition enroll_device ::
  "string \<Rightarrow> pending_invitation \<Rightarrow> receiver_state \<Rightarrow> rs_error + receiver_device" where
  "enroll_device publicKey pending s =
     (case find (\<lambda>d. dv_publicKey d = publicKey) (rs_devices s) of
        Some d \<Rightarrow>
          if Some (dv_address d) = pd_excludeAddress pending then Inl (Enrollment_rejected Excluded)
          else Inr d
      | None \<Rightarrow>
          if length (rs_devices s) \<ge> MAX_DEVICES then Inl (Enrollment_rejected Capacity)
          else
            (case poolRange (id_pool (rs_identity s)) of
               Inl e \<Rightarrow> Inl (Plain e)
             | Inr rng \<Rightarrow>
                 let taken = id_receiverAddress (rs_identity s) # map dv_address (rs_devices s) @
                       (case pd_excludeAddress pending of None \<Rightarrow> [] | Some a \<Rightarrow> [a]) in
                 (case first_free taken (pr_first rng) (pr_last rng) of
                    None \<Rightarrow> Inl (Enrollment_rejected Pool)
                  | Some available \<Rightarrow>
                      Inr \<lparr>dv_publicKey = publicKey, dv_address = available, dv_allowTcp = All_ports\<rparr>)))"

definition enroll ::
  "(string \<Rightarrow> string) \<Rightarrow> string \<Rightarrow> string \<Rightarrow> int \<Rightarrow> save_outcome \<Rightarrow> receiver_device operation" where
  "enroll sha publicKey secret now outcome = serial (\<lambda>st.
     let s = st_state st; invs = rs_invitations s in
     if \<not> key_hex publicKey \<or> publicKey = id_receiverKey (rs_identity s) \<or> \<not> key_hex secret then
       (Inl (Plain ''unusable invitation''), st)
     else
       (case find_position (\<lambda>i. pd_digest i = sha secret \<and> live now i) invs of
          None \<Rightarrow> (Inl (Plain ''unusable invitation''), st)
        | Some k \<Rightarrow>
            (case enroll_device publicKey (invs ! k) s of
               Inl e \<Rightarrow> (Inl e, st)
             | Inr device \<Rightarrow>
                 let devices = (if \<exists>d \<in> set (rs_devices s). dv_publicKey d = publicKey
                                then rs_devices s else rs_devices s @ [device]) in
                 save_then outcome
                   (s\<lparr>rs_devices := devices,
                      rs_invitations := filter (live now) (take k invs @ drop (Suc k) invs)\<rparr>)
                   (Inr device) st)))"

definition grant_ports :: "string \<Rightarrow> js \<Rightarrow> save_outcome \<Rightarrow> unit operation" where
  "grant_ports publicKey ports outcome = serial (\<lambda>st.
     let s = st_state st in
     case checkedPorts ports of
       Inl e \<Rightarrow> (Inl (Plain e), st)
     | Inr g \<Rightarrow>
         if \<not> (\<exists>d \<in> set (rs_devices s). dv_publicKey d = publicKey) then
           (Inl (Plain ''unknown receiver device''), st)
         else
           save_then outcome
             (s\<lparr>rs_devices := map (\<lambda>d. if dv_publicKey d = publicKey then d\<lparr>dv_allowTcp := g\<rparr> else d)
                               (rs_devices s)\<rparr>)
             (Inr ()) st)"

definition revoke :: "string \<Rightarrow> save_outcome \<Rightarrow> unit operation" where
  "revoke publicKey outcome = serial (\<lambda>st.
     let s = st_state st in
     if \<not> (\<exists>d \<in> set (rs_devices s). dv_publicKey d = publicKey) then
       (Inl (Plain ''unknown receiver device''), st)
     else
       save_then outcome
         (s\<lparr>rs_devices := filter (\<lambda>d. dv_publicKey d \<noteq> publicKey) (rs_devices s)\<rparr>) (Inr ()) st)"

section \<open>Opening\<close>

text \<open>What \<open>lstat\<close> reports of the directory or the file, and the user that runs the process.\<close>

record file_info =
  fi_isDirectory :: bool
  fi_isFile :: bool
  fi_isSymbolicLink :: bool
  fi_mode :: nat
  fi_uid :: nat
  fi_size :: nat

definition owned :: "nat option \<Rightarrow> file_info \<Rightarrow> bool" where
  "owned getuid info = (case getuid of None \<Rightarrow> True | Some uid \<Rightarrow> fi_uid info = uid)"

definition requirePrivateDirectory :: "nat option \<Rightarrow> file_info \<Rightarrow> error option" where
  "requirePrivateDirectory getuid info =
     (if \<not> fi_isDirectory info \<or> fi_isSymbolicLink info \<or> fi_mode info mod 512 \<noteq> 448 \<or>
         \<not> owned getuid info
      then Some ''receiver state directory must be private and owned by this user'' else None)"

definition private_file :: "nat option \<Rightarrow> file_info \<Rightarrow> bool" where
  "private_file getuid info \<longleftrightarrow>
     fi_isFile info \<and> \<not> fi_isSymbolicLink info \<and> fi_mode info mod 512 = 384 \<and> owned getuid info \<and>
     fi_size info \<le> 256000"

datatype mkdir_result = Created | Already_exists | Mkdir_failed error

text \<open>
  \<open>file\<close> is what \<open>lstat\<close> of \<open>receiver.json\<close> gives, if anything, and \<open>contents\<close> the parsed
  text, if it could be read and parsed.
\<close>

definition read_state ::
  "nat option \<Rightarrow> file_info option \<Rightarrow> js option \<Rightarrow> receiver_identity \<Rightarrow> receiver_state option" where
  "read_state getuid file contents idn =
     (case (file, contents) of
        (Some info, Some value) \<Rightarrow>
          if private_file getuid info then
            (case validate value idn of Inl _ \<Rightarrow> None | Inr s \<Rightarrow> Some s)
          else None
      | _ \<Rightarrow> None)"

definition receiver_open ::
  "nat option \<Rightarrow> mkdir_result \<Rightarrow> file_info \<Rightarrow> file_info option \<Rightarrow> js option \<Rightarrow> save_outcome \<Rightarrow>
   receiver_identity \<Rightarrow> rs_error + store" where
  "receiver_open getuid made directory file contents outcome idn =
     (if \<not> key_hex (id_receiverKey idn) then Inl (Plain ''invalid receiver key'')
      else
        (case (ipv4_number (id_receiverAddress idn), poolRange (id_pool idn)) of
           (Inl e, _) \<Rightarrow> Inl (Plain e)
         | (_, Inl e) \<Rightarrow> Inl (Plain e)
         | (Inr _, Inr _) \<Rightarrow>
             (case made of
                Mkdir_failed e \<Rightarrow> Inl (Plain e)
              | _ \<Rightarrow>
                  (case requirePrivateDirectory getuid directory of
                     Some e \<Rightarrow> Inl (Plain e)
                   | None \<Rightarrow>
                       if made = Created then
                         (let s = \<lparr>rs_identity = idn, rs_devices = [], rs_invitations = []\<rparr> in
                          case save outcome s \<lparr>st_state = s, st_failed = False, st_disk = None\<rparr> of
                            (Some e, _) \<Rightarrow> Inl e
                          | (None, st) \<Rightarrow> Inr st)
                       else
                         (case read_state getuid file contents idn of
                            None \<Rightarrow> Inl (Plain ''cannot read or validate receiver state'')
                          | Some s \<Rightarrow> Inr \<lparr>st_state = s, st_failed = False, st_disk = Some s\<rparr>)))))"

end
