(* ===== verification/Engine.thy ===== *)
theory Engine
  imports Packet_Policy Framing Config Receiver_State
begin

text \<open>
  The VPN engine, \<open>src/vpn/engine.ts\<close>: the variables that its closures share are the fields of
  a record, and each callback is one operation on it: the DHT firewall, a new transport, the
  frames and the end of a session, packets of the device, timeouts and \<open>stop\<close>.  A stream is a
  number.  Everything the engine does to the outside is returned as a list of effects.  The clock
  does not move during a callback; outcomes of awaited calls are arguments.
\<close>

section \<open>Data\<close>

definition hello :: bytes where
  "hello = ascii_encode ''Kepos VPN IPv4 v1'' @ [0, 0, 0]"

record peer =
  pr_label :: string
  pr_key :: string
  pr_address :: string
  pr_direction :: connection
  pr_allowTcp :: grant

text \<open>
  A session object, with the key of the peer and the variable \<open>first\<close> that its closures hold.
\<close>

record session =
  ss_key :: string
  ss_policy :: policy
  ss_ready :: bool
  ss_first :: bool

text \<open>
  \<open>en_objects\<close> are the session objects, each found by its stream; \<open>en_sessions\<close> is the map
  \<open>sessions\<close>, which names the stream of the current session of a key.  A session that has left
  the map lives on in its closures.
\<close>

record engine =
  en_peerKey :: string
  en_address :: string
  en_peers :: "peer list"
  en_enrollment :: bool
  en_objects :: "(nat, session) js_map"
  en_sessions :: "(string, nat) js_map"
  en_lastAdmissions :: "(string, int) js_map"
  en_admissionLogs :: "(string, int) js_map"
  en_lastUnknownAdmissionLog :: "int option"
  en_streams :: "nat list"
  en_enrollmentReservations :: "(string, int) js_map"
  en_enrollmentStreams :: "nat list"
  en_enrollmentAttempts :: "int list"
  en_enrollmentRejectionLogs :: "(enrollment_rejection, int) js_map"
  en_stopping :: bool
  en_tun :: bool
  en_tunWriting :: bool

text \<open>The answer to an enrollment, and what the engine does.\<close>

datatype response =
  Response_accepted string string string |
  Response_rejected enrollment_rejection |
  Response_unusable |
  Response_unknown

datatype effect =
  Log string |
  Status string string bool |
  Diagnostic acceptance_event |
  Destroy nat |
  End_stream nat |
  Send_frame nat bytes |
  Send_response nat response |
  Enrollment_changed |
  To_device bytes |
  Close_all

type_synonym 'a reaction = "'a \<times> engine \<times> effect list"

section \<open>Transport errors\<close>

definition known_messages :: "string list" where
  "known_messages =
    [''Stream was destroyed'', ''VPN stream is closed'', ''VPN stream closed during write'',
     ''VPN protocol mismatch'', ''VPN protocol handshake missing'',
     ''VPN protocol handshake timed out after 10000ms'', ''invalid VPN frame length'',
     ''truncated VPN frame'', ''VPN connection timed out'', ''VPN connection closed'',
     ''VPN peer identity mismatch'', ''PEER_CONNECTION_FAILED: Could not connect to peer'']"

definition allowed_codes :: "string list" where
  "allowed_codes =
    [''BAD_HANDSHAKE_REPLY'', ''BAD_HOLEPUNCH_REPLY'', ''HOLEPUNCH_ABORTED'', ''HOLEPUNCH_INVALID'',
     ''HOLEPUNCH_PROBE_TIMEOUT'', ''HOLEPUNCH_DOUBLE_RANDOMIZED_NATS'', ''CANNOT_HOLEPUNCH'',
     ''REMOTE_NOT_HOLEPUNCHING'', ''REMOTE_NOT_HOLEPUNCHABLE'', ''REMOTE_ABORTED'', ''HANDSHAKE_UNFINISHED'',
     ''HANDSHAKE_INVALID'', ''NODE_DESTROYED'', ''PEER_CONNECTION_FAILED'', ''PEER_NOT_FOUND'',
     ''STREAM_NOT_CONNECTED'', ''SERVER_INCOMPATIBLE'', ''SERVER_ERROR'', ''DUPLICATE_CONNECTION'',
     ''RELAY_ABORTED'', ''SUSPENDED'', ''STREAM_DESTROYED'', ''PREMATURE_CLOSE'', ''ABORTED'', ''BAD_ARGUMENT'']"

text \<open>A thrown value: its message if it is an \<open>Error\<close>, and its code if that is a string.\<close>

record thrown =
  th_message :: "string option"
  th_code :: "string option"

definition diagnosticError :: "thrown \<Rightarrow> string" where
  "diagnosticError e =
     (case th_message e of
        Some m \<Rightarrow>
          if m \<in> set known_messages then m
          else (case th_code e of
                  Some c \<Rightarrow> if c \<in> set allowed_codes then ''transport error ('' @ c @ '')'' else ''transport error''
                | None \<Rightarrow> ''transport error'')
      | None \<Rightarrow>
          (case th_code e of
             Some c \<Rightarrow> if c \<in> set allowed_codes then ''transport error ('' @ c @ '')'' else ''transport error''
           | None \<Rightarrow> ''transport error''))"

definition thrown_error :: "string \<Rightarrow> thrown" where
  "thrown_error m = \<lparr>th_message = Some m, th_code = None\<rparr>"

section \<open>Peers\<close>

definition engine_peer :: "string \<Rightarrow> peer_definition list \<Rightarrow> vpn_peer \<Rightarrow> error + peer" where
  "engine_peer peerKey definitions entry =
     (case find (\<lambda>d. pf_label d = vp_peer entry \<or> pf_publicKey d = vp_peer entry) definitions of
        None \<Rightarrow> Inl (''Unknown VPN peer: '' @ vp_peer entry)
      | Some d \<Rightarrow>
          if pf_publicKey d = peerKey then Inl ''VPN config cannot include its own key''
          else Inr \<lparr>pr_label = pf_label d, pr_key = pf_publicKey d, pr_address = vp_address entry,
                    pr_direction = pf_connection d, pr_allowTcp = vp_allowTcp entry\<rparr>)"

definition engine_peers :: "string \<Rightarrow> peer_config \<Rightarrow> error + peer list" where
  "engine_peers peerKey config =
     (case pc_vpn config of
        None \<Rightarrow> Inl ''VPN mode requires a [vpn] configuration''
      | Some vpn \<Rightarrow> all_ok (map (engine_peer peerKey (pc_peers config)) (vc_peers vpn)))"

text \<open>\<open>new Map(peers.map(...))\<close>: a later entry replaces an earlier one.\<close>

fun map_from :: "('k \<times> 'v) list \<Rightarrow> ('k, 'v) js_map \<Rightarrow> ('k, 'v) js_map" where
  "map_from [] m = m"
| "map_from ((k, v) # kvs) m = map_from kvs (map_set k v m)"

definition byKey :: "engine \<Rightarrow> (string, peer) js_map" where
  "byKey e = map_from (map (\<lambda>p. (pr_key p, p)) (en_peers e)) []"

definition byAddress :: "engine \<Rightarrow> (string, peer) js_map" where
  "byAddress e = map_from (map (\<lambda>p. (pr_address p, p)) (en_peers e)) []"

definition start_engine :: "string \<Rightarrow> peer_config \<Rightarrow> bool \<Rightarrow> error + engine" where
  "start_engine peerKey config enrollment =
     (case pc_vpn config of
        None \<Rightarrow> Inl ''VPN mode requires a [vpn] configuration''
      | Some vpn \<Rightarrow>
          (case engine_peers peerKey config of
             Inl e \<Rightarrow> Inl e
           | Inr peers \<Rightarrow>
               Inr \<lparr>en_peerKey = peerKey, en_address = vc_address vpn, en_peers = peers,
                    en_enrollment = enrollment, en_objects = [], en_sessions = [], en_lastAdmissions = [],
                    en_admissionLogs = [], en_lastUnknownAdmissionLog = None, en_streams = [],
                    en_enrollmentReservations = [], en_enrollmentStreams = [],
                    en_enrollmentAttempts = [], en_enrollmentRejectionLogs = [], en_stopping = False,
                    en_tun = True, en_tunWriting = False\<rparr>))"

section \<open>Admission\<close>

definition logAdmission :: "int \<Rightarrow> peer \<Rightarrow> string \<Rightarrow> engine \<Rightarrow> engine \<times> effect list" where
  "logAdmission now p message e =
     (let logKey = pr_key p @ '':'' @ message in
      case map_get (en_admissionLogs e) logKey of
        Some l \<Rightarrow>
          if now - l < 5000 then (e, [])
          else (e\<lparr>en_admissionLogs := map_set logKey now (en_admissionLogs e)\<rparr>,
                [Log (''VPN admission for '' @ pr_label p @ '': '' @ message)])
      | None \<Rightarrow>
          (e\<lparr>en_admissionLogs := map_set logKey now (en_admissionLogs e)\<rparr>,
           [Log (''VPN admission for '' @ pr_label p @ '': '' @ message)]))"

text \<open>The reservation of an unknown key for one enrollment; the result is the firewall's.\<close>

definition reserve_enrollment :: "int \<Rightarrow> string \<Rightarrow> engine \<Rightarrow> bool reaction" where
  "reserve_enrollment now key e =
     (let reservations = filter (\<lambda>(_, expiry). \<not> expiry \<le> now) (en_enrollmentReservations e);
          attempts = dropWhile (\<lambda>t. now - t \<ge> 60000) (en_enrollmentAttempts e);
          e1 = e\<lparr>en_enrollmentReservations := reservations, en_enrollmentAttempts := attempts\<rparr> in
      if length attempts \<ge> 32 \<or> length (en_enrollmentStreams e) + length reservations \<ge> 8 \<or>
         map_get reservations key \<noteq> None
      then (True, e1, [])
      else (False, e1\<lparr>en_enrollmentAttempts := attempts @ [now],
                      en_enrollmentReservations := map_set key (now + 10000) reservations\<rparr>, []))"

definition unknown_admission :: "int \<Rightarrow> bool \<Rightarrow> engine \<Rightarrow> bool reaction" where
  "unknown_admission now unknown e =
     (let report = (if unknown then [Diagnostic Admission_unknown] else []);
          quiet = (case en_lastUnknownAdmissionLog e of None \<Rightarrow> False | Some l \<Rightarrow> now - l < 5000) in
      if quiet then (True, e, report)
      else (True, e\<lparr>en_lastUnknownAdmissionLog := Some now\<rparr>,
            report @ [Log ''VPN admission rejected: peer is unknown or not configured to accept'']))"

text \<open>The DHT firewall callback; \<open>True\<close> rejects the handshake.\<close>

definition firewall :: "int \<Rightarrow> string \<Rightarrow> engine \<Rightarrow> bool reaction" where
  "firewall now key e =
     (case map_get (byKey e) key of
        None \<Rightarrow>
          if en_enrollment e \<and> \<not> en_stopping e then reserve_enrollment now key e
          else unknown_admission now True e
      | Some p \<Rightarrow>
          if pr_direction p \<noteq> Accept then unknown_admission now False e
          else if map_get (en_sessions e) key \<noteq> None then
            (let (e1, out) = logAdmission now p ''rejected because a session is already active'' e
             in (True, e1, out))
          else if (case map_get (en_lastAdmissions e) key of None \<Rightarrow> False | Some l \<Rightarrow> now - l < 1000) then
            (let (e1, out) = logAdmission now p ''rejected by handshake retry rate limit'' e
             in (True, e1, out))
          else
            (let (e1, out) = logAdmission now p ''authenticated handshake admitted''
                   (e\<lparr>en_lastAdmissions := map_set key now (en_lastAdmissions e)\<rparr>)
             in (False, e1, out @ [Diagnostic Admission_accepted])))"

section \<open>Streams\<close>

definition attachEnrollment :: "nat \<Rightarrow> engine \<Rightarrow> engine \<times> effect list" where
  "attachEnrollment stream e =
     (if en_stopping e \<or> length (en_enrollmentStreams e) \<ge> 8 then (e, [Destroy stream])
      else (e\<lparr>en_streams := set_add stream (en_streams e),
              en_enrollmentStreams := set_add stream (en_enrollmentStreams e)\<rparr>, []))"

definition attach :: "peer \<Rightarrow> nat \<Rightarrow> engine \<Rightarrow> engine \<times> effect list" where
  "attach p stream e =
     (if en_stopping e \<or> map_get (en_sessions e) (pr_key p) \<noteq> None then (e, [Destroy stream])
      else
        (e\<lparr>en_streams := set_add stream (en_streams e),
           en_objects := map_set stream
             \<lparr>ss_key = pr_key p,
              ss_policy = new_policy (en_address e) (pr_address p) (pr_allowTcp p) (\<not> en_enrollment e),
              ss_ready = False, ss_first = True\<rparr> (en_objects e),
           en_sessions := map_set (pr_key p) stream (en_sessions e)\<rparr>,
         [Send_frame stream hello]))"

text \<open>A transport that the server has accepted.\<close>

definition accept_stream :: "string \<Rightarrow> nat \<Rightarrow> engine \<Rightarrow> engine \<times> effect list" where
  "accept_stream key stream e =
     (let reserved = map_get (en_enrollmentReservations e) key \<noteq> None;
          e1 = e\<lparr>en_enrollmentReservations := map_delete key (en_enrollmentReservations e)\<rparr> in
      case map_get (byKey e) key of
        None \<Rightarrow>
          if en_enrollment e \<and> reserved \<and> \<not> en_stopping e then attachEnrollment stream e1
          else (e1, [Destroy stream])
      | Some p \<Rightarrow>
          if pr_direction p \<noteq> Accept \<or> en_stopping e then (e1, [Destroy stream])
          else
            (let (e2, out) = attach p stream e1
             in (e2, Log (''VPN transport accepted from '' @ pr_label p @ ''; awaiting protocol handshake'') # out)))"

text \<open>One round of \<open>dial\<close>: the connection that is opened, and how it comes out.\<close>

definition dial_open :: "nat \<Rightarrow> engine \<Rightarrow> engine" where
  "dial_open stream e = (if en_stopping e then e else e\<lparr>en_streams := set_add stream (en_streams e)\<rparr>)"

definition dial_failed :: "peer \<Rightarrow> nat \<Rightarrow> thrown \<Rightarrow> engine \<Rightarrow> engine \<times> effect list" where
  "dial_failed p stream err e =
     (e\<lparr>en_streams := set_delete stream (en_streams e)\<rparr>,
      (if en_stopping e then []
       else [Log (''VPN dial to '' @ pr_label p @ '' failed before transport connected: '' @ diagnosticError err)]) @
      [Destroy stream])"

definition dial_connected :: "peer \<Rightarrow> nat \<Rightarrow> string \<Rightarrow> engine \<Rightarrow> engine \<times> effect list" where
  "dial_connected p stream remoteKey e =
     (if en_stopping e then (e\<lparr>en_streams := set_delete stream (en_streams e)\<rparr>, [Destroy stream])
      else if remoteKey \<noteq> pr_key p then dial_failed p stream (thrown_error ''VPN peer identity mismatch'') e
      else
        (let (e1, out) = attach p stream e
         in (e1, Log (''VPN transport opened locally to '' @ pr_label p @ ''; awaiting protocol handshake'') # out)))"

section \<open>Enrollment requests\<close>

text \<open>How the callback \<open>options.enrollment.enroll\<close> comes out: an address, or what it throws.\<close>

datatype enroll_outcome = Enrolled string | Rejected enrollment_rejection | Threw string

definition rejection_detail :: "enrollment_rejection \<Rightarrow> string" where
  "rejection_detail r =
     (case r of
        Capacity \<Rightarrow> ''device capacity exhausted''
      | Pool \<Rightarrow> ''address pool exhausted''
      | Route \<Rightarrow> ''address pool conflicts with an existing route''
      | Excluded \<Rightarrow> ''device already has the excluded address; inspect and revoke it before re-admission'')"

definition log_rejection :: "int \<Rightarrow> enrollment_rejection \<Rightarrow> engine \<Rightarrow> engine \<times> effect list" where
  "log_rejection now r e =
     (let quiet = (case map_get (en_enrollmentRejectionLogs e) r of None \<Rightarrow> False | Some l \<Rightarrow> now - l < 5000) in
      if quiet then (e, [])
      else (e\<lparr>en_enrollmentRejectionLogs := map_set r now (en_enrollmentRejectionLogs e)\<rparr>,
            [Log (''VPN enrollment rejected: '' @ rejection_detail r)]))"

text \<open>
  \<open>enroll\<close>.  The callback is only called for a frame that carries a secret; \<open>outcome\<close> is its
  result as a function of that secret.
\<close>

definition enroll_request ::
  "int \<Rightarrow> nat \<Rightarrow> bytes \<Rightarrow> (string \<Rightarrow> enroll_outcome) \<Rightarrow> engine \<Rightarrow> engine \<times> effect list" where
  "enroll_request now stream packet outcome e =
     (let result = (case enrollmentSecret packet of
                      Inl m \<Rightarrow> Threw m
                    | Inr None \<Rightarrow> Threw ''unusable invitation''
                    | Inr (Some secret) \<Rightarrow>
                        if en_enrollment e then outcome secret else Threw ''unusable invitation'') in
      case result of
        Enrolled a \<Rightarrow>
          (e, [Send_response stream (Response_accepted a (en_address e) (en_peerKey e)), Enrollment_changed])
      | Rejected r \<Rightarrow>
          (let (e1, out) = log_rejection now r e in (e1, out @ [Send_response stream (Response_rejected r)]))
      | Threw m \<Rightarrow>
          (e, [Send_response stream
                 (if m = ''unusable invitation'' then Response_unusable else Response_unknown)]))"

definition enrollment_done :: "nat \<Rightarrow> engine \<Rightarrow> engine \<times> effect list" where
  "enrollment_done stream e =
     (e\<lparr>en_enrollmentStreams := set_delete stream (en_enrollmentStreams e),
        en_streams := set_delete stream (en_streams e)\<rparr>, [Destroy stream])"

text \<open>
  A frame on an enrollment stream.  \<open>is_first\<close> is the closure's variable: a second frame throws,
  which ends the loop.
\<close>

definition enrollment_frame ::
  "int \<Rightarrow> nat \<Rightarrow> bool \<Rightarrow> bytes \<Rightarrow> (string \<Rightarrow> enroll_outcome) \<Rightarrow> engine \<Rightarrow> engine \<times> effect list" where
  "enrollment_frame now stream is_first packet outcome e =
     (if \<not> is_first then enrollment_done stream e
      else (let (e1, out) = enroll_request now stream packet outcome e in (e1, out @ [End_stream stream])))"

section \<open>Sessions\<close>

definition label_of :: "engine \<Rightarrow> string \<Rightarrow> string" where
  "label_of e key = (case map_get (byKey e) key of None \<Rightarrow> [] | Some p \<Rightarrow> pr_label p)"

definition peerStatus :: "engine \<Rightarrow> string \<Rightarrow> bool \<Rightarrow> effect list" where
  "peerStatus e key connected = [Status key (label_of e key) connected]"

text \<open>\<open>sessions.get(peer.key) === session\<close>.\<close>

definition is_current :: "engine \<Rightarrow> nat \<Rightarrow> session \<Rightarrow> bool" where
  "is_current e stream s \<longleftrightarrow> map_get (en_sessions e) (ss_key s) = Some stream"

definition put_session :: "nat \<Rightarrow> session \<Rightarrow> engine \<Rightarrow> engine" where
  "put_session stream s e = e\<lparr>en_objects := map_set stream s (en_objects e)\<rparr>"

text \<open>The \<open>catch\<close> and \<open>finally\<close> of a session's loop.\<close>

definition session_failed :: "nat \<Rightarrow> session \<Rightarrow> thrown \<Rightarrow> engine \<Rightarrow> effect list" where
  "session_failed stream s err e =
     (if en_stopping e then []
      else [Log (''VPN '' @ (if ss_ready s then ''session'' else ''handshake'') @ '' with '' @
                 label_of e (ss_key s) @ '' failed: '' @ diagnosticError err)]) @
     [Destroy stream]"

definition first_frame ::
  "int \<Rightarrow> nat \<Rightarrow> session \<Rightarrow> bytes \<Rightarrow> (string \<Rightarrow> enroll_outcome) \<Rightarrow> engine \<Rightarrow> engine \<times> effect list" where
  "first_frame now stream s packet outcome e =
     (let s1 = s\<lparr>ss_first := False\<rparr>; e1 = put_session stream s1 e in
      if en_enrollment e \<and> ascii_decode (take (length ENROLLMENT_PREFIX) packet) = ENROLLMENT_PREFIX then
        (let (e2, out) = enroll_request now stream packet outcome e1
         in (e2, out @ [End_stream stream]))
      else if packet \<noteq> hello then
        (e1, session_failed stream s1 (thrown_error ''VPN protocol mismatch'') e1)
      else
        (put_session stream (s1\<lparr>ss_ready := True\<rparr>) e,
         peerStatus e (ss_key s) True @ [Log (''VPN peer connected: '' @ label_of e (ss_key s))]))"

definition session_frame ::
  "int \<Rightarrow> int \<Rightarrow> nat \<Rightarrow> bytes \<Rightarrow> (string \<Rightarrow> enroll_outcome) \<Rightarrow> engine \<Rightarrow> engine \<times> effect list" where
  "session_frame now date stream packet outcome e =
     (case map_get (en_objects e) stream of
        None \<Rightarrow> (e, [])
      | Some s \<Rightarrow>
          if \<not> is_current e stream s \<or> en_stopping e then (e, [])
          else if ss_first s then first_frame now stream s packet outcome e
          else if \<not> ss_ready s then
            (e, session_failed stream s (thrown_error ''VPN protocol handshake missing'') e)
          else if en_tunWriting e \<or> \<not> en_tun e then (e, [Diagnostic Packet_busy])
          else
            (let (ok, pol, events) = admit date packet In (ss_policy s);
                 e1 = put_session stream (s\<lparr>ss_policy := pol\<rparr>) e in
             if \<not> ok then (e1, map Diagnostic events @ [Diagnostic Policy_rejected])
             else (e1\<lparr>en_tunWriting := True\<rparr>,
                   map Diagnostic events @ [Diagnostic Policy_admitted, To_device packet])))"

text \<open>The write to the device has finished, or failed, which ends the session's loop.\<close>

definition device_written :: "nat \<Rightarrow> thrown option \<Rightarrow> engine \<Rightarrow> engine \<times> effect list" where
  "device_written stream failure e =
     (let e1 = e\<lparr>en_tunWriting := False\<rparr> in
      case (failure, map_get (en_objects e) stream) of
        (Some err, Some s) \<Rightarrow> (e1, session_failed stream s err e)
      | _ \<Rightarrow> (e1, []))"

text \<open>The receive loop ends: the remote side has ended, or the stream or the framing has failed.\<close>

definition session_ended :: "nat \<Rightarrow> thrown option \<Rightarrow> engine \<Rightarrow> engine \<times> effect list" where
  "session_ended stream failure e =
     (case map_get (en_objects e) stream of
        None \<Rightarrow> (e, [])
      | Some s \<Rightarrow>
          (case failure of
             Some err \<Rightarrow> (e, session_failed stream s err e)
           | None \<Rightarrow>
               (e, if ss_first s then session_failed stream s (thrown_error ''VPN protocol handshake missing'') e
                   else [Destroy stream])))"

definition handshake_timeout :: "nat \<Rightarrow> string \<Rightarrow> engine \<Rightarrow> engine \<times> effect list" where
  "handshake_timeout stream snapshot e =
     (case map_get (en_objects e) stream of
        None \<Rightarrow> (e, [])
      | Some s \<Rightarrow>
          if ss_ready s then (e, [])
          else (e, [Log (''VPN handshake timeout with '' @ label_of e (ss_key s) @ '': transport='' @ snapshot),
                    Destroy stream]))"

text \<open>A session that is over: its policy is cleared, and a ready one is reported.\<close>

definition end_session :: "session \<Rightarrow> session" where
  "end_session s = s\<lparr>ss_policy := policy_clear (ss_policy s), ss_ready := False\<rparr>"

definition ended_status :: "engine \<Rightarrow> session \<Rightarrow> effect list" where
  "ended_status e s = (if ss_ready s then peerStatus e (ss_key s) False else [])"

text \<open>The \<open>close\<close> event of a session's stream.\<close>

definition session_closed :: "nat \<Rightarrow> engine \<Rightarrow> engine \<times> effect list" where
  "session_closed stream e =
     (let e1 = e\<lparr>en_streams := set_delete stream (en_streams e)\<rparr> in
      case map_get (en_objects e) stream of
        None \<Rightarrow> (e1, [])
      | Some s \<Rightarrow>
          (put_session stream (end_session s)
             (if is_current e stream s then e1\<lparr>en_sessions := map_delete (ss_key s) (en_sessions e)\<rparr> else e1),
           ended_status e s))"

section \<open>The device and the end\<close>

text \<open>
  A packet of the device; \<open>sent\<close> tells whether \<open>frames.send\<close> writes the frame to the stream.  When
  the stream closes or fails while the send waits for it to drain, the frame has been written: this
  is \<open>sent\<close>, followed by the end of the stream, which is destroyed once more without effect.
\<close>

definition device_packet :: "int \<Rightarrow> bytes \<Rightarrow> bool \<Rightarrow> engine \<Rightarrow> engine \<times> effect list" where
  "device_packet date packet sent e =
     (if length packet < 20 \<or> byte_at packet 0 div 16 \<noteq> 4 then (e, [])
      else
        (case map_get (byAddress e) (address packet 16) of
           None \<Rightarrow> (e, [])
         | Some p \<Rightarrow>
             (case map_get (en_sessions e) (pr_key p) of
                None \<Rightarrow> (e, [])
              | Some stream \<Rightarrow>
                  (case map_get (en_objects e) stream of
                     None \<Rightarrow> (e, [])
                   | Some s \<Rightarrow>
                       if \<not> ss_ready s then (e, [])
                       else
                         (let (ok, pol, events) = admit date packet Out (ss_policy s);
                              e1 = put_session stream (s\<lparr>ss_policy := pol\<rparr>) e in
                          (e1, map Diagnostic events @
                             (if \<not> ok then []
                              else if sent then [Send_frame stream packet] else [Destroy stream])))))))"

definition device_closed :: "engine \<Rightarrow> string option" where
  "device_closed e = (if en_stopping e then None else Some ''TUN packet stream closed'')"

text \<open>The loop over \<open>sessions\<close> in \<open>stop\<close>.\<close>

fun end_sessions :: "(string, nat) js_map \<Rightarrow> engine \<Rightarrow> engine \<times> effect list" where
  "end_sessions [] e = (e, [])"
| "end_sessions ((key, stream) # rest) e =
     (case map_get (en_objects e) stream of
        None \<Rightarrow> end_sessions rest e
      | Some s \<Rightarrow>
          (let (e1, out) = end_sessions rest (put_session stream (end_session s) e)
           in (e1, ended_status e s @ out)))"

definition stop_engine :: "engine \<Rightarrow> engine \<times> effect list" where
  "stop_engine e =
     (if en_stopping e then (e, [])
      else
        (let (e1, out) = end_sessions (en_sessions e) (e\<lparr>en_stopping := True\<rparr>)
         in (e1\<lparr>en_sessions := []\<rparr>, out @ map Destroy (en_streams e) @ [Close_all])))"

section \<open>Runs\<close>

datatype engine_event =
  Ev_firewall int string |
  Ev_accept string nat |
  Ev_dial_open nat |
  Ev_dial_connected peer nat string |
  Ev_dial_failed peer nat thrown |
  Ev_enrollment_frame int nat bool bytes "string \<Rightarrow> enroll_outcome" |
  Ev_enrollment_done nat |
  Ev_frame int int nat bytes "string \<Rightarrow> enroll_outcome" |
  Ev_device_written nat "thrown option" |
  Ev_ended nat "thrown option" |
  Ev_timeout nat string |
  Ev_closed nat |
  Ev_device int bytes bool |
  Ev_stop

fun engine_step :: "engine_event \<Rightarrow> engine \<Rightarrow> engine \<times> effect list" where
  "engine_step (Ev_firewall now key) e = (let (_, e1, out) = firewall now key e in (e1, out))"
| "engine_step (Ev_accept key stream) e = accept_stream key stream e"
| "engine_step (Ev_dial_open stream) e = (dial_open stream e, [])"
| "engine_step (Ev_dial_connected p stream remote) e = dial_connected p stream remote e"
| "engine_step (Ev_dial_failed p stream err) e = dial_failed p stream err e"
| "engine_step (Ev_enrollment_frame now stream is_first packet outcome) e =
     enrollment_frame now stream is_first packet outcome e"
| "engine_step (Ev_enrollment_done stream) e = enrollment_done stream e"
| "engine_step (Ev_frame now date stream packet outcome) e =
     session_frame now date stream packet outcome e"
| "engine_step (Ev_device_written stream failure) e = device_written stream failure e"
| "engine_step (Ev_ended stream failure) e = session_ended stream failure e"
| "engine_step (Ev_timeout stream snapshot) e = handshake_timeout stream snapshot e"
| "engine_step (Ev_closed stream) e = session_closed stream e"
| "engine_step (Ev_device date packet sent) e = device_packet date packet sent e"
| "engine_step Ev_stop e = stop_engine e"

text \<open>
  The engine's runs.  Events come in any order; a dialled peer is one of the configured ones,
  and a stream that is attached is new.
\<close>

fun event_ok :: "engine_event \<Rightarrow> engine \<Rightarrow> bool" where
  "event_ok (Ev_accept key stream) e \<longleftrightarrow> map_get (en_objects e) stream = None"
| "event_ok (Ev_dial_connected p stream remote) e \<longleftrightarrow>
     p \<in> set (en_peers e) \<and> map_get (en_objects e) stream = None"
| "event_ok _ e \<longleftrightarrow> True"

inductive engine_run :: "engine \<Rightarrow> engine_event list \<Rightarrow> engine \<Rightarrow> effect list \<Rightarrow> bool" where
  run_start: "engine_run e [] e []"
| run_step: "engine_run e evs e1 out \<Longrightarrow> event_ok ev e1 \<Longrightarrow> engine_step ev e1 = (e2, out') \<Longrightarrow>
    engine_run e (evs @ [ev]) e2 (out @ out')"

end
