(* ===== verification/Linux_Tun.thy ===== *)
theory Linux_Tun
  imports Ipv4 Js_Number Framing
begin

text \<open>
  The Linux packet device, \<open>src/vpn/linux-tun.ts\<close>: the checks of pools and addresses against the
  host's routes, and the start of the TUN helper.  The output of \<open>ip route\<close>, the local
  addresses, and how the helper and the \<open>ip\<close> commands come out are arguments.
\<close>

section \<open>Routes\<close>

text \<open>A dotted address with up to three digits in each field, as a 32-bit number.\<close>

definition field_ok :: "string \<Rightarrow> bool" where
  "field_ok s \<longleftrightarrow> s \<noteq> [] \<and> length s \<le> 3 \<and> (\<forall>c \<in> set s. is_digit c) \<and> read_nat s \<le> 255"

definition toNumber :: "string \<Rightarrow> u32 option" where
  "toNumber input =
     (let fields = split_on CHR ''.'' input in
      if length fields \<noteq> 4 \<or> (\<exists>f \<in> set fields. \<not> field_ok f) then None
      else Some (foldl (\<lambda>result value. push_bit 8 result OR of_nat (read_nat value)) 0 fields))"

definition route_bits :: "string list \<Rightarrow> js" where
  "route_bits parts = (if length parts = 1 then JInt 32 else js_Number (parts ! 1))"

definition routeContains :: "string \<Rightarrow> string \<Rightarrow> bool" where
  "routeContains route address =
     (if route = ''default'' \<or> route = ''0.0.0.0/0'' then False
      else
        (let parts = split_on CHR ''/'' route in
         case (route_bits parts, toNumber (hd parts), toNumber address) of
           (JInt bits, Some network, Some target) \<Rightarrow>
             if length parts > 2 \<or> bits < 1 \<or> bits > 32 then False
             else
               (let mask = push_bit (32 - nat bits) (- 1) in
                (network AND mask) = (target AND mask))
         | _ \<Rightarrow> False))"

text \<open>A property of a value that may not be an object.\<close>

definition field_of :: "js \<Rightarrow> string \<Rightarrow> js" where
  "field_of v k = (case v of JObj ps \<Rightarrow> prop_of ps k | _ \<Rightarrow> JUndefined)"

text \<open>\<open>stdout\<close> is the parsed output of \<open>ip route show\<close>, if it ran and could be parsed.\<close>

definition readRoutes :: "js option \<Rightarrow> error + js list" where
  "readRoutes stdout =
     (case stdout of
        Some (JArr routes) \<Rightarrow> Inr routes
      | _ \<Rightarrow> Inl ''Cannot inspect existing IPv4 routes'')"

datatype pool_check = Pool_ok | Route_conflict | Pool_check_failed error

definition skipped_route :: "string option \<Rightarrow> js \<Rightarrow> bool" where
  "skipped_route ignoreInterface item \<longleftrightarrow>
     (case field_of item ''dst'' of
        JStr dst \<Rightarrow>
          dst = ''default'' \<or> dst = ''0.0.0.0/0'' \<or>
          (case ignoreInterface of
             None \<Rightarrow> False
           | Some dev \<Rightarrow> dev \<noteq> [] \<and> field_of item ''dev'' = JStr dev)
      | _ \<Rightarrow> True)"

definition overlaps :: "string \<Rightarrow> js \<Rightarrow> bool" where
  "overlaps pool item =
     (case field_of item ''dst'' of
        JStr dst \<Rightarrow>
          routeContains dst (hd (split_on CHR ''/'' pool)) \<or> routeContains pool (hd (split_on CHR ''/'' dst))
      | _ \<Rightarrow> False)"

definition checkPoolRoutes :: "js option \<Rightarrow> string \<Rightarrow> string option \<Rightarrow> pool_check" where
  "checkPoolRoutes stdout pool ignoreInterface =
     (case readRoutes stdout of
        Inl e \<Rightarrow> Pool_check_failed e
      | Inr routes \<Rightarrow>
          if \<exists>item \<in> set routes. \<not> skipped_route ignoreInterface item \<and> overlaps pool item
          then Route_conflict else Pool_ok)"

definition host_route :: "string \<Rightarrow> js \<Rightarrow> bool" where
  "host_route target item \<longleftrightarrow>
     (field_of item ''dst'' = JStr target \<or> field_of item ''dst'' = JStr (target @ ''/32'')) \<and>
     field_of item ''protocol'' \<noteq> JStr ''kernel'' \<and> field_of item ''type'' \<noteq> JStr ''local'' \<and>
     field_of item ''type'' \<noteq> JStr ''broadcast''"

text \<open>The check of one address against the local addresses, as pairs of name and address.\<close>

definition check_target :: "(string \<times> string) list \<Rightarrow> js list \<Rightarrow> string \<Rightarrow> error option" where
  "check_target local routes target =
     (case find (\<lambda>(name, a). a = target) local of
        Some (name, _) \<Rightarrow>
          Some (''IPv4 address '' @ target @ '' is already assigned on '' @ name @ ''; resolve the address conflict'')
      | None \<Rightarrow>
          (case find (host_route target) routes of
             Some route \<Rightarrow>
               Some (''IPv4 host route '' @ target @ ''/32 already exists'' @
                     (case field_of route ''dev'' of JStr dev \<Rightarrow> '' on '' @ dev | _ \<Rightarrow> []) @
                     ''; resolve the route conflict'')
           | None \<Rightarrow> None))"

fun first_error :: "error option list \<Rightarrow> error option" where
  "first_error [] = None"
| "first_error (None # rs) = first_error rs"
| "first_error (Some e # rs) = Some e"

definition checkDialerAddresses ::
  "string \<Rightarrow> string list \<Rightarrow> (string \<times> string) list \<Rightarrow> error + js list \<Rightarrow> error option" where
  "checkDialerAddresses address peers local routes =
     (case routes of
        Inl e \<Rightarrow> Some e
      | Inr rs \<Rightarrow> first_error (map (check_target local rs) (address # peers)))"

section \<open>The helper\<close>

text \<open>What the helper's third pipe delivers, and the end of the process, in their order.\<close>

datatype pipe_event = Pipe_data string | Pipe_end | Pipe_error error | Helper_closed error

definition interface_name :: "string \<Rightarrow> bool" where
  "interface_name s \<longleftrightarrow>
     take 3 s = ''kep'' \<and> drop 3 s \<noteq> [] \<and> (\<forall>c \<in> set (drop 3 s). is_digit c)"

text \<open>The promise \<open>ready\<close>: \<open>None\<close> while it is pending.  The first settlement counts.\<close>

fun helper_ready :: "string \<Rightarrow> pipe_event list \<Rightarrow> (error + string) option" where
  "helper_ready name [] = None"
| "helper_ready name (Pipe_data chunk # evs) =
     (let name' = name @ chunk in
      if length name' > 16 then Some (Inl ''TUN helper returned an invalid interface name'')
      else if CHR 10 \<in> set name' then
        (if interface_name (trim name') then Some (Inr (trim name'))
         else Some (Inl ''TUN helper returned an invalid interface name''))
      else helper_ready name' evs)"
| "helper_ready name (Pipe_end # evs) = Some (Inl ''TUN helper closed before interface was ready'')"
| "helper_ready name (Pipe_error e # evs) = Some (Inl e)"
| "helper_ready name (Helper_closed e # evs) = Some (Inl e)"

text \<open>The last 4096 characters that the helper wrote to its error output.\<close>

definition stderr_detail :: "string \<Rightarrow> string \<Rightarrow> string" where
  "stderr_detail detail chunk = (let t = detail @ chunk in drop (length t - 4096) t)"

datatype helper_end = Start_failed string | Exited string

definition helper_closed :: "string \<Rightarrow> string \<Rightarrow> helper_end \<Rightarrow> error" where
  "helper_closed helper detail end =
     (case end of
        Start_failed message \<Rightarrow> ''Cannot start TUN helper '' @ helper @ '': '' @ message
      | Exited status \<Rightarrow> ''TUN helper exited ('' @ status @ ''): '' @ trim detail)"

section \<open>Opening the device\<close>

text \<open>What the adapter does, in order: the helper's start, the \<open>ip\<close> commands, and its stop.\<close>

datatype tun_effect = Spawn string | Ip "string list" | Close_helper

record tun_options =
  to_helper :: string
  to_address :: string
  to_peerAddresses :: "string list"
  to_checkRouteConflicts :: bool
  to_dialerPeerAddresses :: "string list"

text \<open>The commands that configure the interface; each may fail with a message.\<close>

definition ip_commands :: "string \<Rightarrow> string \<Rightarrow> string list \<Rightarrow> string list list" where
  "ip_commands name address peerAddresses =
     [[''address'', ''add'', address @ ''/32'', ''dev'', name],
      [''link'', ''set'', ''dev'', name, ''mtu'', ''1400'', ''up'']] @
     map (\<lambda>a. [''route'', ''add'', a @ ''/32'', ''dev'', name]) peerAddresses"

fun run_ip :: "(string list \<Rightarrow> error option) \<Rightarrow> string list list \<Rightarrow> error option \<times> tun_effect list" where
  "run_ip exec [] = (None, [])"
| "run_ip exec (c # cs) =
     (case exec c of
        Some message \<Rightarrow>
          (Some (''Cannot configure TUN (requires iproute2 and CAP_NET_ADMIN): '' @ message), [Ip c])
      | None \<Rightarrow> (case run_ip exec cs of (r, out) \<Rightarrow> (r, Ip c # out)))"

definition route_conflict :: "js list \<Rightarrow> string list \<Rightarrow> bool" where
  "route_conflict routes peerAddresses \<longleftrightarrow>
     (\<exists>address \<in> set peerAddresses. \<exists>route \<in> set routes.
        case field_of route ''dst'' of JStr dst \<Rightarrow> routeContains dst address | _ \<Rightarrow> False)"

text \<open>
  What happens once the helper runs: its interface name, the routes (read only when they are to
  be checked) and the commands.
\<close>

definition configure_tun ::
  "tun_options \<Rightarrow> error + string \<Rightarrow> js option \<Rightarrow> (string list \<Rightarrow> error option) \<Rightarrow>
   (error + string) \<times> tun_effect list" where
  "configure_tun opts ready stdout exec =
     (case ready of
        Inl e \<Rightarrow> (Inl e, [])
      | Inr name \<Rightarrow>
          (case (if to_checkRouteConflicts opts then
                   (case readRoutes stdout of
                      Inl e \<Rightarrow> Some e
                    | Inr routes \<Rightarrow>
                        if route_conflict routes (to_peerAddresses opts)
                        then Some ''Allocated peer address conflicts with an existing IPv4 route'' else None)
                 else None) of
             Some e \<Rightarrow> (Inl e, [])
           | None \<Rightarrow>
               (case run_ip exec (ip_commands name (to_address opts) (to_peerAddresses opts)) of
                  (Some e, out) \<Rightarrow> (Inl e, out)
                | (None, out) \<Rightarrow> (Inr name, out))))"

definition openLinuxTun ::
  "bool \<Rightarrow> tun_options \<Rightarrow> (string \<times> string) list \<Rightarrow> js option \<Rightarrow> error + string \<Rightarrow> js option \<Rightarrow>
   (string list \<Rightarrow> error option) \<Rightarrow> (error + string) \<times> tun_effect list" where
  "openLinuxTun linux opts local before ready stdout exec =
     (if \<not> linux then (Inl ''VPN TUN is supported only on Linux'', [])
      else
        (case (if to_dialerPeerAddresses opts = [] then None
               else checkDialerAddresses (to_address opts) (to_dialerPeerAddresses opts) local (readRoutes before)) of
           Some e \<Rightarrow> (Inl e, [])
         | None \<Rightarrow>
             (case configure_tun opts ready stdout exec of
                (Inl e, out) \<Rightarrow> (Inl e, Spawn (to_helper opts) # out @ [Close_helper])
              | (Inr name, out) \<Rightarrow> (Inr name, Spawn (to_helper opts) # out))))"

end
