(* ===== verification/Receiver.thy ===== *)
theory Receiver
  imports Engine Linux_Tun
begin

text \<open>
  The managed receiver, \<open>src/vpn/receiver.ts\<close>: one process that owns the store, runs one engine
  at a time with a configuration made from the store, answers the commands of its control socket
  and enrolls devices.  Everything that touches the store is queued behind \<open>tail\<close>, so each
  queued function is one step.  The engine is reached through \<open>start\<close> and \<open>stop\<close>, whose outcomes
  are arguments, as are the outcomes of the store's file operations.
\<close>

section \<open>State\<close>

text \<open>
  \<open>rc_runtime\<close> is the engine that the variable \<open>runtime\<close> holds: a number that identifies the
  instance, and the configuration it was started with.  \<open>rc_failed\<close> is the error that \<open>failed\<close>
  has been resolved with.
\<close>

record receiver =
  rc_config :: peer_config
  rc_key :: string
  rc_pool :: string
  rc_store :: store
  rc_runtime :: "(nat \<times> peer_config) option"
  rc_started :: nat
  rc_stopping :: bool
  rc_failed :: "error option"
  rc_reload :: bool

text \<open>
  What the receiver does to the outside, in order: engines that start, engines whose stop it has
  awaited, and grants and revocations that it makes in the store, with the devices that the store
  has after each.
\<close>

datatype receiver_effect =
  Engine_start nat peer_config | Engine_stop nat | Policy_write "receiver_device list"

definition vpn_address :: "peer_config \<Rightarrow> string" where
  "vpn_address c = (case pc_vpn c of None \<Rightarrow> [] | Some v \<Rightarrow> vc_address v)"

text \<open>The configuration of the next engine: one accepting peer for each device.\<close>

definition receiver_config :: "peer_config \<Rightarrow> receiver_device list \<Rightarrow> peer_config" where
  "receiver_config config devices =
     config\<lparr>pc_peers := map (\<lambda>d. \<lparr>pf_label = dv_publicKey d, pf_publicKey = dv_publicKey d,
                                  pf_connection = Accept\<rparr>) devices,
            pc_vpn := Some \<lparr>vc_address = vpn_address config,
              vc_peers = map (\<lambda>d. \<lparr>vp_peer = dv_publicKey d, vp_address = dv_address d,
                                   vp_allowTcp = dv_allowTcp d\<rparr>) devices\<rparr>\<rparr>"

definition fail_with :: "error \<Rightarrow> receiver \<Rightarrow> receiver" where
  "fail_with message r =
     (case rc_failed r of None \<Rightarrow> r\<lparr>rc_failed := Some message\<rparr> | Some _ \<Rightarrow> r)"

type_synonym 'a receiver_result = "(rs_error + 'a) \<times> receiver \<times> receiver_effect list"

section \<open>Engines\<close>

text \<open>\<open>start c\<close> is the error of starting an engine with \<open>c\<close>, if it has one.\<close>

definition launch :: "(peer_config \<Rightarrow> error option) \<Rightarrow> receiver \<Rightarrow> unit receiver_result" where
  "launch start r =
     (case list_devices (rc_store r) of
        (Inl e, _) \<Rightarrow> (Inl e, r, [])
      | (Inr devices, _) \<Rightarrow>
          (let next = receiver_config (rc_config r) devices in
           case start next of
             Some e \<Rightarrow> (Inl (Plain e), r, [])
           | None \<Rightarrow>
               (Inr (), r\<lparr>rc_runtime := Some (rc_started r, next), rc_started := Suc (rc_started r)\<rparr>,
                [Engine_start (rc_started r) next])))"

text \<open>\<open>const old = runtime; runtime = undefined; await old?.stop()\<close>.\<close>

definition stop_runtime :: "error option \<Rightarrow> receiver \<Rightarrow> unit receiver_result" where
  "stop_runtime stopped r =
     (case rc_runtime r of
        None \<Rightarrow> (Inr (), r, [])
      | Some (n, _) \<Rightarrow>
          ((case stopped of None \<Rightarrow> Inr () | Some e \<Rightarrow> Inl (Plain e)), r\<lparr>rc_runtime := None\<rparr>, [Engine_stop n]))"

definition restart :: "error option \<Rightarrow> (peer_config \<Rightarrow> error option) \<Rightarrow> receiver \<Rightarrow> unit receiver_result" where
  "restart stopped start r =
     (case stop_runtime stopped r of
        (Inl e, r1, out) \<Rightarrow> (Inl e, r1, out)
      | (Inr _, r1, out) \<Rightarrow> (case launch start r1 of (res, r2, out') \<Rightarrow> (res, r2, out @ out')))"

definition instance_failed :: "nat \<Rightarrow> error \<Rightarrow> receiver \<Rightarrow> receiver" where
  "instance_failed n message r =
     (if \<not> rc_stopping r \<and> (case rc_runtime r of None \<Rightarrow> False | Some (m, _) \<Rightarrow> m = n)
      then fail_with message r else r)"

section \<open>Enrollment\<close>

text \<open>The callback \<open>enroll\<close> of the engine; \<open>isOpen\<close> is the answer of the engine's stream.\<close>

definition enroll_callback ::
  "(string \<Rightarrow> string) \<Rightarrow> js option \<Rightarrow> string option \<Rightarrow> bool \<Rightarrow> string \<Rightarrow> string \<Rightarrow> int \<Rightarrow> save_outcome \<Rightarrow> receiver \<Rightarrow>
   enroll_outcome \<times> receiver" where
  "enroll_callback sha routes interfaceName isOpen key secret now outcome r =
     (case checkPoolRoutes routes (rc_pool r) interfaceName of
        Route_conflict \<Rightarrow> (Rejected Route, r)
      | Pool_check_failed e \<Rightarrow> (Threw e, r)
      | Pool_ok \<Rightarrow>
          if rc_stopping r \<or> \<not> isOpen then (Threw ''enrollment ended'', r)
          else
            (case enroll sha key secret now outcome (rc_store r) of
               (Inr d, st) \<Rightarrow> (Enrolled (dv_address d), r\<lparr>rc_store := st\<rparr>)
             | (Inl (Enrollment_rejected reason), st) \<Rightarrow> (Rejected reason, r\<lparr>rc_store := st\<rparr>)
             | (Inl Storage_failure, st) \<Rightarrow>
                 (Threw ''receiver storage failed'', fail_with ''receiver storage failed'' (r\<lparr>rc_store := st\<rparr>))
             | (Inl (Plain e), st) \<Rightarrow> (Threw e, r\<lparr>rc_store := st\<rparr>)
             | (Inl _, st) \<Rightarrow> (Threw ''invalid invitation exclusion'', r\<lparr>rc_store := st\<rparr>)))"

text \<open>\<open>changed\<close> arms the timer; when it fires, the engine is replaced.\<close>

definition changed :: "receiver \<Rightarrow> receiver" where
  "changed r = r\<lparr>rc_reload := True\<rparr>"

definition reload_fires ::
  "error option \<Rightarrow> (peer_config \<Rightarrow> error option) \<Rightarrow> receiver \<Rightarrow> receiver \<times> receiver_effect list" where
  "reload_fires stopped start r =
     (if rc_stopping r then (r\<lparr>rc_reload := False\<rparr>, [])
      else
        (case restart stopped start (r\<lparr>rc_reload := False\<rparr>) of
           (Inl _, r1, out) \<Rightarrow> (fail_with ''receiver could not apply enrollment'' r1, out)
         | (Inr _, r1, out) \<Rightarrow> (r1, out)))"

section \<open>Commands\<close>

text \<open>The check of a grant's ports before anything is stopped.\<close>

definition command_ports_ok :: "js \<Rightarrow> bool" where
  "command_ports_ok value \<longleftrightarrow>
     value = JStr ''all'' \<or>
     (case value of
        JArr vs \<Rightarrow> length vs \<le> 256 \<and> None \<notin> set (map (port_value 1) vs) \<and> distinct vs
      | _ \<Rightarrow> False)"

text \<open>A change of policy: the engine stops first, and starts again with the new devices.\<close>

definition apply_policy ::
  "error option \<Rightarrow> (peer_config \<Rightarrow> error option) \<Rightarrow> 'a operation \<Rightarrow> receiver \<Rightarrow> js receiver_result" where
  "apply_policy stopped start operation r =
     (case stop_runtime stopped r of
        (Inl e, r1, out) \<Rightarrow> (Inl e, r1, out)
      | (Inr _, r1, out) \<Rightarrow>
          (case operation (rc_store r1) of
             (Inl e, st) \<Rightarrow>
               (Inl e, fail_with ''receiver stopped while applying device policy'' (r1\<lparr>rc_store := st\<rparr>),
                out @ [Policy_write (rs_devices (st_state st))])
           | (Inr _, st) \<Rightarrow>
               (case launch start (r1\<lparr>rc_store := st\<rparr>) of
                  (Inl e, r2, out') \<Rightarrow>
                    (Inl e, fail_with ''receiver stopped while applying device policy'' r2,
                     out @ Policy_write (rs_devices (st_state st)) # out')
                | (Inr _, r2, out') \<Rightarrow>
                    (Inr (JObj [(''ok'', JBool True)]), r2,
                     out @ Policy_write (rs_devices (st_state st)) # out'))))"

definition keys_are :: "(string, js) js_map \<Rightarrow> string \<Rightarrow> bool" where
  "keys_are request names \<longleftrightarrow> joined_keys (map_keys request) = names"

definition invalid_request :: "receiver \<Rightarrow> js receiver_result" where
  "invalid_request r = (Inl (Plain ''invalid request''), r, [])"

text \<open>\<open>invite\<close> and \<open>list\<close>; \<open>secret\<close> and \<open>now\<close> are the fresh secret and the clock.\<close>

definition invite_command ::
  "(string \<Rightarrow> string) \<Rightarrow> (string, js) js_map \<Rightarrow> int \<Rightarrow> string \<Rightarrow> save_outcome \<Rightarrow> receiver \<Rightarrow> js receiver_result" where
  "invite_command sha request now secret outcome r =
     (let exclude = (case prop_of request ''excludeAddress'' of JStr a \<Rightarrow> Some a | _ \<Rightarrow> None) in
      case createInvitation sha exclude now secret outcome (rc_store r) of
        (Inl e, st) \<Rightarrow> (Inl e, r\<lparr>rc_store := st\<rparr>, [])
      | (Inr token, st) \<Rightarrow> (Inr (JObj [(''invitation'', JStr token)]), r\<lparr>rc_store := st\<rparr>, []))"

definition list_command :: "receiver \<Rightarrow> js receiver_result" where
  "list_command r =
     (case list_devices (rc_store r) of
        (Inl e, _) \<Rightarrow> (Inl e, r, [])
      | (Inr ds, _) \<Rightarrow> (Inr (JObj [(''devices'', JArr (map device_json ds))]), r, []))"

text \<open>\<open>grant\<close> and \<open>revoke\<close> of a device that the store knows.\<close>

definition policy_command ::
  "(string, js) js_map \<Rightarrow> string \<Rightarrow> string \<Rightarrow> save_outcome \<Rightarrow> error option \<Rightarrow> (peer_config \<Rightarrow> error option) \<Rightarrow>
   receiver \<Rightarrow> js receiver_result" where
  "policy_command request action key outcome stopped start r =
     (if action = ''grant'' \<and> \<not> keys_are request ''action,key,ports'' then invalid_request r
      else if action = ''revoke'' \<and> \<not> keys_are request ''action,key'' then invalid_request r
      else if \<not> key_hex key then (Inl (Plain ''unknown receiver device''), r, [])
      else
        (case list_devices (rc_store r) of
           (Inl e, _) \<Rightarrow> (Inl e, r, [])
         | (Inr ds, _) \<Rightarrow>
             if \<not> (\<exists>d \<in> set ds. dv_publicKey d = key) then (Inl (Plain ''unknown receiver device''), r, [])
             else if action = ''grant'' \<and> \<not> command_ports_ok (prop_of request ''ports'') then
               (Inl (Plain ''invalid TCP grant''), r, [])
             else if action = ''grant'' then
               apply_policy stopped start (grant_ports key (prop_of request ''ports'') outcome) r
             else apply_policy stopped start (revoke key outcome) r))"

text \<open>How the world answers a command: fresh secret and time, the store's file, and the engines.\<close>

record answers =
  an_now :: int
  an_secret :: string
  an_saved :: save_outcome
  an_stopped :: "error option"
  an_start :: "peer_config \<Rightarrow> error option"

definition command ::
  "(string \<Rightarrow> string) \<Rightarrow> (string, js) js_map \<Rightarrow> answers \<Rightarrow> receiver \<Rightarrow> js receiver_result" where
  "command sha request w r =
     (case prop_of request ''action'' of
        JStr action \<Rightarrow>
          if action = ''invite'' \<and>
             (keys_are request ''action'' \<or>
              (keys_are request ''action,excludeAddress'' \<and>
               (case prop_of request ''excludeAddress'' of JStr _ \<Rightarrow> True | _ \<Rightarrow> False)))
          then invite_command sha request (an_now w) (an_secret w) (an_saved w) r
          else if action = ''list'' \<and> length request = 1 then list_command r
          else if action = ''grant'' \<or> action = ''revoke'' then
            (case prop_of request ''key'' of
               JStr key \<Rightarrow> policy_command request action key (an_saved w) (an_stopped w) (an_start w) r
             | _ \<Rightarrow> invalid_request r)
          else invalid_request r
      | _ \<Rightarrow> invalid_request r)"

section \<open>The control socket\<close>

text \<open>
  A connection's data.  \<open>json\<close> is \<open>JSON.parse\<close>, which fails on text that is not JSON; the reply
  is the value sent back.
\<close>

definition handle_line ::
  "(string \<Rightarrow> js option) \<Rightarrow> (string \<Rightarrow> string) \<Rightarrow> string \<Rightarrow> answers \<Rightarrow> receiver \<Rightarrow> js receiver_result" where
  "handle_line json sha data w r =
     (let line = takeWhile (\<lambda>c. c \<noteq> CHR 10) data; rest = drop (Suc (length line)) data in
      case json line of
        Some (JObj request) \<Rightarrow> if rest \<noteq> [] then invalid_request r else command sha request w r
      | _ \<Rightarrow> invalid_request r)"

definition reply_to :: "rs_error + js \<Rightarrow> js" where
  "reply_to result =
     (case result of
        Inr v \<Rightarrow> JObj [(''result'', v)]
      | Inl e \<Rightarrow> JObj [(''error'', JStr (case e of Exclusion_invalid \<Rightarrow> ''invalid'' | Exclusion_allocated \<Rightarrow> ''allocated''
                                      | _ \<Rightarrow> ''failed''))])"

definition answer_line ::
  "(string \<Rightarrow> js option) \<Rightarrow> (string \<Rightarrow> string) \<Rightarrow> string \<Rightarrow> answers \<Rightarrow> receiver \<Rightarrow>
   js \<times> receiver \<times> receiver_effect list" where
  "answer_line json sha data w r =
     (case handle_line json sha data w r of
        (result, r1, out) \<Rightarrow>
          (reply_to result,
           (if result = Inl Storage_failure then fail_with ''receiver storage failed'' r1 else r1), out))"

text \<open>What a connection does with a chunk: waits, gives up, or hands its line over.\<close>

record client =
  cl_data :: string
  cl_handling :: bool

datatype chunk_result = Waiting | Destroyed | Request string

definition client_data :: "string \<Rightarrow> client \<Rightarrow> chunk_result \<times> client" where
  "client_data chunk c =
     (if cl_handling c then (Destroyed, c)
      else
        (let c1 = c\<lparr>cl_data := cl_data c @ chunk\<rparr> in
         if byteLength (cl_data c1) > 4096 then (Destroyed, c1)
         else if CHR 10 \<notin> set (cl_data c1) then (Waiting, c1)
         else (Request (cl_data c1), c1\<lparr>cl_handling := True\<rparr>)))"

text \<open>Admission of connections: \<open>active\<close> counts those that have not closed.\<close>

definition client_connects :: "bool \<Rightarrow> nat \<Rightarrow> nat \<times> bool" where
  "client_connects stopping active = (if active \<ge> 8 \<or> stopping then (active, False) else (Suc active, True))"

section \<open>Start and stop\<close>

text \<open>
  \<open>opened\<close> is the store that \<open>ReceiverState.open\<close> gives, \<open>control\<close> what \<open>lstat\<close> says of an
  existing socket (whether it is a socket of this user), and \<open>listening\<close> the error of listening.
\<close>

definition start_receiver ::
  "peer_config \<Rightarrow> string \<Rightarrow> string \<Rightarrow> js option \<Rightarrow> rs_error + store \<Rightarrow> (peer_config \<Rightarrow> error option) \<Rightarrow>
   bool option \<Rightarrow> error option \<Rightarrow> (rs_error + receiver) \<times> receiver_effect list" where
  "start_receiver config publicKey pool routes opened start control listening =
     (if pc_vpn config = None \<or> pc_peers config \<noteq> [] \<or> vc_peers (the (pc_vpn config)) \<noteq> [] then
        (Inl (Plain ''receiver config requires a VPN address and no static peers''), [])
      else
        (case checkPoolRoutes routes pool None of
           Route_conflict \<Rightarrow> (Inl (Plain ''Receiver pool conflicts with an existing IPv4 route''), [])
         | Pool_check_failed e \<Rightarrow> (Inl (Plain e), [])
         | Pool_ok \<Rightarrow>
             (case opened of
                Inl e \<Rightarrow> (Inl e, [])
              | Inr st \<Rightarrow>
                  (case launch start \<lparr>rc_config = config, rc_key = publicKey, rc_pool = pool, rc_store = st,
                                      rc_runtime = None, rc_started = 0, rc_stopping = False,
                                      rc_failed = None, rc_reload = False\<rparr> of
                     (Inl e, _, out) \<Rightarrow> (Inl e, out)
                   | (Inr _, r, out) \<Rightarrow>
                       (if control = Some False then
                          (Inl (Plain ''unsafe receiver control socket''), out @ [Engine_stop 0])
                        else
                          (case listening of
                             Some e \<Rightarrow> (Inl (Plain e), out @ [Engine_stop 0])
                           | None \<Rightarrow> (Inr r, out)))))))"

text \<open>
  \<open>stop\<close>: first the flag and the timer, then, once the queue is empty, the engine.
\<close>

definition stop_requested :: "receiver \<Rightarrow> receiver" where
  "stop_requested r = r\<lparr>rc_stopping := True, rc_reload := False\<rparr>"

definition stop_finished :: "receiver \<Rightarrow> receiver_effect list" where
  "stop_finished r = (case rc_runtime r of None \<Rightarrow> [] | Some (n, _) \<Rightarrow> [Engine_stop n])"

section \<open>The client of the control socket\<close>

text \<open>The reply's text, parsed if possible, as \<open>receiverRequest\<close> reads it.\<close>

definition receiver_reply :: "js option \<Rightarrow> error + js" where
  "receiver_reply reply =
     (case reply of
        Some (JObj ps) \<Rightarrow>
          if prop_of ps ''error'' = JStr ''invalid'' then
            Inl ''Excluded address must be a usable pool address different from the receiver address''
          else if prop_of ps ''error'' = JStr ''allocated'' then
            Inl ''Excluded address is assigned to an authorized device; inspect devices and revoke the affected device first''
          else if ''result'' \<in> set (map_keys ps) then Inr (prop_of ps ''result'')
          else Inl ''receiver request failed''
      | _ \<Rightarrow> Inl ''receiver request failed'')"

end
