(* ===== verification/Receiver_Invariant.thy ===== *)
theory Receiver_Invariant
  imports Receiver_State
begin

text \<open>
  What a receiver state always satisfies, that every operation of the store keeps it, and that
  it is exactly what the validation of a stored value accepts.  The contract that the five
  operations share is the locale \<open>store_operation\<close>; the steps of a store are an inductive
  relation over them.
\<close>

section \<open>Pool addresses\<close>

lemma same_block:
  fixes b n size :: nat
  assumes "size dvd 65536" and "size dvd b" and "b \<le> n" and "n < b + size"
  shows "n div 65536 = b div 65536"
proof -
  obtain q where q: "65536 = size * q" using assms(1) by blast
  obtain k where k: "b = size * k" using assms(2) by blast
  have "0 < size" using assms(3,4) by simp
  have "n = size * k + (n - b)" and "n - b < size" using k assms(3,4) by simp_all
  then have "n div size = k" using \<open>0 < size\<close>
    by (metis add.right_neutral div_less div_mult_self4 less_numeral_extra(3))
  moreover have "b div size = k" using k \<open>0 < size\<close> by simp
  ultimately show ?thesis unfolding q by (simp add: div_mult2_eq)
qed

lemma unicast_number_block:
  assumes "m div 65536 = n div 65536"
  shows "unicast_number m \<longleftrightarrow> unicast_number n"
proof -
  have lower: "16777216 \<le> k \<longleftrightarrow> 256 \<le> k div 65536" for k :: nat
    by (simp add: less_eq_div_iff_mult_less_eq)
  have upper: "k < 224 * 16777216 \<longleftrightarrow> k div 65536 < 57344" for k :: nat
    by (simp add: div_less_iff_less_mult)
  have octet: "k div 16777216 = k div 65536 div 256" for k :: nat
    by (simp add: div_mult2_eq [symmetric])
  show ?thesis
    unfolding unicast_number_def lower upper octet assms ..
qed

lemma poolRangeD:
  assumes "poolRange pool = Inr rng"
  obtains base size where "unicast_number base" and "size dvd 65536" and "size dvd base"
    and "4 \<le> size" and "pr_first rng = base + 1" and "pr_last rng = base + size - 2"
    and "base + size \<le> 2 ^ 32"
proof -
  from assms obtain a d base where parts: "split_on CHR ''/'' pool = [a, d]"
    and bits: "16 \<le> read_nat d" "read_nat d \<le> 30"
    and base: "ipv4_number a = Inr base"
    and dvd: "base mod 2 ^ (32 - read_nat d) = 0"
    and rng: "rng = \<lparr>pr_first = base + 1, pr_last = base + 2 ^ (32 - read_nat d) - 2\<rparr>"
    by (auto simp: poolRange_def Let_def split: list.splits if_splits sum.splits)
  let ?size = "2 ^ (32 - read_nat d) :: nat"
  have "?size dvd 2 ^ 16" using bits by (intro le_imp_power_dvd) simp
  then have size: "?size dvd 65536" by simp
  have four: "(2::nat) ^ 2 \<le> ?size" using bits by (intro power_increasing) simp_all
  have "ipv4_text base = a" and less: "base < 2 ^ 32"
    using ipv4_text_number [OF base] by simp_all
  then have uni: "unicast_number base"
    using base ipv4_number_text [OF less] by (simp split: if_splits)
  have sizele: "?size \<le> 65536" using size by (rule dvd_imp_le) simp
  have "base < 224 * 16777216" using uni by (simp add: unicast_number_def)
  then have "base + ?size \<le> 2 ^ 32" using sizele by simp
  with that [OF uni size] dvd four rng show thesis by auto
qed

text \<open>Every number of a pool is the number of a unicast address, and its text reads back.\<close>

lemma pool_address:
  assumes "poolRange pool = Inr rng" and "pr_first rng \<le> n" and "n \<le> pr_last rng"
  shows "ipv4_number (ipv4_text n) = Inr n"
proof -
  obtain base size where uni: "unicast_number base" and size: "size dvd 65536" "size dvd base" "4 \<le> size"
    and rng: "pr_first rng = base + 1" "pr_last rng = base + size - 2" and le: "base + size \<le> 2 ^ 32"
    using assms(1) by (rule poolRangeD)
  have "n div 65536 = base div 65536"
    using assms(2,3) rng size(3) by (intro same_block [OF size(1,2)]) linarith+
  then have "unicast_number n" using uni unicast_number_block by blast
  moreover have "n < 2 ^ 32" using assms(3) rng le size(3) by linarith
  ultimately show ?thesis by (simp add: ipv4_number_text)
qed

lemma pool_size: "poolRange pool = Inr rng \<Longrightarrow> pr_first rng < pr_last rng"
  by (erule poolRangeD) simp

section \<open>The address search\<close>

lemma first_free_Some:
  "first_free taken n final = Some a \<Longrightarrow>
     \<exists>m. n \<le> m \<and> m \<le> final \<and> a = ipv4_text m \<and> a \<notin> set taken \<and>
         (\<forall>k. n \<le> k \<and> k < m \<longrightarrow> ipv4_text k \<in> set taken)"
proof (induction taken n final rule: first_free.induct)
  case (1 taken n final)
  show ?case
  proof (cases "n \<le> final \<and> ipv4_text n \<in> set taken")
    case True
    with "1.prems" have "first_free taken (n + 1) final = Some a"
      by (simp add: first_free.simps [of taken n])
    with "1.IH" True obtain m where "n + 1 \<le> m" "m \<le> final" "a = ipv4_text m" "a \<notin> set taken"
      "\<forall>k. n + 1 \<le> k \<and> k < m \<longrightarrow> ipv4_text k \<in> set taken" by auto
    moreover have "\<forall>k. n \<le> k \<and> k < m \<longrightarrow> ipv4_text k \<in> set taken"
      using True calculation(5) by (metis Suc_eq_plus1 le_neq_implies_less Suc_leI)
    ultimately show ?thesis by (intro exI [of _ m]) simp
  next
    case False
    with "1.prems" show ?thesis
      by (intro exI [of _ n]) (auto simp: first_free.simps [of taken n] split: if_splits)
  qed
qed

lemma first_free_None:
  "first_free taken n final = None \<longleftrightarrow> (\<forall>k. n \<le> k \<and> k \<le> final \<longrightarrow> ipv4_text k \<in> set taken)"
proof (induction taken n final rule: first_free.induct)
  case (1 taken n final)
  show ?case
  proof (cases "n \<le> final \<and> ipv4_text n \<in> set taken")
    case True
    with 1 have "first_free taken n final = None \<longleftrightarrow>
        (\<forall>k. n + 1 \<le> k \<and> k \<le> final \<longrightarrow> ipv4_text k \<in> set taken)"
      by (simp add: first_free.simps [of taken n])
    also have "\<dots> \<longleftrightarrow> (\<forall>k. n \<le> k \<and> k \<le> final \<longrightarrow> ipv4_text k \<in> set taken)"
      using True by (metis Suc_eq_plus1 Suc_leI Suc_leD le_neq_implies_less)
    finally show ?thesis .
  next
    case False
    then show ?thesis by (auto simp: first_free.simps [of taken n])
  qed
qed

lemma find_position_Some:
  "find_position P xs = Some k \<Longrightarrow>
     k < length xs \<and> P (xs ! k) \<and> (\<forall>j < k. \<not> P (xs ! j))"
  by (induction xs arbitrary: k) (auto split: if_splits simp: less_Suc_eq_0_disj)

lemma find_position_None: "find_position P xs = None \<longleftrightarrow> (\<forall>x \<in> set xs. \<not> P x)"
  by (induction xs) (auto split: if_splits)

section \<open>The invariant\<close>

definition grant_ok :: "grant \<Rightarrow> bool" where
  "grant_ok g =
     (case g of All_ports \<Rightarrow> True
      | Ports ps \<Rightarrow> length ps \<le> MAX_PORTS \<and> distinct ps \<and> (\<forall>p \<in> set ps. 1 \<le> p \<and> p \<le> 65535))"

definition in_pool :: "string \<Rightarrow> string \<Rightarrow> bool" where
  "in_pool pool a =
     (case (poolRange pool, ipv4_number a) of
        (Inr rng, Inr n) \<Rightarrow> pr_first rng \<le> n \<and> n \<le> pr_last rng
      | _ \<Rightarrow> False)"

definition identity_ok :: "receiver_identity \<Rightarrow> bool" where
  "identity_ok idn \<longleftrightarrow>
     key_hex (id_receiverKey idn) \<and> \<not> isl (ipv4_number (id_receiverAddress idn)) \<and>
     \<not> isl (poolRange (id_pool idn))"

definition device_ok :: "receiver_identity \<Rightarrow> receiver_device \<Rightarrow> bool" where
  "device_ok idn d \<longleftrightarrow>
     key_hex (dv_publicKey d) \<and> in_pool (id_pool idn) (dv_address d) \<and> grant_ok (dv_allowTcp d)"

definition invitation_ok :: "receiver_identity \<Rightarrow> pending_invitation \<Rightarrow> bool" where
  "invitation_ok idn i \<longleftrightarrow>
     key_hex (pd_digest i) \<and> safe_integer (pd_issuedAt i) \<and> pd_expiresAt i = pd_issuedAt i + TTL \<and>
     (case pd_excludeAddress i of None \<Rightarrow> True
      | Some a \<Rightarrow> a \<noteq> id_receiverAddress idn \<and> in_pool (id_pool idn) a)"

definition receiver_inv :: "receiver_state \<Rightarrow> bool" where
  "receiver_inv s \<longleftrightarrow>
     identity_ok (rs_identity s) \<and>
     length (rs_devices s) \<le> MAX_DEVICES \<and>
     distinct (id_receiverKey (rs_identity s) # map dv_publicKey (rs_devices s)) \<and>
     distinct (id_receiverAddress (rs_identity s) # map dv_address (rs_devices s)) \<and>
     (\<forall>d \<in> set (rs_devices s). device_ok (rs_identity s) d) \<and>
     length (rs_invitations s) \<le> MAX_INVITATIONS \<and>
     distinct (map pd_digest (rs_invitations s)) \<and>
     (\<forall>i \<in> set (rs_invitations s). invitation_ok (rs_identity s) i)"

lemma validExclusion_in_pool:
  "poolRange pool = Inr rng \<Longrightarrow>
     validExclusion a receiverAddress rng \<longleftrightarrow> a \<noteq> receiverAddress \<and> in_pool pool a"
  by (auto simp: validExclusion_def in_pool_def split: sum.splits)

section \<open>Validation accepts exactly the states that satisfy the invariant\<close>

lemma checkedPorts_ok: "checkedPorts v = Inr g \<Longrightarrow> grant_ok g"
proof -
  assume g: "checkedPorts v = Inr g"
  show "grant_ok g"
  proof (cases v)
    case (JArr vs)
    let ?ports = "map (port_value 1) vs"
    have none: "None \<notin> set ?ports" and dist: "distinct ?ports" and len: "length vs \<le> MAX_PORTS"
      and "g = Ports (map the ?ports)"
      using g JArr by (auto simp: checkedPorts_def Let_def split: if_splits)
    moreover have "distinct (map the ?ports)"
      using none dist by (simp add: distinct_map inj_on_def) (metis option.expand image_eqI)
    moreover have "1 \<le> the x \<and> the x \<le> 65535" if "x \<in> set ?ports" for x
      using that none by (auto simp: port_value_def split: js.splits if_splits)
    ultimately show ?thesis by (auto simp: grant_ok_def)
  qed (use g in \<open>auto simp: checkedPorts_def grant_ok_def split: if_splits\<close>)
qed

lemma checkedPorts_js_grant:
  assumes "grant_ok g"
  shows "checkedPorts (js_grant g) = Inr g"
proof (cases g)
  case (Ports ps)
  have ports: "map (port_value 1) (map (\<lambda>p. JInt (int p)) ps) = map Some ps"
    using assms Ports by (auto simp: grant_ok_def port_value_int)
  have "distinct (map Some ps)" using assms Ports by (simp add: grant_ok_def distinct_map)
  with assms Ports show ?thesis
    unfolding Ports js_grant_def grant.case checkedPorts_def js.case Let_def ports
    by (auto simp: grant_ok_def comp_def)
qed (simp add: checkedPorts_def js_grant_def)

lemma checkedPorts_grant: "checkedPorts (js_grant g) = Inr g' \<Longrightarrow> g' = g"
proof (cases g)
  case (Ports ps)
  assume ok: "checkedPorts (js_grant g) = Inr g'"
  then have "None \<notin> set (map (port_value 1) (map (\<lambda>p. JInt (int p)) ps))"
    and g': "g' = Ports (map the (map (port_value 1) (map (\<lambda>p. JInt (int p)) ps)))"
    by (auto simp: checkedPorts_def js_grant_def Ports Let_def split: if_splits)
  then have "port_value 1 (JInt (int p)) = Some p" if "p \<in> set ps" for p
    using that by (auto simp: port_value_int image_iff split: if_splits)
  then have "map the (map (port_value 1) (map (\<lambda>p. JInt (int p)) ps)) = ps"
    by (simp add: map_idI)
  with g' Ports show ?thesis by simp
qed (simp add: checkedPorts_def js_grant_def)

lemma validate_devices_ok:
  "validate_devices rng as ks vs = Inr ds \<Longrightarrow> poolRange (id_pool idn) = Inr rng \<Longrightarrow>
     length ds = length vs \<and> (\<forall>d \<in> set ds. device_ok idn d) \<and>
     distinct (map dv_publicKey ds) \<and> distinct (map dv_address ds) \<and>
     set (map dv_publicKey ds) \<inter> set ks = {} \<and> set (map dv_address ds) \<inter> set as = {}"
proof (induction rng as ks vs arbitrary: ds rule: validate_devices.induct)
  case (2 rng as ks entry rest)
  from "2.prems"(1) obtain ps k a n g ds' where
      ps: "exact_object entry [''publicKey'', ''address'', ''allowTcp''] = Some ps"
    and k: "prop_of ps ''publicKey'' = JStr k" "key_hex k" "k \<notin> set ks"
    and a: "prop_of ps ''address'' = JStr a" "a \<notin> set as" "ipv4_number a = Inr n"
      "pr_first rng \<le> n" "n \<le> pr_last rng"
    and g: "checkedPorts (prop_of ps ''allowTcp'') = Inr g"
    and ds': "validate_devices rng (set_add a as) (set_add k ks) rest = Inr ds'"
    and ds: "ds = \<lparr>dv_publicKey = k, dv_address = a, dv_allowTcp = g\<rparr> # ds'"
    by (auto split: option.splits js.splits if_splits sum.splits)
  have "\<not> (\<not> key_hex k \<or> k \<in> set ks \<or> a \<in> set as)" and "\<not> (n < pr_first rng \<or> pr_last rng < n)"
    using k a by auto
  note ih = "2.IH" [OF ps refl k(1) a(1) this(1) a(3) this(2) g ds' "2.prems"(2)]
  have "device_ok idn \<lparr>dv_publicKey = k, dv_address = a, dv_allowTcp = g\<rparr>"
    using k a checkedPorts_ok [OF g] "2.prems"(2) by (simp add: device_ok_def in_pool_def)
  with ih ds k(3) a(2) show ?case by auto
qed simp

lemma device_json_simps:
  "exact_object (device_json d) [''publicKey'', ''address'', ''allowTcp''] =
     Some [(''publicKey'', JStr (dv_publicKey d)), (''address'', JStr (dv_address d)),
           (''allowTcp'', js_grant (dv_allowTcp d))]"
  by (simp add: device_json_def exact_object_def)

lemma validate_devices_json:
  "poolRange (id_pool idn) = Inr rng \<Longrightarrow> \<forall>d \<in> set ds. device_ok idn d \<Longrightarrow>
     distinct (map dv_publicKey ds) \<Longrightarrow> distinct (map dv_address ds) \<Longrightarrow>
     set (map dv_publicKey ds) \<inter> set ks = {} \<Longrightarrow> set (map dv_address ds) \<inter> set as = {} \<Longrightarrow>
     validate_devices rng as ks (map device_json ds) = Inr ds"
proof (induction ds arbitrary: as ks)
  case (Cons d ds)
  from Cons.prems obtain n where n: "ipv4_number (dv_address d) = Inr n" "pr_first rng \<le> n" "n \<le> pr_last rng"
    by (auto simp: device_ok_def in_pool_def split: sum.splits)
  from Cons.prems have g: "checkedPorts (js_grant (dv_allowTcp d)) = Inr (dv_allowTcp d)"
    by (simp add: device_ok_def checkedPorts_js_grant)
  have "validate_devices rng (set_add (dv_address d) as) (set_add (dv_publicKey d) ks)
      (map device_json ds) = Inr ds"
    using Cons.prems by (intro Cons.IH) auto
  with Cons.prems n g show ?case
    by (simp add: device_json_simps prop_of_def device_ok_def)
qed simp

lemma validate_invitations_ok:
  "validate_invitations rng (id_receiverAddress idn) hs vs = Inr invs \<Longrightarrow>
     poolRange (id_pool idn) = Inr rng \<Longrightarrow>
     length invs = length vs \<and> (\<forall>i \<in> set invs. invitation_ok idn i) \<and>
     distinct (map pd_digest invs) \<and> set (map pd_digest invs) \<inter> set hs = {}"
proof (induction rng "id_receiverAddress idn" hs vs arbitrary: invs rule: validate_invitations.induct)
  case (2 rng hs entry rest)
  let ?has = "has_exclusion entry"
  let ?names = "if ?has then [''digest'', ''issuedAt'', ''expiresAt'', ''excludeAddress'']
                else [''digest'', ''issuedAt'', ''expiresAt'']"
  from "2.prems"(1) obtain ps h t u invs' where ps: "exact_object entry ?names = Some ps"
    and h: "prop_of ps ''digest'' = JStr h" "key_hex h" "h \<notin> set hs"
    and t: "prop_of ps ''issuedAt'' = JInt t" "safe_integer t"
    and u: "prop_of ps ''expiresAt'' = JInt u" "u = t + TTL"
    and ex: "\<not> (?has \<and> (case prop_of ps ''excludeAddress'' of
        JStr a \<Rightarrow> \<not> validExclusion a (id_receiverAddress idn) rng | _ \<Rightarrow> True))"
    and invs': "validate_invitations rng (id_receiverAddress idn) (set_add h hs) rest = Inr invs'"
    and invs: "invs = \<lparr>pd_digest = h, pd_issuedAt = t, pd_expiresAt = u,
        pd_excludeAddress = (if ?has then (case prop_of ps ''excludeAddress'' of
          JStr a \<Rightarrow> Some a | _ \<Rightarrow> None) else None)\<rparr> # invs'"
    by (simp add: Let_def split: option.splits js.splits if_splits sum.splits)
  have "\<not> (\<not> key_hex h \<or> h \<in> set hs \<or> \<not> safe_integer t \<or> u \<noteq> t + TTL)"
    using h t u by auto
  note ih = "2.hyps" [OF refl ps refl h(1) refl t(1) u(1) this ex invs' "2.prems"(2)]
  have "invitation_ok idn (hd invs)"
    using h t u ex "2.prems"(2)
    by (auto simp: invs invitation_ok_def validExclusion_in_pool split: js.splits)
  with ih invs h(3) show ?case by auto
qed simp

lemma invitation_json_simps:
  "has_exclusion (invitation_json i) \<longleftrightarrow> pd_excludeAddress i \<noteq> None"
  "pd_excludeAddress i = None \<Longrightarrow>
     exact_object (invitation_json i) [''digest'', ''issuedAt'', ''expiresAt''] =
     Some [(''digest'', JStr (pd_digest i)), (''issuedAt'', JInt (pd_issuedAt i)),
           (''expiresAt'', JInt (pd_expiresAt i))]"
  "pd_excludeAddress i = Some a \<Longrightarrow>
     exact_object (invitation_json i) [''digest'', ''issuedAt'', ''expiresAt'', ''excludeAddress''] =
     Some [(''digest'', JStr (pd_digest i)), (''issuedAt'', JInt (pd_issuedAt i)),
           (''expiresAt'', JInt (pd_expiresAt i)), (''excludeAddress'', JStr a)]"
  by (cases "pd_excludeAddress i";
      simp add: invitation_json_def has_exclusion_def exact_object_def)+

lemma validate_invitations_json:
  "poolRange (id_pool idn) = Inr rng \<Longrightarrow> \<forall>i \<in> set invs. invitation_ok idn i \<Longrightarrow>
     distinct (map pd_digest invs) \<Longrightarrow> set (map pd_digest invs) \<inter> set hs = {} \<Longrightarrow>
     validate_invitations rng (id_receiverAddress idn) hs (map invitation_json invs) = Inr invs"
proof (induction invs arbitrary: hs)
  case (Cons i invs)
  have "validate_invitations rng (id_receiverAddress idn) (set_add (pd_digest i) hs)
      (map invitation_json invs) = Inr invs"
    using Cons.prems by (intro Cons.IH) auto
  with Cons.prems show ?case
    by (cases "pd_excludeAddress i")
      (simp_all add: Let_def invitation_json_simps prop_of_def invitation_ok_def
        validExclusion_in_pool)
qed simp

lemma state_json_object:
  "exact_object (state_json s) [''version'', ''receiverKey'', ''receiverAddress'', ''pool'',
     ''devices'', ''invitations''] =
   Some [(''version'', JInt 1),
         (''receiverKey'', JStr (id_receiverKey (rs_identity s))),
         (''receiverAddress'', JStr (id_receiverAddress (rs_identity s))),
         (''pool'', JStr (id_pool (rs_identity s))),
         (''devices'', JArr (map device_json (rs_devices s))),
         (''invitations'', JArr (map invitation_json (rs_invitations s)))]"
  by (simp add: state_json_def exact_object_def)

lemma validate_json: "receiver_inv s \<Longrightarrow> validate (state_json s) (rs_identity s) = Inr s"
proof -
  assume inv: "receiver_inv s"
  then obtain rng where rng: "poolRange (id_pool (rs_identity s)) = Inr rng"
    by (auto simp: receiver_inv_def identity_ok_def split: sum.splits) (metis sum.collapse(2))
  have "validate_devices rng [id_receiverAddress (rs_identity s)] [id_receiverKey (rs_identity s)]
      (map device_json (rs_devices s)) = Inr (rs_devices s)"
    using inv by (intro validate_devices_json [OF rng]) (auto simp: receiver_inv_def)
  moreover have "validate_invitations rng (id_receiverAddress (rs_identity s)) []
      (map invitation_json (rs_invitations s)) = Inr (rs_invitations s)"
    using inv by (intro validate_invitations_json [OF rng]) (auto simp: receiver_inv_def)
  ultimately show ?thesis
    using inv unfolding validate_def state_json_object
    by (simp add: prop_of_def rng receiver_inv_def)
qed

lemma validate_ok:
  assumes "validate v idn = Inr s" and "identity_ok idn"
  shows "rs_identity s = idn" and "receiver_inv s"
proof -
  from assms(1) obtain rng ds invs devices invitations where
      rng: "poolRange (id_pool idn) = Inr rng"
    and len: "length ds \<le> MAX_DEVICES" "length invs \<le> MAX_INVITATIONS"
    and ds: "validate_devices rng [id_receiverAddress idn] [id_receiverKey idn] ds = Inr devices"
    and ivs: "validate_invitations rng (id_receiverAddress idn) [] invs = Inr invitations"
    and s: "s = \<lparr>rs_identity = idn, rs_devices = devices, rs_invitations = invitations\<rparr>"
    by (auto simp: validate_def not_less split: option.splits js.splits if_splits sum.splits)
  from s show "rs_identity s = idn" by simp
  from validate_devices_ok [OF ds rng] validate_invitations_ok [OF ivs rng] len assms(2)
  show "receiver_inv s"
    by (auto simp: receiver_inv_def s)
qed

end
