(* ===== verification/Receiver_Steps.thy ===== *)
theory Receiver_Steps
  imports Receiver_Invariant
begin

text \<open>
  The contract that the operations of the receiver store share, as the locale
  \<open>store_operation\<close> with an interpretation for each of the five operations, and the runs of a
  store as an inductive relation.
\<close>

section \<open>The invariant of the store\<close>

text \<open>
  There is always a valid file; memory and file agree unless a write has failed, and then the
  store refuses everything.
\<close>

definition store_inv :: "store \<Rightarrow> bool" where
  "store_inv st \<longleftrightarrow>
     receiver_inv (st_state st) \<and>
     (\<exists>d. st_disk st = Some d \<and> receiver_inv d \<and> rs_identity d = rs_identity (st_state st)) \<and>
     (\<not> st_failed st \<longrightarrow> st_disk st = Some (st_state st))"

text \<open>An operation leaves the store alone, or saves a valid state of the same receiver.\<close>

definition saves_or_keeps :: "store \<Rightarrow> (rs_error + 'a) \<times> store \<Rightarrow> bool" where
  "saves_or_keeps st r \<longleftrightarrow>
     (snd r = st \<and> fst r \<noteq> Inl Storage_failure) \<or>
     (\<exists>outcome next result. r = save_then outcome next result st \<and> result \<noteq> Inl Storage_failure \<and>
        receiver_inv next \<and> rs_identity next = rs_identity (st_state st))"

lemma save_then_simps [simp]:
  "save_then (Committed None) next result st = (result, st\<lparr>st_state := next, st_disk := Some next\<rparr>)"
  "save_then (Committed (Some e)) next result st =
     (Inl (Plain e), st\<lparr>st_state := next, st_disk := Some next\<rparr>)"
  "save_then (Uncommitted renamed cleanup) next result st =
     (Inl (case cleanup of None \<Rightarrow> Storage_failure | Some e \<Rightarrow> Plain e),
      st\<lparr>st_failed := True, st_disk := (if renamed then Some next else st_disk st)\<rparr>)"
  by (simp_all add: save_then_def save_def)

lemma save_then_cases:
  obtains "save_then outcome next result st = (result, st\<lparr>st_state := next, st_disk := Some next\<rparr>)"
    | e where "save_then outcome next result st = (Inl (Plain e), st\<lparr>st_state := next, st_disk := Some next\<rparr>)"
    | e renamed where "save_then outcome next result st =
        (Inl e, st\<lparr>st_failed := True, st_disk := (if renamed then Some next else st_disk st)\<rparr>)"
  by (metis option.exhaust save_outcome.exhaust save_then_simps)

lemma saves_or_keeps_inv:
  assumes "store_inv st" and "saves_or_keeps st r"
  shows "store_inv (snd r)"
  using assms(2) unfolding saves_or_keeps_def
proof (elim disjE conjE exE)
  fix outcome "next" result
  assume r: "r = save_then outcome next result st" and n: "receiver_inv next"
    "rs_identity next = rs_identity (st_state st)"
  show "store_inv (snd r)"
    by (rule save_then_cases [of outcome "next" result st]) (use assms(1) n in \<open>auto simp: store_inv_def r\<close>)
qed (use assms(1) in simp)

locale store_operation =
  fixes operation :: "'a operation"
    and ready :: "receiver_state \<Rightarrow> bool"
  assumes refuses: "st_failed st \<Longrightarrow> operation st = (Inl Storage_failure, st)"
    and commits: "\<not> st_failed st \<Longrightarrow> receiver_inv (st_state st) \<Longrightarrow> ready (st_state st) \<Longrightarrow>
      saves_or_keeps st (operation st)"
begin

lemma keeps_inv:
  assumes "store_inv st" and "ready (st_state st)"
  shows "store_inv (snd (operation st))"
proof (cases "st_failed st")
  case True
  with assms(1) show ?thesis by (simp add: refuses)
next
  case False
  then show ?thesis
    using assms saves_or_keeps_inv [OF assms(1) commits] by (simp add: store_inv_def)
qed

text \<open>A result means that the file holds the state in memory.\<close>

lemma success_durable:
  assumes "store_inv st" and "ready (st_state st)" and "fst (operation st) = Inr x"
  shows "\<not> st_failed (snd (operation st))"
    and "st_disk (snd (operation st)) = Some (st_state (snd (operation st)))"
proof -
  have f: "\<not> st_failed st" using assms(3) refuses by fastforce
  then have "saves_or_keeps st (operation st)"
    using assms by (simp add: commits store_inv_def)
  then have "\<not> st_failed (snd (operation st))"
    unfolding saves_or_keeps_def
  proof (elim disjE conjE exE)
    fix outcome "next" result
    assume r: "operation st = save_then outcome next result st"
    show ?thesis
      by (rule save_then_cases [of outcome "next" result st]) (use f r assms(3) in auto)
  qed (simp add: f)
  with keeps_inv [OF assms(1,2)]
  show "\<not> st_failed (snd (operation st))"
    and "st_disk (snd (operation st)) = Some (st_state (snd (operation st)))"
    by (simp_all add: store_inv_def)
qed

text \<open>A storage failure means that the state in memory is the old one and stays.\<close>

lemma failure_freezes:
  assumes "store_inv st" and "ready (st_state st)" and "fst (operation st) = Inl Storage_failure"
  shows "st_failed (snd (operation st))" and "st_state (snd (operation st)) = st_state st"
proof -
  have "st_failed (snd (operation st)) \<and> st_state (snd (operation st)) = st_state st"
  proof (cases "st_failed st")
    case True
    then show ?thesis by (simp add: refuses)
  next
    case False
    then have "saves_or_keeps st (operation st)"
      using assms by (simp add: commits store_inv_def)
    then show ?thesis
      unfolding saves_or_keeps_def
    proof (elim disjE conjE exE)
      fix outcome "next" result
      assume r: "operation st = save_then outcome next result st" and e: "result \<noteq> Inl Storage_failure"
      show ?thesis
        by (rule save_then_cases [of outcome "next" result st]) (use r e assms(3) in auto)
    qed (use assms(3) in simp)
  qed
  then show "st_failed (snd (operation st))" and "st_state (snd (operation st)) = st_state st"
    by simp_all
qed

end

section \<open>The operations meet the contract\<close>

lemma saves_or_keeps_keep [intro]: "e \<noteq> Storage_failure \<Longrightarrow> saves_or_keeps st (Inl e, st)"
  by (simp add: saves_or_keeps_def)

lemma saves_or_keeps_save [intro]:
  "receiver_inv next \<Longrightarrow> rs_identity next = rs_identity (st_state st) \<Longrightarrow>
   result \<noteq> Inl Storage_failure \<Longrightarrow> saves_or_keeps st (save_then outcome next result st)"
  by (auto simp: saves_or_keeps_def)

lemma live_filter_ok:
  "receiver_inv s \<Longrightarrow> length (filter P (rs_invitations s)) \<le> MAX_INVITATIONS \<and>
     distinct (map pd_digest (filter P (rs_invitations s))) \<and>
     (\<forall>i \<in> set (filter P (rs_invitations s)). invitation_ok (rs_identity s) i)"
  by (auto simp: receiver_inv_def distinct_map_filter intro: order_trans [OF length_filter_le])

text \<open>What the model cannot compute: a digest is hex text, a new one is fresh, the clock is exact.\<close>

definition create_ready :: "(string \<Rightarrow> string) \<Rightarrow> int \<Rightarrow> string \<Rightarrow> receiver_state \<Rightarrow> bool" where
  "create_ready sha now secret s \<longleftrightarrow>
     key_hex (sha secret) \<and> sha secret \<notin> pd_digest ` set (rs_invitations s) \<and> safe_integer now"

lemma exclusion_error_None:
  "exclusion_error ex s = None \<Longrightarrow> ex = Some a \<Longrightarrow>
     a \<noteq> id_receiverAddress (rs_identity s) \<and> in_pool (id_pool (rs_identity s)) a"
  by (auto simp: exclusion_error_def validExclusion_in_pool split: sum.splits if_splits)

lemma exclusion_error_not_storage: "exclusion_error ex s \<noteq> Some Storage_failure"
  by (auto simp: exclusion_error_def split: option.splits sum.splits)

lemma createInvitation_next_inv:
  assumes inv: "receiver_inv s" and ready: "create_ready sha now secret s"
    and ex: "exclusion_error ex s = None"
    and len: "length (filter (live now) (rs_invitations s)) < MAX_INVITATIONS"
  shows "receiver_inv (s\<lparr>rs_invitations := filter (live now) (rs_invitations s) @
     [\<lparr>pd_digest = sha secret, pd_issuedAt = now, pd_expiresAt = now + TTL, pd_excludeAddress = ex\<rparr>]\<rparr>)"
proof -
  have "invitation_ok (rs_identity s) \<lparr>pd_digest = sha secret, pd_issuedAt = now,
      pd_expiresAt = now + TTL, pd_excludeAddress = ex\<rparr>"
    using ready exclusion_error_None [OF ex]
    by (auto simp: invitation_ok_def create_ready_def split: option.split)
  with inv ready len live_filter_ok [OF inv, of "live now"] show ?thesis
    by (auto simp: receiver_inv_def create_ready_def)
qed

interpretation create: store_operation
  "createInvitation sha ex now secret outcome" "create_ready sha now secret"
  for sha ex now secret outcome
proof
  fix st :: store
  assume "\<not> st_failed st" and "receiver_inv (st_state st)" and "create_ready sha now secret (st_state st)"
  then show "saves_or_keeps st (createInvitation sha ex now secret outcome st)"
    using createInvitation_next_inv [of "st_state st" sha now secret ex]
      exclusion_error_not_storage [of ex "st_state st"]
    by (auto simp: createInvitation_def serial_def Let_def not_le split: option.split sum.split)
qed (simp add: createInvitation_def serial_def)

text \<open>A device that is enrolled is known already, or new in every respect.\<close>

lemma enroll_device_not_storage: "enroll_device publicKey pending s \<noteq> Inl Storage_failure"
  by (auto simp: enroll_device_def Let_def split: option.splits sum.splits)

lemma enroll_device_known:
  "enroll_device publicKey pending s = Inr d \<Longrightarrow> \<exists>d' \<in> set (rs_devices s). dv_publicKey d' = publicKey \<Longrightarrow>
     d \<in> set (rs_devices s) \<and> dv_publicKey d = publicKey \<and> pd_excludeAddress pending \<noteq> Some (dv_address d)"
  by (auto simp: enroll_device_def find_Some_iff find_None_iff split: option.splits if_splits)

lemma enroll_device_new:
  assumes "enroll_device publicKey pending s = Inr d"
    and "\<not> (\<exists>d' \<in> set (rs_devices s). dv_publicKey d' = publicKey)"
  shows "length (rs_devices s) < MAX_DEVICES" and "dv_publicKey d = publicKey"
    and "dv_allowTcp d = All_ports" and "in_pool (id_pool (rs_identity s)) (dv_address d)"
    and "dv_address d \<noteq> id_receiverAddress (rs_identity s)"
    and "dv_address d \<notin> dv_address ` set (rs_devices s)"
    and "pd_excludeAddress pending \<noteq> Some (dv_address d)"
proof -
  have "find (\<lambda>d. dv_publicKey d = publicKey) (rs_devices s) = None"
    using assms(2) by (auto simp: find_None_iff)
  with assms(1) obtain rng a where len: "length (rs_devices s) < MAX_DEVICES"
    and rng: "poolRange (id_pool (rs_identity s)) = Inr rng"
    and a: "first_free (id_receiverAddress (rs_identity s) # map dv_address (rs_devices s) @
       (case pd_excludeAddress pending of None \<Rightarrow> [] | Some a \<Rightarrow> [a])) (pr_first rng) (pr_last rng) = Some a"
    and d: "d = \<lparr>dv_publicKey = publicKey, dv_address = a, dv_allowTcp = All_ports\<rparr>"
    by (auto simp: enroll_device_def Let_def not_le split: if_splits sum.splits option.splits)
  from first_free_Some [OF a] obtain n where n: "pr_first rng \<le> n" "n \<le> pr_last rng" "a = ipv4_text n"
    and free: "a \<notin> set (id_receiverAddress (rs_identity s) # map dv_address (rs_devices s) @
       (case pd_excludeAddress pending of None \<Rightarrow> [] | Some a \<Rightarrow> [a]))" by blast
  then have "in_pool (id_pool (rs_identity s)) a"
    using pool_address [OF rng n(1,2)] by (simp add: in_pool_def rng)
  with len d free show "length (rs_devices s) < MAX_DEVICES" and "dv_publicKey d = publicKey"
    and "dv_allowTcp d = All_ports" and "in_pool (id_pool (rs_identity s)) (dv_address d)"
    and "dv_address d \<noteq> id_receiverAddress (rs_identity s)"
    and "dv_address d \<notin> dv_address ` set (rs_devices s)"
    and "pd_excludeAddress pending \<noteq> Some (dv_address d)"
    by auto
qed

definition enrolled_devices :: "string \<Rightarrow> receiver_device \<Rightarrow> receiver_state \<Rightarrow> receiver_device list" where
  "enrolled_devices publicKey device s =
     (if \<exists>d \<in> set (rs_devices s). dv_publicKey d = publicKey then rs_devices s
      else rs_devices s @ [device])"

lemma without_position:
  "set (take k xs @ drop (Suc k) xs) \<subseteq> set xs"
  "length (take k xs @ drop (Suc k) xs) \<le> length xs"
  "distinct (map f xs) \<Longrightarrow> distinct (map f (take k xs @ drop (Suc k) xs))"
proof -
  show "set (take k xs @ drop (Suc k) xs) \<subseteq> set xs"
    using set_take_subset set_drop_subset by fastforce
  show "length (take k xs @ drop (Suc k) xs) \<le> length xs" by simp
  assume d: "distinct (map f xs)"
  have "map f xs = map f (take k xs) @ map f (drop k xs)"
    by (metis append_take_drop_id map_append)
  moreover have "map f (drop (Suc k) xs) = drop 1 (map f (drop k xs))"
    by (simp add: drop_map [symmetric])
  moreover have "set (drop 1 (map f (drop k xs))) \<subseteq> set (map f (drop k xs))"
    by (rule set_drop_subset)
  ultimately show "distinct (map f (take k xs @ drop (Suc k) xs))"
    using d by (auto simp del: map_map drop_drop simp: disjoint_iff)
qed

lemma enroll_next_inv:
  assumes inv: "receiver_inv s" and key: "key_hex publicKey" "publicKey \<noteq> id_receiverKey (rs_identity s)"
    and dev: "enroll_device publicKey pending s = Inr d"
  shows "receiver_inv (s\<lparr>rs_devices := enrolled_devices publicKey d s,
     rs_invitations := filter P (take k (rs_invitations s) @ drop (Suc k) (rs_invitations s))\<rparr>)"
proof -
  let ?invs = "take k (rs_invitations s) @ drop (Suc k) (rs_invitations s)"
  have "length (filter P ?invs) \<le> MAX_INVITATIONS"
    using inv without_position(2) [of k "rs_invitations s"] length_filter_le [of P ?invs]
    unfolding receiver_inv_def by linarith
  moreover have "distinct (map pd_digest (filter P ?invs))"
    using inv without_position(3) [of pd_digest "rs_invitations s" k]
    unfolding receiver_inv_def by (intro distinct_map_filter) simp
  moreover have "\<forall>i \<in> set (filter P ?invs). invitation_ok (rs_identity s) i"
    using inv without_position(1) [of k "rs_invitations s"] unfolding receiver_inv_def by auto
  moreover have "receiver_inv (s\<lparr>rs_devices := enrolled_devices publicKey d s\<rparr>)"
  proof (cases "\<exists>d' \<in> set (rs_devices s). dv_publicKey d' = publicKey")
    case True
    with inv show ?thesis by (simp add: enrolled_devices_def)
  next
    case False
    note new = enroll_device_new [OF dev False]
    have "device_ok (rs_identity s) d"
      using new key by (simp add: device_ok_def grant_ok_def)
    moreover have "publicKey \<notin> dv_publicKey ` set (rs_devices s)" using False by auto
    ultimately show ?thesis
      using inv new key(2) False by (auto simp: receiver_inv_def enrolled_devices_def)
  qed
  ultimately show ?thesis by (simp add: receiver_inv_def)
qed

interpretation enrolling: store_operation "enroll sha publicKey secret now outcome" "\<lambda>_. True"
  for sha publicKey secret now outcome
proof
  fix st :: store
  assume "\<not> st_failed st" and "receiver_inv (st_state st)"
  then show "saves_or_keeps st (enroll sha publicKey secret now outcome st)"
    using enroll_next_inv [of "st_state st" publicKey]
      enroll_device_not_storage [of publicKey _ "st_state st"]
    unfolding enroll_def serial_def Let_def enrolled_devices_def [symmetric]
    by (auto split: option.split sum.split simp del: filter_append)
qed (simp add: enroll_def serial_def)

lemma granted_next_inv:
  assumes "receiver_inv s" and "grant_ok g"
  shows "receiver_inv (s\<lparr>rs_devices := map (\<lambda>d. if dv_publicKey d = publicKey
     then d\<lparr>dv_allowTcp := g\<rparr> else d) (rs_devices s)\<rparr>)"
proof -
  let ?f = "\<lambda>d. if dv_publicKey d = publicKey then d\<lparr>dv_allowTcp := g\<rparr> else d"
  have "map dv_publicKey (map ?f (rs_devices s)) = map dv_publicKey (rs_devices s)"
    and "map dv_address (map ?f (rs_devices s)) = map dv_address (rs_devices s)"
    by simp_all
  moreover have "\<forall>d \<in> set (map ?f (rs_devices s)). device_ok (rs_identity s) d"
    using assms by (auto simp: receiver_inv_def device_ok_def)
  ultimately show ?thesis
    using assms(1) by (simp add: receiver_inv_def del: map_map set_map)
qed

interpretation granting: store_operation "grant_ports publicKey ports outcome" "\<lambda>_. True"
  for publicKey ports outcome
proof
  fix st :: store
  assume "\<not> st_failed st" and "receiver_inv (st_state st)"
  then show "saves_or_keeps st (grant_ports publicKey ports outcome st)"
    using granted_next_inv [of "st_state st" _ publicKey] checkedPorts_ok [of ports]
    by (auto simp: grant_ports_def serial_def Let_def split: sum.split)
qed (simp add: grant_ports_def serial_def)

lemma revoked_next_inv:
  "receiver_inv s \<Longrightarrow> receiver_inv (s\<lparr>rs_devices := filter P (rs_devices s)\<rparr>)"
  by (auto simp: receiver_inv_def distinct_map_filter intro: order_trans [OF length_filter_le])

interpretation revoking: store_operation "revoke publicKey outcome" "\<lambda>_. True"
  for publicKey outcome
proof
  fix st :: store
  assume "\<not> st_failed st" and "receiver_inv (st_state st)"
  then show "saves_or_keeps st (revoke publicKey outcome st)"
    using revoked_next_inv by (auto simp: revoke_def serial_def Let_def)
qed (simp add: revoke_def serial_def)

interpretation listing: store_operation list_devices "\<lambda>_. True"
  by unfold_locales (auto simp: list_devices_def serial_def saves_or_keeps_def)

section \<open>Runs of a store\<close>

datatype store_op =
  Do_list |
  Do_create "string option" int string save_outcome |
  Do_enroll string string int save_outcome |
  Do_grant string js save_outcome |
  Do_revoke string save_outcome

fun store_apply :: "(string \<Rightarrow> string) \<Rightarrow> store_op \<Rightarrow> store \<Rightarrow> store" where
  "store_apply sha Do_list st = snd (list_devices st)"
| "store_apply sha (Do_create ex now secret outcome) st = snd (createInvitation sha ex now secret outcome st)"
| "store_apply sha (Do_enroll key secret now outcome) st = snd (enroll sha key secret now outcome st)"
| "store_apply sha (Do_grant key ports outcome) st = snd (grant_ports key ports outcome st)"
| "store_apply sha (Do_revoke key outcome) st = snd (revoke key outcome st)"

fun op_ready :: "(string \<Rightarrow> string) \<Rightarrow> store_op \<Rightarrow> receiver_state \<Rightarrow> bool" where
  "op_ready sha (Do_create ex now secret outcome) s \<longleftrightarrow> create_ready sha now secret s"
| "op_ready sha _ s \<longleftrightarrow> True"

inductive store_path :: "(string \<Rightarrow> string) \<Rightarrow> store \<Rightarrow> store_op list \<Rightarrow> store \<Rightarrow> bool"
  for sha :: "string \<Rightarrow> string" and st :: store where
  path_start: "store_path sha st [] st"
| path_step: "store_path sha st ops st' \<Longrightarrow> op_ready sha op (st_state st') \<Longrightarrow>
    store_path sha st (ops @ [op]) (store_apply sha op st')"

inductive_cases store_path_snocE: "store_path sha st (ops @ [op]) st'"

lemma store_apply_inv:
  "store_inv st \<Longrightarrow> op_ready sha op (st_state st) \<Longrightarrow> store_inv (store_apply sha op st)"
  by (cases op) (simp_all add: create.keeps_inv enrolling.keeps_inv granting.keeps_inv
      revoking.keeps_inv listing.keeps_inv)

lemma store_apply_failed: "st_failed st \<Longrightarrow> store_apply sha op st = st"
  by (cases op) (simp_all add: create.refuses enrolling.refuses granting.refuses
      revoking.refuses listing.refuses)

lemma store_path_inv: "store_path sha st ops st' \<Longrightarrow> store_inv st \<Longrightarrow> store_inv st'"
  by (induction rule: store_path.induct) (simp_all add: store_apply_inv)

lemma store_path_failed: "store_path sha st ops st' \<Longrightarrow> st_failed st \<Longrightarrow> st' = st"
  by (induction rule: store_path.induct) (simp_all add: store_apply_failed)

text \<open>A digest that no operation issues anew stays away.\<close>

definition issues :: "(string \<Rightarrow> string) \<Rightarrow> string \<Rightarrow> store_op \<Rightarrow> bool" where
  "issues sha h op \<longleftrightarrow> (case op of Do_create ex now secret outcome \<Rightarrow> sha secret = h | _ \<Rightarrow> False)"

definition absent :: "string \<Rightarrow> store \<Rightarrow> bool" where
  "absent h st \<longleftrightarrow> h \<notin> pd_digest ` set (rs_invitations (st_state st))"

lemma save_then_absent:
  "absent h st \<Longrightarrow> h \<notin> pd_digest ` set (rs_invitations next) \<Longrightarrow>
     absent h (snd (save_then outcome next result st))"
  by (rule save_then_cases [of outcome "next" result st]) (auto simp: absent_def)

lemma enroll_absent: "absent h st \<Longrightarrow> absent h (snd (enroll sha key secret now outcome st))"
  unfolding enroll_def serial_def Let_def enrolled_devices_def [symmetric]
  using without_position(1) [of _ "rs_invitations (st_state st)"]
  by (auto split: option.split sum.split simp del: filter_append set_append
      intro!: save_then_absent) (auto simp: absent_def)

lemma store_apply_absent:
  assumes "absent h st" and "\<not> issues sha h op"
  shows "absent h (store_apply sha op st)"
proof (cases op)
  case Do_list
  with assms(1) show ?thesis by (simp add: list_devices_def serial_def)
next
  case (Do_create ex now secret outcome)
  with assms show ?thesis
    by (auto simp: createInvitation_def serial_def Let_def issues_def
        intro!: save_then_absent split: option.split) (auto simp: absent_def)
next
  case (Do_enroll key secret now outcome)
  with assms show ?thesis by (simp add: enroll_absent)
next
  case (Do_grant key ports outcome)
  with assms(1) show ?thesis
    by (auto simp: grant_ports_def serial_def Let_def intro!: save_then_absent split: sum.split)
      (auto simp: absent_def)
next
  case (Do_revoke key outcome)
  with assms(1) show ?thesis
    by (auto simp: revoke_def serial_def Let_def intro!: save_then_absent) (auto simp: absent_def)
qed

lemma store_path_absent:
  "store_path sha st ops st' \<Longrightarrow> absent h st \<Longrightarrow> \<forall>op \<in> set ops. \<not> issues sha h op \<Longrightarrow> absent h st'"
  by (induction rule: store_path.induct) (simp_all add: store_apply_absent)

section \<open>Opening and enrolling in detail\<close>

lemma receiver_open_inv:
  assumes "receiver_open getuid made directory file contents outcome idn = Inr st"
  shows "store_inv st" and "rs_identity (st_state st) = idn" and "\<not> st_failed st"
proof -
  from assms have idn: "identity_ok idn"
    by (auto simp: receiver_open_def identity_ok_def split: if_splits sum.splits)
  have "store_inv st \<and> rs_identity (st_state st) = idn \<and> \<not> st_failed st"
  proof (cases "made = Created")
    case True
    with assms idn show ?thesis
      by (cases outcome) (auto simp: receiver_open_def save_def Let_def store_inv_def receiver_inv_def
          MAX_DEVICES_def MAX_INVITATIONS_def split: if_splits sum.splits option.splits)
  next
    case False
    with assms obtain v s where v: "validate v idn = Inr s"
      and st: "st = \<lparr>st_state = s, st_failed = False, st_disk = Some s\<rparr>"
      by (auto simp: receiver_open_def read_state_def
          split: if_splits sum.splits option.splits mkdir_result.splits)
    from validate_ok [OF v idn] st show ?thesis by (simp add: store_inv_def)
  qed
  then show "store_inv st" and "rs_identity (st_state st) = idn" and "\<not> st_failed st" by simp_all
qed

lemma unusable_without_invitation:
  assumes "\<forall>i \<in> set (rs_invitations (st_state st)). \<not> (pd_digest i = sha secret \<and> live now i)"
    and "\<not> st_failed st"
  shows "enroll sha key secret now outcome st = (Inl (Plain ''unusable invitation''), st)"
proof -
  have "find_position (\<lambda>i. pd_digest i = sha secret \<and> live now i) (rs_invitations (st_state st)) = None"
    using assms(1) unfolding find_position_None .
  with assms(2) show ?thesis by (simp add: enroll_def serial_def Let_def)
qed

text \<open>What a successful enrollment has found and done.\<close>

lemma enroll_successD:
  assumes inv: "store_inv st" and ok: "fst (enroll sha key secret now outcome st) = Inr d"
  obtains k where "k < length (rs_invitations (st_state st))"
    and "pd_digest (rs_invitations (st_state st) ! k) = sha secret"
    and "live now (rs_invitations (st_state st) ! k)"
    and "enroll_device key (rs_invitations (st_state st) ! k) (st_state st) = Inr d"
    and "key_hex key" and "key \<noteq> id_receiverKey (rs_identity (st_state st))"
    and "st_state (snd (enroll sha key secret now outcome st)) =
      (st_state st)\<lparr>rs_devices := enrolled_devices key d (st_state st),
        rs_invitations := filter (live now)
          (take k (rs_invitations (st_state st)) @ drop (Suc k) (rs_invitations (st_state st)))\<rparr>"
proof -
  have f: "\<not> st_failed st" using ok enrolling.refuses [of st] by fastforce
  let ?s = "st_state st" and ?P = "\<lambda>i. pd_digest i = sha secret \<and> live now i"
  from ok f obtain k where k: "find_position ?P (rs_invitations ?s) = Some k"
    and key: "key_hex key" "key \<noteq> id_receiverKey (rs_identity ?s)" "key_hex secret"
    by (auto simp: enroll_def serial_def Let_def split: if_splits option.splits)
  with ok f obtain d' where d': "enroll_device key (rs_invitations ?s ! k) ?s = Inr d'"
    by (auto simp: enroll_def serial_def Let_def split: sum.splits)
  let ?next = "?s\<lparr>rs_devices := enrolled_devices key d' ?s, rs_invitations := filter (live now)
      (take k (rs_invitations ?s) @ drop (Suc k) (rs_invitations ?s))\<rparr>"
  have r: "enroll sha key secret now outcome st = save_then outcome ?next (Inr d') st"
    using f k key d' by (simp add: enroll_def serial_def Let_def enrolled_devices_def)
  have "d' = d \<and> st_state (snd (enroll sha key secret now outcome st)) = ?next"
    by (rule save_then_cases [of outcome ?next "Inr d'" st]) (use r ok in auto)
  with that find_position_Some [OF k] key d' show thesis by blast
qed

end
