(* ===== verification/Receiver_Process.thy ===== *)
theory Receiver_Process
  imports Receiver Receiver_Steps
begin

text \<open>
  Runs of the managed receiver: at most one engine runs at a time, it is authorised by the store
  at every moment, and the store stays valid.  What the receiver relies on of a store operation is
  the locale \<open>device_operation\<close>, which extends the contract of \<open>store_operation\<close>.
\<close>

section \<open>Which devices an operation leaves alone\<close>

abbreviation devices :: "store \<Rightarrow> receiver_device set" where
  "devices st \<equiv> set (rs_devices (st_state st))"

locale device_operation = store_operation operation ready
  for operation :: "'a operation" and ready :: "receiver_state \<Rightarrow> bool" +
  fixes spares :: "receiver_device \<Rightarrow> bool"
  assumes spared: "d \<in> devices st \<Longrightarrow> spares d \<Longrightarrow> d \<in> devices (snd (operation st))"
begin

lemma keeps_authorised:
  "set ds \<subseteq> devices st \<Longrightarrow> \<forall>d \<in> set ds. spares d \<Longrightarrow> set ds \<subseteq> devices (snd (operation st))"
  using spared by blast

lemma keeps_identity:
  assumes "store_inv st" and "ready (st_state st)"
  shows "rs_identity (st_state (snd (operation st))) = rs_identity (st_state st)"
proof (cases "st_failed st")
  case True
  then show ?thesis by (simp add: refuses)
next
  case False
  then have "saves_or_keeps st (operation st)" using assms by (simp add: commits store_inv_def)
  then show ?thesis
    unfolding saves_or_keeps_def
  proof (elim disjE conjE exE)
    fix outcome "next" result
    assume r: "operation st = save_then outcome next result st"
      and n: "rs_identity next = rs_identity (st_state st)"
    show ?thesis by (rule save_then_cases [of outcome "next" result st]) (use r n in auto)
  qed simp
qed

end

lemma save_then_devices:
  "d \<in> devices st \<Longrightarrow> d \<in> set (rs_devices next) \<Longrightarrow> d \<in> devices (snd (save_then outcome next result st))"
  by (rule save_then_cases [of outcome "next" result st]) auto

interpretation listing_devices: device_operation list_devices "\<lambda>_. True" "\<lambda>_. True"
  by unfold_locales (simp add: list_devices_def serial_def)

interpretation creating_devices:
  device_operation "createInvitation sha ex now secret outcome" "create_ready sha now secret" "\<lambda>_. True"
  for sha ex now secret outcome
  by unfold_locales
    (auto simp: createInvitation_def serial_def Let_def intro!: save_then_devices split: option.split)

interpretation enrolling_devices: device_operation "enroll sha key secret now outcome" "\<lambda>_. True" "\<lambda>_. True"
  for sha key secret now outcome
  by unfold_locales
    (auto simp: enroll_def serial_def Let_def intro!: save_then_devices split: option.split sum.split)

interpretation granting_devices:
  device_operation "grant_ports key value outcome" "\<lambda>_. True" "\<lambda>d. dv_publicKey d \<noteq> key"
  for key "value" outcome
  by unfold_locales
    (force simp: grant_ports_def serial_def Let_def intro!: save_then_devices split: sum.split)

interpretation revoking_devices:
  device_operation "revoke key outcome" "\<lambda>_. True" "\<lambda>d. dv_publicKey d \<noteq> key" for key outcome
  by unfold_locales (auto simp: revoke_def serial_def Let_def intro!: save_then_devices)

section \<open>Runs\<close>

datatype receiver_event =
  Rv_line string answers |
  Rv_enroll "js option" "string option" bool string string int save_outcome |
  Rv_changed |
  Rv_reload "error option" "peer_config \<Rightarrow> error option" |
  Rv_instance_failed nat error |
  Rv_stop

fun receiver_step ::
  "(string \<Rightarrow> js option) \<Rightarrow> (string \<Rightarrow> string) \<Rightarrow> receiver_event \<Rightarrow> receiver \<Rightarrow> receiver \<times> receiver_effect list" where
  "receiver_step json sha (Rv_line data w) r = snd (answer_line json sha data w r)"
| "receiver_step json sha (Rv_enroll routes name isOpen key secret now outcome) r =
     (snd (enroll_callback sha routes name isOpen key secret now outcome r), [])"
| "receiver_step json sha Rv_changed r = (changed r, [])"
| "receiver_step json sha (Rv_reload stopped start) r = reload_fires stopped start r"
| "receiver_step json sha (Rv_instance_failed n message) r = (instance_failed n message r, [])"
| "receiver_step json sha Rv_stop r = (stop_requested r, [])"

text \<open>A fresh secret has a new digest; everything else may happen at any time.\<close>

fun receiver_event_ok :: "(string \<Rightarrow> string) \<Rightarrow> receiver_event \<Rightarrow> receiver \<Rightarrow> bool" where
  "receiver_event_ok sha (Rv_line data w) r \<longleftrightarrow>
     create_ready sha (an_now w) (an_secret w) (st_state (rc_store r))"
| "receiver_event_ok sha _ r \<longleftrightarrow> True"

inductive receiver_run ::
  "(string \<Rightarrow> js option) \<Rightarrow> (string \<Rightarrow> string) \<Rightarrow> receiver \<Rightarrow> receiver_event list \<Rightarrow> receiver \<Rightarrow> receiver_effect list \<Rightarrow> bool"
  for json sha r where
  receiver_start: "receiver_run json sha r [] r []"
| receiver_next: "receiver_run json sha r evs r1 out \<Longrightarrow> receiver_event_ok sha ev r1 \<Longrightarrow>
    receiver_step json sha ev r1 = (r2, out') \<Longrightarrow> receiver_run json sha r (evs @ [ev]) r2 (out @ out')"

section \<open>The slot of the running engine\<close>

text \<open>
  The abstract machine: one slot, filled only when empty and emptied only by its own number; the
  grants are changed only while it is empty.
\<close>

fun slot :: "receiver_effect list \<Rightarrow> (nat \<times> peer_config) option \<Rightarrow> (nat \<times> peer_config) option option" where
  "slot [] s = Some s"
| "slot (Engine_start n c # out) None = slot out (Some (n, c))"
| "slot (Engine_stop n # out) (Some (m, c)) = (if m = n then slot out None else None)"
| "slot (Policy_write ds # out) None = slot out None"
| "slot _ _ = None"

lemma slot_append: "slot out s = Some s' \<Longrightarrow> slot (out @ out') s = slot out' s'"
  by (induction out s rule: slot.induct) (auto split: if_splits)

definition authorised :: "receiver \<Rightarrow> bool" where
  "authorised r \<longleftrightarrow>
     (case rc_runtime r of
        None \<Rightarrow> True
      | Some (n, c) \<Rightarrow> \<exists>ds. c = receiver_config (rc_config r) ds \<and> set ds \<subseteq> devices (rc_store r) \<and>
          distinct (map dv_publicKey ds) \<and> distinct (map dv_address ds))"

definition receiver_ok :: "receiver \<Rightarrow> bool" where
  "receiver_ok r \<longleftrightarrow> store_inv (rc_store r) \<and> authorised r"

text \<open>What every step keeps, with the effects it has.\<close>

definition sound :: "receiver \<Rightarrow> receiver \<times> receiver_effect list \<Rightarrow> bool" where
  "sound r res \<longleftrightarrow>
     receiver_ok (fst res) \<and> slot (snd res) (rc_runtime r) = Some (rc_runtime (fst res)) \<and>
     rc_config (fst res) = rc_config r \<and> rc_key (fst res) = rc_key r \<and> rc_pool (fst res) = rc_pool r \<and>
     rs_identity (st_state (rc_store (fst res))) = rs_identity (st_state (rc_store r))"

lemma sound_refl: "receiver_ok r \<Longrightarrow> sound r (r, [])"
  by (simp add: sound_def)

lemma sound_trans: "sound r (r1, out) \<Longrightarrow> sound r1 (r2, out') \<Longrightarrow> sound r (r2, out @ out')"
  by (auto simp: sound_def slot_append)

lemma receiver_ok_frame [simp]:
  "receiver_ok (r\<lparr>rc_failed := f\<rparr>) = receiver_ok r" "receiver_ok (r\<lparr>rc_reload := b\<rparr>) = receiver_ok r"
  "receiver_ok (r\<lparr>rc_stopping := b\<rparr>) = receiver_ok r"
  by (simp_all add: receiver_ok_def authorised_def split: option.split)

lemma sound_frame [simp]:
  "sound r (r'\<lparr>rc_failed := f\<rparr>, out) = sound r (r', out)" "sound r (r'\<lparr>rc_reload := b\<rparr>, out) = sound r (r', out)"
  "sound r (r'\<lparr>rc_stopping := b\<rparr>, out) = sound r (r', out)"
  "sound (r\<lparr>rc_reload := b\<rparr>) res = sound r res"
  by (simp_all add: sound_def)

lemma sound_fail [simp]: "sound r (fail_with m r', out) = sound r (r', out)"
  by (simp add: fail_with_def split: option.split)

section \<open>Every step is sound\<close>

lemma store_devices_distinct:
  assumes "store_inv st"
  shows "distinct (map dv_publicKey (rs_devices (st_state st)))" "distinct (map dv_address (rs_devices (st_state st)))"
  using assms by (simp_all add: store_inv_def receiver_inv_def)

lemma launch_sound: "receiver_ok r \<Longrightarrow> rc_runtime r = None \<Longrightarrow> sound r (snd (launch start r))"
  using store_devices_distinct [of "rc_store r"]
  by (auto simp: launch_def list_devices_def serial_def sound_def receiver_ok_def authorised_def Let_def
      split: option.split)

lemma stop_runtime_sound: "receiver_ok r \<Longrightarrow> sound r (snd (stop_runtime stopped r))"
  by (auto simp: stop_runtime_def sound_def receiver_ok_def authorised_def split: option.split)

lemma stop_runtime_none [simp]: "rc_runtime (fst (snd (stop_runtime stopped r))) = None"
  by (auto simp: stop_runtime_def split: option.split)

lemma soundD: "sound r (r', out) \<Longrightarrow> receiver_ok r'"
  by (simp add: sound_def)

lemma restart_sound:
  assumes "receiver_ok r"
  shows "sound r (snd (restart stopped start r))"
proof -
  obtain res r1 out where s: "stop_runtime stopped r = (res, r1, out)" by (metis prod_cases3)
  then have r1: "sound r (r1, out)" "rc_runtime r1 = None"
    using stop_runtime_sound [OF assms, of stopped] stop_runtime_none [of stopped r] by simp_all
  obtain res' r2 out' where l: "launch start r1 = (res', r2, out')" by (metis prod_cases3)
  then have "sound r1 (r2, out')" using launch_sound [OF soundD [OF r1(1)] r1(2), of start] by simp
  with r1 s l show ?thesis by (auto simp: restart_def intro: sound_trans split: sum.split)
qed

text \<open>An operation of the store while no engine runs, or one that leaves every device alone.\<close>

context device_operation
begin

lemma step_sound:
  assumes ok: "receiver_ok r" and ready: "ready (st_state (rc_store r))"
    and spare: "rc_runtime r = None \<or> (\<forall>d. spares d)"
  shows "sound r (r\<lparr>rc_store := snd (operation (rc_store r))\<rparr>, [])"
proof -
  have inv: "store_inv (rc_store r)" using ok by (simp add: receiver_ok_def)
  have "store_inv (snd (operation (rc_store r)))" using inv ready by (rule keeps_inv)
  moreover have "authorised (r\<lparr>rc_store := snd (operation (rc_store r))\<rparr>)"
    using ok spare spared by (fastforce simp: receiver_ok_def authorised_def split: option.splits)
  ultimately show ?thesis
    using keeps_identity [OF inv ready] by (simp add: sound_def receiver_ok_def)
qed

lemma write_sound:
  assumes "receiver_ok r" and "ready (st_state (rc_store r))" and "rc_runtime r = None"
  shows "sound r (r\<lparr>rc_store := snd (operation (rc_store r))\<rparr>, [Policy_write ds])"
  using step_sound [OF assms(1,2)] assms(3) by (simp add: sound_def)

text \<open>A change of policy with this operation.\<close>

lemma apply_policy_sound:
  assumes ok: "receiver_ok r" and ready: "\<And>s. ready s"
  shows "sound r (snd (apply_policy stopped start operation r))"
proof -
  obtain res r1 out where s: "stop_runtime stopped r = (res, r1, out)" by (metis prod_cases3)
  then have r1: "sound r (r1, out)" "rc_runtime r1 = None"
    using stop_runtime_sound [OF ok, of stopped] stop_runtime_none [of stopped r] by simp_all
  obtain res' st where op: "operation (rc_store r1) = (res', st)" by (metis surj_pair)
  let ?r2 = "r1\<lparr>rc_store := st\<rparr>"
  let ?change = "[Policy_write (rs_devices (st_state st))]"
  have "sound r1 (?r2, ?change)" using write_sound [OF soundD [OF r1(1)] ready r1(2)] op by simp
  with r1(1) have r2: "sound r (?r2, out @ ?change)" by (rule sound_trans)
  obtain res'' r3 out' where l: "launch start ?r2 = (res'', r3, out')" by (metis prod_cases3)
  then have "sound ?r2 (r3, out')" using launch_sound [OF soundD [OF r2], of start] r1(2) by simp
  with r2 have "sound r (r3, out @ ?change @ out')" using sound_trans by fastforce
  with r1 r2 s op l show ?thesis by (auto simp: apply_policy_def split: sum.split)
qed

end

lemma command_sound:
  assumes ok: "receiver_ok r" and ready: "create_ready sha (an_now w) (an_secret w) (st_state (rc_store r))"
  shows "sound r (snd (command sha request w r))"
proof -
  have "sound r (snd (invite_command sha request (an_now w) (an_secret w) (an_saved w) r))"
  proof -
    let ?exclude = "case prop_of request ''excludeAddress'' of JStr a \<Rightarrow> Some a | _ \<Rightarrow> None"
    obtain res st where c: "createInvitation sha ?exclude (an_now w) (an_secret w) (an_saved w) (rc_store r) = (res, st)"
      by (metis surj_pair)
    with creating_devices.step_sound [OF ok ready, of ?exclude "an_saved w"]
    have "sound r (r\<lparr>rc_store := st\<rparr>, [])" by simp
    then show ?thesis by (simp add: invite_command_def c split: sum.split)
  qed
  moreover have "sound r (snd (list_command r))"
    using sound_refl [OF ok] by (auto simp: list_command_def split: prod.split sum.split)
  moreover have "sound r (snd (policy_command request action key (an_saved w) (an_stopped w) (an_start w) r))" for action key
    using sound_refl [OF ok] granting_devices.apply_policy_sound [OF ok] revoking_devices.apply_policy_sound [OF ok]
    by (auto simp: policy_command_def invalid_request_def split: prod.split sum.split)
  ultimately show ?thesis
    using sound_refl [OF ok] by (auto simp: command_def invalid_request_def split: js.split)
qed

lemma answer_line_sound:
  assumes "receiver_ok r" and "create_ready sha (an_now w) (an_secret w) (st_state (rc_store r))"
  shows "sound r (snd (answer_line json sha data w r))"
proof -
  have "sound r (snd (handle_line json sha data w r))"
    using command_sound [OF assms] sound_refl [OF assms(1)]
    by (auto simp: handle_line_def invalid_request_def Let_def split: option.split js.split)
  then show ?thesis by (auto simp: answer_line_def split: prod.split)
qed

lemma enroll_callback_sound:
  assumes ok: "receiver_ok r"
  shows "sound r (snd (enroll_callback sha routes name isOpen key secret now outcome r), [])"
proof -
  obtain res st where e: "enroll sha key secret now outcome (rc_store r) = (res, st)" by (metis surj_pair)
  then have "sound r (r\<lparr>rc_store := st\<rparr>, [])"
    using enrolling_devices.step_sound [OF ok, of sha key secret now outcome] by simp
  with e sound_refl [OF ok] show ?thesis
    by (auto simp: enroll_callback_def split: pool_check.split sum.split rs_error.split)
qed

lemma receiver_step_sound:
  assumes ok: "receiver_ok r" and "receiver_event_ok sha ev r"
  shows "sound r (receiver_step json sha ev r)"
proof (cases ev)
  case (Rv_line data w)
  then show ?thesis using assms answer_line_sound by simp
next
  case (Rv_enroll routes name isOpen key secret now outcome)
  then show ?thesis using enroll_callback_sound [OF ok] by simp
next
  case (Rv_reload stopped start)
  have "sound r (snd (restart stopped start (r\<lparr>rc_reload := False\<rparr>)))"
    using restart_sound [of "r\<lparr>rc_reload := False\<rparr>" stopped start] ok by simp
  then show ?thesis
    using sound_refl [OF ok] Rv_reload by (auto simp: reload_fires_def split: prod.split sum.split)
qed (use sound_refl [OF ok] in \<open>simp_all add: changed_def instance_failed_def stop_requested_def\<close>)

lemma receiver_run_sound: "receiver_run json sha r evs r' out \<Longrightarrow> receiver_ok r \<Longrightarrow> sound r (r', out)"
proof (induction rule: receiver_run.induct)
  case (receiver_next evs r1 out ev r2 out')
  then show ?case
    using receiver_step_sound [of r1 sha ev json] by (auto intro: sound_trans soundD)
qed (rule sound_refl)

end
