(* ===== verification/Packet_Gate.thy ===== *)
theory Packet_Gate
  imports Packet_Policy
begin

text \<open>
  What the engine relies on when it asks a session's policy about a packet: the contract between
  \<open>src/vpn/engine.ts\<close> and \<open>src/vpn/packet-policy.ts\<close>, as a locale, with its interpretation on
  the policy of \<open>Packet_Policy\<close>.
\<close>

text \<open>Addresses of this host and the peer, granted ports, and whether this host may open flows.\<close>

record gate_config =
  gc_local :: string
  gc_peer :: string
  gc_ports :: grant
  gc_outbound :: bool

datatype 'e gate_use = Ask int 'e direction | Clear

locale packet_gate =
  fixes gate :: "int \<Rightarrow> bytes \<Rightarrow> direction \<Rightarrow> 'p \<Rightarrow> bool \<times> 'p \<times> acceptance_event list"
    and clear :: "'p \<Rightarrow> 'p"
    and inv :: "'p \<Rightarrow> bool"
    and config :: "'p \<Rightarrow> gate_config"
  assumes gate_inv: "inv p \<Longrightarrow> inv (fst (snd (gate t bs d p)))"
    and gate_config: "config (fst (snd (gate t bs d p))) = config p"
    and clear_inv: "inv p \<Longrightarrow> inv (clear p)"
    and clear_config: "config (clear p) = config p"
    and gate_in: "fst (gate t bs In p) \<Longrightarrow>
      address bs 12 = gc_peer (config p) \<and> address bs 16 = gc_local (config p)"
    and gate_out: "fst (gate t bs Out p) \<Longrightarrow>
      address bs 12 = gc_local (config p) \<and> address bs 16 = gc_peer (config p)"
    and gate_port: "inv p \<Longrightarrow> fst (gate t bs In p) \<Longrightarrow> byte_at bs 9 = 6 \<Longrightarrow>
      granted (gc_ports (config p)) (readUInt16BE bs 22) \<or> gc_outbound (config p)"
begin

text \<open>A policy object during its life: questions and clearings in any order.\<close>

fun gate_run :: "bytes gate_use list \<Rightarrow> 'p \<Rightarrow> 'p" where
  "gate_run [] p = p"
| "gate_run (Ask t bs d # us) p = gate_run us (fst (snd (gate t bs d p)))"
| "gate_run (Clear # us) p = gate_run us (clear p)"

lemma gate_run_inv: "inv p \<Longrightarrow> inv (gate_run us p)"
  by (induction us p rule: gate_run.induct) (simp_all add: gate_inv clear_inv)

lemma gate_run_config: "config (gate_run us p) = config p"
  by (induction us p rule: gate_run.induct) (simp_all add: gate_config clear_config)

text \<open>Whatever has happened, what is let in comes from the peer, and to a granted port if need be.\<close>

lemma gate_run_in:
  assumes "inv p" and "fst (gate t bs In (gate_run us p))"
  shows "address bs 12 = gc_peer (config p)" and "address bs 16 = gc_local (config p)"
    and "byte_at bs 9 = 6 \<Longrightarrow> granted (gc_ports (config p)) (readUInt16BE bs 22) \<or> gc_outbound (config p)"
  using gate_in [OF assms(2)] gate_port [OF gate_run_inv [OF assms(1)] assms(2)]
  by (simp_all add: gate_run_config)

lemma gate_run_out:
  assumes "fst (gate t bs Out (gate_run us p))"
  shows "address bs 12 = gc_local (config p)" and "address bs 16 = gc_peer (config p)"
  using gate_out [OF assms] by (simp_all add: gate_run_config)

end

section \<open>The policy is such a gate\<close>

definition policy_config :: "policy \<Rightarrow> gate_config" where
  "policy_config p =
     \<lparr>gc_local = localAddress p, gc_peer = peerAddress p, gc_ports = ports p,
      gc_outbound = allowOutboundInitiation p\<rparr>"

lemma same_config_eq: "same_config p q \<longleftrightarrow> policy_config q = policy_config p"
  by (auto simp: same_config_def policy_config_def)

lemma readUInt16BE_drop: "readUInt16BE (drop h bs) i = readUInt16BE bs (h + i)"
  by (simp add: readUInt16BE_def byte_at_drop)

lemma tcp_segment_port: "tcp_segment bs h = Some sg \<Longrightarrow> sg_destinationPort sg = readUInt16BE bs (h + 2)"
  by (auto simp: tcp_segment_def Let_def readUInt16BE_drop split: if_splits)

lemma admit_tcp_granted:
  assumes inv: "policy_inv p" and ok: "fst (admit_tcp now In sg p)"
  shows "granted (ports p) (sg_destinationPort sg) \<or> allowOutboundInitiation p"
proof (cases "map_get (flows p) (segment_key In sg)")
  case None
  with ok show ?thesis
    by (auto simp: admit_tcp_def Let_def open_flow_def split: if_splits)
next
  case (Some f)
  then have "flow_allowed p (segment_key In sg) f" using inv by (simp add: policy_inv_flow)
  then show ?thesis
    by (cases "fl_initiator f") (auto simp: flow_allowed_def segment_key_def tuple_inj)
qed

lemma admit_granted:
  assumes inv: "policy_inv p" and ok: "fst (admit now bs In p)" and tcp: "byte_at bs 9 = 6"
  shows "granted (ports p) (readUInt16BE bs 22) \<or> allowOutboundInitiation p"
proof -
  from ok obtain pk where pk: "ipv4 bs = Some pk" "fst (admit_packet now pk In p)"
    by (auto simp: admit_eq split: option.splits if_splits)
  with tcp ipv4_SomeD [OF pk(1)] obtain sg where sg: "tcp_segment bs 20 = Some sg"
    and ok: "fst (admit_tcp now In sg (sweep now p))"
    by (auto simp: admit_packet_def Let_def split: option.splits)
  have "same_config p (sweep now p)" by simp
  then show ?thesis
    using admit_tcp_granted [OF sweep_inv [OF inv] ok] tcp_segment_port [OF sg]
    by (simp add: same_config_def)
qed

interpretation policy_gate: packet_gate admit policy_clear policy_inv policy_config
proof
  fix p :: policy and t bs d
  show "policy_inv p \<Longrightarrow> policy_inv (fst (snd (admit t bs d p)))" by (rule admit_inv)
  show "policy_config (fst (snd (admit t bs d p))) = policy_config p"
    using admit_config [of p t bs d] by (simp add: same_config_eq)
  show "policy_inv p \<Longrightarrow> policy_inv (policy_clear p)" by (rule inv_clear)
  show "policy_config (policy_clear p) = policy_config p"
    by (simp add: policy_config_def policy_clear_def)
  show "fst (admit t bs In p) \<Longrightarrow>
      address bs 12 = gc_peer (policy_config p) \<and> address bs 16 = gc_local (policy_config p)"
    and "fst (admit t bs Out p) \<Longrightarrow>
      address bs 12 = gc_local (policy_config p) \<and> address bs 16 = gc_peer (policy_config p)"
    using ipv4_SomeD(9,10) [of bs]
    by (auto simp: admit_eq policy_config_def expectedSource_def expectedDestination_def
        split: option.splits if_splits)
  show "policy_inv p \<Longrightarrow> fst (admit t bs In p) \<Longrightarrow> byte_at bs 9 = 6 \<Longrightarrow>
      granted (gc_ports (policy_config p)) (readUInt16BE bs 22) \<or> gc_outbound (policy_config p)"
    using admit_granted by (simp add: policy_config_def)
qed

end
