(* ===== verification/Engine_Invariant.thy ===== *)
theory Engine_Invariant
  imports Engine Packet_Gate
begin

text \<open>
  The invariants of the engine: every session object belongs to a configured peer and holds a
  policy for exactly that peer; a session that is no longer current is not ready and holds no
  flows; and the enrollment limits.  Each operation keeps both, with the policy behind the
  interface \<open>packet_gate\<close>.
\<close>

section \<open>Peers\<close>

lemma map_from_elem: "map_get (map_from kvs m) k = Some v \<Longrightarrow> (k, v) \<in> set kvs \<or> map_get m k = Some v"
  by (induction kvs m rule: map_from.induct) (auto simp: map_simps split: if_splits)

lemma byKey_elem: "map_get (byKey e) k = Some p \<Longrightarrow> p \<in> set (en_peers e) \<and> pr_key p = k"
  using map_from_elem [of _ "[]" k p] by (force simp: byKey_def)

lemma byAddress_elem: "map_get (byAddress e) a = Some p \<Longrightarrow> p \<in> set (en_peers e) \<and> pr_address p = a"
  using map_from_elem [of _ "[]" a p] by (force simp: byAddress_def)

definition same_setup :: "engine \<Rightarrow> engine \<Rightarrow> bool" where
  "same_setup e e' \<longleftrightarrow>
     en_peerKey e' = en_peerKey e \<and> en_address e' = en_address e \<and> en_peers e' = en_peers e \<and>
     en_enrollment e' = en_enrollment e"

section \<open>The session invariant\<close>

definition session_config :: "engine \<Rightarrow> peer \<Rightarrow> gate_config" where
  "session_config e p =
     \<lparr>gc_local = en_address e, gc_peer = pr_address p, gc_ports = pr_allowTcp p,
      gc_outbound = (\<not> en_enrollment e)\<rparr>"

definition session_ok :: "engine \<Rightarrow> session \<Rightarrow> bool" where
  "session_ok e s \<longleftrightarrow>
     policy_inv (ss_policy s) \<and> (ss_ready s \<longrightarrow> \<not> ss_first s) \<and>
     (\<exists>p \<in> set (en_peers e). pr_key p = ss_key s \<and> policy_config (ss_policy s) = session_config e p)"

definition sessions_inv :: "engine \<Rightarrow> bool" where
  "sessions_inv e \<longleftrightarrow>
     (\<forall>stream s. map_get (en_objects e) stream = Some s \<longrightarrow> session_ok e s) \<and>
     (\<forall>key stream. map_get (en_sessions e) key = Some stream \<longrightarrow>
        (\<exists>s. map_get (en_objects e) stream = Some s \<and> ss_key s = key)) \<and>
     (\<forall>stream s. map_get (en_objects e) stream = Some s \<and> \<not> is_current e stream s \<longrightarrow>
        \<not> ss_ready s \<and> flows (ss_policy s) = []) \<and>
     (en_stopping e \<longrightarrow> en_sessions e = [])"

lemma sessions_inv_frame [simp]:
  "sessions_inv (e\<lparr>en_lastAdmissions := a\<rparr>) = sessions_inv e"
  "sessions_inv (e\<lparr>en_admissionLogs := b\<rparr>) = sessions_inv e"
  "sessions_inv (e\<lparr>en_lastUnknownAdmissionLog := c\<rparr>) = sessions_inv e"
  "sessions_inv (e\<lparr>en_streams := d\<rparr>) = sessions_inv e"
  "sessions_inv (e\<lparr>en_enrollmentReservations := f\<rparr>) = sessions_inv e"
  "sessions_inv (e\<lparr>en_enrollmentStreams := g\<rparr>) = sessions_inv e"
  "sessions_inv (e\<lparr>en_enrollmentAttempts := h\<rparr>) = sessions_inv e"
  "sessions_inv (e\<lparr>en_enrollmentRejectionLogs := i\<rparr>) = sessions_inv e"
  "sessions_inv (e\<lparr>en_tunWriting := j\<rparr>) = sessions_inv e"
  by (simp_all add: sessions_inv_def session_ok_def session_config_def is_current_def)

lemma sessions_inv_object:
  "sessions_inv e \<Longrightarrow> map_get (en_objects e) stream = Some s \<Longrightarrow> session_ok e s"
  by (simp add: sessions_inv_def)

lemma sessions_inv_current:
  "sessions_inv e \<Longrightarrow> map_get (en_sessions e) key = Some stream \<Longrightarrow>
     \<exists>s. map_get (en_objects e) stream = Some s \<and> ss_key s = key"
  by (simp add: sessions_inv_def)

lemma session_ok_put [simp]: "session_ok (put_session stream s e) s' = session_ok e s'"
  by (simp add: session_ok_def put_session_def session_config_def)

lemma put_session_fields [simp]:
  "en_sessions (put_session stream s e) = en_sessions e"
  "en_stopping (put_session stream s e) = en_stopping e"
  "en_peers (put_session stream s e) = en_peers e"
  "en_objects (put_session stream s e) = map_set stream s (en_objects e)"
  "en_streams (put_session stream s e) = en_streams e"
  "en_enrollment (put_session stream s e) = en_enrollment e"
  "en_address (put_session stream s e) = en_address e"
  "en_peerKey (put_session stream s e) = en_peerKey e"
  by (simp_all add: put_session_def)

text \<open>Replacing a session object by one of the same peer.\<close>

lemma put_session_inv:
  assumes inv: "sessions_inv e" and s0: "map_get (en_objects e) stream = Some s0"
    and key: "ss_key s = ss_key s0" and ok: "session_ok e s"
    and idle: "\<not> is_current e stream s0 \<Longrightarrow> \<not> ss_ready s \<and> flows (ss_policy s) = []"
  shows "sessions_inv (put_session stream s e)"
proof -
  have cur: "is_current (put_session stream s e) k s' = is_current e k s'" for k s'
    by (simp add: is_current_def)
  have "is_current e stream s = is_current e stream s0" using key by (simp add: is_current_def)
  moreover have "ss_key s0 = k" if "map_get (en_sessions e) k = Some stream" for k
    using sessions_inv_current [OF inv that] s0 by simp
  ultimately show ?thesis
    using inv s0 key ok idle
    unfolding sessions_inv_def cur session_ok_put by (auto simp: map_simps split: if_splits)
qed

lemma end_session_key [simp]: "ss_key (end_session s) = ss_key s"
  by (simp add: end_session_def)

lemma end_session_idle [simp]: "\<not> ss_ready (end_session s)" "flows (ss_policy (end_session s)) = []"
  by (simp_all add: end_session_def policy_clear_def)

lemma end_session_ok: "session_ok e s \<Longrightarrow> session_ok e (end_session s)"
  by (auto simp: session_ok_def end_session_def policy_gate.clear_config intro: policy_gate.clear_inv)

lemma asked_session_ok:
  "session_ok e s \<Longrightarrow> session_ok e (s\<lparr>ss_policy := fst (snd (admit date packet d (ss_policy s)))\<rparr>)"
  by (auto simp: session_ok_def policy_gate.gate_config intro: policy_gate.gate_inv)

text \<open>A new session of a configured peer.\<close>

lemma new_session_ok:
  "p \<in> set (en_peers e) \<Longrightarrow> session_ok e \<lparr>ss_key = pr_key p,
     ss_policy = new_policy (en_address e) (pr_address p) (pr_allowTcp p) (\<not> en_enrollment e),
     ss_ready = False, ss_first = True\<rparr>"
  by (auto simp: session_ok_def session_config_def policy_config_def new_policy_def
      intro: inv_new [unfolded new_policy_def])

lemma attach_inv:
  assumes inv: "sessions_inv e" and p: "p \<in> set (en_peers e)"
    and fresh: "map_get (en_objects e) stream = None"
  shows "sessions_inv (fst (attach p stream e))"
proof (cases "en_stopping e \<or> map_get (en_sessions e) (pr_key p) \<noteq> None")
  case True
  with inv show ?thesis by (simp add: attach_def)
next
  case False
  let ?s = "\<lparr>ss_key = pr_key p, ss_policy = new_policy (en_address e) (pr_address p) (pr_allowTcp p)
      (\<not> en_enrollment e), ss_ready = False, ss_first = True\<rparr>"
  let ?e = "e\<lparr>en_streams := set_add stream (en_streams e),
      en_objects := map_set stream ?s (en_objects e),
      en_sessions := map_set (pr_key p) stream (en_sessions e)\<rparr>"
  have obj: "map_get (en_objects ?e) k = (if k = stream then Some ?s else map_get (en_objects e) k)" for k
    by (simp add: map_simps)
  have ses: "map_get (en_sessions ?e) k = (if k = pr_key p then Some stream else map_get (en_sessions e) k)" for k
    by (simp add: map_simps)
  have ok: "session_ok ?e s = session_ok e s" for s
    by (simp add: session_ok_def session_config_def)
  have "is_current ?e k s' \<longleftrightarrow> (if ss_key s' = pr_key p then k = stream else is_current e k s')" for k s'
    using False by (auto simp: is_current_def map_simps)
  moreover have "map_get (en_sessions e) k \<noteq> Some stream" for k
    using sessions_inv_current [OF inv, of k stream] fresh by auto
  ultimately have "sessions_inv ?e"
    using inv fresh new_session_ok [OF p] False
    unfolding sessions_inv_def obj ses ok by (auto simp: new_policy_def is_current_def split: if_splits)
  then show ?thesis using False by (simp add: attach_def)
qed

section \<open>Every operation keeps it\<close>

lemma logAdmission_inv [simp]: "sessions_inv (fst (logAdmission now p m e)) = sessions_inv e"
  by (simp add: logAdmission_def Let_def split: option.split)

lemma firewall_inv: "sessions_inv e \<Longrightarrow> sessions_inv (fst (snd (firewall now key e)))"
  by (simp add: firewall_def reserve_enrollment_def unknown_admission_def Let_def split_beta
      split: option.split)

lemma log_rejection_inv [simp]: "sessions_inv (fst (log_rejection now r e)) = sessions_inv e"
  by (simp add: log_rejection_def Let_def)

lemma enroll_request_inv [simp]: "sessions_inv (fst (enroll_request now st packet f e)) = sessions_inv e"
  by (simp add: enroll_request_def Let_def split_beta split: sum.split option.split enroll_outcome.split)

lemma accept_stream_inv:
  assumes "sessions_inv e" and "map_get (en_objects e) stream = None"
  shows "sessions_inv (fst (accept_stream key stream e))"
proof -
  let ?e = "e\<lparr>en_enrollmentReservations := map_delete key (en_enrollmentReservations e)\<rparr>"
  have "sessions_inv (fst (attach p stream ?e))" if "map_get (byKey e) key = Some p" for p
    using assms byKey_elem [OF that] by (intro attach_inv) simp_all
  with assms(1) show ?thesis
    by (auto simp: accept_stream_def attachEnrollment_def Let_def split_beta split: option.split)
qed

lemma dial_connected_inv:
  "sessions_inv e \<Longrightarrow> p \<in> set (en_peers e) \<Longrightarrow> map_get (en_objects e) stream = None \<Longrightarrow>
     sessions_inv (fst (dial_connected p stream remote e))"
  by (simp add: dial_connected_def dial_failed_def split_beta attach_inv)

lemma first_frame_inv:
  assumes inv: "sessions_inv e" and s: "map_get (en_objects e) stream = Some s"
    and cur: "is_current e stream s" and first: "ss_first s"
  shows "sessions_inv (fst (first_frame now stream s packet f e))"
proof -
  have ok: "session_ok e s" using sessions_inv_object [OF inv s] .
  with first have "session_ok e (s\<lparr>ss_first := False\<rparr>)"
    and "session_ok e (s\<lparr>ss_first := False, ss_ready := True\<rparr>)"
    by (simp_all add: session_ok_def)
  then have "sessions_inv (put_session stream (s\<lparr>ss_first := False\<rparr>) e)"
    and "sessions_inv (put_session stream (s\<lparr>ss_first := False, ss_ready := True\<rparr>) e)"
    using cur by (auto intro!: put_session_inv [OF inv s])
  then show ?thesis by (simp add: first_frame_def Let_def split_beta)
qed

lemma session_frame_inv:
  "sessions_inv e \<Longrightarrow> sessions_inv (fst (session_frame now date stream packet f e))"
proof -
  assume inv: "sessions_inv e"
  have "sessions_inv (put_session stream (s\<lparr>ss_policy := fst (snd (admit date packet In (ss_policy s)))\<rparr>) e)"
    if "map_get (en_objects e) stream = Some s" "is_current e stream s" for s
    using that asked_session_ok [OF sessions_inv_object [OF inv that(1)]]
    by (auto intro: put_session_inv [OF inv that(1)])
  with inv first_frame_inv [OF inv] show ?thesis
    by (auto simp: session_frame_def split_beta Let_def split: option.split)
qed

lemma remove_session_inv:
  assumes inv: "sessions_inv e"
    and idle: "\<And>k t. map_get (en_objects e) k = Some t \<Longrightarrow> ss_key t = key \<Longrightarrow>
      \<not> ss_ready t \<and> flows (ss_policy t) = []"
  shows "sessions_inv (e\<lparr>en_sessions := map_delete key (en_sessions e)\<rparr>)"
proof -
  let ?e = "e\<lparr>en_sessions := map_delete key (en_sessions e)\<rparr>"
  have cur: "is_current ?e k t \<longleftrightarrow> ss_key t \<noteq> key \<and> is_current e k t" for k t
    by (simp add: is_current_def map_simps)
  have ok: "session_ok ?e t = session_ok e t" for t
    by (simp add: session_ok_def session_config_def)
  have "\<not> ss_ready t \<and> flows (ss_policy t) = []"
    if "map_get (en_objects e) k = Some t" "\<not> is_current ?e k t" for k t
    using that inv idle unfolding cur sessions_inv_def by blast
  with inv show ?thesis
    unfolding sessions_inv_def ok by (auto simp: map_simps)
qed

lemma session_closed_inv: "sessions_inv e \<Longrightarrow> sessions_inv (fst (session_closed stream e))"
proof -
  assume inv: "sessions_inv e"
  show ?thesis
  proof (cases "map_get (en_objects e) stream")
    case None
    with inv show ?thesis by (simp add: session_closed_def Let_def)
  next
    case (Some s)
    let ?e = "put_session stream (end_session s) e"
    have e: "sessions_inv ?e"
      using end_session_ok [OF sessions_inv_object [OF inv Some]]
      by (intro put_session_inv [OF inv Some]) simp_all
    have idle: "\<not> ss_ready t \<and> flows (ss_policy t) = []"
      if "map_get (en_objects ?e) k = Some t" "ss_key t = ss_key s" "is_current e stream s" for k t
    proof (cases "k = stream")
      case True
      with that show ?thesis by (auto simp: map_simps)
    next
      case False
      then have "\<not> is_current ?e k t" using that(2,3) by (simp add: is_current_def)
      then show ?thesis using e that(1) unfolding sessions_inv_def by blast
    qed
    have "sessions_inv (?e\<lparr>en_sessions := map_delete (ss_key s) (en_sessions ?e)\<rparr>)" if "is_current e stream s"
      using e by (rule remove_session_inv) (use idle that in blast)
    with e have "sessions_inv (put_session stream (end_session s)
        (if is_current e stream s then e\<lparr>en_streams := x, en_sessions := map_delete (ss_key s) (en_sessions e)\<rparr>
         else e\<lparr>en_streams := x\<rparr>))" for x
      by (auto simp: put_session_def sessions_inv_def session_ok_def session_config_def is_current_def)
    with Some show ?thesis by (simp add: session_closed_def Let_def)
  qed
qed

lemma device_packet_inv: "sessions_inv e \<Longrightarrow> sessions_inv (fst (device_packet date packet sent e))"
proof -
  assume inv: "sessions_inv e"
  have "sessions_inv (put_session stream (s\<lparr>ss_policy := fst (snd (admit date packet Out (ss_policy s)))\<rparr>) e)"
    if "map_get (en_sessions e) key = Some stream" "map_get (en_objects e) stream = Some s" for key stream s
  proof -
    have "is_current e stream s"
      using sessions_inv_current [OF inv that(1)] that by (simp add: is_current_def)
    then show ?thesis
      using asked_session_ok [OF sessions_inv_object [OF inv that(2)]]
      by (intro put_session_inv [OF inv that(2)]) simp_all
  qed
  with inv show ?thesis
    by (auto simp: device_packet_def split_beta Let_def split: option.split)
qed

lemma end_sessions_fields:
  "en_sessions (fst (end_sessions m e)) = en_sessions e \<and>
   en_stopping (fst (end_sessions m e)) = en_stopping e \<and>
   en_streams (fst (end_sessions m e)) = en_streams e \<and> same_setup e (fst (end_sessions m e))"
  by (induction m e rule: end_sessions.induct) (simp_all add: same_setup_def split_beta split: option.split)

lemma end_session_twice [simp]: "end_session (end_session s) = end_session s"
  by (simp add: end_session_def policy_clear_def)

lemma end_sessions_objects:
  "map_get (en_objects (fst (end_sessions m e))) stream =
     (if stream \<in> snd ` set m then map_option end_session (map_get (en_objects e) stream)
      else map_get (en_objects e) stream)"
proof (induction m e rule: end_sessions.induct)
  case (2 key s rest e)
  then show ?case
    by (cases "map_get (en_objects e) s") (auto simp: split_beta map_simps option.map_comp comp_def)
qed simp

lemma stop_engine_inv: "sessions_inv e \<Longrightarrow> sessions_inv (fst (stop_engine e))"
proof (cases "en_stopping e")
  case False
  assume inv: "sessions_inv e"
  let ?m = "en_sessions e" and ?e = "fst (end_sessions (en_sessions e) (e\<lparr>en_stopping := True\<rparr>))"
  have frame: "session_ok (?e\<lparr>en_sessions := []\<rparr>) s = session_ok e s" for s
    using end_sessions_fields [of ?m "e\<lparr>en_stopping := True\<rparr>"]
    by (simp add: session_ok_def session_config_def same_setup_def)
  have "session_ok e s \<and> \<not> ss_ready s \<and> flows (ss_policy s) = []"
    if s: "map_get (en_objects ?e) stream = Some s" for stream s
  proof (cases "stream \<in> snd ` set ?m")
    case True
    with s obtain t where "map_get (en_objects e) stream = Some t" "s = end_session t"
      by (auto simp: end_sessions_objects)
    then show ?thesis using end_session_ok [OF sessions_inv_object [OF inv]] by simp
  next
    case False
    with s have o: "map_get (en_objects e) stream = Some s" by (simp add: end_sessions_objects)
    have "\<not> is_current e stream s" using False map_of_SomeD [of ?m] by (force simp: is_current_def)
    with o inv show ?thesis by (auto simp: sessions_inv_def)
  qed
  then have "sessions_inv (?e\<lparr>en_sessions := []\<rparr>)"
    unfolding sessions_inv_def frame by auto
  with False show ?thesis by (simp add: stop_engine_def split_beta)
qed (simp add: stop_engine_def)

lemma engine_step_inv: "sessions_inv e \<Longrightarrow> event_ok ev e \<Longrightarrow> sessions_inv (fst (engine_step ev e))"
proof (cases ev)
  case (Ev_firewall now key)
  assume "sessions_inv e"
  with Ev_firewall show ?thesis using firewall_inv by (simp add: split_beta)
qed (simp_all add: accept_stream_inv dial_connected_inv dial_open_def dial_failed_def enrollment_frame_def
    enrollment_done_def session_frame_inv device_written_def session_ended_def handshake_timeout_def
    session_closed_inv device_packet_inv stop_engine_inv Let_def split_beta split: option.split)

lemma engine_run_inv: "engine_run e evs e' out \<Longrightarrow> sessions_inv e \<Longrightarrow> sessions_inv e'"
proof (induction rule: engine_run.induct)
  case (run_step e evs e1 out ev e2 out')
  then show ?case using engine_step_inv [of e1 ev] by simp
qed

section \<open>The enrollment limits\<close>

definition limits_inv :: "engine \<Rightarrow> bool" where
  "limits_inv e \<longleftrightarrow>
     map_wf (en_enrollmentReservations e) \<and> distinct (en_enrollmentStreams e) \<and>
     length (en_enrollmentStreams e) + length (en_enrollmentReservations e) \<le> 8 \<and>
     length (en_enrollmentAttempts e) \<le> 32"

definition same_limits :: "engine \<Rightarrow> engine \<Rightarrow> bool" where
  "same_limits e e' \<longleftrightarrow>
     en_enrollmentReservations e' = en_enrollmentReservations e \<and>
     en_enrollmentStreams e' = en_enrollmentStreams e \<and>
     en_enrollmentAttempts e' = en_enrollmentAttempts e"

lemma same_limits_inv: "same_limits e e' \<Longrightarrow> limits_inv e \<Longrightarrow> limits_inv e'"
  by (simp add: same_limits_def limits_inv_def)

lemma same_limits_put [simp]: "same_limits e (put_session stream s e')  = same_limits e e'"
  by (simp add: same_limits_def put_session_def)

lemma same_limits_refl [simp]: "same_limits e e"
  by (simp add: same_limits_def)

lemma same_limits_tun: "same_limits e (e'\<lparr>en_tunWriting := b\<rparr>) = same_limits e e'"
  by (simp add: same_limits_def)

lemma logAdmission_limits: "same_limits e (fst (logAdmission now p m e))"
  by (simp add: logAdmission_def Let_def same_limits_def split: option.split)

lemma enroll_request_limits: "same_limits e' e \<Longrightarrow> same_limits e' (fst (enroll_request now st packet f e))"
  by (simp add: enroll_request_def log_rejection_def Let_def split_beta same_limits_def
      split: sum.split option.split enroll_outcome.split)

lemma first_frame_limits: "same_limits e (fst (first_frame now stream s packet f e))"
  by (simp add: first_frame_def Let_def split_beta enroll_request_limits)

lemma end_sessions_limits: "same_limits e (fst (end_sessions m e))"
proof (induction m e rule: end_sessions.induct)
  case (2 key stream rest e)
  then show ?case by (auto simp: split_beta same_limits_def put_session_def split: option.split)
qed (simp add: same_limits_def)

lemma length_keys: "length (m :: ('k, 'v) js_map) = length (map fst m)"
  by simp

lemma reservation_size:
  "map_wf m \<Longrightarrow> map_get m k \<noteq> None \<Longrightarrow> Suc (length (map_delete k m)) = length m"
  using jm.size_remove [of m k] by (cases m) (auto simp: length_keys [of "map_delete k m"])

lemma reserve_enrollment_limits:
  "limits_inv e \<Longrightarrow> limits_inv (fst (snd (reserve_enrollment now key e)))"
proof -
  assume inv: "limits_inv e"
  let ?r = "filter (\<lambda>(_, expiry). \<not> expiry \<le> now) (en_enrollmentReservations e)"
  let ?a = "dropWhile (\<lambda>t. now - t \<ge> 60000) (en_enrollmentAttempts e)"
  have r: "map_wf ?r" "length ?r \<le> length (en_enrollmentReservations e)"
    using inv by (simp_all add: limits_inv_def)
  have a: "length ?a \<le> length (en_enrollmentAttempts e)" by (rule length_dropWhile_le)
  have "length (map_set key x ?r) \<le> Suc (length ?r)" for x
    using jm.size_insert [OF r(1), of key x] by (simp split: if_splits)
  note sets = this [of "now + 10000"] map_simps(3) [OF r(1), of key "now + 10000"]
  have inv': "map_wf (en_enrollmentReservations e)" "distinct (en_enrollmentStreams e)"
    "length (en_enrollmentStreams e) + length (en_enrollmentReservations e) \<le> 8"
    "length (en_enrollmentAttempts e) \<le> 32"
    using inv by (simp_all add: limits_inv_def)
  show ?thesis
  proof (cases "length ?a \<ge> 32 \<or> length (en_enrollmentStreams e) + length ?r \<ge> 8 \<or> map_get ?r key \<noteq> None")
    case True
    then have "fst (snd (reserve_enrollment now key e)) =
        e\<lparr>en_enrollmentReservations := ?r, en_enrollmentAttempts := ?a\<rparr>"
      by (simp add: reserve_enrollment_def)
    then show ?thesis
      using inv' r(1) a le_trans [OF add_left_mono [OF r(2)] inv'(3)] by (simp add: limits_inv_def)
  next
    case False
    then have "fst (snd (reserve_enrollment now key e)) =
        e\<lparr>en_enrollmentReservations := map_set key (now + 10000) ?r, en_enrollmentAttempts := ?a @ [now]\<rparr>"
      by (simp add: reserve_enrollment_def)
    then show ?thesis using inv' r a sets False by (simp add: limits_inv_def)
  qed
qed

lemma unknown_admission_limits: "same_limits e (fst (snd (unknown_admission now b e)))"
  by (simp add: unknown_admission_def Let_def same_limits_def)

lemma same_limits_trans: "same_limits e e' \<Longrightarrow> same_limits e' e'' \<Longrightarrow> same_limits e e''"
  by (simp add: same_limits_def)

lemma firewall_limits: "limits_inv e \<Longrightarrow> limits_inv (fst (snd (firewall now key e)))"
  using same_limits_inv [OF unknown_admission_limits] same_limits_inv [OF logAdmission_limits]
    reserve_enrollment_limits
  by (auto simp: firewall_def Let_def split_beta limits_inv_def split: option.split)

lemma attach_limits: "same_limits e (fst (attach p stream e))"
  by (simp add: attach_def same_limits_def)

lemma accept_stream_limits: "limits_inv e \<Longrightarrow> limits_inv (fst (accept_stream key stream e))"
proof -
  assume inv: "limits_inv e"
  let ?d = "map_delete key (en_enrollmentReservations e)"
  let ?e = "e\<lparr>en_enrollmentReservations := ?d\<rparr>"
  have le: "length ?d \<le> length (en_enrollmentReservations e)" by (rule length_delete_le)
  have wf: "map_wf ?d" using inv by (simp add: limits_inv_def map_simps)
  from inv le wf have e: "limits_inv ?e" by (auto simp: limits_inv_def)
  then have "limits_inv (fst (attach p stream ?e))" for p
    using attach_limits by (rule same_limits_inv [rotated])
  moreover have "limits_inv (fst (attachEnrollment stream ?e))"
    if "map_get (en_enrollmentReservations e) key \<noteq> None"
    using inv e wf reservation_size [of "en_enrollmentReservations e" key] that
    by (auto simp: limits_inv_def attachEnrollment_def set_add_def)
  ultimately show ?thesis
    using e by (auto simp: accept_stream_def Let_def split_beta split: option.split)
qed

lemma engine_step_limits: "limits_inv e \<Longrightarrow> limits_inv (fst (engine_step ev e))"
proof (cases ev)
  case (Ev_firewall now key)
  assume "limits_inv e"
  with Ev_firewall show ?thesis using firewall_limits by (simp add: split_beta)
next
  case (Ev_dial_connected p stream remote)
  assume "limits_inv e"
  then show ?thesis
    unfolding Ev_dial_connected
    by (rule same_limits_inv [rotated])
      (use attach_limits in \<open>simp add: dial_connected_def dial_failed_def split_beta same_limits_def\<close>)
next
  case (Ev_enrollment_frame now stream b packet f)
  assume inv: "limits_inv e"
  have "limits_inv (fst (enroll_request now stream packet f e))"
    by (rule same_limits_inv [OF enroll_request_limits inv]) (simp add: same_limits_def)
  with inv show ?thesis
    unfolding Ev_enrollment_frame
    by (auto simp: enrollment_frame_def enrollment_done_def split_beta limits_inv_def set_delete_def
        intro: order_trans [OF add_right_mono [OF length_filter_le]])
next
  case (Ev_enrollment_done stream)
  assume "limits_inv e"
  then show ?thesis
    unfolding Ev_enrollment_done
    by (auto simp: enrollment_done_def limits_inv_def set_delete_def
        intro: order_trans [OF add_right_mono [OF length_filter_le]])
next
  case (Ev_frame now date stream packet f)
  assume inv: "limits_inv e"
  have "same_limits e (fst (session_frame now date stream packet f e))"
    by (simp add: session_frame_def Let_def split_beta first_frame_limits same_limits_tun split: option.split)
  then show ?thesis unfolding Ev_frame engine_step.simps using inv by (rule same_limits_inv)
next
  case Ev_stop
  assume inv: "limits_inv e"
  have "same_limits (e\<lparr>en_stopping := True\<rparr>) (fst (end_sessions (en_sessions e) (e\<lparr>en_stopping := True\<rparr>)))"
    by (rule end_sessions_limits)
  then have "same_limits e (fst (stop_engine e))"
    by (simp add: stop_engine_def split_beta same_limits_def)
  then show ?thesis unfolding Ev_stop engine_step.simps using inv by (rule same_limits_inv)
next
  case (Ev_accept key stream)
  assume "limits_inv e"
  with Ev_accept show ?thesis using accept_stream_limits by simp
qed (simp_all add: dial_open_def dial_failed_def device_written_def session_ended_def
    handshake_timeout_def session_closed_def device_packet_def put_session_def limits_inv_def
    Let_def split_beta split: option.split)

lemma engine_run_limits: "engine_run e evs e' out \<Longrightarrow> limits_inv e \<Longrightarrow> limits_inv e'"
proof (induction rule: engine_run.induct)
  case (run_step e evs e1 out ev e2 out')
  then show ?case using engine_step_limits [of e1 ev] by simp
qed

end
