(* ===== verification/Config_Properties.thy ===== *)
theory Config_Properties
  imports Config
begin

text \<open>
  Configurations that satisfy every check: parsing gives exactly these, and parsing the value of
  one gives it back.
\<close>

section \<open>Valid configurations\<close>

definition label_ok :: "string \<Rightarrow> bool" where
  "label_ok s \<longleftrightarrow> s \<noteq> [] \<and> trim s = s \<and> byteLength s \<le> 128 \<and> (\<forall>c \<in> set s. \<not> control_char c)"

definition reference_ok :: "string \<Rightarrow> bool" where
  "reference_ok s \<longleftrightarrow> s \<noteq> [] \<and> trim s = s \<and> byteLength s \<le> 128"

definition definition_ok :: "peer_definition \<Rightarrow> bool" where
  "definition_ok p \<longleftrightarrow> label_ok (pf_label p) \<and> key_hex (pf_publicKey p)"

definition resolves :: "peer_definition list \<Rightarrow> string \<Rightarrow> bool" where
  "resolves peers r \<longleftrightarrow>
     (if key_hex r then \<exists>p \<in> set peers. pf_publicKey p = r else \<exists>p \<in> set peers. pf_label p = r)"

definition tcp_grant_ok :: "grant \<Rightarrow> bool" where
  "tcp_grant_ok g =
     (case g of All_ports \<Rightarrow> True | Ports ps \<Rightarrow> distinct ps \<and> (\<forall>p \<in> set ps. 1 \<le> p \<and> p \<le> 65535))"

definition vpn_peer_ok :: "peer_definition list \<Rightarrow> vpn_peer \<Rightarrow> bool" where
  "vpn_peer_ok peers v \<longleftrightarrow>
     reference_ok (vp_peer v) \<and> resolves peers (vp_peer v) \<and> \<not> isl (ipv4_number (vp_address v)) \<and>
     tcp_grant_ok (vp_allowTcp v)"

definition vpn_keys :: "peer_definition list \<Rightarrow> vpn_peer list \<Rightarrow> string list" where
  "vpn_keys peers vs = map (\<lambda>v. the (reference_key (vp_peer v) peers)) vs"

definition vpn_ok :: "peer_definition list \<Rightarrow> peer_vpn \<Rightarrow> bool" where
  "vpn_ok peers v \<longleftrightarrow>
     \<not> isl (ipv4_number (vc_address v)) \<and> length (vc_peers v) \<le> 16 \<and>
     (\<forall>p \<in> set (vc_peers v). vpn_peer_ok peers p) \<and>
     distinct (vc_address v # map vp_address (vc_peers v)) \<and> distinct (vpn_keys peers (vc_peers v))"

definition network_ok :: "peer_network \<Rightarrow> bool" where
  "network_ok n \<longleftrightarrow>
     (case nw_bootstrap n of None \<Rightarrow> True
      | Some bs \<Rightarrow> bs \<noteq> [] \<and> (\<forall>(host, port) \<in> set bs. host \<noteq> [] \<and> 1 \<le> port \<and> port \<le> 65535))"

definition config_ok :: "peer_config \<Rightarrow> bool" where
  "config_ok c \<longleftrightarrow>
     (\<forall>p \<in> set (pc_peers c). definition_ok p) \<and> distinct (map pf_label (pc_peers c)) \<and>
     distinct (map pf_publicKey (pc_peers c)) \<and>
     (case pc_vpn c of None \<Rightarrow> True | Some v \<Rightarrow> vpn_ok (pc_peers c) v) \<and>
     (case pc_network c of None \<Rightarrow> True | Some n \<Rightarrow> network_ok n)"

section \<open>The value of a configuration\<close>

definition js_connection :: "connection \<Rightarrow> js" where
  "js_connection d = JStr (case d of Dial \<Rightarrow> ''dial'' | Accept \<Rightarrow> ''accept'')"

definition js_route :: "route \<Rightarrow> js" where
  "js_route r = JStr (case r of Auto \<Rightarrow> ''auto'' | Public \<Rightarrow> ''public'')"

definition definition_value :: "peer_definition \<Rightarrow> js" where
  "definition_value p =
     JObj [(''label'', JStr (pf_label p)), (''publicKey'', JStr (pf_publicKey p)),
           (''connection'', js_connection (pf_connection p))]"

definition vpn_peer_value :: "vpn_peer \<Rightarrow> js" where
  "vpn_peer_value v =
     JObj [(''peer'', JStr (vp_peer v)), (''address'', JStr (vp_address v)),
           (''allowTcp'', js_grant (vp_allowTcp v))]"

definition vpn_value :: "peer_vpn \<Rightarrow> js" where
  "vpn_value v =
     JObj [(''address'', JStr (vc_address v)), (''peers'', JArr (map vpn_peer_value (vc_peers v)))]"

definition bootstrap_value :: "string \<times> nat \<Rightarrow> js" where
  "bootstrap_value hp = JObj [(''host'', JStr (fst hp)), (''port'', JInt (int (snd hp)))]"

definition network_value :: "peer_network \<Rightarrow> js" where
  "network_value n =
     JObj ((case nw_bootstrap n of None \<Rightarrow> []
            | Some bs \<Rightarrow> [(''bootstrap'', JArr (map bootstrap_value bs))]) @
           (case nw_route n of None \<Rightarrow> [] | Some r \<Rightarrow> [(''route'', js_route r)]))"

definition config_value :: "peer_config \<Rightarrow> js" where
  "config_value c =
     JObj ((case pc_vpn c of None \<Rightarrow> [] | Some v \<Rightarrow> [(''vpn'', vpn_value v)]) @
           (case pc_network c of None \<Rightarrow> [] | Some n \<Rightarrow> [(''network'', network_value n)]) @
           [(''peers'', JArr (map definition_value (pc_peers c)))])"

section \<open>Parsing gives valid configurations\<close>

lemma parse_each_InrD:
  "parse_each f i vs = Inr xs \<Longrightarrow>
     length xs = length vs \<and> (\<forall>k < length vs. f (i + k) (vs ! k) = Inr (xs ! k))"
proof (induction f i vs arbitrary: xs rule: parse_each.induct)
  case (2 f i v vs)
  then obtain x xs' where "f i v = Inr x" "parse_each f (i + 1) vs = Inr xs'" "xs = x # xs'"
    by (auto split: sum.splits)
  with "2.IH" show ?case by (auto simp: nth_Cons' less_Suc_eq_0_disj)
qed simp

lemma parse_each_all:
  assumes "parse_each f i vs = Inr xs" and "\<And>j v x. f j v = Inr x \<Longrightarrow> P x"
  shows "\<forall>x \<in> set xs. P x"
  using parse_each_InrD [OF assms(1)] assms(2) by (metis in_set_conv_nth)

lemma parse_each_map:
  "(\<And>j x. x \<in> set xs \<Longrightarrow> f j (g x) = Inr x) \<Longrightarrow> parse_each f i (map g xs) = Inr xs"
  by (induction xs arbitrary: i) simp_all

lemma parsePeerDefinition_ok: "parsePeerDefinition v field = Inr p \<Longrightarrow> definition_ok p"
  by (auto simp: parsePeerDefinition_def parseKeyHex_def definition_ok_def label_ok_def
      peerLabelMaximumBytes_def split: option.splits js.splits if_splits sum.splits)

lemma check_duplicates_None:
  "check_duplicates ls ks ps = None \<longleftrightarrow>
     distinct (map pf_label ps) \<and> distinct (map pf_publicKey ps) \<and>
     set (map pf_label ps) \<inter> set ls = {} \<and> set (map pf_publicKey ps) \<inter> set ks = {}"
  by (induction ls ks ps rule: check_duplicates.induct) auto

lemma parseVpnAddress_eq:
  "parseVpnAddress (JStr s) field =
     (if isl (ipv4_number s) then Inl (field @ '' must be a unicast IPv4 address'') else Inr s)"
  by (simp add: parseVpnAddress_def ipv4_number_def Let_def)

lemma parseVpnAddress_Inr: "parseVpnAddress v field = Inr a \<longleftrightarrow> v = JStr a \<and> \<not> isl (ipv4_number a)"
  by (cases v) (auto simp: parseVpnAddress_eq, auto simp: parseVpnAddress_def)

lemma parsePeerPort_Inr: "parsePeerPort v field False = Inr n \<longleftrightarrow> v = JInt (int n) \<and> 1 \<le> n \<and> n \<le> 65535"
  by (auto simp: parsePeerPort_def port_value_def Let_def split: js.splits if_splits)

lemma parse_allowTcp_ok: "parse_allowTcp v field = Inr g \<Longrightarrow> tcp_grant_ok g"
proof (cases v)
  case (JArr vs)
  assume "parse_allowTcp v field = Inr g"
  then obtain ps where "distinct ps" "g = Ports ps"
    and ps: "parse_each (\<lambda>i port. parsePeerPort port (indexed (field @ ''.allowTcp'') i) False) 0 vs = Inr ps"
    unfolding JArr by (auto simp: parse_allowTcp_def split: sum.splits if_splits)
  moreover have "\<forall>p \<in> set ps. 1 \<le> p \<and> p \<le> 65535"
    using parse_each_all [OF ps, of "\<lambda>p. 1 \<le> p \<and> p \<le> 65535"] by (simp add: parsePeerPort_Inr)
  ultimately show ?thesis by (simp add: tcp_grant_ok_def)
qed (auto simp: parse_allowTcp_def tcp_grant_ok_def split: if_splits)

lemma parsePeerReference_Inr: "parsePeerReference v field = Inr s \<longleftrightarrow> v = JStr s \<and> reference_ok s"
  by (auto simp: parsePeerReference_def reference_ok_def peerLabelMaximumBytes_def
      split: js.splits if_splits)

lemma resolvePeerReference_None: "resolvePeerReference r peers field = None \<longleftrightarrow> resolves peers r"
  by (simp add: resolvePeerReference_def resolves_def)

lemma parse_vpn_peers_ok:
  "parse_vpn_peers peers ks as i items = Inr vs \<Longrightarrow>
     length vs = length items \<and> (\<forall>v \<in> set vs. vpn_peer_ok peers v) \<and>
     distinct (map vp_address vs) \<and> distinct (vpn_keys peers vs) \<and>
     set (map vp_address vs) \<inter> set as = {} \<and> set (vpn_keys peers vs) \<inter> set ks = {}"
proof (induction peers ks as i items arbitrary: vs rule: parse_vpn_peers.induct)
  case (2 peers ks as i item items)
  let ?field = "indexed ''vpn.peers'' i"
  from "2.prems" obtain ps r a g vs' where ps: "isRecord item = Some ps"
    and f: "rejectUnknownFields ps [''peer'', ''address'', ''allowTcp''] ?field = None"
    and r: "parsePeerReference (prop_of ps ''peer'') (?field @ ''.peer'') = Inr r"
    and res: "resolvePeerReference r peers (?field @ ''.peer'') = None"
    and k: "the (reference_key r peers) \<notin> set ks"
    and a: "parseVpnAddress (prop_of ps ''address'') (?field @ ''.address'') = Inr a" "a \<notin> set as"
    and g: "parse_allowTcp (prop_of ps ''allowTcp'') ?field = Inr g"
    and vs': "parse_vpn_peers peers (set_add (the (reference_key r peers)) ks) (set_add a as) (i + 1) items = Inr vs'"
    and vs: "vs = \<lparr>vp_peer = r, vp_address = a, vp_allowTcp = g\<rparr> # vs'"
    by (auto simp: Let_def split: option.splits sum.splits if_splits)
  note ih = "2.IH" [OF refl ps f r res refl k a g vs']
  have "vpn_peer_ok peers (hd vs)"
    using r res a g by (simp add: vs vpn_peer_ok_def parsePeerReference_Inr resolvePeerReference_None
        parseVpnAddress_Inr parse_allowTcp_ok)
  with ih k a(2) show ?case by (auto simp: vs vpn_keys_def)
qed (simp add: vpn_keys_def)

lemma parsePeerVpn_ok: "parsePeerVpn v peers = Inr p \<Longrightarrow> vpn_ok peers p"
proof -
  assume "parsePeerVpn v peers = Inr p"
  then obtain addr items entries where "\<not> isl (ipv4_number addr)" and "length items \<le> 16"
    and es: "parse_vpn_peers peers [] [addr] 0 items = Inr entries"
    and "p = \<lparr>vc_address = addr, vc_peers = entries\<rparr>"
    by (auto simp: parsePeerVpn_def parseVpnAddress_Inr not_less
        split: option.splits js.splits sum.splits if_splits)
  with parse_vpn_peers_ok [OF es] show ?thesis by (simp add: vpn_ok_def)
qed

lemma parse_bootstrap_entry_ok:
  "parse_bootstrap_entry i v = Inr hp \<Longrightarrow> fst hp \<noteq> [] \<and> 1 \<le> snd hp \<and> snd hp \<le> 65535"
  by (auto simp: parse_bootstrap_entry_def Let_def parsePeerPort_Inr
      split: option.splits js.splits sum.splits if_splits)

lemma bootstrap_all:
  "parse_each parse_bootstrap_entry i vs = Inr bs \<Longrightarrow>
     \<forall>(host, port) \<in> set bs. host \<noteq> [] \<and> 1 \<le> port \<and> port \<le> 65535"
proof -
  assume bs: "parse_each parse_bootstrap_entry i vs = Inr bs"
  have "\<forall>hp \<in> set bs. fst hp \<noteq> [] \<and> 1 \<le> snd hp \<and> snd hp \<le> 65535"
    using bs by (rule parse_each_all) (rule parse_bootstrap_entry_ok)
  then show ?thesis by auto
qed

lemma parsePeerNetwork_ok: "parsePeerNetwork v = Inr n \<Longrightarrow> network_ok n"
  by (auto simp: parsePeerNetwork_def network_ok_def dest!: bootstrap_all
      split: option.splits js.splits sum.splits if_splits)

lemma parsePeerConfig_ok: "parsePeerConfig v = Inr c \<Longrightarrow> config_ok c"
proof -
  assume "parsePeerConfig v = Inr c"
  then obtain vs peers vpn network ps where
      peers: "parse_each (\<lambda>i entry. parsePeerDefinition entry (indexed ''peers'' i)) 0 vs = Inr peers"
    and dup: "check_duplicates [] [] peers = None"
    and vpn: "parse_optional (\<lambda>v. parsePeerVpn v peers) (prop_of ps ''vpn'') = Inr vpn"
    and network: "parse_optional parsePeerNetwork (prop_of ps ''network'') = Inr network"
    and c: "c = \<lparr>pc_vpn = vpn, pc_network = network, pc_peers = peers\<rparr>"
    by (auto simp: parsePeerConfig_def split: option.splits js.splits sum.splits)
  have "\<forall>p \<in> set peers. definition_ok p"
    using parse_each_all [OF peers] parsePeerDefinition_ok by blast
  moreover have "case vpn of None \<Rightarrow> True | Some v \<Rightarrow> vpn_ok peers v"
    using vpn parsePeerVpn_ok by (auto simp: parse_optional_def split: if_splits sum.splits)
  moreover have "case network of None \<Rightarrow> True | Some n \<Rightarrow> network_ok n"
    using network parsePeerNetwork_ok by (auto simp: parse_optional_def split: if_splits sum.splits)
  ultimately show ?thesis
    using dup by (cases vpn) (simp_all add: config_ok_def c check_duplicates_None)
qed

section \<open>The value of a valid configuration parses back\<close>

lemma key_hex_reference: "key_hex r \<Longrightarrow> reference_key r peers = Some r"
  by (simp add: reference_key_def)

lemma definition_value_parse: "definition_ok p \<Longrightarrow> parsePeerDefinition (definition_value p) field = Inr p"
  by (cases "pf_connection p")
    (auto simp: definition_ok_def label_ok_def parsePeerDefinition_def definition_value_def isRecord_def
      rejectUnknownFields_def prop_of_def peerLabelMaximumBytes_def parseKeyHex_def js_connection_def)

lemma port_values_parse:
  "\<forall>p \<in> set ps. 1 \<le> p \<and> p \<le> 65535 \<Longrightarrow>
     parse_each (\<lambda>i port. parsePeerPort port (f i) False) i (map (\<lambda>p. JInt (int p)) ps) = Inr ps"
  by (intro parse_each_map) (simp add: parsePeerPort_Inr)

lemma js_grant_parse: "tcp_grant_ok g \<Longrightarrow> parse_allowTcp (js_grant g) field = Inr g"
  by (cases g) (simp_all add: tcp_grant_ok_def parse_allowTcp_def js_grant_def port_values_parse)

lemma reference_parse: "reference_ok s \<Longrightarrow> parsePeerReference (JStr s) field = Inr s"
  by (simp add: parsePeerReference_Inr)

lemma resolve_parse: "resolves peers r \<Longrightarrow> resolvePeerReference r peers field = None"
  by (simp add: resolvePeerReference_None)

lemma port_parse: "1 \<le> n \<Longrightarrow> n \<le> 65535 \<Longrightarrow> parsePeerPort (JInt (int n)) field False = Inr n"
  by (simp add: parsePeerPort_Inr)

lemma vpn_peers_value_parse:
  "\<forall>v \<in> set vs. vpn_peer_ok peers v \<Longrightarrow> distinct (map vp_address vs) \<Longrightarrow> distinct (vpn_keys peers vs) \<Longrightarrow>
     set (map vp_address vs) \<inter> set as = {} \<Longrightarrow> set (vpn_keys peers vs) \<inter> set ks = {} \<Longrightarrow>
     parse_vpn_peers peers ks as i (map vpn_peer_value vs) = Inr vs"
proof (induction vs arbitrary: ks as i)
  case (Cons v vs)
  let ?k = "the (reference_key (vp_peer v) peers)"
  have "parse_vpn_peers peers (set_add ?k ks) (set_add (vp_address v) as) (i + 1) (map vpn_peer_value vs) = Inr vs"
    using Cons.prems by (intro Cons.IH) (auto simp: vpn_keys_def)
  moreover have "isRecord (vpn_peer_value v) = Some [(''peer'', JStr (vp_peer v)),
      (''address'', JStr (vp_address v)), (''allowTcp'', js_grant (vp_allowTcp v))]"
    by (simp add: vpn_peer_value_def isRecord_def)
  moreover have "vpn_peer_ok peers v" and "?k \<notin> set ks" and "vp_address v \<notin> set as"
    using Cons.prems by (auto simp: vpn_keys_def)
  ultimately show ?case
    by (simp add: Let_def vpn_peer_ok_def reference_parse resolve_parse
        parseVpnAddress_eq js_grant_parse prop_of_def rejectUnknownFields_def)
qed simp

lemma vpn_value_parse: "vpn_ok peers v \<Longrightarrow> parsePeerVpn (vpn_value v) peers = Inr v"
proof -
  assume ok: "vpn_ok peers v"
  then have "parse_vpn_peers peers [] [vc_address v] 0 (map vpn_peer_value (vc_peers v)) = Inr (vc_peers v)"
    by (intro vpn_peers_value_parse) (auto simp: vpn_ok_def)
  with ok show ?thesis
    by (simp add: parsePeerVpn_def vpn_value_def isRecord_def rejectUnknownFields_def prop_of_def
        parseVpnAddress_eq vpn_ok_def)
qed

lemma bootstrap_value_parse:
  "host \<noteq> [] \<Longrightarrow> 1 \<le> port \<Longrightarrow> port \<le> 65535 \<Longrightarrow>
     parse_bootstrap_entry i (bootstrap_value (host, port)) = Inr (host, port)"
  by (simp add: parse_bootstrap_entry_def bootstrap_value_def isRecord_def rejectUnknownFields_def
      prop_of_def port_parse)

lemma network_value_parse: "network_ok n \<Longrightarrow> parsePeerNetwork (network_value n) = Inr n"
proof -
  assume ok: "network_ok n"
  have each: "parse_each parse_bootstrap_entry 0 (map bootstrap_value bs) = Inr bs" and "bs \<noteq> []"
    if "nw_bootstrap n = Some bs" for bs
    using ok that bootstrap_value_parse by (auto simp: network_ok_def intro!: parse_each_map)
  then show ?thesis
    by (cases "nw_bootstrap n"; cases "nw_route n")
      (auto simp: parsePeerNetwork_def network_value_def isRecord_def rejectUnknownFields_def
        prop_of_def parsePeerRoute_def js_route_def split: route.splits)
qed

lemma config_value_parse: "config_ok c \<Longrightarrow> parsePeerConfig (config_value c) = Inr c"
proof -
  assume ok: "config_ok c"
  have "parse_each (\<lambda>i entry. parsePeerDefinition entry (indexed ''peers'' i)) 0
      (map definition_value (pc_peers c)) = Inr (pc_peers c)"
    using ok by (intro parse_each_map definition_value_parse) (simp add: config_ok_def)
  moreover have "check_duplicates [] [] (pc_peers c) = None"
    using ok by (simp add: check_duplicates_None config_ok_def)
  moreover have "parsePeerVpn (vpn_value v) (pc_peers c) = Inr v" if "pc_vpn c = Some v" for v
    using ok that by (intro vpn_value_parse) (simp add: config_ok_def)
  moreover have "parsePeerNetwork (network_value n) = Inr n" if "pc_network c = Some n" for n
    using ok that by (intro network_value_parse) (simp add: config_ok_def)
  moreover have "vpn_value v \<noteq> JUndefined" and "network_value n \<noteq> JUndefined" for v n
    by (simp_all add: vpn_value_def network_value_def)
  ultimately show ?thesis
    by (cases "pc_vpn c"; cases "pc_network c")
      (simp_all add: parsePeerConfig_def config_value_def isRecord_def rejectUnknownFields_def
        prop_of_def parse_optional_def)
qed

end
