(* ===== verification/Policy_Properties.thy ===== *)
theory Policy_Properties
  imports Packet_Policy
begin

text \<open>
  What the packet admission guarantees: the checksum and the serial comparison agree with their
  reference definitions, no corrupted or spoofed packet is admitted, flows exist only where the
  grant and the direction allow them, live flows survive the eviction of closed ones, and a
  three-way handshake in order is admitted.  Four concrete packets serve the examples.
\<close>

section \<open>Concrete packets\<close>

text \<open>10.0.0.1:5000 to 10.0.0.2:80, a SYN with sequence number 100.\<close>

definition ex_syn :: bytes where
  "ex_syn = [69, 0, 0, 40, 0, 0, 64, 0, 64, 6, 38, 206, 10, 0, 0, 1, 10, 0, 0, 2,
     19, 136, 0, 80, 0, 0, 0, 100, 0, 0, 0, 0, 80, 2, 4, 0, 131, 164, 0, 0]"

text \<open>The answer of 10.0.0.2, with sequence number 300.\<close>

definition ex_synack :: bytes where
  "ex_synack = [69, 0, 0, 40, 0, 0, 64, 0, 64, 6, 38, 206, 10, 0, 0, 2, 10, 0, 0, 1,
     0, 80, 19, 136, 0, 0, 1, 44, 0, 0, 0, 101, 80, 18, 4, 0, 130, 103, 0, 0]"

text \<open>10.0.0.2:5000 to 10.0.0.1:22, a SYN.\<close>

definition ex_insyn :: bytes where
  "ex_insyn = [69, 0, 0, 40, 0, 0, 64, 0, 64, 6, 38, 206, 10, 0, 0, 2, 10, 0, 0, 1,
     19, 136, 0, 22, 0, 0, 0, 7, 0, 0, 0, 0, 80, 2, 4, 0, 132, 59, 0, 0]"

abbreviation ex_policy :: "grant \<Rightarrow> bool \<Rightarrow> policy" where
  "ex_policy \<equiv> new_policy ''10.0.0.1'' ''10.0.0.2''"

lemmas ex_packets = ex_syn_def ex_synack_def ex_insyn_def

definition ex_segment :: "nat \<Rightarrow> bool \<Rightarrow> bool \<Rightarrow> u32 \<Rightarrow> u32 \<Rightarrow> segment" where
  "ex_segment source syn ack seqno ackno =
     \<lparr>sg_sourcePort = source, sg_destinationPort = 80, sg_syn = syn, sg_ack = ack, sg_rst = False,
      sg_fin = False, sg_seq = seqno, sg_ackno = ackno, sg_dataLength = 0\<rparr>"

section \<open>Reference definitions\<close>

text \<open>
  the folding checksum is the ones' complement sum of the big-endian 16-bit words of the
  buffer and the initial value, an odd last byte counting as the high half of a word.
\<close>

theorem checksum_reference:
  assumes "length bs \<le> 65536" and "initial < 65536"
  shows "checksum bs initial = ones_residue (initial + word_sum bs)"
  using assms by (rule checksum_eq)

theorem checksum_reference_witness:
  "checksum (take 20 ex_syn) 7 = ones_residue (7 + word_sum (take 20 ex_syn))"
  by (rule checksum_reference) (simp_all add: ex_packets)

text \<open>
  a value reaches a target exactly when it is the target advanced by less than half of the
  sequence space, modulo the wrap-around.
\<close>

theorem reaches_half_space: "reaches v t \<longleftrightarrow> (\<exists>n < 2 ^ 31. v = t + of_nat n)"
proof
  assume "reaches v t"
  then have "unat (v - t) < 2 ^ 31" and "v = t + of_nat (unat (v - t))"
    by (simp_all add: reaches_iff)
  then show "\<exists>n < 2 ^ 31. v = t + of_nat n" by blast
next
  assume "\<exists>n < 2 ^ 31. v = t + of_nat n"
  then obtain n :: nat where n: "n < 2 ^ 31" and v: "v = t + of_nat n" by blast
  have "unat (of_nat n :: u32) = n"
    using n by (simp add: unat_of_nat)
  with n v show "reaches v t" by (simp add: reaches_iff)
qed

section \<open>Integrity and addresses\<close>

lemma admitted_packet:
  assumes "fst (admit now bs d p)"
  obtains pk where "ipv4 bs = Some pk" and "pk_source pk = expectedSource d p"
    and "pk_destination pk = expectedDestination d p" and "fst (admit_packet now pk d p)"
  using assms by (auto simp: admit_eq split: option.splits if_splits)

text \<open>
  an admitted packet is 20 to 1400 bytes long and carries the addresses of the peer and of
  this host in the order its direction requires.
\<close>

theorem admit_addresses:
  assumes "fst (admit now bs d p)"
  shows "20 \<le> length bs \<and> length bs \<le> 1400 \<and> address bs 12 = expectedSource d p \<and>
    address bs 16 = expectedDestination d p"
  using assms by (elim admitted_packet) (use ipv4_SomeD in \<open>auto simp: VPN_MTU_def\<close>)

theorem admit_addresses_witness:
  "20 \<le> length ex_syn \<and> length ex_syn \<le> 1400 \<and>
   address ex_syn 12 = expectedSource Out (ex_policy (Ports []) True) \<and>
   address ex_syn 16 = expectedDestination Out (ex_policy (Ports []) True)"
  by (rule admit_addresses [of 0]) (simp add: ex_packets eval_simps)

lemma header_corruption:
  assumes "ipv4 bs = Some pk" and "i < 20" and "bs ! i \<noteq> b"
  shows "ipv4 (bs[i := b]) = None"
proof (rule ccontr)
  assume "ipv4 (bs[i := b]) \<noteq> None"
  then obtain pk' where "ipv4 (bs[i := b]) = Some pk'" by blast
  then have "checksum ((take 20 bs)[i := b]) 0 = 65535"
    by (simp add: ipv4_SomeD(8) flip: take_update_swap)
  moreover have "checksum (take 20 bs) 0 = 65535" and "20 \<le> length bs"
    using assms(1) ipv4_SomeD by blast+
  ultimately show False
    using corrupted_checksum [of "take 20 bs" 0 i b] assms(2,3) by simp
qed

lemma segment_corruption:
  assumes "tcp_segment bs 20 = Some sg" and "20 \<le> i" and "i < length bs" and "length bs \<le> 1400"
    and "bs ! i \<noteq> b"
  shows "tcp_segment (bs[i := b]) 20 = None"
proof (rule ccontr)
  let ?tcp = "drop 20 bs" and ?c = "checksum (pseudo_header bs (length bs - 20)) 0"
  assume "tcp_segment (bs[i := b]) 20 \<noteq> None"
  moreover have "drop 20 (bs[i := b]) = ?tcp[i - 20 := b]"
    using assms(2) by (simp add: drop_update_swap)
  moreover have "take 8 (drop 12 (bs[i := b])) = take 8 (drop 12 bs)"
    using assms(2) by (simp add: drop_update_swap)
  ultimately have "checksum (?tcp[i - 20 := b]) ?c = 65535"
    by (auto simp: tcp_segment_def pseudo_header_def Let_def split: if_splits)
  moreover have "checksum ?tcp ?c = 65535"
    using assms(1) by (auto simp: tcp_segment_def Let_def split: if_splits)
  ultimately show False
    using corrupted_checksum [of ?tcp ?c "i - 20" b] assms(2-5) checksum_less by simp
qed

lemma admit_packet_tcp:
  assumes "fst (admit_packet now pk d p)" and "pk_protocol pk = 6"
  obtains sg where "tcp_segment (pk_bytes pk) (pk_header pk) = Some sg"
    and "fst (admit_tcp now d sg (sweep now p))"
  using assms by (auto simp: admit_packet_def Let_def split: option.splits)

text \<open>
  C35: change any single byte of an admitted TCP packet and no policy, at no time and in no
  direction, admits the result.
\<close>

theorem corrupted_packet_rejected:
  assumes "fst (admit now bs d p)" and "byte_at bs 9 = 6" and "i < length bs" and "bs ! i \<noteq> b"
  shows "\<not> fst (admit now' (bs[i := b]) d' p')"
proof
  assume "fst (admit now' (bs[i := b]) d' p')"
  then obtain pk' where new: "ipv4 (bs[i := b]) = Some pk'" "fst (admit_packet now' pk' d' p')"
    by (elim admitted_packet)
  obtain pk where old: "ipv4 bs = Some pk" "fst (admit_packet now pk d p)"
    using assms(1) by (elim admitted_packet)
  have i: "20 \<le> i"
    using header_corruption [OF old(1) _ assms(4)] new(1) by (cases "i < 20") auto
  obtain sg where sg: "tcp_segment bs 20 = Some sg"
    using old assms(2) ipv4_SomeD [OF old(1)] by (metis admit_packet_tcp)
  have "pk_protocol pk' = 6"
    using ipv4_SomeD(11) [OF new(1)] assms(2) i by (simp add: byte_at_def split: if_splits)
  then obtain sg' where "tcp_segment (bs[i := b]) 20 = Some sg'"
    using new ipv4_SomeD [OF new(1)] by (metis admit_packet_tcp)
  then show False
    using segment_corruption [OF sg i assms(3) _ assms(4)] ipv4_SomeD(2) [OF old(1)]
    by (simp add: VPN_MTU_def)
qed

theorem corrupted_packet_rejected_witness:
  "\<not> fst (admit 5 (ex_syn[25 := 1]) Out (ex_policy All_ports True))"
  by (rule corrupted_packet_rejected [of 0 ex_syn Out "ex_policy (Ports []) True"])
     (simp_all add: ex_packets eval_simps)

section \<open>What may become a flow\<close>

lemma tracked_admission:
  assumes "fst (admit_tcp now d sg p)"
  shows "map_get (flows p) (segment_key d sg) \<noteq> None \<and>
         \<not> (d = In \<and> sg_syn sg \<and> \<not> sg_ack sg \<and> \<not> granted (ports p) (sg_destinationPort sg) \<and>
            fl_closedAt (the (map_get (flows p) (segment_key d sg))) \<noteq> None) \<or>
         sg_syn sg \<and> \<not> sg_ack sg \<and> (d = Out \<longrightarrow> allowOutboundInitiation p) \<and>
         (d = In \<longrightarrow> granted (ports p) (sg_destinationPort sg))"
  using assms
  by (auto simp: admit_tcp_def Let_def open_flow_def split: option.splits if_splits list.splits)

text \<open>
  C27: in every state a policy object can reach, the table holds at most 4096 flows under distinct
  keys, the closed set is exactly the set of closed flows, the fields of each flow agree, every
  flow opened from outside leads to a granted local port, and none was opened from inside when
  that is switched off.
\<close>

theorem policy_invariant: "policy_inv (policy_run es (new_policy l r ps out))"
  by (intro policy_run_inv inv_new)

lemma reachable_flow:
  assumes "map_get (flows (policy_run es (new_policy l r ps out))) (tuple lp rp) = Some f"
  shows "(fl_initiator f = In \<longrightarrow> granted ps lp) \<and> (fl_initiator f = Out \<longrightarrow> out)"
proof -
  let ?p = "policy_run es (new_policy l r ps out)"
  have "policy_inv ?p" by (intro policy_run_inv inv_new)
  then have "flow_allowed ?p (tuple lp rp) f" using assms by (simp add: policy_inv_flow)
  moreover have "same_config (new_policy l r ps out) ?p" by (rule policy_run_config)
  ultimately show ?thesis
    by (auto simp: flow_allowed_def same_config_def new_policy_def tuple_inj)
qed

lemma inbound_rejected:
  assumes "flows p = []" and "ports p = Ports []"
  shows "\<not> fst (admit now bs In p) \<and> flows (fst (snd (admit now bs In p))) = []"
proof (rule admit_cases [where P = "\<lambda>ok q. \<not> ok \<and> flows q = []"])
  fix pk
  have s: "flows (sweep now p) = []" "ports (sweep now p) = Ports []"
    using assms sweep_config [of p now] by (simp_all add: sweep_def same_config_def)
  then show "\<not> fst (admit_packet now pk In p) \<and> flows (snd (admit_packet now pk In p)) = []"
    by (auto simp: admit_packet_def admitIcmp_def admit_tcp_def open_flow_def granted_def Let_def
        split: option.splits)
qed (use assms in simp)

text \<open>
  C25: default deny.  Without a granted port, a stream of packets from the peer alone opens
  nothing: none of them is ever admitted.
\<close>

theorem default_deny:
  assumes "\<forall>(now, bs, d) \<in> set es. d = In"
  shows "admitted es (new_policy l r (Ports []) out) = []"
proof -
  have "admitted es p = []" if "flows p = []" "ports p = Ports []" for p
    using assms that
  proof (induction es p rule: admitted.induct)
    case (2 now bs d es p)
    then have d: "d = In" and es: "\<forall>(now, bs, d) \<in> set es. d = In" by auto
    have "ports (fst (snd (admit now bs d p))) = Ports []"
      using admit_config [of p now bs d] "2.prems"(3) by (simp add: same_config_def)
    with "2.IH" [OF es] inbound_rejected [OF "2.prems"(2,3), of now bs] d
    show ?case by simp
  qed simp
  then show ?thesis by (simp add: new_policy_def)
qed

theorem default_deny_witness: "admitted [(0, ex_insyn, In)] (ex_policy (Ports []) True) = []"
  by (rule default_deny) simp

text \<open>
  an admitted TCP segment from the peer belongs to a flow that is already tracked, or it is
  a pure SYN to a granted port.
\<close>

theorem inbound_needs_flow_or_grant:
  assumes "fst (admit_tcp now In sg p)"
    and "map_get (flows p) (tuple (sg_destinationPort sg) (sg_sourcePort sg)) = None"
  shows "sg_syn sg \<and> \<not> sg_ack sg \<and> granted (ports p) (sg_destinationPort sg)"
  using tracked_admission [OF assms(1)] assms(2) by (simp add: segment_key_def)

theorem inbound_needs_flow_or_grant_witness:
  "sg_syn (ex_segment 9 True False 0 0) \<and> \<not> sg_ack (ex_segment 9 True False 0 0) \<and>
   granted (ports (ex_policy (Ports [80]) True)) (sg_destinationPort (ex_segment 9 True False 0 0))"
  by (rule inbound_needs_flow_or_grant [of 0]) (simp_all add: ex_segment_def eval_simps)

text \<open>
  after a revocation every packet of a connection that was open is refused, in both
  directions: only a packet that opens a new flow can be admitted.
\<close>

theorem clear_revokes:
  assumes "fst (admit now bs d (policy_clear p))"
  shows "byte_at bs 9 = 6 \<and>
    (\<exists>sg. tcp_segment bs 20 = Some sg \<and> sg_syn sg \<and> \<not> sg_ack sg \<and> \<not> sg_rst sg \<and>
      (d = In \<longrightarrow> granted (ports p) (sg_destinationPort sg)) \<and>
      (d = Out \<longrightarrow> allowOutboundInitiation p))"
proof -
  obtain pk where pk: "ipv4 bs = Some pk" "fst (admit_packet now pk d (policy_clear p))"
    using assms by (elim admitted_packet)
  let ?s = "sweep now (policy_clear p)"
  have s: "flows ?s = []" "ports ?s = ports p" "allowOutboundInitiation ?s = allowOutboundInitiation p"
    using sweep_config [of "policy_clear p" now]
    by (simp_all add: sweep_def policy_clear_def same_config_def)
  have "pk_protocol pk = 6"
    using pk(2) s by (auto simp: admit_packet_def admitIcmp_def Let_def split: if_splits option.splits)
  moreover from this obtain sg where "tcp_segment bs 20 = Some sg" "fst (admit_tcp now d sg ?s)"
    using pk ipv4_SomeD [OF pk(1)] by (metis admit_packet_tcp)
  ultimately show ?thesis
    using s ipv4_SomeD(11) [OF pk(1)]
    by (auto simp: admit_tcp_def open_flow_def Let_def split: if_splits)
qed

theorem clear_revokes_witness:
  "byte_at ex_syn 9 = 6 \<and>
   (\<exists>sg. tcp_segment ex_syn 20 = Some sg \<and> sg_syn sg \<and> \<not> sg_ack sg \<and> \<not> sg_rst sg \<and>
      (Out = In \<longrightarrow> granted (Ports []) (sg_destinationPort sg)) \<and> (Out = Out \<longrightarrow> True))"
  using clear_revokes [of 3 ex_syn Out "ex_policy (Ports []) True"]
  by (simp add: ex_packets eval_simps)

section \<open>Life of a flow\<close>

text \<open>
  when it is due, the sweep forgets exactly the flows closed for a minute and the unfinished
  handshakes idle for five; every other flow keeps its state.
\<close>

theorem sweep_exact:
  "map_get (flows (sweep now (policy_run es (new_policy l r ps out)))) k =
     (case map_get (flows (policy_run es (new_policy l r ps out))) k of
        None \<Rightarrow> None
      | Some f \<Rightarrow>
          if nextSweep (policy_run es (new_policy l r ps out)) \<le> now \<and>
             ((\<exists>t. fl_closedAt f = Some t \<and> t + 60000 \<le> now) \<or>
              \<not> fl_established f \<and> fl_lastSeen f + 300000 \<le> now)
          then None else Some f)"
proof -
  have "policy_inv (policy_run es (new_policy l r ps out))"
    by (intro policy_run_inv inv_new)
  then have "map_wf (flows (policy_run es (new_policy l r ps out)))"
    by (simp add: policy_inv_def)
  then show ?thesis
    by (auto simp: sweep_get expired_def CLOSED_GRACE_MS_def HANDSHAKE_IDLE_MS_def split: option.splits)
qed

lemma remove_closed_keeps_live:
  assumes "policy_inv p" and "old \<in> set (closed_keys p)"
    and "map_get (flows p) k = Some f" and "fl_closedAt f = None"
  shows "map_get (flows (policy_remove old p)) k = Some f"
  using assms by (auto simp: policy_inv_def)

lemma open_flow_keeps_live:
  assumes "policy_inv p" and "k \<noteq> key" and "map_get (flows p) k = Some f" and "fl_closedAt f = None"
  shows "map_get (flows (snd (open_flow now d sg key p))) k = Some f"
  using assms remove_closed_keeps_live [OF assms(1) _ assms(3,4)]
  by (auto simp: open_flow_def Let_def map_simps split: list.splits)

lemma tracked_keeps_others:
  assumes "k \<noteq> key"
  shows "map_get (flows (snd (tracked_segment now d sg key f p))) k = map_get (flows p) k"
  using assms
  by (auto simp: tracked_segment_def finish_flow_def Let_def map_simps split: handshake.splits)

text \<open>
  no segment disturbs the live flow of another port pair, not even when the table is full
  and a place has to be found: only closed flows are evicted.
\<close>

theorem live_flow_survives:
  assumes "policy_inv p" and "k \<noteq> segment_key d sg"
    and "map_get (flows p) k = Some f" and "fl_closedAt f = None"
  shows "map_get (flows (snd (admit_tcp now d sg p))) k = Some f"
proof -
  have "map_get (flows (snd (open_flow now d sg (segment_key d sg) (policy_remove (segment_key d sg) p)))) k
    = Some f"
    using assms by (intro open_flow_keeps_live inv_remove) auto
  with assms show ?thesis
    by (auto simp: admit_tcp_def Let_def tracked_keeps_others open_flow_keeps_live
        split: option.splits)
qed

theorem live_flow_survives_witness:
  "map_get (flows (snd (admit_tcp 5 Out (ex_segment 9 True False 0 0)
      (policy_run [(0, ex_syn, Out)] (ex_policy (Ports []) True))))) ''5000:80'' =
   Some (new_flow 0 Out (ex_segment 5000 True False 100 0))"
proof (rule live_flow_survives)
  show "policy_inv (policy_run [(0, ex_syn, Out)] (ex_policy (Ports []) True))"
    by (intro policy_run_inv inv_new)
qed (simp_all add: ex_packets ex_segment_def eval_simps)

text \<open>
  the handshake completes.  A SYN that the configuration allows, its SYN-ACK and the final
  ACK are admitted one after the other, and the flow is then established and still belongs to the
  side that began it.
\<close>

theorem handshake_completes:
  assumes "d' \<noteq> d"
    and "map_get (flows p) (segment_key d syn) = None" and "length (flows p) < 4096"
    and "d = Out \<longrightarrow> allowOutboundInitiation p"
    and "d = In \<longrightarrow> granted (ports p) (sg_destinationPort syn)"
    and "sg_syn syn" "\<not> sg_ack syn" "\<not> sg_rst syn"
    and "segment_key d' synack = segment_key d syn" "sg_syn synack" "sg_ack synack" "\<not> sg_rst synack"
    and "sg_ackno synack = sg_seq syn + 1"
    and "segment_key d ack = segment_key d syn" "sg_ack ack" "\<not> sg_syn ack" "\<not> sg_rst ack" "\<not> sg_fin ack"
    and "sg_seq ack = sg_seq syn + 1" "sg_ackno ack = sg_seq synack + 1"
  shows "let (ok1, p1) = admit_tcp t1 d syn p; (ok2, p2) = admit_tcp t2 d' synack p1;
             (ok3, p3) = admit_tcp t3 d ack p2
         in ok1 \<and> ok2 \<and> ok3 \<and>
            (\<exists>f. map_get (flows p3) (segment_key d syn) = Some f \<and> fl_established f \<and>
                 fl_initiator f = d \<and> fl_closedAt f = None)"
proof -
  let ?k = "segment_key d syn"
  let ?f1 = "new_flow t1 d syn"
  let ?f2 = "?f1\<lparr>fl_replied := True, fl_responseSequence := Some (sg_seq synack), fl_lastSeen := t2\<rparr>"
  let ?p1 = "p\<lparr>flows := map_set ?k ?f1 (flows p)\<rparr>"
  let ?p2 = "?p1\<lparr>flows := map_set ?k ?f2 (flows ?p1)\<rparr>"
  let ?g = "note_ack d ack (?f2\<lparr>fl_established := True, fl_lastSeen := t3\<rparr>)"
  let ?p3 = "?p2\<lparr>flows := map_set ?k ?g (flows ?p2)\<rparr>"
  have 1: "admit_tcp t1 d syn p = (True, ?p1)"
    using assms by (simp add: admit_tcp_def open_flow_def MAX_FLOWS_def Let_def)
  have 2: "admit_tcp t2 d' synack ?p1 = (True, ?p2)"
    using assms
    by (simp add: admit_tcp_def tracked_segment_def handshake_step_def finish_flow_def new_flow_def
        map_simps Let_def)
  have "fl_finIn ?g = None" by (simp add: new_flow_def)
  then have "\<not> both_closed ?g" using both_closed_fins by blast
  then have 3: "admit_tcp t3 d ack ?p2 = (True, ?p3)"
    using assms
    by (simp add: admit_tcp_def tracked_segment_def handshake_step_def response_next_def
        finish_flow_def note_fin_def new_flow_def map_simps Let_def)
  have "fl_established ?g \<and> fl_initiator ?g = d \<and> fl_closedAt ?g = None"
    by (simp add: new_flow_def)
  then show ?thesis unfolding 1 2 3 Let_def prod.case by (simp add: map_simps)
qed

theorem handshake_completes_witness:
  "let (ok1, p1) = admit_tcp 0 Out (ex_segment 9 True False 5 0) (ex_policy (Ports []) True);
       (ok2, p2) = admit_tcp 1 In ((ex_segment 80 True True 7 6)\<lparr>sg_destinationPort := 9\<rparr>) p1;
       (ok3, p3) = admit_tcp 2 Out (ex_segment 9 False True 6 8) p2
   in ok1 \<and> ok2 \<and> ok3 \<and>
      (\<exists>f. map_get (flows p3) (segment_key Out (ex_segment 9 True False 5 0)) = Some f \<and>
           fl_established f \<and> fl_initiator f = Out \<and> fl_closedAt f = None)"
  by (rule handshake_completes) (simp_all add: ex_segment_def eval_simps)

text \<open>
  a segment turns a tracked flow into a closed one only when both directions have sent a FIN
  that the other side has acknowledged, and the closing time is that of the segment.
\<close>

theorem closing_needs_both_fins:
  assumes "policy_inv p" and "map_get (flows p) (segment_key d sg) = Some f" and "fl_closedAt f = None"
    and "map_get (flows (snd (admit_tcp now d sg p))) (segment_key d sg) = Some f'"
    and "fl_closedAt f' = Some t"
  shows "t = now \<and> both_closed f'"
proof -
  let ?k = "segment_key d sg"
  have f: "flow_inv f" using policy_inv_flow [OF assms(1,2)] by simp
  have "map_get (flows (snd (tracked_segment now d sg ?k f p))) ?k = Some f'"
    using assms by (simp add: admit_tcp_def Let_def)
  then show ?thesis
  proof (cases "handshake_step d sg f")
    case (Continue g)
    have "fl_closedAt g = None" using handshake_Continue(3) [OF Continue f] assms(3) by simp
    with \<open>map_get (flows (snd (tracked_segment now d sg ?k f p))) ?k = Some f'\<close> Continue assms(5)
    show ?thesis
      by (auto simp: tracked_segment_def finish_flow_def both_closed_def map_simps Let_def
          split: if_splits)
  qed (use assms in \<open>auto simp: tracked_segment_def map_simps\<close>)
qed

definition ex_half_closed :: flow where
  "ex_half_closed =
     \<lparr>fl_initiator = Out, fl_sequence = 5, fl_replied = True, fl_established = True,
      fl_responseSequence = Some 7, fl_finIn = Some 20, fl_finOut = Some 10,
      fl_ackIn = Some 10, fl_ackOut = Some 8, fl_closedAt = None, fl_lastSeen = 0\<rparr>"

theorem closing_needs_both_fins_witness:
  "(3 :: int) = 3 \<and> both_closed (ex_half_closed\<lparr>fl_ackOut := Some 20, fl_closedAt := Some 3, fl_lastSeen := 3\<rparr>)"
proof (rule closing_needs_both_fins)
  let ?p = "(ex_policy (Ports []) True)\<lparr>flows := [(tuple 9 80, ex_half_closed)]\<rparr>"
  let ?sg = "ex_segment 9 False True 10 20"
  have "flow_allowed ?p (tuple 9 80) ex_half_closed"
    unfolding flow_allowed_def by (rule exI [of _ 9], rule exI [of _ 80])
      (simp add: ex_half_closed_def new_policy_def)
  then show "policy_inv ?p"
    by (simp add: policy_inv_def map_wf_def flow_inv_def ex_half_closed_def new_policy_def MAX_FLOWS_def)
  show "map_get (flows ?p) (segment_key Out ?sg) = Some ex_half_closed"
    by (simp add: segment_key_def ex_segment_def)
  show "map_get (flows (snd (admit_tcp 3 Out ?sg ?p))) (segment_key Out ?sg) =
      Some (ex_half_closed\<lparr>fl_ackOut := Some 20, fl_closedAt := Some 3, fl_lastSeen := 3\<rparr>)"
    by (simp add: ex_segment_def ex_half_closed_def eval_simps reaches_def)
qed (simp_all add: ex_half_closed_def)

end
