(* ===== verification/Receiver_Properties.thy ===== *)
theory Receiver_Properties
  imports Receiver_Steps
begin

text \<open>
  The properties of the receiver store and of invitations, each with the run of a concrete
  receiver that meets its hypotheses.
\<close>

section \<open>A concrete receiver\<close>

definition ex_key :: "char \<Rightarrow> string" where "ex_key c = replicate 64 c"

definition ex_sha :: "string \<Rightarrow> string" where "ex_sha secret = rev secret"

definition ex_identity :: receiver_identity where
  "ex_identity = \<lparr>id_receiverKey = ex_key CHR ''a'', id_receiverAddress = ''10.0.0.1'', id_pool = ''10.0.0.0/30''\<rparr>"

definition ex_directory :: file_info where
  "ex_directory = \<lparr>fi_isDirectory = True, fi_isFile = False, fi_isSymbolicLink = False,
     fi_mode = 16832, fi_uid = 501, fi_size = 64\<rparr>"

definition ex_file :: file_info where
  "ex_file = \<lparr>fi_isDirectory = False, fi_isFile = True, fi_isSymbolicLink = False,
     fi_mode = 33152, fi_uid = 501, fi_size = 300\<rparr>"

definition ex_store :: store where
  "ex_store =
     (let s = \<lparr>rs_identity = ex_identity, rs_devices = [], rs_invitations = []\<rparr>
      in \<lparr>st_state = s, st_failed = False, st_disk = Some s\<rparr>)"

definition ex_invitation :: pending_invitation where
  "ex_invitation = \<lparr>pd_digest = ex_key CHR ''b'', pd_issuedAt = 1000, pd_expiresAt = 601000,
     pd_excludeAddress = None\<rparr>"

definition ex_invited :: store where
  "ex_invited =
     (let s = \<lparr>rs_identity = ex_identity, rs_devices = [], rs_invitations = [ex_invitation]\<rparr>
      in \<lparr>st_state = s, st_failed = False, st_disk = Some s\<rparr>)"

definition ex_device :: receiver_device where
  "ex_device = \<lparr>dv_publicKey = ex_key CHR ''c'', dv_address = ''10.0.0.2'', dv_allowTcp = All_ports\<rparr>"

definition ex_enrolled :: store where
  "ex_enrolled =
     (let s = \<lparr>rs_identity = ex_identity, rs_devices = [ex_device], rs_invitations = []\<rparr>
      in \<lparr>st_state = s, st_failed = False, st_disk = Some s\<rparr>)"

definition ex_token :: string where
  "ex_token = ''kepos1:'' @ ex_key CHR ''a'' @ '':'' @ ex_key CHR ''b''"

lemma ex_key_hex: "is_hex c \<Longrightarrow> key_hex (ex_key c)"
  by (simp add: ex_key_def key_hex_def)

lemma ex_hex: "key_hex (ex_key CHR ''a'')" "key_hex (ex_key CHR ''b'')" "key_hex (ex_key CHR ''c'')"
  by (rule ex_key_hex; simp add: is_hex_def is_digit_def)+

lemma ex_key_eq: "ex_key c = ex_key d \<longleftrightarrow> c = d"
  by (simp add: ex_key_def replicate_eq_replicate)

lemma ex_sha_key: "ex_sha (ex_key c) = ex_key c"
  by (simp add: ex_sha_def ex_key_def)

lemma ex_pool: "poolRange ''10.0.0.0/30'' = Inr \<lparr>pr_first = 167772161, pr_last = 167772162\<rparr>"
  by (simp add: eval_simps)

lemma ex_addresses:
  "ipv4_number ''10.0.0.1'' = Inr 167772161" "ipv4_number ''10.0.0.2'' = Inr 167772162"
  "ipv4_text 167772161 = ''10.0.0.1''" "ipv4_text 167772162 = ''10.0.0.2''"
  by (simp_all add: eval_simps)

lemma ex_first_free:
  "first_free [''10.0.0.1''] 167772161 167772162 = Some ''10.0.0.2''"
  by (simp add: first_free.simps ex_addresses)

lemmas ex_simps = ex_hex ex_key_eq ex_sha_key ex_pool ex_addresses ex_first_free

lemma ex_open:
  "receiver_open (Some 501) Created ex_directory None None (Committed None) ex_identity = Inr ex_store"
  by (simp add: receiver_open_def ex_identity_def ex_simps requirePrivateDirectory_def
      ex_directory_def owned_def save_def ex_store_def Let_def)

lemma ex_create:
  "createInvitation ex_sha None 1000 (ex_key CHR ''b'') (Committed None) ex_store =
     (Inr ex_token, ex_invited)"
  by (simp add: createInvitation_def serial_def ex_store_def Let_def exclusion_error_def
      MAX_INVITATIONS_def TTL_def ex_identity_def ex_simps formatInvitation_def
      ex_token_def ex_invited_def ex_invitation_def parse_format [of "\<lparr>iv_receiverKey = x, iv_secret = y\<rparr>" for x y, simplified])

lemma ex_enroll:
  "enroll ex_sha (ex_key CHR ''c'') (ex_key CHR ''b'') 2000 (Committed None) ex_invited =
     (Inr ex_device, ex_enrolled)"
  by (simp add: enroll_def serial_def ex_invited_def Let_def ex_invitation_def ex_identity_def
      ex_simps live_def enroll_device_def MAX_DEVICES_def ex_device_def ex_enrolled_def)

lemma ex_store_inv: "store_inv ex_store"
  using receiver_open_inv(1) [OF ex_open] .

lemma ex_ready: "create_ready ex_sha 1000 (ex_key CHR ''b'') (st_state ex_store)"
  by (simp add: create_ready_def ex_simps ex_store_def Let_def safe_integer_def MAX_SAFE_INTEGER_def)

lemma ex_invited_inv: "store_inv ex_invited"
  using create.keeps_inv [OF ex_store_inv ex_ready, of None "Committed None"] by (simp add: ex_create)

lemma ex_enrolled_inv: "store_inv ex_enrolled"
  using enrolling.keeps_inv [OF ex_invited_inv, of ex_sha "ex_key CHR ''c''" "ex_key CHR ''b''" 2000 "Committed None"]
  by (simp add: ex_enroll)

lemma ex_path:
  "store_path ex_sha ex_store
     [Do_create None 1000 (ex_key CHR ''b'') (Committed None),
      Do_enroll (ex_key CHR ''c'') (ex_key CHR ''b'') 2000 (Committed None)] ex_enrolled"
proof -
  have "store_path ex_sha ex_store ([] @ [Do_create None 1000 (ex_key CHR ''b'') (Committed None)])
      (store_apply ex_sha (Do_create None 1000 (ex_key CHR ''b'') (Committed None)) ex_store)"
    by (intro path_step path_start) (simp add: ex_ready)
  then have "store_path ex_sha ex_store ([Do_create None 1000 (ex_key CHR ''b'') (Committed None)] @
      [Do_enroll (ex_key CHR ''c'') (ex_key CHR ''b'') 2000 (Committed None)])
      (store_apply ex_sha (Do_enroll (ex_key CHR ''c'') (ex_key CHR ''b'') 2000 (Committed None)) ex_invited)"
    by (intro path_step) (simp_all add: ex_create)
  then show ?thesis by (simp add: ex_enroll)
qed

section \<open>Every run keeps the store valid\<close>

text \<open>
  C28: After an opening and any operations, whatever the file system does, there are at most 16
  devices and 16 invitations, keys and addresses are distinct, every address is in the pool and
  not the receiver's, every grant is well formed; and a store that has not failed has its state
  on disk.
\<close>

theorem receiver_run_valid:
  assumes "receiver_open getuid made directory file contents outcome idn = Inr st"
    and "store_path sha st ops st'"
  shows "receiver_inv (st_state st') \<and>
    length (rs_devices (st_state st')) \<le> 16 \<and> length (rs_invitations (st_state st')) \<le> 16 \<and>
    distinct (map dv_address (rs_devices (st_state st'))) \<and>
    (\<forall>d \<in> set (rs_devices (st_state st')).
      dv_address d \<noteq> id_receiverAddress (rs_identity (st_state st')) \<and>
      in_pool (id_pool (rs_identity (st_state st'))) (dv_address d)) \<and>
    (\<not> st_failed st' \<longrightarrow> st_disk st' = Some (st_state st'))"
proof -
  have "store_inv st'"
    using assms(2) receiver_open_inv(1) [OF assms(1)] by (rule store_path_inv)
  then have inv: "receiver_inv (st_state st')"
    and disk: "\<not> st_failed st' \<longrightarrow> st_disk st' = Some (st_state st')"
    by (simp_all add: store_inv_def)
  moreover have "dv_address d \<noteq> id_receiverAddress (rs_identity (st_state st')) \<and>
      in_pool (id_pool (rs_identity (st_state st'))) (dv_address d)"
    if "d \<in> set (rs_devices (st_state st'))" for d
    using inv that unfolding receiver_inv_def device_ok_def by (metis distinct.simps(2) imageI image_set)
  ultimately show ?thesis
    unfolding receiver_inv_def MAX_DEVICES_def MAX_INVITATIONS_def distinct.simps by blast
qed

theorem receiver_run_valid_witness:
  "receiver_inv (st_state ex_enrolled) \<and> length (rs_devices (st_state ex_enrolled)) = 1"
  using receiver_run_valid [OF ex_open ex_path] by (simp add: ex_enrolled_def Let_def)

text \<open>
  C29: Whatever happened before, the file that is on disk reads back: reopening it, as the same
  receiver, gives exactly the state that was written last, and unless a write has failed that is
  the state in memory.
\<close>

theorem reopen_restores:
  assumes "receiver_open getuid made directory file contents outcome idn = Inr st"
    and "store_path sha st ops st'"
    and "requirePrivateDirectory getuid directory' = None" and "private_file getuid file'"
  shows "\<exists>d. st_disk st' = Some d \<and>
    receiver_open getuid Already_exists directory' (Some file') (Some (state_json d)) outcome'
      (rs_identity (st_state st')) = Inr \<lparr>st_state = d, st_failed = False, st_disk = Some d\<rparr> \<and>
    (\<not> st_failed st' \<longrightarrow> d = st_state st')"
proof -
  have "store_inv st'"
    using assms(2) receiver_open_inv(1) [OF assms(1)] by (rule store_path_inv)
  then obtain d where d: "st_disk st' = Some d" "receiver_inv d"
      "rs_identity d = rs_identity (st_state st')" "\<not> st_failed st' \<longrightarrow> d = st_state st'"
    by (auto simp: store_inv_def)
  then have "identity_ok (rs_identity (st_state st'))" by (metis receiver_inv_def)
  then obtain a rng where "key_hex (id_receiverKey (rs_identity (st_state st')))"
    and "ipv4_number (id_receiverAddress (rs_identity (st_state st'))) = Inr a"
    and "poolRange (id_pool (rs_identity (st_state st'))) = Inr rng"
    unfolding identity_ok_def by (metis sum.collapse(2))
  then have "receiver_open getuid Already_exists directory' (Some file') (Some (state_json d)) outcome'
      (rs_identity (st_state st')) = Inr \<lparr>st_state = d, st_failed = False, st_disk = Some d\<rparr>"
    using validate_json [OF d(2)] d(3) assms(3,4) by (simp add: receiver_open_def read_state_def)
  with d(1,4) show ?thesis by blast
qed

theorem reopen_restores_witness:
  "receiver_open (Some 501) Already_exists ex_directory (Some ex_file)
     (Some (state_json (st_state ex_enrolled))) (Committed None) ex_identity = Inr ex_enrolled"
proof -
  have "requirePrivateDirectory (Some 501) ex_directory = None" and "private_file (Some 501) ex_file"
    by (simp_all add: requirePrivateDirectory_def ex_directory_def owned_def private_file_def ex_file_def)
  from reopen_restores [OF ex_open ex_path this, of "Committed None"]
  show ?thesis by (simp add: ex_enrolled_def Let_def)
qed

section \<open>Enrollment\<close>

text \<open>
  A successful enrollment found a live invitation with the digest of the secret, issued at
  most ten minutes ago; the device gets an address of the pool that is neither the receiver's nor
  the excluded one, and it is in the stored list under its key, exactly once.
\<close>

theorem enroll_needs_invitation:
  assumes "store_inv st" and "fst (enroll sha key secret now outcome st) = Inr d"
  shows "(\<exists>i \<in> set (rs_invitations (st_state st)). pd_digest i = sha secret \<and>
      pd_issuedAt i \<le> now \<and> now < pd_issuedAt i + 600000 \<and> pd_excludeAddress i \<noteq> Some (dv_address d)) \<and>
    dv_publicKey d = key \<and> in_pool (id_pool (rs_identity (st_state st))) (dv_address d) \<and>
    dv_address d \<noteq> id_receiverAddress (rs_identity (st_state st)) \<and>
    filter (\<lambda>e. dv_publicKey e = key)
      (rs_devices (st_state (snd (enroll sha key secret now outcome st)))) = [d]"
proof -
  let ?s = "st_state st"
  obtain k where k: "k < length (rs_invitations ?s)" "pd_digest (rs_invitations ?s ! k) = sha secret"
      "live now (rs_invitations ?s ! k)"
    and dev: "enroll_device key (rs_invitations ?s ! k) ?s = Inr d"
    and post: "rs_devices (st_state (snd (enroll sha key secret now outcome st))) = enrolled_devices key d ?s"
    using assms by (rule enroll_successD) simp
  from assms(1) have inv: "receiver_inv ?s" by (simp add: store_inv_def)
  let ?i = "rs_invitations ?s ! k"
  have i: "?i \<in> set (rs_invitations ?s)" using k(1) by simp
  then have exp: "pd_expiresAt ?i = pd_issuedAt ?i + 600000"
    using inv by (auto simp: receiver_inv_def invitation_ok_def TTL_def)
  have facts: "pd_excludeAddress ?i \<noteq> Some (dv_address d) \<and> dv_publicKey d = key \<and>
      in_pool (id_pool (rs_identity ?s)) (dv_address d) \<and> dv_address d \<noteq> id_receiverAddress (rs_identity ?s) \<and>
      filter (\<lambda>e. dv_publicKey e = key) (enrolled_devices key d ?s) = [d]"
  proof (cases "\<exists>e \<in> set (rs_devices ?s). dv_publicKey e = key")
    case True
    note known = enroll_device_known [OF dev True]
    then have "filter (\<lambda>e. dv_publicKey e = key) (rs_devices ?s) = [d]"
      using inv by (intro filter_key_singleton) (auto simp: receiver_inv_def)
    moreover have "dv_address d \<noteq> id_receiverAddress (rs_identity ?s) \<and> in_pool (id_pool (rs_identity ?s)) (dv_address d)"
      using inv known unfolding receiver_inv_def device_ok_def by (metis distinct.simps(2) imageI image_set)
    ultimately show ?thesis using known True by (simp add: enrolled_devices_def)
  next
    case False
    with enroll_device_new [OF dev False] show ?thesis
      by (auto simp: enrolled_devices_def filter_empty_conv)
  qed
  have "\<exists>i \<in> set (rs_invitations ?s). pd_digest i = sha secret \<and>
      pd_issuedAt i \<le> now \<and> now < pd_issuedAt i + 600000 \<and> pd_excludeAddress i \<noteq> Some (dv_address d)"
    using i k exp facts by (intro bexI [of _ ?i]) (auto simp: live_def)
  with facts post show ?thesis by simp
qed

theorem enroll_needs_invitation_witness:
  "filter (\<lambda>e. dv_publicKey e = ex_key CHR ''c'')
     (rs_devices (st_state (snd (enroll ex_sha (ex_key CHR ''c'') (ex_key CHR ''b'') 2000 (Committed None) ex_invited)))) =
   [ex_device]"
  using enroll_needs_invitation [OF ex_invited_inv, of ex_sha "ex_key CHR ''c''" "ex_key CHR ''b''" 2000
      "Committed None" ex_device] by (simp add: ex_enroll)

lemma enroll_success_absent:
  assumes inv: "store_inv st" and ok: "fst (enroll sha key secret now outcome st) = Inr d"
  shows "absent (sha secret) (snd (enroll sha key secret now outcome st))"
proof -
  let ?invs = "rs_invitations (st_state st)"
  obtain k where k: "k < length ?invs" "pd_digest (?invs ! k) = sha secret"
    and post: "rs_invitations (st_state (snd (enroll sha key secret now outcome st))) =
        filter (live now) (take k ?invs @ drop (Suc k) ?invs)"
    using assms by (rule enroll_successD) simp
  have "distinct (map pd_digest ?invs)" using inv by (simp add: store_inv_def receiver_inv_def)
  moreover have "map pd_digest ?invs =
      map pd_digest (take k ?invs) @ pd_digest (?invs ! k) # map pd_digest (drop (Suc k) ?invs)"
    using k(1) by (metis id_take_nth_drop list.simps(9) map_append)
  ultimately have "pd_digest (?invs ! k) \<notin> pd_digest ` set (take k ?invs @ drop (Suc k) ?invs)"
    by (simp add: image_Un)
  with post k(2) show ?thesis by (auto simp: absent_def)
qed

text \<open>
  C26: An invitation is good for one enrollment.  Once it has been used, no enrollment with the
  same secret succeeds, by any key, at any time, after any further operations, as long as the
  same secret is not issued again.
\<close>

theorem invitation_single_use:
  assumes "store_inv st" and "fst (enroll sha key secret now outcome st) = Inr d"
    and "store_path sha (snd (enroll sha key secret now outcome st)) ops st'"
    and "\<forall>op \<in> set ops. \<not> issues sha (sha secret) op"
  shows "isl (fst (enroll sha key' secret now' outcome' st'))"
proof -
  have gone: "absent (sha secret) st'"
    using assms(3) enroll_success_absent [OF assms(1,2)] assms(4) by (rule store_path_absent)
  show ?thesis
  proof (cases "st_failed st'")
    case True
    then show ?thesis by (simp add: enrolling.refuses)
  next
    case False
    with gone show ?thesis by (subst unusable_without_invitation) (auto simp: absent_def image_iff)
  qed
qed

theorem invitation_single_use_witness:
  "isl (fst (enroll ex_sha (ex_key CHR ''d'') (ex_key CHR ''b'') 2001 (Committed None)
     (snd (revoke (ex_key CHR ''c'') (Committed None) ex_enrolled))))"
proof -
  have "store_path ex_sha ex_enrolled ([] @ [Do_revoke (ex_key CHR ''c'') (Committed None)])
      (store_apply ex_sha (Do_revoke (ex_key CHR ''c'') (Committed None)) ex_enrolled)"
    by (intro path_step path_start) simp
  then have path: "store_path ex_sha (snd (enroll ex_sha (ex_key CHR ''c'') (ex_key CHR ''b'') 2000
        (Committed None) ex_invited)) [Do_revoke (ex_key CHR ''c'') (Committed None)]
      (snd (revoke (ex_key CHR ''c'') (Committed None) ex_enrolled))"
    by (simp add: ex_enroll)
  have ok: "fst (enroll ex_sha (ex_key CHR ''c'') (ex_key CHR ''b'') 2000 (Committed None) ex_invited) = Inr ex_device"
    by (simp add: ex_enroll)
  show ?thesis
    by (rule invitation_single_use [OF ex_invited_inv ok path]) (simp add: issues_def)
qed

text \<open>
  An invitation that has been issued is usable: within ten minutes, by any key that is not
  yet enrolled, while fewer than 16 devices are enrolled and the pool has a free address.  The
  bearer text names the receiver and the secret, and the device gets all ports.
\<close>

theorem issued_invitation_enrolls:
  assumes "store_inv st" and "\<not> st_failed st" and "create_ready sha now secret (st_state st)"
    and "key_hex secret" and "length (filter (live now) (rs_invitations (st_state st))) < 16"
    and "key_hex key" and "key \<noteq> id_receiverKey (rs_identity (st_state st))"
    and "key \<notin> dv_publicKey ` set (rs_devices (st_state st))" and "length (rs_devices (st_state st)) < 16"
    and "in_pool (id_pool (rs_identity (st_state st))) free"
    and "free \<notin> insert (id_receiverAddress (rs_identity (st_state st))) (dv_address ` set (rs_devices (st_state st)))"
    and "now \<le> now'" and "now' < now + 600000"
  shows "case createInvitation sha None now secret (Committed None) st of
      (Inl _, _) \<Rightarrow> False
    | (Inr token, st') \<Rightarrow>
        parseInvitation token =
          Inr \<lparr>iv_receiverKey = id_receiverKey (rs_identity (st_state st)), iv_secret = secret\<rparr> \<and>
        (case fst (enroll sha key secret now' (Committed None) st') of
           Inl _ \<Rightarrow> False | Inr d \<Rightarrow> dv_publicKey d = key \<and> dv_allowTcp d = All_ports)"
proof -
  let ?s = "st_state st"
  let ?i = "\<lparr>pd_digest = sha secret, pd_issuedAt = now, pd_expiresAt = now + TTL, pd_excludeAddress = None\<rparr>"
  let ?old = "filter (live now) (rs_invitations ?s)"
  let ?s' = "?s\<lparr>rs_invitations := ?old @ [?i]\<rparr>"
  let ?st' = "st\<lparr>st_state := ?s', st_disk := Some ?s'\<rparr>"
  let ?token = "''kepos1:'' @ id_receiverKey (rs_identity ?s) @ '':'' @ secret"
  have inv: "receiver_inv ?s" using assms(1) by (simp add: store_inv_def)
  then have parse: "parseInvitation ?token =
      Inr \<lparr>iv_receiverKey = id_receiverKey (rs_identity ?s), iv_secret = secret\<rparr>"
    using parse_format [of "\<lparr>iv_receiverKey = id_receiverKey (rs_identity ?s), iv_secret = secret\<rparr>"] assms(4)
    by (simp add: receiver_inv_def identity_ok_def)
  have create: "createInvitation sha None now secret (Committed None) st = (Inr ?token, ?st')"
    using assms(2,5) parse
    by (simp add: createInvitation_def serial_def Let_def exclusion_error_def MAX_INVITATIONS_def
        formatInvitation_def)
  let ?P = "\<lambda>i. pd_digest i = sha secret \<and> live now' i"
  have "?P ?i" using assms(12,13) by (simp add: live_def TTL_def)
  then obtain k where k: "find_position ?P (?old @ [?i]) = Some k"
    using find_position_None [of ?P "?old @ [?i]"] by fastforce
  have "pd_digest ((?old @ [?i]) ! k) = sha secret"
    using find_position_Some [OF k] by simp
  moreover have "k < length (?old @ [?i])" using find_position_Some [OF k] by simp
  moreover have "pd_digest j \<noteq> sha secret" if "j \<in> set ?old" for j
    using that assms(3) by (auto simp: create_ready_def image_iff)
  ultimately have "(?old @ [?i]) ! k = ?i"
    by (metis (no_types, lifting) append_is_Nil_conv in_set_conv_nth less_Suc_eq length_append_singleton
        nth_append nth_append_length)
  then have ith: "pd_excludeAddress ((?old @ [?i]) ! k) = None" by simp
  obtain rng n where rng: "poolRange (id_pool (rs_identity ?s)) = Inr rng"
    and n: "ipv4_number free = Inr n" "pr_first rng \<le> n" "n \<le> pr_last rng"
    using assms(10) by (auto simp: in_pool_def split: sum.splits)
  let ?taken = "id_receiverAddress (rs_identity ?s) # map dv_address (rs_devices ?s)"
  have "ipv4_text n = free" using ipv4_text_number(1) [OF n(1)] .
  then have "first_free ?taken (pr_first rng) (pr_last rng) \<noteq> None"
    using n assms(11) first_free_None by (metis image_set list.simps(15))
  then obtain a where a: "first_free ?taken (pr_first rng) (pr_last rng) = Some a" by blast
  have "find (\<lambda>d. dv_publicKey d = key) (rs_devices ?s) = None"
    using assms(8) by (auto simp: find_None_iff)
  then have dev: "enroll_device key ((?old @ [?i]) ! k) ?s' =
      Inr \<lparr>dv_publicKey = key, dv_address = a, dv_allowTcp = All_ports\<rparr>"
    using assms(9) a ith by (simp add: enroll_device_def rng MAX_DEVICES_def del: nth_append)
  have "fst (enroll sha key secret now' (Committed None) ?st') =
      Inr \<lparr>dv_publicKey = key, dv_address = a, dv_allowTcp = All_ports\<rparr>"
    using assms(2,4,6,7) k dev by (simp add: enroll_def serial_def Let_def)
  with create parse show ?thesis by simp
qed

theorem issued_invitation_enrolls_witness:
  "isl (fst (enroll ex_sha (ex_key CHR ''c'') (ex_key CHR ''b'') 2000 (Committed None) ex_invited)) = False"
proof -
  have "\<not> isl (fst (enroll ex_sha (ex_key CHR ''c'') (ex_key CHR ''b'') 2000 (Committed None)
      (snd (createInvitation ex_sha None 1000 (ex_key CHR ''b'') (Committed None) ex_store))))"
    using issued_invitation_enrolls [OF ex_store_inv _ ex_ready, of "ex_key CHR ''c''" "''10.0.0.2''" 2000]
    by (simp add: ex_store_def Let_def ex_identity_def ex_simps in_pool_def split: prod.splits sum.splits)
  then show ?thesis by (simp add: ex_create)
qed

text \<open>
  A new device gets the lowest address of the pool that is not taken, and the enrollment is
  rejected for want of an address exactly when every address of the pool is taken by the
  receiver, an enrolled device or the exclusion of the invitation.
\<close>

theorem lowest_free_address:
  fixes pending :: pending_invitation
  assumes "poolRange (id_pool (rs_identity s)) = Inr rng" and "length (rs_devices s) < 16"
    and "key \<notin> dv_publicKey ` set (rs_devices s)"
  defines "taken \<equiv> insert (id_receiverAddress (rs_identity s))
    (dv_address ` set (rs_devices s) \<union> set_option (pd_excludeAddress pending))"
  shows "(case enroll_device key pending s of
      Inl e \<Rightarrow> e = Enrollment_rejected Pool \<and>
        (\<forall>n. pr_first rng \<le> n \<and> n \<le> pr_last rng \<longrightarrow> ipv4_text n \<in> taken)
    | Inr d \<Rightarrow> (\<exists>n. pr_first rng \<le> n \<and> n \<le> pr_last rng \<and> dv_address d = ipv4_text n \<and>
        ipv4_text n \<notin> taken \<and> (\<forall>m. pr_first rng \<le> m \<and> m < n \<longrightarrow> ipv4_text m \<in> taken)))"
proof -
  let ?taken = "id_receiverAddress (rs_identity s) # map dv_address (rs_devices s) @
    (case pd_excludeAddress pending of None \<Rightarrow> [] | Some a \<Rightarrow> [a])"
  have taken: "taken = set ?taken" by (cases "pd_excludeAddress pending") (auto simp: taken_def)
  have "find (\<lambda>d. dv_publicKey d = key) (rs_devices s) = None"
    using assms(3) by (auto simp: find_None_iff)
  then have dev: "enroll_device key pending s =
      (case first_free ?taken (pr_first rng) (pr_last rng) of None \<Rightarrow> Inl (Enrollment_rejected Pool)
       | Some a \<Rightarrow> Inr \<lparr>dv_publicKey = key, dv_address = a, dv_allowTcp = All_ports\<rparr>)"
    using assms(1,2) by (simp add: enroll_device_def MAX_DEVICES_def)
  show ?thesis
  proof (cases "first_free ?taken (pr_first rng) (pr_last rng)")
    case None
    with dev taken first_free_None [of ?taken] show ?thesis by simp
  next
    case (Some a)
    from dev Some have "enroll_device key pending s =
        Inr \<lparr>dv_publicKey = key, dv_address = a, dv_allowTcp = All_ports\<rparr>" by simp
    with first_free_Some [OF Some] taken show ?thesis by auto
  qed
qed

definition ex_excluding :: pending_invitation where
  "ex_excluding = ex_invitation\<lparr>pd_excludeAddress := Some ''10.0.0.2''\<rparr>"

theorem lowest_free_address_witness:
  "enroll_device (ex_key CHR ''c'') ex_excluding (st_state ex_invited) = Inl (Enrollment_rejected Pool)"
proof (cases "enroll_device (ex_key CHR ''c'') ex_excluding (st_state ex_invited)")
  case (Inl e)
  with lowest_free_address [of "st_state ex_invited" _ "ex_key CHR ''c''" ex_excluding]
  show ?thesis by (simp add: ex_invited_def Let_def ex_identity_def ex_simps)
next
  case (Inr d)
  with lowest_free_address [of "st_state ex_invited" _ "ex_key CHR ''c''" ex_excluding]
  obtain n where n: "167772161 \<le> n" "n \<le> 167772162" "ipv4_text n \<noteq> ''10.0.0.1''" "ipv4_text n \<noteq> ''10.0.0.2''"
    by (auto simp: ex_invited_def Let_def ex_identity_def ex_simps ex_excluding_def)
  then have "n = 167772161 \<or> n = 167772162" by linarith
  with n show ?thesis by (auto simp: ex_addresses)
qed

text \<open>
  Once an operation has reported a storage failure, the state in memory is the one from
  before it, and no operation ever changes anything or gives a result again.
\<close>

theorem storage_failure_freezes:
  assumes "store_inv st" and "fst (enroll sha key secret now outcome st) = Inl Storage_failure"
    and "store_path sha (snd (enroll sha key secret now outcome st)) ops st'"
  shows "st_state st' = st_state st \<and> fst (list_devices st') = Inl Storage_failure \<and>
    fst (createInvitation sha ex now' secret' outcome' st') = Inl Storage_failure \<and>
    fst (enroll sha key' secret' now' outcome' st') = Inl Storage_failure \<and>
    fst (grant_ports key' ports outcome' st') = Inl Storage_failure \<and>
    fst (revoke key' outcome' st') = Inl Storage_failure"
proof -
  have f: "st_failed (snd (enroll sha key secret now outcome st))"
    and s: "st_state (snd (enroll sha key secret now outcome st)) = st_state st"
    using enrolling.failure_freezes [OF assms(1) TrueI assms(2)] by simp_all
  from store_path_failed [OF assms(3) f] s f show ?thesis
    by (simp add: listing.refuses create.refuses enrolling.refuses granting.refuses revoking.refuses)
qed

theorem storage_failure_freezes_witness:
  "fst (list_devices (snd (enroll ex_sha (ex_key CHR ''c'') (ex_key CHR ''b'') 2000
     (Uncommitted True None) ex_invited))) = Inl Storage_failure"
proof -
  have "fst (enroll ex_sha (ex_key CHR ''c'') (ex_key CHR ''b'') 2000 (Uncommitted True None) ex_invited)
      = Inl Storage_failure"
    by (simp add: enroll_def serial_def ex_invited_def Let_def ex_invitation_def ex_identity_def
        ex_simps live_def enroll_device_def MAX_DEVICES_def)
  from storage_failure_freezes [OF ex_invited_inv this path_start] show ?thesis by simp
qed

section \<open>Grants and revocation\<close>

text \<open>
  A grant that succeeds has stored the checked ports for that device, on disk too, and
  changed no other device; the key must be enrolled.
\<close>

theorem grant_exact:
  assumes "store_inv st" and "fst (grant_ports key (js_grant g) outcome st) = Inr ()"
  defines "st' \<equiv> snd (grant_ports key (js_grant g) outcome st)"
  shows "st_disk st' = Some (st_state st') \<and>
    length (rs_devices (st_state st')) = length (rs_devices (st_state st)) \<and>
    (\<forall>i < length (rs_devices (st_state st)).
      rs_devices (st_state st') ! i =
        (let d = rs_devices (st_state st) ! i
         in if dv_publicKey d = key then d\<lparr>dv_allowTcp := g\<rparr> else d)) \<and>
    key \<in> dv_publicKey ` set (rs_devices (st_state st))"
proof -
  let ?next = "\<lambda>g. (st_state st)\<lparr>rs_devices := map (\<lambda>d. if dv_publicKey d = key
    then d\<lparr>dv_allowTcp := g\<rparr> else d) (rs_devices (st_state st))\<rparr>"
  have f: "\<not> st_failed st" using assms(2) granting.refuses [of st] by fastforce
  then obtain g' where g: "checkedPorts (js_grant g) = Inr g'"
    and key: "\<exists>d \<in> set (rs_devices (st_state st)). dv_publicKey d = key"
    and r: "grant_ports key (js_grant g) outcome st = save_then outcome (?next g') (Inr ()) st"
    using assms(2) by (auto simp: grant_ports_def serial_def Let_def split: sum.splits if_splits)
  have "st_state st' = ?next g'"
    unfolding st'_def
    by (rule save_then_cases [of outcome "?next g'" "Inr ()" st]) (use r assms(2) in auto)
  moreover have "st_disk st' = Some (st_state st')"
    using granting.success_durable(2) [OF assms(1) TrueI assms(2)] by (simp add: st'_def)
  ultimately show ?thesis using key checkedPorts_grant [OF g] by (auto simp: Let_def)
qed

theorem grant_exact_witness:
  "map dv_allowTcp (rs_devices (st_state (snd (grant_ports (ex_key CHR ''c'') (js_grant (Ports [22, 443]))
     (Committed None) ex_enrolled)))) = [Ports [22, 443]]"
proof -
  have "fst (grant_ports (ex_key CHR ''c'') (js_grant (Ports [22, 443])) (Committed None) ex_enrolled) = Inr ()"
    by (simp add: grant_ports_def serial_def checkedPorts_js_grant grant_ok_def MAX_PORTS_def
        ex_enrolled_def Let_def ex_device_def)
  from grant_exact [OF ex_enrolled_inv this] show ?thesis
    by (auto simp: ex_enrolled_def Let_def ex_device_def length_Suc_conv)
qed

text \<open>
  A revocation that succeeds removes exactly the device with that key, from the file too, so
  that its address is free again.
\<close>

theorem revoke_exact:
  assumes "store_inv st" and "fst (revoke key outcome st) = Inr ()"
  shows "rs_devices (st_state (snd (revoke key outcome st))) =
      filter (\<lambda>d. dv_publicKey d \<noteq> key) (rs_devices (st_state st)) \<and>
    st_disk (snd (revoke key outcome st)) = Some (st_state (snd (revoke key outcome st))) \<and>
    (\<exists>a. dv_address ` set (rs_devices (st_state (snd (revoke key outcome st)))) =
       dv_address ` set (rs_devices (st_state st)) - {a} \<and> a \<in> dv_address ` set (rs_devices (st_state st)))"
proof -
  let ?ds = "rs_devices (st_state st)"
  let ?next = "(st_state st)\<lparr>rs_devices := filter (\<lambda>d. dv_publicKey d \<noteq> key) ?ds\<rparr>"
  have f: "\<not> st_failed st" using assms(2) revoking.refuses [of st] by fastforce
  then obtain d where d: "d \<in> set ?ds" "dv_publicKey d = key"
    and r: "revoke key outcome st = save_then outcome ?next (Inr ()) st"
    using assms(2) by (auto simp: revoke_def serial_def Let_def split: if_splits)
  have ds: "st_state (snd (revoke key outcome st)) = ?next"
    by (rule save_then_cases [of outcome ?next "Inr ()" st]) (use r assms(2) in auto)
  have "distinct (map dv_publicKey ?ds)" and "distinct (map dv_address ?ds)"
    using assms(1) by (simp_all add: store_inv_def receiver_inv_def)
  then have "dv_publicKey e = key \<longleftrightarrow> dv_address e = dv_address d" if "e \<in> set ?ds" for e
    using d that by (auto simp: distinct_map inj_on_def)
  then have "dv_address ` set (filter (\<lambda>d. dv_publicKey d \<noteq> key) ?ds) = dv_address ` set ?ds - {dv_address d}"
    by auto
  with ds d revoking.success_durable(2) [OF assms(1) TrueI assms(2)] show ?thesis by auto
qed

theorem revoke_exact_witness:
  "rs_devices (st_state (snd (revoke (ex_key CHR ''c'') (Committed None) ex_enrolled))) = []"
proof -
  have "fst (revoke (ex_key CHR ''c'') (Committed None) ex_enrolled) = Inr ()"
    by (simp add: revoke_def serial_def ex_enrolled_def Let_def ex_device_def)
  from revoke_exact [OF ex_enrolled_inv this] show ?thesis
    by (simp add: ex_enrolled_def Let_def ex_device_def)
qed

section \<open>Invitations on the wire\<close>

text \<open>
  The bearer text and the enrollment frame read back: a text parses exactly when it is the
  format of a key and a secret, and the frame of a secret gives that secret.
\<close>

theorem invitation_roundtrip:
  "(parseInvitation t = Inr i \<longleftrightarrow> formatInvitation i = Inr t) \<and>
   (\<forall>frame. enrollmentRequest secret = Inr frame \<longrightarrow>
      length frame = 84 \<and> enrollmentSecret frame = Inr (Some secret)) \<and>
   (\<not> isl (enrollmentRequest secret) \<longleftrightarrow> key_hex secret)"
proof (intro conjI allI impI)
  show "parseInvitation t = Inr i \<longleftrightarrow> formatInvitation i = Inr t"
    by (rule parse_iff_format)
  show "\<not> isl (enrollmentRequest secret) \<longleftrightarrow> key_hex secret"
    by (simp add: enrollmentRequest_def)
next
  fix frame
  assume r: "enrollmentRequest secret = Inr frame"
  then have hex: "key_hex secret" and frame: "frame = ascii_encode (ENROLLMENT_PREFIX @ secret)"
    by (auto simp: enrollmentRequest_def split: if_splits)
  from frame hex show "length frame = 84"
    by (simp add: ascii_encode_def key_hex_length)
  from frame request_roundtrip [OF hex] show "enrollmentSecret frame = Inr (Some secret)" by simp
qed

theorem invitation_roundtrip_witness: "parseInvitation ex_token =
    Inr \<lparr>iv_receiverKey = ex_key CHR ''a'', iv_secret = ex_key CHR ''b''\<rparr>"
proof -
  have "formatInvitation \<lparr>iv_receiverKey = ex_key CHR ''a'', iv_secret = ex_key CHR ''b''\<rparr> = Inr ex_token"
    using parse_format [of "\<lparr>iv_receiverKey = ex_key CHR ''a'', iv_secret = ex_key CHR ''b''\<rparr>"]
    by (simp add: formatInvitation_def ex_hex ex_token_def)
  then show ?thesis using invitation_roundtrip by blast
qed

end
