(* ===== verification/Engine_Properties.thy ===== *)
theory Engine_Properties
  imports Engine_Invariant Config_Properties Policy_Properties Receiver_Properties
begin

text \<open>
  What the engine promises over whole runs: which packets cross it, when a session is ready, what
  remains of a session that is over, one session per peer, and the limits on strangers.
\<close>

section \<open>Which effects an operation has\<close>

lemma setup_put [simp]: "same_setup e (put_session stream s e') = same_setup e e'"
  by (simp add: same_setup_def)

lemma setup_refl [simp]: "same_setup e e"
  by (simp add: same_setup_def)

lemma setup_trans: "same_setup e e' \<Longrightarrow> same_setup e' e'' \<Longrightarrow> same_setup e e''"
  by (simp add: same_setup_def)

lemma logAdmission_setup: "same_setup e (fst (logAdmission now p m e'))  = same_setup e e'"
  by (simp add: logAdmission_def Let_def same_setup_def split: option.split)

lemma enroll_request_setup: "same_setup e (fst (enroll_request now st packet f e')) = same_setup e e'"
  by (simp add: enroll_request_def log_rejection_def Let_def split_beta same_setup_def
      split: sum.split option.split enroll_outcome.split)

lemma attach_setup: "same_setup e (fst (attach p stream e')) = same_setup e e'"
  by (simp add: attach_def same_setup_def)

lemma same_setup_frame [simp]:
  "same_setup e (e'\<lparr>en_lastAdmissions := a\<rparr>) = same_setup e e'"
  "same_setup e (e'\<lparr>en_lastUnknownAdmissionLog := c\<rparr>) = same_setup e e'"
  "same_setup e (e'\<lparr>en_streams := d\<rparr>) = same_setup e e'"
  "same_setup e (e'\<lparr>en_enrollmentReservations := f\<rparr>) = same_setup e e'"
  "same_setup e (e'\<lparr>en_enrollmentStreams := g\<rparr>) = same_setup e e'"
  "same_setup e (e'\<lparr>en_enrollmentAttempts := h\<rparr>) = same_setup e e'"
  "same_setup e (e'\<lparr>en_tunWriting := j\<rparr>) = same_setup e e'"
  "same_setup e (e'\<lparr>en_sessions := k\<rparr>) = same_setup e e'"
  "same_setup e (e'\<lparr>en_stopping := l\<rparr>) = same_setup e e'"
  by (simp_all add: same_setup_def)

lemma engine_step_setup: "same_setup e (fst (engine_step ev e))"
proof (cases ev)
  case (Ev_firewall now key)
  then show ?thesis
    by (simp add: firewall_def reserve_enrollment_def unknown_admission_def logAdmission_setup
        Let_def split_beta split: option.split)
next
  case (Ev_accept key stream)
  then show ?thesis
    by (simp add: accept_stream_def attachEnrollment_def attach_setup Let_def split_beta split: option.split)
next
  case Ev_stop
  have "same_setup (e\<lparr>en_stopping := True\<rparr>) (fst (end_sessions (en_sessions e) (e\<lparr>en_stopping := True\<rparr>)))"
    using end_sessions_fields by blast
  then show ?thesis
    unfolding Ev_stop by (simp add: stop_engine_def split_beta) (simp add: same_setup_def)
next
  case (Ev_frame now date stream packet f)
  then show ?thesis
    by (simp add: session_frame_def first_frame_def enroll_request_setup Let_def split_beta split: option.split)
qed (simp_all add: dial_open_def dial_connected_def dial_failed_def attach_setup enrollment_frame_def
    enrollment_done_def enroll_request_setup device_written_def session_ended_def
    handshake_timeout_def session_closed_def device_packet_def Let_def split_beta split: option.split)

lemma engine_run_setup: "engine_run e evs e' out \<Longrightarrow> same_setup e e'"
proof (induction rule: engine_run.induct)
  case (run_step e evs e1 out ev e2 out')
  then show ?case using engine_step_setup [of e1 ev] by (auto intro: setup_trans)
qed simp

text \<open>Effects on the packet path; everything else is quiet.\<close>

fun on_path :: "effect \<Rightarrow> bool" where
  "on_path (To_device packet) = True"
| "on_path (Send_frame stream packet) = True"
| "on_path (Status key label b) = True"
| "on_path _ = False"

definition quiet :: "effect list \<Rightarrow> bool" where
  "quiet out \<longleftrightarrow> (\<forall>x \<in> set out. \<not> on_path x)"

lemma quiet_simps [simp]:
  "quiet []" "quiet (x # out) = (\<not> on_path x \<and> quiet out)"
  "quiet (out @ out') = (quiet out \<and> quiet out')" "quiet (map Diagnostic ds)" "quiet (map Destroy ss)"
  by (auto simp: quiet_def)

lemma logAdmission_quiet [simp]: "quiet (snd (logAdmission now p m e))"
  by (simp add: logAdmission_def Let_def split: option.split)

lemma firewall_quiet: "quiet (snd (snd (firewall now key e)))"
  by (simp add: firewall_def reserve_enrollment_def unknown_admission_def Let_def split_beta split: option.split)

lemma enroll_request_quiet [simp]: "quiet (snd (enroll_request now st packet f e))"
  by (simp add: enroll_request_def log_rejection_def Let_def split_beta
      split: sum.split option.split enroll_outcome.split)

lemma session_failed_quiet [simp]: "quiet (session_failed stream s err e)"
  by (simp add: session_failed_def)

lemma quietD: "quiet out \<Longrightarrow> x \<in> set out \<Longrightarrow> \<not> on_path x"
  by (simp add: quiet_def)

text \<open>The events that are not quiet, and what they may do.\<close>

lemma quiet_events:
  assumes "x \<in> set (snd (engine_step ev e))" and "on_path x"
  shows "(\<exists>key stream. ev = Ev_accept key stream) \<or> (\<exists>p stream remote. ev = Ev_dial_connected p stream remote) \<or>
    (\<exists>now date stream packet f. ev = Ev_frame now date stream packet f) \<or> (\<exists>stream. ev = Ev_closed stream) \<or>
    (\<exists>date packet sent. ev = Ev_device date packet sent) \<or> ev = Ev_stop"
proof (rule ccontr)
  assume "\<not> ?thesis"
  then have "quiet (snd (engine_step ev e))"
    using firewall_quiet
    by (cases ev) (simp_all add: dial_open_def dial_failed_def enrollment_frame_def enrollment_done_def
        device_written_def session_ended_def handshake_timeout_def Let_def split_beta split: option.split)
  with assms show False using quietD by blast
qed

lemma attach_effects: "x \<in> set (snd (attach p stream e)) \<Longrightarrow> on_path x \<Longrightarrow> x = Send_frame stream hello"
  by (auto simp: attach_def split: if_splits)

lemma accept_effects: "x \<in> set (snd (accept_stream key stream e)) \<Longrightarrow> on_path x \<Longrightarrow> x = Send_frame stream hello"
  using attach_effects
  by (auto simp: accept_stream_def attachEnrollment_def Let_def split_beta split: option.splits if_splits)

lemma dial_effects:
  "x \<in> set (snd (dial_connected p stream remote e)) \<Longrightarrow> on_path x \<Longrightarrow> x = Send_frame stream hello"
  using attach_effects
  by (auto simp: dial_connected_def dial_failed_def split_beta split: if_splits)

lemma first_frame_effects:
  "x \<in> set (snd (first_frame now stream s packet f e)) \<Longrightarrow> on_path x \<Longrightarrow>
     x = Status (ss_key s) (label_of e (ss_key s)) True \<and> packet = hello"
  using quietD [OF enroll_request_quiet] quietD [OF session_failed_quiet]
  by (auto simp: first_frame_def peerStatus_def Let_def split_beta split: if_splits)

lemma session_frame_effects:
  assumes "x \<in> set (snd (session_frame now date stream packet f e))" and "on_path x"
  obtains s where "map_get (en_objects e) stream = Some s" and "is_current e stream s"
    and "\<not> en_stopping e"
    and "x = Status (ss_key s) (label_of e (ss_key s)) True \<and> packet = hello \<and> ss_first s \<or>
      x = To_device packet \<and> \<not> ss_first s \<and> ss_ready s \<and> \<not> en_tunWriting e \<and>
      fst (admit date packet In (ss_policy s))"
  using assms first_frame_effects [of x now stream _ packet f e] quietD [OF session_failed_quiet]
  by (auto simp: session_frame_def Let_def split_beta split: option.splits if_splits)

lemma device_packet_effects:
  assumes "x \<in> set (snd (device_packet date packet sent e))" and "on_path x"
  obtains p stream s where "map_get (byAddress e) (address packet 16) = Some p"
    and "map_get (en_sessions e) (pr_key p) = Some stream" and "map_get (en_objects e) stream = Some s"
    and "ss_ready s" and "fst (admit date packet Out (ss_policy s))" and "x = Send_frame stream packet"
  using assms by (auto simp: device_packet_def Let_def split_beta split: option.splits if_splits)

lemma end_sessions_effects:
  "x \<in> set (snd (end_sessions m e)) \<Longrightarrow> \<exists>key label. x = Status key label False"
  by (induction m e rule: end_sessions.induct)
    (auto simp: split_beta ended_status_def peerStatus_def split: option.splits if_splits)

lemma closed_effects:
  "x \<in> set (snd (session_closed stream e)) \<Longrightarrow> \<exists>key label. x = Status key label False"
  by (auto simp: session_closed_def Let_def ended_status_def peerStatus_def split: option.splits if_splits)

lemma stop_effects:
  "x \<in> set (snd (stop_engine e)) \<Longrightarrow> on_path x \<Longrightarrow> \<exists>key label. x = Status key label False"
  using end_sessions_effects by (auto simp: stop_engine_def split_beta split: if_splits)

lemma to_device_step:
  assumes "To_device packet \<in> set (snd (engine_step ev e))"
  obtains now date stream f s where "ev = Ev_frame now date stream packet f"
    and "map_get (en_objects e) stream = Some s" and "is_current e stream s" and "\<not> en_stopping e"
    and "ss_ready s" and "\<not> en_tunWriting e" and "fst (admit date packet In (ss_policy s))"
proof -
  consider (accept) key stream where "ev = Ev_accept key stream" |
    (dial) p stream remote where "ev = Ev_dial_connected p stream remote" |
    (frame) now date stream pk f where "ev = Ev_frame now date stream pk f" |
    (closed) stream where "ev = Ev_closed stream" |
    (device) date pk sent where "ev = Ev_device date pk sent" | (stopped) "ev = Ev_stop"
    using quiet_events [OF assms] by auto
  then show thesis
  proof cases
    case accept
    with assms accept_effects [of "To_device packet"] show ?thesis by fastforce
  next
    case dial
    with assms dial_effects [of "To_device packet"] show ?thesis by fastforce
  next
    case frame
    with assms have "To_device packet \<in> set (snd (session_frame now date stream pk f e))" by simp
    then show ?thesis by (rule session_frame_effects) (use that frame in auto)
  next
    case closed
    with assms closed_effects [of "To_device packet"] show ?thesis by fastforce
  next
    case device
    with assms have "To_device packet \<in> set (snd (device_packet date pk sent e))" by simp
    then show ?thesis by (rule device_packet_effects) auto
  next
    case stopped
    with assms stop_effects [of "To_device packet"] show ?thesis by fastforce
  qed
qed

lemma send_frame_step:
  assumes "Send_frame stream packet \<in> set (snd (engine_step ev e))" and "packet \<noteq> hello"
  obtains date sent p s where "ev = Ev_device date packet sent"
    and "map_get (byAddress e) (address packet 16) = Some p"
    and "map_get (en_sessions e) (pr_key p) = Some stream" and "map_get (en_objects e) stream = Some s"
    and "ss_ready s" and "fst (admit date packet Out (ss_policy s))"
proof -
  consider (accept) key st where "ev = Ev_accept key st" |
    (dial) p st remote where "ev = Ev_dial_connected p st remote" |
    (frame) now date st pk f where "ev = Ev_frame now date st pk f" |
    (closed) st where "ev = Ev_closed st" |
    (device) date pk sent where "ev = Ev_device date pk sent" | (stopped) "ev = Ev_stop"
    using quiet_events [OF assms(1)] by auto
  then show thesis
  proof cases
    case accept
    with assms accept_effects [of "Send_frame stream packet"] show ?thesis by fastforce
  next
    case dial
    with assms dial_effects [of "Send_frame stream packet"] show ?thesis by fastforce
  next
    case frame
    with assms have "Send_frame stream packet \<in> set (snd (session_frame now date st pk f e))" by simp
    then show ?thesis by (rule session_frame_effects) auto
  next
    case closed
    with assms closed_effects [of "Send_frame stream packet"] show ?thesis by fastforce
  next
    case device
    with assms have "Send_frame stream packet \<in> set (snd (device_packet date pk sent e))" by simp
    then show ?thesis by (rule device_packet_effects) (use that device in auto)
  next
    case stopped
    with assms stop_effects [of "Send_frame stream packet"] show ?thesis by fastforce
  qed
qed

section \<open>The engine at the start\<close>

lemma start_engine_facts:
  assumes "start_engine key config enrollment = Inr e"
  shows "sessions_inv e" and "limits_inv e" and "en_enrollment e = enrollment"
    and "en_objects e = []" and "\<not> en_stopping e"
  using assms
  by (auto simp: start_engine_def sessions_inv_def limits_inv_def split: option.splits sum.splits)

lemma engine_run_facts:
  assumes "start_engine key config enrollment = Inr e0" and "engine_run e0 evs e out"
  shows "sessions_inv e" and "limits_inv e" and "same_setup e0 e"
    and "en_enrollment e = enrollment" and "en_peers e = en_peers e0" and "en_address e = en_address e0"
proof -
  from assms show "sessions_inv e" by (metis engine_run_inv start_engine_facts(1))
  from assms show "limits_inv e" by (metis engine_run_limits start_engine_facts(2))
  from assms(2) show s: "same_setup e0 e" by (rule engine_run_setup)
  with start_engine_facts(3) [OF assms(1)] show "en_enrollment e = enrollment"
    and "en_peers e = en_peers e0" and "en_address e = en_address e0"
    by (simp_all add: same_setup_def)
qed

text \<open>A session's policy is configured for its peer.\<close>

lemma session_peer:
  assumes "sessions_inv e" and "map_get (en_objects e) stream = Some s"
  obtains p where "p \<in> set (en_peers e)" and "pr_key p = ss_key s" and "policy_inv (ss_policy s)"
    and "policy_config (ss_policy s) = session_config e p"
  using sessions_inv_object [OF assms] by (auto simp: session_ok_def)

section \<open>A concrete engine\<close>

definition ex_config :: peer_config where
  "ex_config =
     \<lparr>pc_vpn = Some \<lparr>vc_address = ''10.0.0.1'',
        vc_peers = [\<lparr>vp_peer = ''c'', vp_address = ''10.0.0.2'', vp_allowTcp = Ports [22]\<rparr>]\<rparr>,
      pc_network = None,
      pc_peers = [\<lparr>pf_label = ''c'', pf_publicKey = ex_key CHR ''c'', pf_connection = Accept\<rparr>]\<rparr>"

definition ex_peer :: peer where
  "ex_peer = \<lparr>pr_label = ''c'', pr_key = ex_key CHR ''c'', pr_address = ''10.0.0.2'',
     pr_direction = Accept, pr_allowTcp = Ports [22]\<rparr>"

definition ex_engine :: "bool \<Rightarrow> engine" where
  "ex_engine enrollment =
     \<lparr>en_peerKey = ex_key CHR ''a'', en_address = ''10.0.0.1'', en_peers = [ex_peer],
      en_enrollment = enrollment, en_objects = [], en_sessions = [], en_lastAdmissions = [],
      en_admissionLogs = [], en_lastUnknownAdmissionLog = None, en_streams = [],
      en_enrollmentReservations = [], en_enrollmentStreams = [], en_enrollmentAttempts = [],
      en_enrollmentRejectionLogs = [], en_stopping = False, en_tun = True, en_tunWriting = False\<rparr>"

definition ex_session :: "bool \<Rightarrow> bool \<Rightarrow> session" where
  "ex_session enrollment ready =
     \<lparr>ss_key = ex_key CHR ''c'',
      ss_policy = new_policy ''10.0.0.1'' ''10.0.0.2'' (Ports [22]) (\<not> enrollment),
      ss_ready = ready, ss_first = (\<not> ready)\<rparr>"

text \<open>The engine with one session, on stream 7, before and after the greeting.\<close>

definition ex_attached :: "bool \<Rightarrow> bool \<Rightarrow> engine" where
  "ex_attached enrollment ready =
     (ex_engine enrollment)\<lparr>en_streams := [7], en_objects := [(7, ex_session enrollment ready)],
        en_sessions := [(ex_key CHR ''c'', 7)]\<rparr>"

lemmas ex_engine_defs = ex_attached_def ex_session_def ex_engine_def ex_peer_def

lemma ex_start: "start_engine (ex_key CHR ''a'') ex_config enrollment = Inr (ex_engine enrollment)"
  by (simp add: start_engine_def engine_peers_def engine_peer_def ex_config_def ex_engine_def ex_peer_def
      ex_key_eq)

lemma ex_byKey: "byKey (ex_attached b r) = [(ex_key CHR ''c'', ex_peer)]"
  "byKey (ex_engine b) = [(ex_key CHR ''c'', ex_peer)]"
  by (simp_all add: byKey_def ex_engine_defs)

lemma ex_attach_step:
  "engine_step (Ev_accept (ex_key CHR ''c'') 7) (ex_engine b) =
     (ex_attached b False, [Log ''VPN transport accepted from c; awaiting protocol handshake'', Send_frame 7 hello])"
  by (simp add: accept_stream_def Let_def byKey_def attach_def ex_engine_defs set_add_def)

lemma hello_no_enrollment: "ascii_decode (take 20 hello) \<noteq> ENROLLMENT_PREFIX"
  by (simp add: hello_def ENROLLMENT_PREFIX_def ascii_encode_def ascii_decode_def)

lemma ex_hello_step:
  "engine_step (Ev_frame 0 0 7 hello f) (ex_attached b False) =
     (ex_attached b True, [Status (ex_key CHR ''c'') ''c'' True, Log ''VPN peer connected: c''])"
  by (simp add: session_frame_def is_current_def first_frame_def hello_no_enrollment Let_def
      put_session_def peerStatus_def label_of_def byKey_def ex_engine_defs)

lemma ex_run:
  "engine_run (ex_engine b) [Ev_accept (ex_key CHR ''c'') 7, Ev_frame 0 0 7 hello f] (ex_attached b True)
     ([Log ''VPN transport accepted from c; awaiting protocol handshake'', Send_frame 7 hello] @
      [Status (ex_key CHR ''c'') ''c'' True, Log ''VPN peer connected: c''])"
proof -
  have "engine_run (ex_engine b) ([] @ [Ev_accept (ex_key CHR ''c'') 7]) (ex_attached b False)
      ([] @ [Log ''VPN transport accepted from c; awaiting protocol handshake'', Send_frame 7 hello])"
    by (rule run_step [OF run_start]) (simp_all only: ex_attach_step, simp add: ex_engine_def)
  then have "engine_run (ex_engine b) [Ev_accept (ex_key CHR ''c'') 7] (ex_attached b False)
      [Log ''VPN transport accepted from c; awaiting protocol handshake'', Send_frame 7 hello]" by simp
  from run_step [OF this _ ex_hello_step, of f] show ?thesis by simp
qed

text \<open>The host \<open>c\<close> dials the host \<open>a\<close> of \<open>ex_engine\<close>.\<close>

definition ex_dialer_config :: peer_config where
  "ex_dialer_config =
     \<lparr>pc_vpn = Some \<lparr>vc_address = ''10.0.0.2'',
        vc_peers = [\<lparr>vp_peer = ''a'', vp_address = ''10.0.0.1'', vp_allowTcp = Ports []\<rparr>]\<rparr>,
      pc_network = None,
      pc_peers = [\<lparr>pf_label = ''a'', pf_publicKey = ex_key CHR ''a'', pf_connection = Dial\<rparr>]\<rparr>"

definition ex_acceptor :: peer where
  "ex_acceptor = \<lparr>pr_label = ''a'', pr_key = ex_key CHR ''a'', pr_address = ''10.0.0.1'',
     pr_direction = Dial, pr_allowTcp = Ports []\<rparr>"

definition ex_dialer :: engine where
  "ex_dialer = (ex_engine False)\<lparr>en_peerKey := ex_key CHR ''c'', en_address := ''10.0.0.2'', en_peers := [ex_acceptor]\<rparr>"

definition ex_dialed :: "bool \<Rightarrow> engine" where
  "ex_dialed ready = ex_dialer\<lparr>en_streams := [3],
     en_objects := [(3, \<lparr>ss_key = ex_key CHR ''a'',
       ss_policy = new_policy ''10.0.0.2'' ''10.0.0.1'' (Ports []) True, ss_ready = ready, ss_first = (\<not> ready)\<rparr>)],
     en_sessions := [(ex_key CHR ''a'', 3)]\<rparr>"

lemmas ex_dialer_defs = ex_dialed_def ex_dialer_def ex_acceptor_def ex_engine_def

lemma ex_dialer_start: "start_engine (ex_key CHR ''c'') ex_dialer_config False = Inr ex_dialer"
  by (simp add: start_engine_def engine_peers_def engine_peer_def ex_dialer_config_def ex_dialer_defs ex_key_eq)

lemma ex_dial_step:
  "engine_step (Ev_dial_connected ex_acceptor 3 (ex_key CHR ''a'')) ex_dialer =
     (ex_dialed False, [Log ''VPN transport opened locally to a; awaiting protocol handshake'', Send_frame 3 hello])"
  by (simp add: dial_connected_def attach_def ex_dialer_defs set_add_def)

lemma ex_greeted_step:
  "engine_step (Ev_frame 0 0 3 hello f) (ex_dialed False) =
     (ex_dialed True, [Status (ex_key CHR ''a'') ''a'' True, Log ''VPN peer connected: a''])"
  by (simp add: session_frame_def is_current_def first_frame_def hello_no_enrollment Let_def
      put_session_def peerStatus_def label_of_def byKey_def ex_dialer_defs)

lemma ex_send_step:
  "\<exists>e. engine_step (Ev_device 1 ex_insyn True) (ex_dialed True) = (e, [Send_frame 3 ex_insyn])"
  by (simp add: device_packet_def byAddress_def Let_def split_beta ex_dialer_defs)
    (simp add: ex_packets eval_simps)

lemma ex_write_step:
  "\<exists>e. engine_step (Ev_frame 1 1 7 ex_insyn f) (ex_attached False True) =
     (e, [Diagnostic Policy_admitted, To_device ex_insyn])"
  by (simp add: session_frame_def is_current_def Let_def split_beta ex_engine_defs)
    (simp add: ex_packets eval_simps)

section \<open>Packets that cross the engine\<close>

text \<open>Where a packet for the device comes from.\<close>

lemma to_device_source:
  assumes "start_engine key config enrollment = Inr e0" and "engine_run e0 evs e out"
    and "To_device packet \<in> set (snd (engine_step ev e))"
  obtains now date stream f s p where "ev = Ev_frame now date stream packet f"
    and "map_get (en_objects e) stream = Some s" and "is_current e stream s" and "\<not> en_tunWriting e"
    and "fst (admit date packet In (ss_policy s))" and "p \<in> set (en_peers e0)" and "pr_key p = ss_key s"
    and "address packet 12 = pr_address p" and "address packet 16 = en_address e0"
    and "byte_at packet 9 = 6 \<longrightarrow> granted (pr_allowTcp p) (readUInt16BE packet 22) \<or> \<not> enrollment"
proof -
  note run = engine_run_facts [OF assms(1,2)]
  from assms(3) obtain now date stream f s where ev: "ev = Ev_frame now date stream packet f"
    and s: "map_get (en_objects e) stream = Some s"
    and cur: "is_current e stream s" and free: "\<not> en_tunWriting e"
    and ok: "fst (admit date packet In (ss_policy s))"
    by (rule to_device_step)
  from run(1) s obtain p where p: "p \<in> set (en_peers e)" "pr_key p = ss_key s"
    and inv: "policy_inv (ss_policy s)" and conf: "policy_config (ss_policy s) = session_config e p"
    by (rule session_peer)
  have "address packet 12 = pr_address p" and "address packet 16 = en_address e0"
    using policy_gate.gate_in [OF ok] conf run(6) by (simp_all add: session_config_def)
  moreover have "byte_at packet 9 = 6 \<longrightarrow> granted (pr_allowTcp p) (readUInt16BE packet 22) \<or> \<not> enrollment"
    using policy_gate.gate_port [OF inv ok] conf run(4) by (simp add: session_config_def)
  ultimately show thesis using that [OF ev s cur free ok _ p(2)] p(1) run(5) by simp
qed

lemma to_device_authorised:
  assumes "start_engine key config enrollment = Inr e0" and "engine_run e0 evs e out"
    and "To_device packet \<in> set (snd (engine_step ev e))"
  shows "\<not> en_tunWriting e \<and>
    (\<exists>p \<in> set (en_peers e0). map_get (en_sessions e) (pr_key p) \<noteq> None \<and>
      address packet 12 = pr_address p \<and> address packet 16 = en_address e0 \<and>
      (byte_at packet 9 = 6 \<longrightarrow> granted (pr_allowTcp p) (readUInt16BE packet 22) \<or> \<not> enrollment))"
proof -
  from assms obtain now date stream f s p where "is_current e stream s" "pr_key p = ss_key s"
    and "\<not> en_tunWriting e" and "p \<in> set (en_peers e0)"
    and "address packet 12 = pr_address p" and "address packet 16 = en_address e0"
    and "byte_at packet 9 = 6 \<longrightarrow> granted (pr_allowTcp p) (readUInt16BE packet 22) \<or> \<not> enrollment"
    by (rule to_device_source)
  then show ?thesis by (intro conjI bexI [of _ p]) (simp_all add: is_current_def)
qed

text \<open>
  Whatever the engine has been through, a packet that it writes to the device came from the
  address of a configured peer with a current session, to this host's address; on an engine that
  enrolls others, a TCP packet moreover goes to a port that this peer has been granted.  No other
  write is under way.
\<close>

theorem delivered_packet_authorised:
  assumes "start_engine key config enrollment = Inr e0" and "engine_run e0 evs e out"
    and "To_device packet \<in> set (snd (engine_step ev e))"
  shows "\<not> en_tunWriting e \<and>
    (\<exists>p \<in> set (en_peers e0). map_get (en_sessions e) (pr_key p) \<noteq> None \<and>
      address packet 12 = pr_address p \<and> address packet 16 = en_address e0 \<and>
      (byte_at packet 9 = 6 \<longrightarrow> granted (pr_allowTcp p) (readUInt16BE packet 22) \<or> \<not> enrollment))"
  by (rule to_device_authorised [OF assms])

theorem delivered_packet_authorised_witness:
  "granted (Ports [22]) (readUInt16BE ex_insyn 22) \<and> address ex_insyn 12 = ''10.0.0.2''"
proof -
  have "To_device ex_insyn \<in> set (snd (engine_step (Ev_frame 1 1 7 ex_insyn (\<lambda>_. Threw [])) (ex_attached True True)))"
    by (simp add: session_frame_def is_current_def Let_def split_beta ex_engine_defs)
      (simp add: ex_packets eval_simps)
  from delivered_packet_authorised [OF ex_start ex_run this]
  have "address ex_insyn 12 = ''10.0.0.2''"
    and "byte_at ex_insyn 9 = 6 \<longrightarrow> granted (Ports [22]) (readUInt16BE ex_insyn 22)"
    by (simp_all add: ex_engine_defs)
  then show ?thesis by (simp add: ex_insyn_def byte_at_def)
qed

text \<open>Where a packet for a stream comes from, and which stream it is.\<close>

lemma send_frame_authorised:
  assumes "start_engine key config enrollment = Inr e0" and "engine_run e0 evs e out"
    and "Send_frame stream packet \<in> set (snd (engine_step ev e))" and "packet \<noteq> hello"
  shows "(\<exists>date sent. ev = Ev_device date packet sent) \<and>
    (\<exists>p \<in> set (en_peers e0). map_get (en_sessions e) (pr_key p) = Some stream \<and>
    (\<exists>s. map_get (en_objects e) stream = Some s \<and> ss_key s = pr_key p \<and> ss_ready s) \<and>
    address packet 12 = en_address e0 \<and> address packet 16 = pr_address p)"
proof -
  note run = engine_run_facts [OF assms(1,2)]
  from assms(3,4) obtain date sent p s where ev: "ev = Ev_device date packet sent"
    and p: "map_get (byAddress e) (address packet 16) = Some p"
    and stream: "map_get (en_sessions e) (pr_key p) = Some stream"
    and s: "map_get (en_objects e) stream = Some s" "ss_ready s"
    and ok: "fst (admit date packet Out (ss_policy s))"
    by (rule send_frame_step)
  from byAddress_elem [OF p] have "p \<in> set (en_peers e)" "pr_address p = address packet 16" by simp_all
  moreover have "ss_key s = pr_key p"
    using sessions_inv_current [OF run(1) stream] s by simp
  moreover from run(1) s(1) obtain q where "policy_config (ss_policy s) = session_config e q"
    by (rule session_peer)
  then have "address packet 12 = en_address e"
    using policy_gate.gate_out [OF ok] by (simp add: session_config_def)
  ultimately show ?thesis using run stream s ev by auto
qed

text \<open>
  A packet that the engine sends to a stream, the greeting apart, came from the device, is
  addressed from this host to a configured peer, and the stream is that of the peer's current,
  ready session: no peer ever gets a packet for another.
\<close>

theorem sent_packet_reaches_its_peer:
  assumes "start_engine key config enrollment = Inr e0" and "engine_run e0 evs e out"
    and "Send_frame stream packet \<in> set (snd (engine_step ev e))" and "packet \<noteq> hello"
  shows "\<exists>p \<in> set (en_peers e0). map_get (en_sessions e) (pr_key p) = Some stream \<and>
    (\<exists>s. map_get (en_objects e) stream = Some s \<and> ss_key s = pr_key p \<and> ss_ready s) \<and>
    address packet 12 = en_address e0 \<and> address packet 16 = pr_address p"
  using send_frame_authorised [OF assms] by blast

theorem sent_packet_reaches_its_peer_witness:
  "\<exists>p \<in> set [ex_peer]. address ex_syn 16 = pr_address p"
proof -
  have "Send_frame 7 ex_syn \<in> set (snd (engine_step (Ev_device 1 ex_syn True) (ex_attached False True)))"
    by (simp add: device_packet_def byAddress_def Let_def split_beta ex_engine_defs)
      (simp add: ex_packets eval_simps)
  moreover have "ex_syn \<noteq> hello" by (simp add: ex_syn_def hello_def ascii_encode_def)
  ultimately have "\<exists>p \<in> set (en_peers (ex_engine False)). address ex_syn 16 = pr_address p"
    using sent_packet_reaches_its_peer [OF ex_start ex_run, of 7 ex_syn "Ev_device 1 ex_syn True" False]
    by blast
  then show ?thesis by (simp add: ex_engine_def)
qed

section \<open>The life of a session\<close>

text \<open>Which operations make a session ready.\<close>

lemma objects_logs [simp]:
  "en_objects (fst (logAdmission now p m e)) = en_objects e"
  by (simp add: logAdmission_def Let_def split: option.split)

lemma objects_admission [simp]:
  "en_objects (fst (snd (reserve_enrollment now key e))) = en_objects e"
  "en_objects (fst (snd (unknown_admission now b e))) = en_objects e"
  by (simp_all add: reserve_enrollment_def unknown_admission_def Let_def)

lemma objects_frame:
  "en_objects (fst (snd (firewall now key e))) = en_objects e"
  "en_objects (fst (logAdmission now p m e)) = en_objects e"
  "en_objects (fst (enroll_request now st packet f e)) = en_objects e"
proof -
  show "en_objects (fst (snd (firewall now key e))) = en_objects e"
    by (simp add: firewall_def split_beta split: option.split)
  show "en_objects (fst (enroll_request now st packet f e)) = en_objects e"
    by (simp add: enroll_request_def log_rejection_def Let_def split_beta
        split: sum.split option.split enroll_outcome.split)
qed simp

lemma first_frame_ready:
  assumes "map_get (en_objects (fst (first_frame now st s packet f e))) stream = Some s'" and "ss_ready s'"
  shows "map_get (en_objects e) stream = Some s' \<or> stream = st \<and> (ss_ready s \<or> packet = hello)"
proof (cases "en_enrollment e \<and> ascii_decode (take (length ENROLLMENT_PREFIX) packet) = ENROLLMENT_PREFIX \<or>
    packet \<noteq> hello")
  case True
  then have "en_objects (fst (first_frame now st s packet f e)) = map_set st (s\<lparr>ss_first := False\<rparr>) (en_objects e)"
    unfolding first_frame_def Let_def
    by (cases "en_enrollment e \<and> ascii_decode (take (length ENROLLMENT_PREFIX) packet) = ENROLLMENT_PREFIX")
      (simp_all only: if_True if_False split_beta fst_conv objects_frame put_session_def, simp_all add: objects_frame)
  with assms show ?thesis by (cases "stream = st") (auto simp: map_simps)
next
  case False
  then have "en_objects (fst (first_frame now st s packet f e)) =
      map_set st (s\<lparr>ss_first := False, ss_ready := True\<rparr>) (en_objects e)"
    by (simp add: first_frame_def Let_def put_session_def hello_no_enrollment)
  with assms False show ?thesis by (cases "stream = st") (auto simp: map_simps)
qed

lemma attach_ready:
  "map_get (en_objects (fst (attach p st e))) stream = Some s' \<Longrightarrow> ss_ready s' \<Longrightarrow>
     map_get (en_objects e) stream = Some s'"
  by (auto simp: attach_def map_simps split: if_splits)

lemma ready_step:
  assumes "map_get (en_objects (fst (engine_step ev e))) stream = Some s'" and "ss_ready s'"
  shows "(\<exists>s. map_get (en_objects e) stream = Some s \<and> ss_ready s) \<or>
    (\<exists>now date f. ev = Ev_frame now date stream hello f)"
proof (cases ev)
  case (Ev_accept key st)
  with assms show ?thesis
    by (auto simp: accept_stream_def attachEnrollment_def Let_def split_beta dest!: attach_ready
        split: option.splits if_splits)
next
  case (Ev_dial_connected p st remote)
  with assms attach_ready [of p st e stream s'] show ?thesis
    by (auto simp: dial_connected_def dial_failed_def split_beta split: if_splits)
next
  case (Ev_frame now date st packet f)
  show ?thesis
  proof (cases "\<exists>s. map_get (en_objects e) st = Some s \<and> ss_first s \<and> is_current e st s \<and> \<not> en_stopping e")
    case True
    then obtain s where s: "map_get (en_objects e) st = Some s" "ss_first s" "is_current e st s" "\<not> en_stopping e"
      by blast
    with assms Ev_frame have "map_get (en_objects (fst (first_frame now st s packet f e))) stream = Some s'"
      by (simp add: session_frame_def)
    from first_frame_ready [OF this assms(2)] s(1) assms(2) Ev_frame show ?thesis by auto
  next
    case False
    with assms Ev_frame show ?thesis
      by (auto simp: session_frame_def put_session_def Let_def split_beta map_simps split: option.splits if_splits)
  qed
next
  case Ev_stop
  with assms show ?thesis
    by (auto simp: stop_engine_def split_beta end_sessions_objects split: if_splits)
qed (use assms in \<open>auto simp: objects_frame split_beta dial_open_def dial_failed_def
      enrollment_frame_def enrollment_done_def device_written_def session_ended_def handshake_timeout_def
      session_closed_def device_packet_def Let_def map_simps split: option.splits if_splits\<close>)

lemma first_frame_key:
  assumes "map_get (en_objects (fst (first_frame now st s packet f e))) stream = Some s'"
    and "map_get (en_objects e) st = Some s"
  shows "\<exists>t. map_get (en_objects e) stream = Some t \<and> ss_key t = ss_key s'"
  using assms
  by (cases "stream = st") (auto simp: first_frame_def Let_def split_beta objects_frame put_session_def map_simps
      split: if_splits)

lemma attach_key:
  "map_get (en_objects (fst (attach p st e))) stream = Some s' \<Longrightarrow>
     map_get (en_objects e) stream = Some s' \<or> stream = st \<and> ss_key s' = pr_key p"
  by (auto simp: attach_def map_simps split: if_splits)

text \<open>A session that an operation did not find comes from the stream that it attaches.\<close>

lemma session_key_step:
  assumes "map_get (en_objects (fst (engine_step ev e))) stream = Some s'"
  shows "(\<exists>s. map_get (en_objects e) stream = Some s \<and> ss_key s = ss_key s') \<or>
    ev = Ev_accept (ss_key s') stream \<or> (\<exists>p. ev = Ev_dial_connected p stream (ss_key s'))"
proof (cases ev)
  case (Ev_accept key st)
  with assms show ?thesis
    by (auto simp: accept_stream_def attachEnrollment_def Let_def split_beta dest!: attach_key byKey_elem
        split: option.splits if_splits)
next
  case (Ev_dial_connected p st remote)
  with assms attach_key [of p st e stream s'] show ?thesis
    by (auto simp: dial_connected_def dial_failed_def split_beta split: if_splits)
next
  case (Ev_frame now date st packet f)
  show ?thesis
  proof (cases "\<exists>s. map_get (en_objects e) st = Some s \<and> ss_first s \<and> is_current e st s \<and> \<not> en_stopping e")
    case True
    then obtain s where s: "map_get (en_objects e) st = Some s" "ss_first s" "is_current e st s" "\<not> en_stopping e"
      by blast
    with assms Ev_frame have "map_get (en_objects (fst (first_frame now st s packet f e))) stream = Some s'"
      by (simp add: session_frame_def)
    from first_frame_key [OF this s(1)] show ?thesis by blast
  next
    case False
    with assms Ev_frame show ?thesis
      by (auto simp: session_frame_def put_session_def Let_def split_beta map_simps split: option.splits if_splits)
  qed
next
  case Ev_stop
  with assms show ?thesis
    by (auto simp: stop_engine_def split_beta end_sessions_objects split: if_splits)
qed (use assms in \<open>auto simp: objects_frame split_beta dial_open_def dial_failed_def
      enrollment_frame_def enrollment_done_def device_written_def session_ended_def handshake_timeout_def
      session_closed_def device_packet_def end_session_def Let_def map_simps split: option.splits if_splits\<close>)

lemma ready_needs_hello:
  assumes "engine_run e0 evs e out" and "en_objects e0 = []"
    and "map_get (en_objects e) stream = Some s" and "ss_ready s"
  shows "\<exists>now date f. Ev_frame now date stream hello f \<in> set evs"
  using assms
proof (induction arbitrary: s rule: engine_run.induct)
  case (run_step e evs e1 out ev e2 out')
  then show ?case using ready_step [of ev e1 stream s] by fastforce
qed simp

text \<open>
  No packet crosses a session before the protocol greeting: when the engine writes a frame of
  a stream to the device, the greeting has arrived on that stream before.
\<close>

theorem greeting_before_packets:
  assumes "start_engine key config enrollment = Inr e0" and "engine_run e0 evs e out"
    and "To_device packet \<in> set (snd (engine_step (Ev_frame now date stream frame f) e))"
  shows "packet = frame \<and> (\<exists>now' date' f'. Ev_frame now' date' stream hello f' \<in> set evs)"
  using assms(3)
proof (rule to_device_step)
  fix now2 date2 stream2 f2 s
  assume "Ev_frame now date stream frame f = Ev_frame now2 date2 stream2 packet f2"
    and "map_get (en_objects e) stream2 = Some s" and "ss_ready s"
  then show ?thesis
    using ready_needs_hello [OF assms(2) start_engine_facts(4) [OF assms(1)], of stream s] by auto
qed

theorem greeting_before_packets_witness:
  "\<exists>now' date' f'. Ev_frame now' date' 7 hello f' \<in>
     set [Ev_accept (ex_key CHR ''c'') 7, Ev_frame 0 0 7 hello (\<lambda>_. Threw [])]"
proof -
  have "To_device ex_insyn \<in> set (snd (engine_step (Ev_frame 1 1 7 ex_insyn (\<lambda>_. Threw [])) (ex_attached True True)))"
    by (simp add: session_frame_def is_current_def Let_def split_beta ex_engine_defs)
      (simp add: ex_packets eval_simps)
  from greeting_before_packets [OF ex_start ex_run this] show ?thesis by blast
qed

end
