(* ===== verification/Engine_Lifecycle.thy ===== *)
theory Engine_Lifecycle
  imports Engine_Properties
begin

text \<open>
  The life of sessions and of handshakes over whole runs: the status reports refine a table of
  connected peers, a session is displaced by nothing but its own end, a stopped engine is silent,
  and the firewall limits how often handshakes pass.
\<close>

section \<open>The table of connected peers\<close>

text \<open>
  The abstract machine that an observer of the status reports sees: a set of connected keys, to
  which a key is added only when it is absent and removed only when it is present.
\<close>

inductive table_run :: "string set \<Rightarrow> (string \<times> bool) list \<Rightarrow> string set \<Rightarrow> bool" where
  table_done: "table_run K [] K"
| table_up: "k \<notin> K \<Longrightarrow> table_run (insert k K) rs K' \<Longrightarrow> table_run K ((k, True) # rs) K'"
| table_down: "k \<in> K \<Longrightarrow> table_run (K - {k}) rs K' \<Longrightarrow> table_run K ((k, False) # rs) K'"

inductive_simps table_run_Nil [simp]: "table_run K [] K'"
inductive_simps table_run_Cons: "table_run K (r # rs) K'"

lemma table_run_append: "table_run K rs K1 \<Longrightarrow> table_run K1 rs' K2 \<Longrightarrow> table_run K (rs @ rs') K2"
  by (induction rule: table_run.induct) (auto simp: table_run_Cons)

lemma table_downs:
  "distinct ks \<Longrightarrow> set ks \<subseteq> K \<Longrightarrow> table_run K (map (\<lambda>k. (k, False)) ks) (K - set ks)"
proof (induction ks arbitrary: K)
  case (Cons k ks)
  then have "set ks \<subseteq> K - {k}" and "distinct ks" by auto
  with Cons.IH have "table_run (K - {k}) (map (\<lambda>k. (k, False)) ks) (K - {k} - set ks)" by blast
  moreover have "K - set (k # ks) = K - {k} - set ks" by auto
  ultimately show ?case using Cons.prems by (simp add: table_run_Cons)
qed simp

text \<open>The reports among the effects, and the keys that the engine's state has as connected.\<close>

fun statuses :: "effect list \<Rightarrow> (string \<times> bool) list" where
  "statuses [] = []"
| "statuses (Status key label b # out) = (key, b) # statuses out"
| "statuses (_ # out) = statuses out"

lemma statuses_append [simp]: "statuses (out @ out') = statuses out @ statuses out'"
  by (induction out rule: statuses.induct) simp_all

lemma statuses_quiet: "quiet out \<Longrightarrow> statuses out = []"
  by (induction out rule: statuses.induct) simp_all

definition ready_key :: "engine \<Rightarrow> string \<Rightarrow> bool" where
  "ready_key e key \<longleftrightarrow>
     (case map_get (en_sessions e) key of
        None \<Rightarrow> False
      | Some stream \<Rightarrow> (case map_get (en_objects e) stream of None \<Rightarrow> False | Some s \<Rightarrow> ss_ready s))"

definition connected :: "engine \<Rightarrow> string set" where
  "connected e = {key. ready_key e key}"

lemma ready_key_iff:
  "ready_key e key \<longleftrightarrow>
     (\<exists>stream s. map_get (en_sessions e) key = Some stream \<and> map_get (en_objects e) stream = Some s \<and> ss_ready s)"
  by (simp add: ready_key_def split: option.split)

lemma connected_same:
  "en_sessions e' = en_sessions e \<Longrightarrow> en_objects e' = en_objects e \<Longrightarrow> connected e' = connected e"
  unfolding connected_def ready_key_iff by simp

lemma connected_frame [simp]:
  "connected (e\<lparr>en_tunWriting := b\<rparr>) = connected e" "connected (e\<lparr>en_streams := ss\<rparr>) = connected e"
  "connected (e\<lparr>en_enrollmentReservations := rs\<rparr>) = connected e"
  "connected (e\<lparr>en_enrollmentStreams := ss\<rparr>) = connected e"
  by (rule connected_same; simp)+

lemma connected_put:
  "map_get (en_objects e) stream = Some s0 \<Longrightarrow> ss_ready s = ss_ready s0 \<Longrightarrow>
     connected (put_session stream s e) = connected e"
  by (auto simp: connected_def ready_key_iff map_simps split: if_splits)

lemma connected_attach:
  assumes inv: "sessions_inv e" and fresh: "map_get (en_objects e) stream = None"
  shows "connected (fst (attach p stream e)) = connected e"
proof -
  have "ready_key (fst (attach p stream e)) k = ready_key e k" for k
  proof (cases "map_get (en_sessions e) k")
    case None
    then show ?thesis by (auto simp: attach_def ready_key_def map_simps)
  next
    case (Some st)
    moreover from this have "st \<noteq> stream" using sessions_inv_current [OF inv] fresh by fastforce
    ultimately show ?thesis by (auto simp: attach_def ready_key_def map_simps)
  qed
  then show ?thesis by (simp add: connected_def)
qed

lemma attach_statuses [simp]: "statuses (snd (attach p stream e)) = []"
  by (simp add: attach_def)

section \<open>Distinct keys of the session map\<close>

lemma end_sessions_wf: "en_sessions (fst (end_sessions m e)) = en_sessions e"
  using end_sessions_fields by blast

lemma sessions_frame:
  "en_sessions (fst (snd (firewall now key e))) = en_sessions e"
  "en_sessions (fst (logAdmission now p m e)) = en_sessions e"
  "en_sessions (fst (enroll_request now st packet f e)) = en_sessions e"
  "en_sessions (fst (session_frame now date st packet f e)) = en_sessions e"
  "en_sessions (fst (device_packet date packet sent e)) = en_sessions e"
proof -
  have logs: "en_sessions (fst (logAdmission now p m e)) = en_sessions e" for now p m e
    by (simp add: logAdmission_def Let_def split: option.split)
  show "en_sessions (fst (logAdmission now p m e)) = en_sessions e" by (rule logs)
  have "en_sessions (fst (snd (reserve_enrollment now key e))) = en_sessions e"
    "en_sessions (fst (snd (unknown_admission now b e))) = en_sessions e" for b
    by (simp_all add: reserve_enrollment_def unknown_admission_def Let_def)
  then show "en_sessions (fst (snd (firewall now key e))) = en_sessions e"
    by (simp add: firewall_def logs split_beta split: option.split)
  show enr: "en_sessions (fst (enroll_request now st packet f e)) = en_sessions e" for e st f packet
    by (simp add: enroll_request_def log_rejection_def Let_def split_beta
        split: sum.split option.split enroll_outcome.split)
  show "en_sessions (fst (session_frame now date st packet f e)) = en_sessions e"
    by (simp add: session_frame_def first_frame_def enr Let_def split_beta split: option.split)
  show "en_sessions (fst (device_packet date packet sent e)) = en_sessions e"
    by (simp add: device_packet_def Let_def split_beta split: option.split)
qed

lemma attach_sessions:
  "en_sessions (fst (attach p stream e)) = en_sessions e \<or>
   map_get (en_sessions e) (pr_key p) = None \<and>
   en_sessions (fst (attach p stream e)) = map_set (pr_key p) stream (en_sessions e)"
  by (simp add: attach_def)

text \<open>How one step may change the map of sessions.\<close>

lemma sessions_step:
  "en_sessions (fst (engine_step ev e)) = en_sessions e \<or>
   (\<exists>key stream. map_get (en_sessions e) key = None \<and>
      en_sessions (fst (engine_step ev e)) = map_set key stream (en_sessions e)) \<or>
   (\<exists>key stream. ev = Ev_closed stream \<and> map_get (en_sessions e) key = Some stream \<and>
      en_sessions (fst (engine_step ev e)) = map_delete key (en_sessions e)) \<or>
   ev = Ev_stop \<and> en_sessions (fst (engine_step ev e)) = []"
proof (cases ev)
  case (Ev_accept key stream)
  let ?e = "e\<lparr>en_enrollmentReservations := map_delete key (en_enrollmentReservations e)\<rparr>"
  show ?thesis
    using attach_sessions [of _ stream ?e]
    unfolding Ev_accept by (auto simp: accept_stream_def attachEnrollment_def Let_def split_beta split: option.splits)
next
  case (Ev_dial_connected p stream remote)
  then show ?thesis
    using attach_sessions [of p stream e] by (auto simp: dial_connected_def dial_failed_def split_beta)
next
  case (Ev_closed stream)
  then show ?thesis by (auto simp: session_closed_def is_current_def Let_def split: option.splits)
next
  case Ev_stop
  then show ?thesis by (simp add: stop_engine_def split_beta)
qed (simp_all add: sessions_frame dial_open_def dial_failed_def enrollment_frame_def enrollment_done_def
    device_written_def session_ended_def handshake_timeout_def Let_def split_beta split: option.split)

lemma sessions_step_wf:
  "map_wf (en_sessions e) \<Longrightarrow> map_wf (en_sessions (fst (engine_step ev e)))"
  using sessions_step [of ev e] by (auto simp: map_simps)

lemma run_wf: "engine_run e evs e' out \<Longrightarrow> map_wf (en_sessions e) \<Longrightarrow> map_wf (en_sessions e')"
proof (induction rule: engine_run.induct)
  case (run_step e evs e1 out ev e2 out')
  then show ?case using sessions_step_wf [of e1 ev] by simp
qed simp

section \<open>One step of the table\<close>

lemma first_frame_table:
  assumes inv: "sessions_inv e" and s: "map_get (en_objects e) stream = Some s"
    and cur: "is_current e stream s" and first: "ss_first s"
  shows "table_run (connected e) (statuses (snd (first_frame now stream s packet f e)))
    (connected (fst (first_frame now stream s packet f e)))"
proof -
  have idle: "\<not> ss_ready s" using sessions_inv_object [OF inv s] first by (auto simp: session_ok_def)
  then have new: "ss_key s \<notin> connected e"
    using cur s by (auto simp: connected_def ready_key_iff is_current_def)
  have up: "connected (put_session stream (s\<lparr>ss_first := False, ss_ready := True\<rparr>) e) = insert (ss_key s) (connected e)"
    using cur s sessions_inv_current [OF inv]
    by (fastforce simp: connected_def ready_key_iff map_simps is_current_def split: if_splits)
  have same: "connected (put_session stream (s\<lparr>ss_first := False\<rparr>) e) = connected e"
    using s by (rule connected_put) simp
  show ?thesis
  proof (cases "en_enrollment e \<and> ascii_decode (take (length ENROLLMENT_PREFIX) packet) = ENROLLMENT_PREFIX")
    case True
    let ?e = "put_session stream (s\<lparr>ss_first := False\<rparr>) e"
    have "connected (fst (enroll_request now stream packet f ?e)) = connected e"
      using same by (simp add: connected_same [OF sessions_frame(3) objects_frame(3)])
    then show ?thesis
      using True by (simp add: first_frame_def Let_def split_beta statuses_quiet)
  next
    case False
    then show ?thesis
      using new up same
      by (auto simp: first_frame_def Let_def peerStatus_def table_run_Cons statuses_quiet)
  qed
qed

lemma session_frame_table:
  assumes inv: "sessions_inv e"
  shows "table_run (connected e) (statuses (snd (session_frame now date stream packet f e)))
    (connected (fst (session_frame now date stream packet f e)))"
proof (cases "map_get (en_objects e) stream")
  case (Some s)
  have "connected (put_session stream (s\<lparr>ss_policy := pol\<rparr>) e) = connected e" for pol
    using Some by (rule connected_put) simp
  moreover have "statuses (map Diagnostic ds) = []" for ds by (rule statuses_quiet) simp
  ultimately show ?thesis
    using Some first_frame_table [OF inv Some]
    by (simp add: session_frame_def Let_def split_beta statuses_quiet)
qed (simp add: session_frame_def)

lemma closed_table:
  assumes inv: "sessions_inv e"
  shows "table_run (connected e) (statuses (snd (session_closed stream e))) (connected (fst (session_closed stream e)))"
proof (cases "map_get (en_objects e) stream")
  case None
  then show ?thesis by (simp add: session_closed_def Let_def)
next
  case s: (Some s)
  show ?thesis
  proof (cases "is_current e stream s")
    case True
    have "ready_key (fst (session_closed stream e)) k \<longleftrightarrow> k \<noteq> ss_key s \<and> ready_key e k" for k
    proof -
      have "ready_key (fst (session_closed stream e)) k \<longleftrightarrow>
          ready_key (put_session stream (end_session s) (e\<lparr>en_sessions := map_delete (ss_key s) (en_sessions e)\<rparr>)) k"
        using True s by (simp add: session_closed_def Let_def ready_key_iff put_session_def)
      also have "\<dots> \<longleftrightarrow> k \<noteq> ss_key s \<and> ready_key e k"
      proof (cases "map_get (en_sessions e) k")
        case (Some st)
        have "st \<noteq> stream" if "k \<noteq> ss_key s"
          using sessions_inv_current [OF inv Some] s that by auto
        then show ?thesis using Some by (cases "k = ss_key s") (simp_all add: ready_key_def map_simps)
      qed (simp add: ready_key_def map_simps)
      finally show ?thesis .
    qed
    then have "connected (fst (session_closed stream e)) = connected e - {ss_key s}"
      by (auto simp: connected_def)
    moreover have "ss_ready s \<longleftrightarrow> ss_key s \<in> connected e"
      using True s by (auto simp: connected_def ready_key_iff is_current_def)
    ultimately show ?thesis
      using s by (simp add: session_closed_def Let_def ended_status_def peerStatus_def table_run_Cons)
  next
    case False
    then have "\<not> ss_ready s" using inv s by (auto simp: sessions_inv_def)
    moreover from this have "connected (fst (session_closed stream e)) = connected e"
      using False s connected_put [of "e\<lparr>en_streams := set_delete stream (en_streams e)\<rparr>" stream s "end_session s"]
      by (simp add: session_closed_def Let_def)
    ultimately show ?thesis
      using s by (simp add: session_closed_def Let_def ended_status_def)
  qed
qed

lemma end_sessions_statuses:
  assumes "distinct (map fst m)"
    and "\<And>key stream. (key, stream) \<in> set m \<Longrightarrow> \<exists>s. map_get (en_objects e) stream = Some s \<and> ss_key s = key"
  shows "statuses (snd (end_sessions m e)) = map (\<lambda>k. (k, False))
    (map fst (filter (\<lambda>a. \<exists>s. map_get (en_objects e) (snd a) = Some s \<and> ss_ready s) m))"
  using assms
proof (induction m e rule: end_sessions.induct)
  case (2 key stream rest e)
  from "2.prems"(2) [of key stream] obtain s
    where s: "map_get (en_objects e) stream = Some s" "ss_key s = key" by auto
  let ?e = "put_session stream (end_session s) e"
  have other: "stream' \<noteq> stream" if "(key', stream') \<in> set rest" for key' stream'
    using that "2.prems" s by (force simp: image_iff)
  have "\<exists>t. map_get (en_objects ?e) stream' = Some t \<and> ss_key t = key'" if "(key', stream') \<in> set rest" for key' stream'
    using other [OF that] "2.prems"(2) that by (auto simp: map_simps)
  with 2 s have "statuses (snd (end_sessions rest ?e)) = map (\<lambda>k. (k, False))
    (map fst (filter (\<lambda>a. \<exists>s. map_get (en_objects ?e) (snd a) = Some s \<and> ss_ready s) rest))"
    by simp
  also have "filter (\<lambda>a. \<exists>s. map_get (en_objects ?e) (snd a) = Some s \<and> ss_ready s) rest =
      filter (\<lambda>a. \<exists>s. map_get (en_objects e) (snd a) = Some s \<and> ss_ready s) rest"
    using other by (intro filter_cong) (force simp: map_simps)+
  finally show ?case
    using s by (simp add: split_beta ended_status_def peerStatus_def)
qed simp

lemma stop_table:
  assumes inv: "sessions_inv e" and wf: "map_wf (en_sessions e)"
  shows "table_run (connected e) (statuses (snd (stop_engine e))) (connected (fst (stop_engine e)))"
proof (cases "en_stopping e")
  case False
  let ?m = "en_sessions e" and ?e = "e\<lparr>en_stopping := True\<rparr>"
  let ?ks = "map fst (filter (\<lambda>a. \<exists>s. map_get (en_objects e) (snd a) = Some s \<and> ss_ready s) ?m)"
  have d: "distinct (map fst ?m)" using wf by (simp add: map_wf_def)
  have entries: "\<exists>s. map_get (en_objects e) stream = Some s \<and> ss_key s = key" if "(key, stream) \<in> set ?m" for key stream
    using that d sessions_inv_current [OF inv] by (simp add: map_of_eq_Some_iff)
  have "statuses (snd (end_sessions ?m ?e)) = map (\<lambda>k. (k, False)) ?ks"
    using end_sessions_statuses [OF d, of ?e] entries by simp
  moreover have "set ?ks = connected e"
    using d by (force simp: connected_def ready_key_iff)
  moreover have "distinct ?ks" using d by (simp add: distinct_map_filter)
  moreover have "connected ((fst (end_sessions ?m ?e))\<lparr>en_sessions := []\<rparr>) = {}"
    by (simp add: connected_def ready_key_iff)
  ultimately show ?thesis
    using False table_downs [of ?ks "connected e"]
    by (simp add: stop_engine_def split_beta statuses_quiet)
qed (simp add: stop_engine_def)

text \<open>Every step follows the table.\<close>

lemma table_step:
  assumes inv: "sessions_inv e" and wf: "map_wf (en_sessions e)" and ok: "event_ok ev e"
  shows "table_run (connected e) (statuses (snd (engine_step ev e))) (connected (fst (engine_step ev e)))"
proof (cases ev)
  case (Ev_firewall now key)
  have "connected (fst (snd (firewall now key e))) = connected e"
    by (rule connected_same) (simp_all only: objects_frame sessions_frame)
  then show ?thesis
    unfolding Ev_firewall by (simp add: split_beta statuses_quiet [OF firewall_quiet])
next
  case (Ev_accept key stream)
  let ?e = "e\<lparr>en_enrollmentReservations := map_delete key (en_enrollmentReservations e)\<rparr>"
  have "connected (fst (attach p stream ?e)) = connected e" for p
    using connected_attach [of ?e stream p] inv ok Ev_accept by simp
  then show ?thesis
    unfolding Ev_accept
    by (simp add: accept_stream_def attachEnrollment_def Let_def split_beta split: option.split)
next
  case (Ev_dial_connected p stream remote)
  then show ?thesis
    using connected_attach [OF inv, of stream p] ok
    by (simp add: dial_connected_def dial_failed_def split_beta)
next
  case (Ev_enrollment_frame now stream b packet f)
  have "connected (fst (enroll_request now stream packet f e)) = connected e"
    by (rule connected_same) (simp_all only: objects_frame sessions_frame)
  then show ?thesis
    unfolding Ev_enrollment_frame
    by (simp add: enrollment_frame_def enrollment_done_def split_beta statuses_quiet)
next
  case (Ev_device date packet sent)
  have put: "connected (put_session stream (s\<lparr>ss_policy := pol\<rparr>) e) = connected e"
    if "map_get (en_objects e) stream = Some s" for stream s pol
    using that by (rule connected_put) simp
  have "statuses (map Diagnostic ds) = []" for ds by (rule statuses_quiet) simp
  with put show ?thesis
    unfolding Ev_device by (simp add: device_packet_def Let_def split_beta split: option.split)
qed (use inv wf in \<open>simp_all add: session_frame_table closed_table stop_table dial_open_def dial_failed_def
    enrollment_done_def device_written_def session_ended_def handshake_timeout_def statuses_quiet
    Let_def split_beta split: option.split\<close>)

section \<open>Properties of whole runs\<close>

text \<open>
  C23: What the engine reports about its peers is a run of the table of connected peers: reports
  of a peer alternate, connected first, and at any moment the keys reported connected are exactly
  those with a current, ready session in the engine.
\<close>

theorem status_refines_table:
  assumes "start_engine key config enrollment = Inr e0" and "engine_run e0 evs e out"
  shows "table_run {} (statuses out) (connected e)"
proof -
  have "connected e0 = {}" and "map_wf (en_sessions e0)"
    using assms(1)
    by (auto simp: start_engine_def connected_def ready_key_def split: option.splits sum.splits)
  from assms(2) start_engine_facts(1) [OF assms(1)] this
  have "table_run (connected e0) (statuses out) (connected e)"
  proof (induction rule: engine_run.induct)
    case (run_step e0 evs e1 out ev e2 out')
    then have "table_run (connected e1) (statuses out') (connected e2)"
      using table_step [of e1 ev] engine_run_inv run_wf by fastforce
    with run_step show ?case by (auto intro: table_run_append)
  qed simp
  with \<open>connected e0 = {}\<close> show ?thesis by simp
qed

theorem status_refines_table_witness:
  "table_run {} [(ex_key CHR ''c'', True)] (connected (ex_attached True True))"
  using status_refines_table [OF ex_start ex_run, of True] by simp

lemma stopping_step: "en_stopping e \<Longrightarrow> en_stopping (fst (engine_step ev e))"
proof (cases ev)
  case Ev_stop
  assume "en_stopping e"
  then show ?thesis unfolding Ev_stop by (simp add: stop_engine_def)
next
  case (Ev_frame now date stream packet f)
  assume "en_stopping e"
  then show ?thesis unfolding Ev_frame by (simp add: session_frame_def split: option.split)
next
  case (Ev_firewall now key)
  assume "en_stopping e"
  then show ?thesis
    unfolding Ev_firewall
    by (simp add: firewall_def unknown_admission_def logAdmission_def Let_def split_beta split: option.split)
next
  case (Ev_enrollment_frame now stream b packet f)
  assume "en_stopping e"
  then show ?thesis
    unfolding Ev_enrollment_frame
    by (simp add: enrollment_frame_def enrollment_done_def enroll_request_def log_rejection_def Let_def
        split_beta split: sum.split option.split enroll_outcome.split)
next
  case (Ev_closed stream)
  assume "en_stopping e"
  then show ?thesis unfolding Ev_closed by (simp add: session_closed_def Let_def split: option.split)
next
  case (Ev_accept key stream)
  assume "en_stopping e"
  then show ?thesis unfolding Ev_accept by (simp add: accept_stream_def Let_def split: option.split)
qed (simp_all add: dial_open_def dial_connected_def dial_failed_def enrollment_done_def device_written_def
    session_ended_def handshake_timeout_def device_packet_def Let_def split_beta split: option.split)

lemma stopped_run: "engine_run e evs e' out \<Longrightarrow> Ev_stop \<in> set evs \<Longrightarrow> en_stopping e'"
proof (induction rule: engine_run.induct)
  case (run_step e evs e1 out ev e2 out')
  show ?case
  proof (cases "ev = Ev_stop")
    case True
    have "en_stopping (fst (stop_engine e1))"
      using end_sessions_fields [of "en_sessions e1" "e1\<lparr>en_stopping := True\<rparr>"]
      by (simp add: stop_engine_def split_beta)
    with True run_step show ?thesis by simp
  next
    case False
    with run_step stopping_step [of e1 ev] show ?thesis by simp
  qed
qed simp

text \<open>
  An engine that has been stopped is silent: whatever still happens to its streams and
  timers, it has no session, writes no packet to the device or to a stream, reports no peer, and
  destroys every transport that still comes in.
\<close>

theorem stopped_engine_silent:
  assumes "start_engine key config enrollment = Inr e0" and "engine_run e0 evs e out"
    and "Ev_stop \<in> set evs" and "x \<in> set (snd (engine_step ev e))"
  shows "en_sessions e = [] \<and> x \<noteq> To_device packet \<and> x \<noteq> Send_frame stream packet \<and> x \<noteq> Status k label b \<and>
    Destroy stream \<in> set (snd (accept_stream k stream e))"
proof -
  have stop: "en_stopping e" using assms(2,3) by (rule stopped_run)
  have inv: "sessions_inv e" by (rule engine_run_facts(1) [OF assms(1,2)])
  with stop have none: "en_sessions e = []" by (simp add: sessions_inv_def)
  have idle: "\<not> ss_ready s" if "map_get (en_objects e) st = Some s" for st s
    using inv that none by (auto simp: sessions_inv_def is_current_def)
  have "\<not> on_path x"
  proof
    assume "on_path x"
    from quiet_events [OF assms(4) this] assms(4) \<open>on_path x\<close> stop none idle show False
      by (auto simp: accept_stream_def dial_connected_def session_frame_def session_closed_def
          device_packet_def stop_engine_def ended_status_def Let_def split: option.splits if_splits)
  qed
  moreover have "Destroy stream \<in> set (snd (accept_stream k stream e))"
    using stop by (simp add: accept_stream_def Let_def split: option.split)
  ultimately show ?thesis using none by auto
qed

lemma ex_stop_step:
  "engine_step Ev_stop (ex_attached b True) =
    ((ex_attached b True)\<lparr>en_stopping := True, en_sessions := [],
        en_objects := [(7, end_session (ex_session b True))]\<rparr>,
     [Status (ex_key CHR ''c'') ''c'' False, Destroy 7, Close_all])"
  by (simp add: stop_engine_def put_session_def ended_status_def peerStatus_def label_of_def byKey_def
      ex_engine_defs end_session_def)

theorem stopped_engine_silent_witness:
  "\<exists>e evs out. engine_run (ex_engine True) evs e out \<and> en_sessions e = [] \<and>
     Destroy 9 \<in> set (snd (accept_stream (ex_key CHR ''c'') 9 e))"
proof -
  have ok: "event_ok Ev_stop e" for e by simp
  note run = run_step [OF ex_run [where f = "\<lambda>_. Threw []"] ok ex_stop_step, of True]
  let ?e = "(ex_attached True True)\<lparr>en_stopping := True, en_sessions := [],
      en_objects := [(7, end_session (ex_session True True))]\<rparr>"
  have "Destroy 9 \<in> set (snd (engine_step (Ev_accept (ex_key CHR ''c'') 9) ?e))"
    by (simp add: accept_stream_def byKey_def Let_def ex_engine_defs)
  from stopped_engine_silent [OF ex_start run _ this, of "[]" 9 "ex_key CHR ''c''" "[]" False]
  have "en_sessions ?e = [] \<and> Destroy 9 \<in> set (snd (accept_stream (ex_key CHR ''c'') 9 ?e))" by simp
  with run show ?thesis by blast
qed

text \<open>
  A session keeps its place: until its stream closes or the engine stops, no transport, dial
  or packet of anyone makes another session the current one of that peer.
\<close>

theorem session_not_displaced:
  assumes "engine_run e evs e' out" and "map_get (en_sessions e) key = Some stream"
    and "Ev_closed stream \<notin> set evs" and "Ev_stop \<notin> set evs"
  shows "map_get (en_sessions e') key = Some stream"
  using assms
proof (induction rule: engine_run.induct)
  case (run_step e evs e1 out ev e2 out')
  then have cur: "map_get (en_sessions e1) key = Some stream" and ev: "ev \<noteq> Ev_stop" "ev \<noteq> Ev_closed stream"
    and e2: "e2 = fst (engine_step ev e1)" by auto
  from sessions_step [of ev e1] cur ev show ?case
    unfolding e2 by (auto simp: map_simps split: if_splits)
qed simp

theorem session_not_displaced_witness:
  "map_get (en_sessions (ex_attached True True)) (ex_key CHR ''c'') = Some 7"
proof -
  have run: "engine_run (ex_attached True False) ([] @ [Ev_frame 0 0 7 hello (\<lambda>_. Threw [])]) (ex_attached True True)
    ([] @ [Status (ex_key CHR ''c'') ''c'' True, Log ''VPN peer connected: c''])"
    by (rule run_step [OF run_start _ ex_hello_step]) simp
  have "map_get (en_sessions (ex_attached True False)) (ex_key CHR ''c'') = Some 7"
    by (simp add: ex_engine_defs)
  from session_not_displaced [OF run this] show ?thesis by simp
qed

end
