(* ===== verification/Engine_Admission.thy ===== *)
theory Engine_Admission
  imports Engine_Lifecycle
begin

text \<open>
  How often the firewall lets handshakes pass: a configured peer once a second, and strangers,
  on an engine that enrolls, 32 times a minute with at most eight under way.
\<close>

section \<open>Configured peers\<close>

definition last_admission :: "engine \<Rightarrow> string \<Rightarrow> int option" where
  "last_admission e key = map_get (en_lastAdmissions e) key"

lemma admissions_frame:
  "en_lastAdmissions (fst (logAdmission now p m e)) = en_lastAdmissions e"
  "en_lastAdmissions (fst (enroll_request now st packet f e)) = en_lastAdmissions e"
  "en_lastAdmissions (put_session st s e) = en_lastAdmissions e"
  "en_lastAdmissions (fst (attach p st e)) = en_lastAdmissions e"
  by (simp_all add: logAdmission_def attach_def put_session_def enroll_request_def log_rejection_def Let_def
      split_beta split: option.split sum.split enroll_outcome.split)

lemma end_sessions_admissions: "en_lastAdmissions (fst (end_sessions m e)) = en_lastAdmissions e"
  by (induction m e rule: end_sessions.induct) (simp_all add: split_beta admissions_frame split: option.split)

text \<open>The firewall's answer for a peer that may connect.\<close>

lemma firewall_known:
  assumes "map_get (byKey e) key = Some p"
  shows "\<not> fst (firewall now key e) \<longleftrightarrow>
      pr_direction p = Accept \<and> map_get (en_sessions e) key = None \<and>
      (\<forall>l. last_admission e key = Some l \<longrightarrow> now - l \<ge> 1000)"
    and "en_lastAdmissions (fst (snd (firewall now key e))) =
      (if fst (firewall now key e) then en_lastAdmissions e else map_set key now (en_lastAdmissions e))"
  using assms
  by (auto simp: firewall_def unknown_admission_def last_admission_def admissions_frame Let_def split_beta
      split: option.split)

lemma firewall_unknown:
  "map_get (byKey e) key = None \<Longrightarrow> en_lastAdmissions (fst (snd (firewall now key e))) = en_lastAdmissions e"
  by (simp add: firewall_def unknown_admission_def reserve_enrollment_def Let_def)

lemma admissions_step:
  "en_lastAdmissions (fst (engine_step ev e)) = en_lastAdmissions e \<or>
   (\<exists>now key. ev = Ev_firewall now key \<and> \<not> fst (firewall now key e) \<and>
      (\<forall>l. last_admission e key = Some l \<longrightarrow> now - l \<ge> 1000) \<and>
      en_lastAdmissions (fst (engine_step ev e)) = map_set key now (en_lastAdmissions e))"
proof (cases ev)
  case (Ev_firewall now key)
  show ?thesis
  proof (cases "map_get (byKey e) key")
    case (Some p)
    then show ?thesis using firewall_known [OF Some, of now] Ev_firewall by (auto simp: split_beta)
  qed (use Ev_firewall firewall_unknown in \<open>simp add: split_beta\<close>)
next
  case Ev_stop
  then show ?thesis by (simp add: stop_engine_def split_beta end_sessions_admissions)
next
  case (Ev_frame now date st packet f)
  then show ?thesis
    by (simp add: session_frame_def first_frame_def admissions_frame Let_def split_beta split: option.split)
qed (simp_all add: accept_stream_def attachEnrollment_def dial_open_def dial_connected_def dial_failed_def
    enrollment_frame_def enrollment_done_def device_written_def session_ended_def handshake_timeout_def
    session_closed_def device_packet_def admissions_frame Let_def split_beta split: option.split)

text \<open>Once a handshake has passed, the last one that did is no older.\<close>

lemma last_admission_kept:
  assumes "engine_run e evs e' out" and "last_admission e key = Some t"
    and "\<And>now k. Ev_firewall now k \<in> set evs \<Longrightarrow> now < t + 1000"
  shows "last_admission e' key = Some t"
  using assms
proof (induction rule: engine_run.induct)
  case (run_step e evs e1 out ev e2 out')
  then have t: "last_admission e1 key = Some t" and e2: "e2 = fst (engine_step ev e1)" by auto
  from admissions_step [of ev e1] show ?case
  proof (elim disjE exE conjE)
    assume "en_lastAdmissions (fst (engine_step ev e1)) = en_lastAdmissions e1"
    with t show ?thesis by (simp add: e2 last_admission_def)
  next
    fix now k
    assume ev: "ev = Ev_firewall now k" and wait: "\<forall>l. last_admission e1 k = Some l \<longrightarrow> now - l \<ge> 1000"
      and set: "en_lastAdmissions (fst (engine_step ev e1)) = map_set k now (en_lastAdmissions e1)"
    have "now < t + 1000" using run_step.prems(2) [of now k] ev by simp
    with wait t have "k \<noteq> key" by auto
    with t set show ?thesis by (simp add: e2 last_admission_def map_simps)
  qed
qed simp

text \<open>
  The firewall admits the handshakes of a configured peer at least a second apart, whatever
  happens in between, sessions that come and go included.
\<close>

theorem handshakes_a_second_apart:
  assumes "map_get (byKey e) key = Some p" and "firewall t key e = (False, e1, out)"
    and "engine_run e1 evs e2 out'" and "firewall t' key e2 = (False, e3, out'')"
    and "\<And>now k. Ev_firewall now k \<in> set evs \<Longrightarrow> now \<le> t'"
  shows "t' - t \<ge> 1000"
proof (rule ccontr)
  assume "\<not> t' - t \<ge> 1000"
  then have soon: "t' < t + 1000" by simp
  have "en_peers e2 = en_peers e"
    using engine_run_setup [OF assms(3)] engine_step_setup [of e "Ev_firewall t key"] assms(2)
    by (simp add: same_setup_def)
  then have p: "map_get (byKey e2) key = Some p" using assms(1) by (simp add: byKey_def)
  have "last_admission e1 key = Some t"
    using firewall_known(2) [OF assms(1), of t] assms(2) by (simp add: last_admission_def map_simps)
  then have "last_admission e2 key = Some t"
    by (rule last_admission_kept [OF assms(3)]) (use assms(5) soon in force)
  then show False using firewall_known(1) [OF p, of t'] assms(4) soon by simp
qed

theorem handshakes_a_second_apart_witness:
  "\<exists>e1 out e3 out''. firewall 0 (ex_key CHR ''c'') (ex_engine False) = (False, e1, out) \<and>
     firewall 1500 (ex_key CHR ''c'') e1 = (False, e3, out'') \<and> (1500::int) - 0 \<ge> 1000"
proof -
  let ?k = "ex_key CHR ''c''"
  obtain r1 e1 out where f1: "firewall 0 ?k (ex_engine False) = (r1, e1, out)" by (metis prod_cases3)
  obtain r3 e3 out'' where f3: "firewall 1500 ?k e1 = (r3, e3, out'')" by (metis prod_cases3)
  have p: "map_get (byKey (ex_engine False)) ?k = Some ex_peer" by (simp add: ex_byKey)
  have "\<not> fst (firewall 0 ?k (ex_engine False))"
    using firewall_known(1) [OF p, of 0] by (simp add: last_admission_def ex_engine_def ex_peer_def)
  with f1 have r1: "r1 = False" by simp
  have "byKey e1 = byKey (ex_engine False)" "en_sessions e1 = []" "last_admission e1 ?k = Some 0"
    using f1 firewall_known(2) [OF p, of 0] r1 engine_step_setup [of "ex_engine False" "Ev_firewall 0 ?k"]
      sessions_frame(1) [of 0 ?k "ex_engine False"]
    by (simp_all add: byKey_def same_setup_def last_admission_def ex_engine_def)
  then have "\<not> fst (firewall 1500 ?k e1)"
    using firewall_known(1) [of e1 ?k ex_peer 1500] p by (simp add: ex_peer_def)
  with f3 have r3: "r3 = False" by simp
  have "(1500::int) - 0 \<ge> 1000"
    using handshakes_a_second_apart [OF p f1 [unfolded r1] run_start f3 [unfolded r3]] by simp
  with f1 f3 r1 r3 show ?thesis by auto
qed

section \<open>Strangers\<close>

text \<open>The state after a list of events, and when the handshakes of strangers have passed.\<close>

definition engine_after :: "engine_event list \<Rightarrow> engine \<Rightarrow> engine" where
  "engine_after evs e = foldl (\<lambda>e ev. fst (engine_step ev e)) e evs"

fun passed :: "engine_event \<Rightarrow> engine \<Rightarrow> int list" where
  "passed (Ev_firewall now key) e =
     (if map_get (byKey e) key = None \<and> \<not> fst (firewall now key e) then [now] else [])"
| "passed _ e = []"

fun stranger_times :: "engine_event list \<Rightarrow> engine \<Rightarrow> int list" where
  "stranger_times [] e = []"
| "stranger_times (ev # evs) e = passed ev e @ stranger_times evs (fst (engine_step ev e))"

fun firewall_times :: "engine_event list \<Rightarrow> int list" where
  "firewall_times [] = []"
| "firewall_times (Ev_firewall now key # evs) = now # firewall_times evs"
| "firewall_times (_ # evs) = firewall_times evs"

lemma engine_after_snoc: "engine_after (evs @ [ev]) e = fst (engine_step ev (engine_after evs e))"
  by (simp add: engine_after_def)

lemma stranger_times_snoc:
  "stranger_times (evs @ [ev]) e = stranger_times evs e @ passed ev (engine_after evs e)"
  by (induction evs arbitrary: e) (simp_all add: engine_after_def)

lemma firewall_times_append: "firewall_times (evs @ evs') = firewall_times evs @ firewall_times evs'"
  by (induction evs rule: firewall_times.induct) simp_all

lemma attempts_frame:
  "en_enrollmentAttempts (fst (logAdmission now p m e)) = en_enrollmentAttempts e"
  "en_enrollmentAttempts (fst (enroll_request now st packet f e)) = en_enrollmentAttempts e"
  "en_enrollmentAttempts (put_session st s e) = en_enrollmentAttempts e"
  "en_enrollmentAttempts (fst (attach p st e)) = en_enrollmentAttempts e"
  by (simp_all add: logAdmission_def attach_def put_session_def enroll_request_def log_rejection_def Let_def
      split_beta split: option.split sum.split enroll_outcome.split)

lemma end_sessions_attempts: "en_enrollmentAttempts (fst (end_sessions m e)) = en_enrollmentAttempts e"
  by (induction m e rule: end_sessions.induct) (simp_all add: split_beta attempts_frame split: option.split)

lemma attempts_firewall:
  "en_enrollmentAttempts (fst (snd (firewall now key e))) =
     (if map_get (byKey e) key = None \<and> en_enrollment e \<and> \<not> en_stopping e
      then dropWhile (\<lambda>t. now - t \<ge> 60000) (en_enrollmentAttempts e) @ passed (Ev_firewall now key) e
      else en_enrollmentAttempts e)"
proof (cases "map_get (byKey e) key")
  case None
  then show ?thesis
    by (simp add: firewall_def reserve_enrollment_def unknown_admission_def Let_def)
next
  case (Some p)
  then show ?thesis
    by (simp add: firewall_def unknown_admission_def attempts_frame Let_def split_beta split: option.split)
qed

lemma passed_admits:
  "passed (Ev_firewall now key) e \<noteq> [] \<Longrightarrow> en_enrollment e \<and> \<not> en_stopping e \<and> map_get (byKey e) key = None"
  by (cases "map_get (byKey e) key")
    (auto simp: firewall_def unknown_admission_def Let_def split: if_splits)

lemma attempts_step:
  "(\<exists>now key. ev = Ev_firewall now key \<and> en_enrollmentAttempts (fst (engine_step ev e)) =
      dropWhile (\<lambda>t. now - t \<ge> 60000) (en_enrollmentAttempts e) @ passed ev e) \<or>
   en_enrollmentAttempts (fst (engine_step ev e)) = en_enrollmentAttempts e \<and> passed ev e = []"
proof (cases ev)
  case (Ev_firewall now key)
  show ?thesis
  proof (cases "map_get (byKey e) key = None \<and> en_enrollment e \<and> \<not> en_stopping e")
    case True
    with attempts_firewall [of now key e] Ev_firewall show ?thesis by (simp add: split_beta del: passed.simps)
  next
    case False
    with attempts_firewall [of now key e] passed_admits [of now key e] Ev_firewall show ?thesis
      by (auto simp: split_beta simp del: passed.simps)
  qed
next
  case Ev_stop
  then show ?thesis by (simp add: stop_engine_def split_beta end_sessions_attempts)
next
  case (Ev_frame now date st packet f)
  then show ?thesis
    by (simp add: session_frame_def first_frame_def attempts_frame Let_def split_beta split: option.split)
qed (simp_all add: accept_stream_def attachEnrollment_def dial_open_def dial_connected_def dial_failed_def
    enrollment_frame_def enrollment_done_def device_written_def session_ended_def handshake_timeout_def
    session_closed_def device_packet_def attempts_frame Let_def split_beta split: option.split)

text \<open>
  The recorded attempts are the recent ones: every earlier one is a minute older than some later
  call of the firewall.
\<close>

definition recorded :: "engine_event list \<Rightarrow> engine \<Rightarrow> bool" where
  "recorded evs e0 \<longleftrightarrow>
     (\<exists>old. stranger_times evs e0 = old @ en_enrollmentAttempts (engine_after evs e0) \<and>
        (\<forall>x \<in> set old. \<exists>now \<in> set (firewall_times evs). x \<le> now - 60000))"

lemma attempts_recorded:
  assumes "en_enrollmentAttempts e0 = []"
  shows "recorded evs e0"
proof (induction evs rule: rev_induct)
  case Nil
  then show ?case using assms by (simp add: recorded_def engine_after_def)
next
  case (snoc ev evs)
  let ?e = "engine_after evs e0"
  from snoc obtain old where old: "stranger_times evs e0 = old @ en_enrollmentAttempts ?e"
    and before: "\<forall>x \<in> set old. \<exists>now \<in> set (firewall_times evs). x \<le> now - 60000"
    unfolding recorded_def by blast
  from attempts_step [of ev ?e] show ?case
  proof (elim disjE exE conjE)
    fix now key
    assume ev: "ev = Ev_firewall now key"
      and a: "en_enrollmentAttempts (fst (engine_step ev ?e)) =
        dropWhile (\<lambda>t. now - t \<ge> 60000) (en_enrollmentAttempts ?e) @ passed ev ?e"
    let ?gone = "takeWhile (\<lambda>t. now - t \<ge> 60000) (en_enrollmentAttempts ?e)"
    have "stranger_times (evs @ [ev]) e0 = (old @ ?gone) @ en_enrollmentAttempts (engine_after (evs @ [ev]) e0)"
      by (simp add: stranger_times_snoc engine_after_snoc a old)
    moreover have "x \<le> now - 60000" if "x \<in> set ?gone" for x
      using set_takeWhileD [OF that] by simp
    ultimately show ?thesis
      unfolding recorded_def using before by (intro exI [of _ "old @ ?gone"]) (auto simp: firewall_times_append ev)
  next
    assume "en_enrollmentAttempts (fst (engine_step ev ?e)) = en_enrollmentAttempts ?e" and "passed ev ?e = []"
    then show ?thesis
      unfolding recorded_def using old before
      by (intro exI [of _ old]) (auto simp: firewall_times_append stranger_times_snoc engine_after_snoc)
  qed
qed

lemma engine_after_limits: "limits_inv e0 \<Longrightarrow> limits_inv (engine_after evs e0)"
  by (induction evs rule: rev_induct) (simp_all add: engine_after_def engine_step_limits)

text \<open>
  C30: On an engine that enrolls, at most 32 handshakes of strangers pass the firewall in any
  window of a minute, over every sequence of events in which the clock does not run backwards.
\<close>

theorem strangers_per_minute:
  assumes "start_engine key config enrollment = Inr e0" and "sorted (firewall_times evs)"
  shows "length (filter (\<lambda>x. t - 60000 < x \<and> x \<le> t) (stranger_times evs e0)) \<le> 32"
  using assms(2)
proof (induction evs rule: rev_induct)
  case (snoc ev evs)
  let ?e = "engine_after (evs @ [ev]) e0"
  have limits: "length (en_enrollmentAttempts ?e) \<le> 32"
    using engine_after_limits start_engine_facts(2) [OF assms(1)] by (simp add: limits_inv_def)
  have IH: "length (filter (\<lambda>x. t - 60000 < x \<and> x \<le> t) (stranger_times evs e0)) \<le> 32"
    using snoc by (simp add: firewall_times_append sorted_append)
  show ?case
  proof (cases "\<exists>now k. ev = Ev_firewall now k \<and> now \<le> t")
    case True
    then obtain now k where ev: "ev = Ev_firewall now k" and le: "now \<le> t" by blast
    have latest: "x \<le> t" if "x \<in> set (firewall_times (evs @ [ev]))" for x
      using snoc.prems that le by (auto simp: firewall_times_append sorted_append ev)
    have "en_enrollmentAttempts e0 = []"
      using assms(1) by (auto simp: start_engine_def split: option.splits sum.splits)
    from attempts_recorded [OF this, of "evs @ [ev]"] obtain old
      where old: "stranger_times (evs @ [ev]) e0 = old @ en_enrollmentAttempts ?e"
        and "\<forall>x \<in> set old. \<exists>now \<in> set (firewall_times (evs @ [ev])). x \<le> now - 60000"
      unfolding recorded_def by blast
    with latest have "filter (\<lambda>x. t - 60000 < x \<and> x \<le> t) old = []" by (fastforce simp: filter_empty_conv)
    then show ?thesis
      unfolding old using limits le_trans [OF length_filter_le] by simp
  next
    case False
    then have "filter (\<lambda>x. t - 60000 < x \<and> x \<le> t) (passed ev (engine_after evs e0)) = []"
      by (cases ev) auto
    with IH show ?thesis by (simp add: stranger_times_snoc)
  qed
qed simp

lemma ex_other_key [simp]: "ex_key CHR ''d'' \<noteq> ex_key CHR ''c''"
  by (simp add: ex_key_eq)

theorem strangers_per_minute_witness:
  "stranger_times [Ev_firewall 5 (ex_key CHR ''d''), Ev_firewall 9 (ex_key CHR ''d'')] (ex_engine True) = [5] \<and>
   length (filter (\<lambda>x. (60000::int) - 60000 < x \<and> x \<le> 60000)
     (stranger_times [Ev_firewall 5 (ex_key CHR ''d''), Ev_firewall 9 (ex_key CHR ''d'')] (ex_engine True))) \<le> 32"
  using strangers_per_minute [OF ex_start, of "[Ev_firewall 5 (ex_key CHR ''d''), Ev_firewall 9 (ex_key CHR ''d'')]"]
  by (simp add: firewall_def reserve_enrollment_def byKey_def Let_def ex_engine_def ex_peer_def)

end
