(* ===== verification/Config_Engine.thy ===== *)
theory Config_Engine
  imports Engine_Properties
begin

text \<open>
  What the engine makes of a configuration that the validator accepts: valid configurations read
  back, and the engine starts on them with every peer under its own key and address, provided
  that no label is the public key of another definition.
\<close>

section \<open>References\<close>

text \<open>No label of a definition is the public key of another one.\<close>

definition labels_apart :: "peer_definition list \<Rightarrow> bool" where
  "labels_apart ds \<longleftrightarrow> (\<forall>d \<in> set ds. \<forall>d' \<in> set ds. pf_label d = pf_publicKey d' \<longrightarrow> d = d')"

lemma find_unique:
  "x \<in> set xs \<Longrightarrow> P x \<Longrightarrow> (\<And>y. y \<in> set xs \<Longrightarrow> P y \<Longrightarrow> y = x) \<Longrightarrow> find P xs = Some x"
proof (induction xs)
  case (Cons a xs)
  show ?case
  proof (cases "P a")
    case True
    then have "a = x" by (intro Cons.prems(3)) simp_all
    with True show ?thesis by simp
  next
    case False
    with Cons.prems(1,2) have "x \<in> set xs" by auto
    moreover have "y = x" if "y \<in> set xs" "P y" for y
      using that by (intro Cons.prems(3)) simp_all
    ultimately have "find P xs = Some x" by (rule Cons.IH [OF _ Cons.prems(2)])
    with False show ?thesis by simp
  qed
qed simp

lemma distinct_map_eq: "distinct (map f xs) \<Longrightarrow> x \<in> set xs \<Longrightarrow> y \<in> set xs \<Longrightarrow> f x = f y \<Longrightarrow> x = y"
  unfolding distinct_map by (blast dest: inj_onD)

text \<open>The engine finds the definition that the validator has resolved.\<close>

text \<open>At most one definition has the reference as its label or as its public key.\<close>

lemma reference_unique:
  assumes "labels_apart ds" and "distinct (map pf_label ds)" and "distinct (map pf_publicKey ds)"
    and "d \<in> set ds" "pf_label d = r \<or> pf_publicKey d = r" and "d' \<in> set ds" "pf_label d' = r \<or> pf_publicKey d' = r"
  shows "d' = d"
proof -
  have "pf_label d' = pf_label d \<or> pf_publicKey d' = pf_publicKey d \<or> d' = d"
    using assms(1,4-7) unfolding labels_apart_def by metis
  then show ?thesis
    using distinct_map_eq [OF assms(2,6,4)] distinct_map_eq [OF assms(3,6,4)] by blast
qed

lemma engine_peer_resolves:
  assumes apart: "labels_apart ds" and dl: "distinct (map pf_label ds)" and dk: "distinct (map pf_publicKey ds)"
    and res: "resolves ds (vp_peer v)"
  obtains d where "d \<in> set ds" and "reference_key (vp_peer v) ds = Some (pf_publicKey d)"
    and "find (\<lambda>d. pf_label d = vp_peer v \<or> pf_publicKey d = vp_peer v) ds = Some d"
proof -
  have unique: "find (\<lambda>d. pf_label d = vp_peer v \<or> pf_publicKey d = vp_peer v) ds = Some d"
    if "d \<in> set ds" "pf_label d = vp_peer v \<or> pf_publicKey d = vp_peer v" for d
  proof (rule find_unique)
    show "d' = d" if "d' \<in> set ds" "pf_label d' = vp_peer v \<or> pf_publicKey d' = vp_peer v" for d'
      using apart dl dk \<open>d \<in> set ds\<close> \<open>pf_label d = vp_peer v \<or> pf_publicKey d = vp_peer v\<close> that by (rule reference_unique)
  qed (use that in simp_all)
  show thesis
  proof (cases "key_hex (vp_peer v)")
    case True
    with res obtain d where d: "d \<in> set ds" "pf_publicKey d = vp_peer v" by (auto simp: resolves_def)
    have "reference_key (vp_peer v) ds = Some (pf_publicKey d)" using True d by (simp add: reference_key_def)
    with d unique [of d] show ?thesis by (intro that [of d]) blast+
  next
    case False
    with res obtain d where d: "d \<in> set ds" "pf_label d = vp_peer v" by (auto simp: resolves_def)
    have "find (\<lambda>d. pf_label d = vp_peer v) ds = Some d"
      using d(1)
    proof (rule find_unique)
      show "d' = d" if "d' \<in> set ds" "pf_label d' = vp_peer v" for d'
        using dl that(1) d(1) by (rule distinct_map_eq) (simp add: that(2) d(2))
    qed (rule d(2))
    then have "reference_key (vp_peer v) ds = Some (pf_publicKey d)" using False d by (simp add: reference_key_def)
    with d unique [of d] show ?thesis by (intro that [of d]) blast+
  qed
qed

section \<open>Starting on a valid configuration\<close>

lemma engine_peers_ok:
  assumes apart: "labels_apart ds" and dl: "distinct (map pf_label ds)" and dk: "distinct (map pf_publicKey ds)"
    and res: "\<forall>v \<in> set vs. resolves ds (vp_peer v)" and own: "key \<notin> set (vpn_keys ds vs)"
  shows "\<exists>ps. all_ok (map (engine_peer key ds) vs) = Inr ps \<and>
    map pr_key ps = vpn_keys ds vs \<and> map pr_address ps = map vp_address vs \<and>
    map pr_allowTcp ps = map vp_allowTcp vs"
  using res own
proof (induction vs)
  case (Cons v vs)
  then obtain ps where ps: "all_ok (map (engine_peer key ds) vs) = Inr ps"
      "map pr_key ps = vpn_keys ds vs" "map pr_address ps = map vp_address vs" "map pr_allowTcp ps = map vp_allowTcp vs"
    by (auto simp: vpn_keys_def)
  obtain d where d: "reference_key (vp_peer v) ds = Some (pf_publicKey d)"
      "find (\<lambda>d. pf_label d = vp_peer v \<or> pf_publicKey d = vp_peer v) ds = Some d"
    using engine_peer_resolves [OF apart dl dk] Cons.prems(1) by (metis list.set_intros(1))
  have "pf_publicKey d \<noteq> key" using Cons.prems(2) d(1) by (auto simp: vpn_keys_def)
  with d have "engine_peer key ds v = Inr \<lparr>pr_label = pf_label d, pr_key = pf_publicKey d,
      pr_address = vp_address v, pr_direction = pf_connection d, pr_allowTcp = vp_allowTcp v\<rparr>"
    by (simp add: engine_peer_def)
  with d(1) ps show ?case by (simp add: vpn_keys_def)
qed (simp add: vpn_keys_def)

text \<open>A reference that stands for the host's own key is refused.\<close>

lemma engine_peers_own:
  assumes apart: "labels_apart ds" and dl: "distinct (map pf_label ds)" and dk: "distinct (map pf_publicKey ds)"
    and res: "\<forall>v \<in> set vs. resolves ds (vp_peer v)" and own: "key \<in> set (vpn_keys ds vs)"
  shows "all_ok (map (engine_peer key ds) vs) = Inl ''VPN config cannot include its own key''"
  using res own
proof (induction vs)
  case (Cons v vs)
  obtain d where d: "reference_key (vp_peer v) ds = Some (pf_publicKey d)"
      "find (\<lambda>d. pf_label d = vp_peer v \<or> pf_publicKey d = vp_peer v) ds = Some d"
    using engine_peer_resolves [OF apart dl dk] Cons.prems(1) by (metis list.set_intros(1))
  show ?case
  proof (cases "pf_publicKey d = key")
    case True
    with d show ?thesis by (simp add: engine_peer_def)
  next
    case False
    with Cons.prems(2) d(1) have "key \<in> set (vpn_keys ds vs)" by (simp add: vpn_keys_def)
    with Cons d False show ?thesis by (simp add: engine_peer_def)
  qed
qed (simp add: vpn_keys_def)

lemma map_from_distinct:
  "distinct (map fst kvs) \<Longrightarrow> (k, v) \<in> set kvs \<Longrightarrow> map_get (map_from kvs m) k = Some v"
proof (induction kvs m rule: map_from.induct)
  case (2 k' v' kvs m)
  have keep: "k \<notin> fst ` set kvs \<Longrightarrow> map_get (map_from kvs m') k = map_get m' k" for m'
    by (induction kvs m' rule: map_from.induct) (auto simp: map_simps)
  from 2 keep show ?case by (force simp: map_simps)
qed simp

text \<open>The concrete configuration is valid.\<close>

lemma ex_key_trim [simp]: "trim (ex_key CHR ''c'') = ex_key CHR ''c''" "trim (ex_key CHR ''d'') = ex_key CHR ''d''"
  by (simp_all add: trim_def is_space_def ex_key_def)

lemma ex_key_ok [simp]: "key_hex (ex_key CHR ''c'')" "key_hex (ex_key CHR ''d'')"
    "\<not> key_hex ''c''" "\<not> key_hex ''b''"
  by (simp_all add: ex_key_hex is_hex_def, simp_all add: key_hex_def)

lemma ex_config_ok: "config_ok ex_config"
  by (simp add: config_ok_def definition_ok_def label_ok_def vpn_ok_def vpn_peer_ok_def reference_ok_def
      resolves_def tcp_grant_ok_def vpn_keys_def reference_key_def ex_config_def
      trim_def is_space_def byteLength_def control_char_def)
    (simp add: eval_simps)

lemma ex_config_parse: "parsePeerConfig (config_value ex_config) = Inr ex_config"
  using ex_config_ok by (rule config_value_parse)

text \<open>
  A configuration that the validator accepts is valid in every respect and is read back from
  its own value: labels, keys, addresses and grants are distinct and within their bounds, and
  every VPN peer refers to a definition.
\<close>

theorem parsed_config_valid:
  assumes "parsePeerConfig v = Inr c"
  shows "config_ok c \<and> parsePeerConfig (config_value c) = Inr c"
  using parsePeerConfig_ok [OF assms] config_value_parse by blast

theorem parsed_config_valid_witness:
  "config_ok ex_config \<and> parsePeerConfig (config_value ex_config) = Inr ex_config"
  by (rule parsed_config_valid [OF ex_config_parse])

text \<open>
  C33: What the engine makes of an accepted configuration, when no label is another definition's
  public key: without VPN settings, or when a VPN peer stands for the host's own key, it refuses to
  start; on every other it starts, each VPN peer becomes a peer with the key that its reference
  stands for, with its address and its grant, and it is found under that key and under its address.
\<close>

theorem engine_starts_on_parsed_config:
  assumes "parsePeerConfig value = Inr c" and "labels_apart (pc_peers c)"
  shows "case pc_vpn c of
      None \<Rightarrow> start_engine key c enrollment = Inl ''VPN mode requires a [vpn] configuration''
    | Some vpn \<Rightarrow>
        if key \<in> set (vpn_keys (pc_peers c) (vc_peers vpn))
        then start_engine key c enrollment = Inl ''VPN config cannot include its own key''
        else \<exists>e. start_engine key c enrollment = Inr e \<and>
          map pr_key (en_peers e) = vpn_keys (pc_peers c) (vc_peers vpn) \<and>
          map pr_address (en_peers e) = map vp_address (vc_peers vpn) \<and>
          map pr_allowTcp (en_peers e) = map vp_allowTcp (vc_peers vpn) \<and>
          (\<forall>p \<in> set (en_peers e). map_get (byKey e) (pr_key p) = Some p \<and> map_get (byAddress e) (pr_address p) = Some p)"
proof (cases "pc_vpn c")
  case None
  then show ?thesis by (simp add: start_engine_def)
next
  case (Some vpn)
  have ok: "config_ok c" using assms(1) by (rule parsePeerConfig_ok)
  then have vpn: "vpn_ok (pc_peers c) vpn" using Some by (simp add: config_ok_def)
  have distinct: "distinct (map pf_label (pc_peers c))" "distinct (map pf_publicKey (pc_peers c))"
    and resolved: "\<forall>v \<in> set (vc_peers vpn). resolves (pc_peers c) (vp_peer v)"
    using ok vpn by (auto simp: config_ok_def vpn_ok_def vpn_peer_ok_def)
  show ?thesis
  proof (cases "key \<in> set (vpn_keys (pc_peers c) (vc_peers vpn))")
    case True
    with engine_peers_own [OF assms(2) distinct resolved True] Some show ?thesis
      by (simp add: start_engine_def engine_peers_def)
  next
    case False
    obtain ps where ps: "all_ok (map (engine_peer key (pc_peers c)) (vc_peers vpn)) = Inr ps"
        "map pr_key ps = vpn_keys (pc_peers c) (vc_peers vpn)" "map pr_address ps = map vp_address (vc_peers vpn)"
        "map pr_allowTcp ps = map vp_allowTcp (vc_peers vpn)"
      using engine_peers_ok [OF assms(2) distinct resolved False] by blast
    have d: "distinct (map pr_key ps)" "distinct (map pr_address ps)"
      using vpn ps(2,3) by (auto simp: vpn_ok_def)
    obtain e where e: "start_engine key c enrollment = Inr e" "en_peers e = ps"
      using ps(1) Some by (simp add: start_engine_def engine_peers_def)
    have "map_get (byKey e) (pr_key p) = Some p \<and> map_get (byAddress e) (pr_address p) = Some p" if "p \<in> set ps" for p
      using that d e(2) by (auto simp: byKey_def byAddress_def comp_def intro!: map_from_distinct)
    with e ps Some False show ?thesis by auto
  qed
qed

theorem engine_starts_on_parsed_config_witness:
  "\<exists>e. start_engine (ex_key CHR ''a'') ex_config True = Inr e \<and> map pr_key (en_peers e) = [ex_key CHR ''c'']"
proof -
  obtain vpn where vpn: "pc_vpn ex_config = Some vpn" and peers: "vc_peers vpn =
      [\<lparr>vp_peer = ''c'', vp_address = ''10.0.0.2'', vp_allowTcp = Ports [22]\<rparr>]"
    by (simp add: ex_config_def)
  have keys: "vpn_keys (pc_peers ex_config) (vc_peers vpn) = [ex_key CHR ''c'']"
    by (simp add: peers vpn_keys_def reference_key_def ex_config_def)
  have "labels_apart (pc_peers ex_config)" by (simp add: labels_apart_def ex_config_def)
  from engine_starts_on_parsed_config [OF ex_config_parse this, of "ex_key CHR ''a''" True] vpn keys
  show ?thesis by (auto simp: ex_key_eq)
qed

section \<open>Where the two disagree\<close>

text \<open>
  A label that is another definition's public key: the validator takes the reference for the
  public key, the engine for the label that comes first.
\<close>

definition ex_shadow :: peer_config where
  "ex_shadow =
     \<lparr>pc_vpn = Some \<lparr>vc_address = ''10.0.0.1'',
        vc_peers = [\<lparr>vp_peer = ex_key CHR ''d'', vp_address = ''10.0.0.2'', vp_allowTcp = Ports [22]\<rparr>]\<rparr>,
      pc_network = None,
      pc_peers = [\<lparr>pf_label = ex_key CHR ''d'', pf_publicKey = ex_key CHR ''c'', pf_connection = Accept\<rparr>,
        \<lparr>pf_label = ''b'', pf_publicKey = ex_key CHR ''d'', pf_connection = Accept\<rparr>]\<rparr>"

lemma ex_key_label [simp]: "ex_key c \<noteq> ''b''"
  by (auto simp: ex_key_def dest: arg_cong [of _ _ length])

lemma ex_shadow_ok: "config_ok ex_shadow"
  by (simp add: config_ok_def definition_ok_def label_ok_def vpn_ok_def vpn_peer_ok_def reference_ok_def
      resolves_def tcp_grant_ok_def vpn_keys_def reference_key_def ex_shadow_def ex_key_eq)
    (simp add: ex_key_def trim_def is_space_def byteLength_def control_char_def sum_list_replicate eval_simps)

lemma label_shadows_key:
  "parsePeerConfig (config_value ex_shadow) = Inr ex_shadow \<and>
   parsePeerVpn (vpn_value (the (pc_vpn ex_shadow))) (pc_peers ex_shadow) = Inr (the (pc_vpn ex_shadow)) \<and>
   reference_key (ex_key CHR ''d'') (pc_peers ex_shadow) = Some (ex_key CHR ''d'') \<and>
   map_sum id (map pr_key) (engine_peers (ex_key CHR ''a'') ex_shadow) = Inr [ex_key CHR ''c'']"
proof -
  have "vpn_ok (pc_peers ex_shadow) (the (pc_vpn ex_shadow))"
    using ex_shadow_ok by (simp add: config_ok_def ex_shadow_def)
  then show ?thesis
    using config_value_parse [OF ex_shadow_ok] vpn_value_parse
    by (simp add: reference_key_def ex_shadow_def engine_peers_def engine_peer_def ex_key_eq)
qed

text \<open>An unknown field with an empty name is accepted, and with it every unknown field after it.\<close>

lemma empty_field_hides_unknown:
  "rejectUnknownFields [([], JNull), (''vnp'', v)] [''network'', ''vpn'', ''peers''] ''peer config'' = None \<and>
   rejectUnknownFields [(''vnp'', v)] [''network'', ''vpn'', ''peers''] ''peer config'' =
     Some ''peer config has unknown field: vnp''"
  by (simp add: rejectUnknownFields_def)

end
