(* ===== verification/Linux_Tun_Properties.thy ===== *)
theory Linux_Tun_Properties
  imports Linux_Tun Receiver_Invariant
begin

text \<open>
  The route checks decide what they should: containment compares leading bits, a pool that passes
  shares no address with any route that counts, and a helper that has been started is stopped
  whenever the device cannot be configured.
\<close>

section \<open>Containment compares leading bits\<close>

lemma masked_eq:
  fixes a b :: u32
  shows "(a AND push_bit k (- 1)) = (b AND push_bit k (- 1)) \<longleftrightarrow> drop_bit k a = drop_bit k b"
proof
  assume eq: "(a AND push_bit k (- 1)) = (b AND push_bit k (- 1))"
  show "drop_bit k a = drop_bit k b"
  proof (rule bit_word_eqI)
    fix n assume "n < LENGTH(32)"
    from eq have "bit (a AND push_bit k (- 1)) (k + n) = bit (b AND push_bit k (- 1)) (k + n)" by simp
    then show "bit (drop_bit k a) n = bit (drop_bit k b) n"
      by (auto simp: bit_and_iff bit_not_iff bit_mask_iff bit_drop_bit_eq dest: bit_imp_le_length)
  qed
next
  assume eq: "drop_bit k a = drop_bit k b"
  show "(a AND push_bit k (- 1)) = (b AND push_bit k (- 1))"
  proof (rule bit_word_eqI)
    fix n assume "n < LENGTH(32)"
    have "bit a n = bit b n" if "k \<le> n"
      using arg_cong [OF eq, of "\<lambda>w. bit w (n - k)"] that by (simp add: bit_drop_bit_eq)
    then show "bit (a AND push_bit k (- 1)) n = bit (b AND push_bit k (- 1)) n"
      by (auto simp: bit_and_iff bit_not_iff bit_mask_iff)
  qed
qed

lemma drop_bit_unat:
  fixes a b :: u32
  shows "drop_bit k a = drop_bit k b \<longleftrightarrow> unat a div 2 ^ k = unat b div 2 ^ k"
proof -
  have eq: "drop_bit k a = drop_bit k b \<longleftrightarrow> unat (drop_bit k a) = unat (drop_bit k b)"
    by (rule word_unat_eq_iff)
  show ?thesis
    by (simp only: eq unat_drop_bit_eq drop_bit_eq_div [of k "unat a"] drop_bit_eq_div [of k "unat b"])
qed

text \<open>The block of a route: its base and its prefix length.\<close>

definition block_of :: "string \<Rightarrow> (u32 \<times> nat) option" where
  "block_of route =
     (if route = ''default'' \<or> route = ''0.0.0.0/0'' then None
      else
        (let parts = split_on CHR ''/'' route in
         case (route_bits parts, toNumber (hd parts)) of
           (JInt bits, Some network) \<Rightarrow>
             if length parts > 2 \<or> bits < 1 \<or> bits > 32 then None else Some (network, nat bits)
         | _ \<Rightarrow> None))"

lemma block_ofD:
  "block_of route = Some (network, bits) \<Longrightarrow>
     1 \<le> bits \<and> bits \<le> 32 \<and> toNumber (hd (split_on CHR ''/'' route)) = Some network"
  by (auto simp: block_of_def Let_def split: if_splits js.splits option.splits)

lemma routeContains_bits:
  "routeContains route address \<longleftrightarrow>
     (\<exists>network bits target. block_of route = Some (network, bits) \<and> toNumber address = Some target \<and>
        unat network div 2 ^ (32 - bits) = unat target div 2 ^ (32 - bits))"
  unfolding routeContains_def block_of_def Let_def masked_eq drop_bit_unat
  by (auto split: if_splits js.splits option.splits)

text \<open>
  A route contains an address exactly when both are well formed, the route is not a default
  route, and the two numbers agree in the leading bits of the prefix.
\<close>

theorem routeContains_prefix:
  "routeContains route address \<longleftrightarrow>
     (\<exists>network bits target. block_of route = Some (network, bits) \<and> toNumber address = Some target \<and>
        unat network div 2 ^ (32 - bits) = unat target div 2 ^ (32 - bits))"
  by (rule routeContains_bits)

text \<open>Two blocks that share an address contain each other's base.\<close>

lemma coarser_prefix:
  assumes "(m::nat) div 2 ^ i = n div 2 ^ i" and "i \<le> j"
  shows "m div 2 ^ j = n div 2 ^ j"
proof -
  have "x div 2 ^ j = x div 2 ^ i div 2 ^ (j - i)" for x :: nat
    using assms(2) by (simp add: div_mult2_eq [symmetric] power_add [symmetric])
  with assms(1) show ?thesis by simp
qed

lemma blocks_overlap:
  assumes "routeContains r a" and "routeContains p a"
  shows "routeContains r (hd (split_on CHR ''/'' p)) \<or> routeContains p (hd (split_on CHR ''/'' r))"
proof -
  from assms(1) obtain rn rb t where r: "block_of r = Some (rn, rb)" and a: "toNumber a = Some t"
    and rt: "unat rn div 2 ^ (32 - rb) = unat t div 2 ^ (32 - rb)"
    by (auto simp: routeContains_bits)
  from assms(2) a obtain pn pb where p: "block_of p = Some (pn, pb)"
    and pt: "unat pn div 2 ^ (32 - pb) = unat t div 2 ^ (32 - pb)"
    by (auto simp: routeContains_bits)
  note t = rt pt
  note base = block_ofD [OF r] block_ofD [OF p]
  show ?thesis
  proof (cases "rb \<le> pb")
    case True
    then have "unat rn div 2 ^ (32 - rb) = unat pn div 2 ^ (32 - rb)"
      using t coarser_prefix [OF t(2), of "32 - rb"] by simp
    with r base show ?thesis by (auto simp: routeContains_bits)
  next
    case False
    then have "unat pn div 2 ^ (32 - pb) = unat rn div 2 ^ (32 - pb)"
      using t coarser_prefix [OF t(1), of "32 - pb"] by simp
    with p base show ?thesis by (auto simp: routeContains_bits)
  qed
qed

section \<open>The pool is clear of routes\<close>

lemma octet_field: "octet_ok s \<Longrightarrow> field_ok s"
  by (auto simp: octet_ok_def field_ok_def is_digit_def)

lemma octets_word:
  assumes "a \<le> 255" "b \<le> 255" "c \<le> 255" "d \<le> 255"
  shows "foldl (\<lambda>result v. push_bit 8 result OR (of_nat v :: u32)) 0 [a, b, c, d] =
    of_nat (16777216 * a + 65536 * b + 256 * c + d)"
proof -
  have step: "push_bit 8 (of_nat m) OR (of_nat v :: u32) = of_nat (256 * m + v)" if "v \<le> 255" for m v :: nat
  proof -
    have "push_bit 8 m OR v = push_bit 8 m + v"
    proof (rule disjunctive_add [symmetric])
      show "\<not> bit (push_bit 8 m) n \<or> \<not> bit v n" for n
      proof (cases "n < 8")
        case False
        then have "(2::nat) ^ 8 \<le> 2 ^ n" by (intro power_increasing) simp_all
        with that have "v < 2 ^ n" by simp
        then show ?thesis by (simp add: bit_iff_odd)
      qed (simp add: bit_push_bit_iff)
    qed
    then have "(of_nat (push_bit 8 m OR v) :: u32) = of_nat (256 * m + v)"
      by (simp add: push_bit_eq_mult)
    then show ?thesis by (simp only: of_nat_or_eq of_nat_push_bit)
  qed
  have zero: "(0 :: u32) = of_nat 0" by simp
  show ?thesis
    unfolding foldl.simps zero step [OF assms(1)] step [OF assms(2)] step [OF assms(3)] step [OF assms(4)]
    by (rule arg_cong [of _ _ of_nat]) simp
qed

lemma toNumber_ipv4: "ipv4_number s = Inr n \<Longrightarrow> toNumber s = Some (of_nat n)"
proof -
  assume "ipv4_number s = Inr n"
  then obtain a b c d where s: "s = join ''.'' (map show_nat [a, b, c, d])"
    and le: "a \<le> 255" "b \<le> 255" "c \<le> 255" "d \<le> 255"
    and n: "n = 16777216 * a + 65536 * b + 256 * c + d" by (rule ipv4_numberD)
  have "split_on CHR ''.'' s = map show_nat [a, b, c, d]"
    unfolding s by (rule split_on_join) auto
  then show ?thesis
    using le octets_word [OF le] octet_field [OF octet_ok_show]
    by (simp add: toNumber_def Let_def read_show_nat n)
qed

text \<open>A pool contains the addresses that it hands out.\<close>

lemma pool_contains:
  assumes "poolRange pool = Inr rng" and "ipv4_number a = Inr n" and "pr_first rng \<le> n" "n \<le> pr_last rng"
  shows "routeContains pool a"
proof -
  from assms(1) obtain b d base where parts: "split_on CHR ''/'' pool = [b, d]"
    and digits: "d \<noteq> []" "\<forall>c \<in> set d. is_digit c"
    and bits: "16 \<le> read_nat d" "read_nat d \<le> 30" and base: "ipv4_number b = Inr base"
    and dvd: "base mod 2 ^ (32 - read_nat d) = 0"
    and rng: "rng = \<lparr>pr_first = base + 1, pr_last = base + 2 ^ (32 - read_nat d) - 2\<rparr>"
    by (auto simp: poolRange_def Let_def split: list.splits if_splits sum.splits)
  have nodef: "pool \<noteq> ''default''" "pool \<noteq> ''0.0.0.0/0''"
    using parts bits by (auto simp: read_nat_def digit_value_def)
  then have block: "block_of pool = Some (of_nat base, read_nat d)"
    using parts bits js_Number_digits [OF digits] toNumber_ipv4 [OF base]
    by (simp add: block_of_def route_bits_def)
  have less: "n < 2 ^ 32" "base < 2 ^ 32" using ipv4_text_number(2) assms(2) base by blast+
  let ?size = "2 ^ (32 - read_nat d) :: nat"
  obtain q where q: "base = ?size * q" using dvd by (auto simp: mod_eq_0_iff_dvd)
  have "(2::nat) ^ 2 \<le> ?size" using bits by (intro power_increasing) simp_all
  then have "n - base < ?size" "n = ?size * q + (n - base)"
    using assms(3,4) rng q by simp_all
  then have "n div ?size = q"
    by (metis add.right_neutral div_less div_mult_self4 gr_implies_not0)
  moreover have "base div ?size = q" using q by simp
  ultimately show ?thesis
    using block less toNumber_ipv4 [OF assms(2)]
    by (simp add: routeContains_bits unsigned_of_nat take_bit_nat_eq_self)
qed

lemma pool_clear:
  assumes "checkPoolRoutes (Some (JArr routes)) pool ignored = Pool_ok"
    and "item \<in> set routes" and "\<not> skipped_route ignored item" and "field_of item ''dst'' = JStr dst"
  shows "\<not> (routeContains dst a \<and> routeContains pool a)" and "in_pool pool a \<Longrightarrow> \<not> routeContains dst a"
proof -
  have "\<not> overlaps pool item"
    using assms(1-3) by (auto simp: checkPoolRoutes_def readRoutes_def split: if_splits)
  then show clear: "\<not> (routeContains dst a \<and> routeContains pool a)"
    using blocks_overlap [of dst a pool] assms(4) by (auto simp: overlaps_def)
  show "\<not> routeContains dst a" if "in_pool pool a"
    using clear that pool_contains by (auto simp: in_pool_def split: sum.splits)
qed

text \<open>
  A pool that passes the check is clear: no route of the host, default routes and the ignored
  interface apart, contains any address that the pool can hand out, nor shares any address at all
  with the pool.
\<close>

theorem checked_pool_is_clear:
  assumes "checkPoolRoutes (Some (JArr routes)) pool ignored = Pool_ok"
    and "item \<in> set routes" and "\<not> skipped_route ignored item" and "field_of item ''dst'' = JStr dst"
  shows "\<not> (routeContains dst a \<and> routeContains pool a) \<and> (in_pool pool a \<longrightarrow> \<not> routeContains dst a)"
  using pool_clear [OF assms] by blast

definition ex_routes :: "js list" where
  "ex_routes = [JObj [(''dst'', JStr ''10.0.1.0/24'')]]"

lemma ex_pool_check: "checkPoolRoutes (Some (JArr ex_routes)) ''10.0.0.0/30'' None = Pool_ok"
  by (simp add: checkPoolRoutes_def readRoutes_def skipped_route_def overlaps_def field_of_def ex_routes_def
      routeContains_def toNumber_def field_ok_def route_bits_def eval_simps)
    (simp add: Let_def mask_numeral)

theorem checked_pool_is_clear_witness:
  "\<not> routeContains ''10.0.1.0/24'' ''10.0.0.2''"
proof -
  have "in_pool ''10.0.0.0/30'' ''10.0.0.2''" by (simp add: in_pool_def eval_simps)
  then show ?thesis
    using checked_pool_is_clear [OF ex_pool_check, of _ "''10.0.1.0/24''" "''10.0.0.2''"]
    by (simp add: skipped_route_def field_of_def ex_routes_def eval_simps)
qed

section \<open>Addresses of dialled peers\<close>

lemma first_error_None: "first_error rs = None \<longleftrightarrow> (\<forall>r \<in> set rs. r = None)"
  by (induction rs rule: first_error.induct) auto

lemma find_SomeD: "find P xs = Some x \<Longrightarrow> x \<in> set xs \<and> P x"
  by (induction xs) (auto split: if_splits)

lemma check_target_None:
  "check_target local routes target = None \<longleftrightarrow>
     target \<notin> snd ` set local \<and> (\<forall>route \<in> set routes. \<not> host_route target route)"
proof (cases "find (\<lambda>(name, a). a = target) local")
  case None
  then have local: "target \<notin> snd ` set local" by (auto simp: find_None_iff)
  show ?thesis
  proof (cases "find (host_route target) routes")
    case no_route: None
    then have "\<forall>route \<in> set routes. \<not> host_route target route" by (auto simp: find_None_iff)
    then show ?thesis by (simp add: check_target_def None no_route local)
  next
    case (Some r)
    then have "\<exists>route \<in> set routes. host_route target route" by (auto simp: find_Some_iff)
    then show ?thesis by (auto simp: check_target_def None Some)
  qed
next
  case (Some e)
  from find_SomeD [OF this] have "target \<in> snd ` set local" by force
  with Some show ?thesis by (cases e) (auto simp: check_target_def)
qed

text \<open>
  The check of a dialling host passes exactly when neither its own address nor that of a peer
  is assigned locally or has a host route that the kernel did not make.
\<close>

theorem dialer_check_exact:
  "checkDialerAddresses address peers local (Inr routes) = None \<longleftrightarrow>
     (\<forall>target \<in> set (address # peers).
        target \<notin> snd ` set local \<and> (\<forall>route \<in> set routes. \<not> host_route target route))"
  by (auto simp: checkDialerAddresses_def first_error_None check_target_None)

section \<open>The helper never outlives a failure\<close>

lemma run_ip_ok: "run_ip exec cs = (None, out) \<Longrightarrow> out = map Ip cs \<and> (\<forall>c \<in> set cs. exec c = None)"
  by (induction cs arbitrary: out) (auto split: option.splits prod.splits)

text \<open>The interface name that the pipe announces.\<close>

lemma ready_name: "helper_ready name evs = Some (Inr n) \<Longrightarrow> interface_name n"
  by (induction name evs rule: helper_ready.induct) (auto simp: Let_def split: if_splits)

text \<open>
  When opening fails, either nothing was started or the helper is stopped as the last thing;
  when it succeeds, the interface has a name of the helper's pattern, every command has succeeded,
  and exactly the host's address, the MTU of 1400 and one host route for each peer were
  configured.
\<close>

theorem tun_opened_or_closed:
  assumes "helper_ready [] evs = Some ready" and "openLinuxTun linux opts local before ready stdout exec = (result, out)"
  shows "case result of
      Inl e \<Rightarrow> out = [] \<or> (hd out = Spawn (to_helper opts) \<and> last out = Close_helper)
    | Inr name \<Rightarrow> linux \<and> interface_name name \<and>
        out = Spawn (to_helper opts) # map Ip (ip_commands name (to_address opts) (to_peerAddresses opts)) \<and>
        (\<forall>c \<in> set (ip_commands name (to_address opts) (to_peerAddresses opts)). exec c = None)"
proof (cases result)
  case (Inl e)
  with assms(2) show ?thesis
    by (auto simp: openLinuxTun_def split: if_splits option.splits prod.splits sum.splits)
next
  case (Inr name)
  with assms(2) obtain out' where linux and conf: "configure_tun opts ready stdout exec = (Inr name, out')"
    and out: "out = Spawn (to_helper opts) # out'"
    by (auto simp: openLinuxTun_def split: if_splits option.splits prod.splits sum.splits)
  from conf have "ready = Inr name"
    and "run_ip exec (ip_commands name (to_address opts) (to_peerAddresses opts)) = (None, out')"
    by (auto simp: configure_tun_def split: sum.splits option.splits prod.splits if_splits)
  with Inr \<open>linux\<close> out assms(1) run_ip_ok ready_name show ?thesis by fastforce
qed

definition ex_tun :: tun_options where
  "ex_tun = \<lparr>to_helper = ''tun'', to_address = ''10.0.0.1'', to_peerAddresses = [''10.0.0.2''],
     to_checkRouteConflicts = False, to_dialerPeerAddresses = []\<rparr>"

theorem tun_opened_or_closed_witness:
  "snd (openLinuxTun True ex_tun [] None (Inr ''kep0'') None (\<lambda>_. None)) =
     Spawn ''tun'' # map Ip (ip_commands ''kep0'' ''10.0.0.1'' [''10.0.0.2''])"
proof -
  have ready: "helper_ready [] [Pipe_data ''ke'', Pipe_data (''p0'' @ [CHR 10])] = Some (Inr ''kep0'')"
    by (simp add: interface_name_def trim_def is_space_def is_digit_def)
  obtain result out where r: "openLinuxTun True ex_tun [] None (Inr ''kep0'') None (\<lambda>_. None) = (result, out)"
    by (metis surj_pair)
  then have "result = Inr ''kep0''"
    by (simp add: openLinuxTun_def configure_tun_def ex_tun_def ip_commands_def)
  with tun_opened_or_closed [OF ready r] r show ?thesis by (simp add: ex_tun_def)
qed

end
