(* ===== verification/Receiver_Process_Properties.thy ===== *)
theory Receiver_Process_Properties
  imports Receiver_Process Engine_Admission Config_Engine Linux_Tun_Properties
begin

text \<open>
  What the receiver promises as a whole: the engine that runs is authorised by the store, a change
  of policy is never made under a running engine, and packets reach the device only from enrolled
  devices, on granted ports.
\<close>

section \<open>The engine accepts what the receiver configures\<close>

definition device_peer :: "receiver_device \<Rightarrow> peer" where
  "device_peer d = \<lparr>pr_label = dv_publicKey d, pr_key = dv_publicKey d, pr_address = dv_address d,
     pr_direction = Accept, pr_allowTcp = dv_allowTcp d\<rparr>"

lemma receiver_engine_peer:
  assumes "d \<in> set ds" and "dv_publicKey d \<noteq> key" and "distinct (map dv_publicKey ds)"
  shows "engine_peer key (pc_peers (receiver_config config ds))
    \<lparr>vp_peer = dv_publicKey d, vp_address = dv_address d, vp_allowTcp = dv_allowTcp d\<rparr> = Inr (device_peer d)"
proof -
  let ?def = "\<lambda>d. \<lparr>pf_label = dv_publicKey d, pf_publicKey = dv_publicKey d, pf_connection = Accept\<rparr>"
  have "find (\<lambda>x. pf_label x = dv_publicKey d \<or> pf_publicKey x = dv_publicKey d) (map ?def ds) = Some (?def d)"
    by (rule find_unique) (use assms(1) in auto)
  then show ?thesis using assms(2) by (simp add: engine_peer_def receiver_config_def device_peer_def)
qed

lemma receiver_engine_start:
  assumes "distinct (map dv_publicKey ds)" and "key \<notin> dv_publicKey ` set ds"
  shows "\<exists>e. start_engine key (receiver_config config ds) True = Inr e \<and> en_peers e = map device_peer ds \<and>
    en_address e = vpn_address config"
proof -
  have "all_ok (map (engine_peer key (pc_peers (receiver_config config ds)))
      (vc_peers (the (pc_vpn (receiver_config config ds))))) = Inr (map device_peer ds)"
    using assms receiver_engine_peer [OF _ _ assms(1), of _ key config]
    by (auto simp: receiver_config_def comp_def image_iff intro!: all_ok_map)
  then show ?thesis by (simp add: start_engine_def engine_peers_def receiver_config_def)
qed

section \<open>Whole runs\<close>

text \<open>A receiver that has started, on a store that it opened.\<close>

definition receiver_started ::
  "peer_config \<Rightarrow> string \<Rightarrow> string \<Rightarrow> receiver \<Rightarrow> receiver_effect list \<Rightarrow> bool" where
  "receiver_started config key pool r out \<longleftrightarrow>
     (\<exists>getuid made directory stored contents saved st routes start control listening.
        receiver_open getuid made directory stored contents saved
          \<lparr>id_receiverKey = key, id_receiverAddress = vpn_address config, id_pool = pool\<rparr> = Inr st \<and>
        start_receiver config key pool routes (Inr st) start control listening = (Inr r, out))"

lemma receiver_started_ok:
  assumes "receiver_started config key pool r out"
  shows "receiver_ok r" "slot out None = Some (rc_runtime r)" "rc_config r = config" "rc_key r = key"
    "rs_identity (st_state (rc_store r)) =
      \<lparr>id_receiverKey = key, id_receiverAddress = vpn_address config, id_pool = pool\<rparr>" "rc_pool r = pool"
proof -
  from assms obtain getuid made directory stored contents saved st routes start control listening where
      open_st: "receiver_open getuid made directory stored contents saved
          \<lparr>id_receiverKey = key, id_receiverAddress = vpn_address config, id_pool = pool\<rparr> = Inr st"
    and start: "start_receiver config key pool routes (Inr st) start control listening = (Inr r, out)"
    by (auto simp: receiver_started_def)
  let ?r = "\<lparr>rc_config = config, rc_key = key, rc_pool = pool, rc_store = st, rc_runtime = None, rc_started = 0,
      rc_stopping = False, rc_failed = None, rc_reload = False\<rparr>"
  note st = receiver_open_inv [OF open_st]
  have "receiver_ok ?r" using st(1) by (simp add: receiver_ok_def authorised_def)
  then have s: "sound ?r (snd (launch start ?r))" by (rule launch_sound) simp
  from start have "snd (launch start ?r) = (r, out)"
    by (auto simp: start_receiver_def split: if_splits pool_check.splits prod.splits sum.splits option.splits)
  with s st(2) show "receiver_ok r" "slot out None = Some (rc_runtime r)" "rc_config r = config" "rc_key r = key"
    "rs_identity (st_state (rc_store r)) =
      \<lparr>id_receiverKey = key, id_receiverAddress = vpn_address config, id_pool = pool\<rparr>" "rc_pool r = pool"
    by (simp_all add: sound_def)
qed

lemma receiver_run_facts:
  assumes "receiver_started config key pool r0 out0" and "receiver_run json sha r0 evs r out"
  shows "receiver_ok r" "slot (out0 @ out) None = Some (rc_runtime r)" "rc_config r = config" "rc_key r = key"
    "rs_identity (st_state (rc_store r)) =
      \<lparr>id_receiverKey = key, id_receiverAddress = vpn_address config, id_pool = pool\<rparr>" "rc_pool r = pool"
  using receiver_run_sound [OF assms(2) receiver_started_ok(1) [OF assms(1)]] receiver_started_ok [OF assms(1)]
  by (simp_all add: sound_def slot_append)

text \<open>A concrete receiver with one device, opened from its file.\<close>

definition ex_rc_config :: peer_config where
  "ex_rc_config = \<lparr>pc_vpn = Some \<lparr>vc_address = ''10.0.0.1'', vc_peers = []\<rparr>, pc_network = None, pc_peers = []\<rparr>"

definition ex_receiver :: receiver where
  "ex_receiver =
     \<lparr>rc_config = ex_rc_config, rc_key = ex_key CHR ''a'', rc_pool = ''10.0.0.0/30'', rc_store = ex_enrolled,
      rc_runtime = Some (0, receiver_config ex_rc_config [ex_device]), rc_started = 1, rc_stopping = False,
      rc_failed = None, rc_reload = False\<rparr>"

lemma ex_vpn_address [simp]: "vpn_address ex_rc_config = ''10.0.0.1''"
  by (simp add: vpn_address_def ex_rc_config_def)

lemma ex_reopen:
  "receiver_open (Some 501) Already_exists ex_directory (Some ex_file) (Some (state_json (st_state ex_enrolled)))
     (Committed None) ex_identity = Inr ex_enrolled"
proof -
  have inv: "receiver_inv (st_state ex_enrolled)" using ex_enrolled_inv by (simp add: store_inv_def)
  have idn: "rs_identity (st_state ex_enrolled) = ex_identity" by (simp add: ex_enrolled_def Let_def)
  have "validate (state_json (st_state ex_enrolled)) ex_identity = Inr (st_state ex_enrolled)"
    using validate_json [OF inv] by (simp add: idn)
  moreover have "ex_enrolled = \<lparr>st_state = st_state ex_enrolled, st_failed = False, st_disk = Some (st_state ex_enrolled)\<rparr>"
    by (simp add: ex_enrolled_def Let_def)
  ultimately show ?thesis
    by (simp add: receiver_open_def read_state_def requirePrivateDirectory_def private_file_def owned_def
        ex_identity_def ex_directory_def ex_file_def ex_simps)
qed

lemma ex_receiver_started:
  "receiver_started ex_rc_config (ex_key CHR ''a'') ''10.0.0.0/30'' ex_receiver
     [Engine_start 0 (receiver_config ex_rc_config [ex_device])]"
proof -
  have "start_receiver ex_rc_config (ex_key CHR ''a'') ''10.0.0.0/30'' (Some (JArr [])) (Inr ex_enrolled) (\<lambda>_. None)
      None None = (Inr ex_receiver, [Engine_start 0 (receiver_config ex_rc_config [ex_device])])"
    by (simp add: start_receiver_def checkPoolRoutes_def readRoutes_def launch_def list_devices_def serial_def
        ex_receiver_def ex_rc_config_def ex_enrolled_def Let_def)
  with ex_reopen show ?thesis unfolding receiver_started_def ex_vpn_address ex_identity_def by blast
qed

text \<open>
  C10: Whatever commands, enrollments, reloads and failures the receiver goes through, its engines
  start and stop as if there were one slot for them, so that at most one is running, and the one
  that runs has only peers that are enrolled devices in the store, each with the address and the
  grant that the store has for it.
\<close>

theorem running_engine_authorised:
  assumes "receiver_started config key pool r0 out0" and "receiver_run json sha r0 evs r out"
  shows "slot (out0 @ out) None = Some (rc_runtime r) \<and> store_inv (rc_store r) \<and>
    (\<forall>n c. rc_runtime r = Some (n, c) \<longrightarrow>
      (\<exists>ds. c = receiver_config config ds \<and> set ds \<subseteq> set (rs_devices (st_state (rc_store r)))))"
  using receiver_run_facts [OF assms] by (auto simp: receiver_ok_def authorised_def)

theorem running_engine_authorised_witness:
  "\<exists>ds. receiver_config ex_rc_config [ex_device] = receiver_config ex_rc_config ds \<and>
     set ds \<subseteq> set (rs_devices (st_state ex_enrolled))"
proof -
  have "receiver_run json sha ex_receiver ([] @ [Rv_changed]) (changed ex_receiver) ([] @ [])" for json sha
    by (rule receiver_next [OF receiver_start]) simp_all
  from running_engine_authorised [OF ex_receiver_started this [of "\<lambda>_. None" id]]
  show ?thesis by (simp add: changed_def ex_receiver_def)
qed

text \<open>
  C9: End to end: when an engine that the receiver runs writes a packet to the device, the packet
  comes from the address of a device that the store has enrolled at that moment, and a TCP packet
  goes to a port that the store grants to this device.
\<close>

theorem delivered_packet_enrolled:
  assumes "receiver_started config key pool r0 out0" and "receiver_run json sha r0 evs r out"
    and "rc_runtime r = Some (n, c)" and "start_engine key c True = Inr e0" and "engine_run e0 evs' e out'"
    and "To_device packet \<in> set (snd (engine_step ev e))"
  shows "\<exists>d \<in> set (rs_devices (st_state (rc_store r))). address packet 12 = dv_address d \<and>
    address packet 16 = vpn_address config \<and>
    (byte_at packet 9 = 6 \<longrightarrow> granted (dv_allowTcp d) (readUInt16BE packet 22))"
proof -
  note run = receiver_run_facts [OF assms(1,2)]
  from run(1,3) assms(3) obtain ds where ds: "c = receiver_config config ds"
      "set ds \<subseteq> set (rs_devices (st_state (rc_store r)))" "distinct (map dv_publicKey ds)"
    by (auto simp: receiver_ok_def authorised_def)
  have "key \<notin> dv_publicKey ` set (rs_devices (st_state (rc_store r)))"
    using run(1,5) by (auto simp: receiver_ok_def store_inv_def receiver_inv_def)
  with ds(2) have "key \<notin> dv_publicKey ` set ds" by blast
  from receiver_engine_start [OF ds(3) this, of config] assms(4) ds(1)
  have peers: "en_peers e0 = map device_peer ds" and addr: "en_address e0 = vpn_address config" by auto
  from to_device_authorised [OF assms(4-6)] peers addr obtain d where "d \<in> set ds"
      "address packet 12 = dv_address d" "address packet 16 = vpn_address config"
      "byte_at packet 9 = 6 \<longrightarrow> granted (dv_allowTcp d) (readUInt16BE packet 22)"
    by (auto simp: device_peer_def)
  with ds(2) show ?thesis by blast
qed

text \<open>The engine of the concrete receiver, with the device's session on stream 7.\<close>

definition ex_managed :: "engine" where
  "ex_managed = (ex_engine True)\<lparr>en_peers := [device_peer ex_device]\<rparr>"

definition ex_managed_session :: "bool \<Rightarrow> engine" where
  "ex_managed_session ready =
     ex_managed\<lparr>en_streams := [7], en_sessions := [(ex_key CHR ''c'', 7)],
       en_objects := [(7, \<lparr>ss_key = ex_key CHR ''c'',
         ss_policy = new_policy ''10.0.0.1'' ''10.0.0.2'' All_ports False, ss_ready = ready, ss_first = (\<not> ready)\<rparr>)]\<rparr>"

lemmas ex_managed_defs = ex_managed_session_def ex_managed_def ex_engine_def device_peer_def ex_device_def

lemma ex_managed_start:
  "start_engine (ex_key CHR ''a'') (receiver_config ex_rc_config [ex_device]) True = Inr ex_managed"
  by (simp add: start_engine_def engine_peers_def engine_peer_def receiver_config_def ex_managed_defs ex_key_eq)

lemma ex_managed_run:
  "\<exists>out. engine_run ex_managed [Ev_accept (ex_key CHR ''c'') 7, Ev_frame 0 0 7 hello (\<lambda>_. Threw [])]
     (ex_managed_session True) out"
proof -
  obtain out1 where accept: "engine_step (Ev_accept (ex_key CHR ''c'') 7) ex_managed = (ex_managed_session False, out1)"
    by (simp add: accept_stream_def Let_def byKey_def attach_def ex_managed_defs set_add_def)
  obtain out2 where greet: "engine_step (Ev_frame 0 0 7 hello (\<lambda>_. Threw [])) (ex_managed_session False) =
      (ex_managed_session True, out2)"
    by (simp add: session_frame_def is_current_def first_frame_def hello_no_enrollment Let_def
      put_session_def peerStatus_def label_of_def byKey_def ex_managed_defs)
  have "engine_run ex_managed ([] @ [Ev_accept (ex_key CHR ''c'') 7]) (ex_managed_session False) ([] @ out1)"
    by (rule run_step [OF run_start _ accept]) (simp add: ex_managed_def ex_engine_def)
  from run_step [OF this _ greet] show ?thesis by auto
qed

theorem delivered_packet_enrolled_witness:
  "\<exists>d \<in> set (rs_devices (st_state ex_enrolled)). address ex_insyn 12 = dv_address d"
proof -
  obtain out where run: "engine_run ex_managed [Ev_accept (ex_key CHR ''c'') 7, Ev_frame 0 0 7 hello (\<lambda>_. Threw [])]
     (ex_managed_session True) out"
    using ex_managed_run by blast
  have sent: "To_device ex_insyn \<in> set (snd (engine_step (Ev_frame 1 1 7 ex_insyn (\<lambda>_. Threw [])) (ex_managed_session True)))"
    by (simp add: session_frame_def is_current_def Let_def split_beta ex_managed_defs)
      (simp add: ex_packets eval_simps)
  have "rc_runtime ex_receiver = Some (0, receiver_config ex_rc_config [ex_device])"
    and store: "rc_store ex_receiver = ex_enrolled" by (simp_all add: ex_receiver_def)
  from delivered_packet_enrolled [OF ex_receiver_started receiver_start this(1) ex_managed_start run sent] store
  show ?thesis by auto
qed

section \<open>Changes of policy\<close>

text \<open>A launch that succeeds runs all devices of the store; one that fails changes nothing.\<close>

lemma launch_Inr:
  assumes "launch start r = (Inr u, r', out)"
  shows "r' = r\<lparr>rc_runtime := Some (rc_started r, receiver_config (rc_config r) (rs_devices (st_state (rc_store r)))),
      rc_started := Suc (rc_started r)\<rparr> \<and>
    out = [Engine_start (rc_started r) (receiver_config (rc_config r) (rs_devices (st_state (rc_store r))))]"
  using assms by (cases "st_failed (rc_store r)")
    (auto simp: launch_def list_devices_def serial_def Let_def split: option.splits)

lemma launch_Inl: "launch start r = (Inl e, r', out) \<Longrightarrow> r' = r \<and> out = []"
  by (cases "st_failed (rc_store r)")
    (auto simp: launch_def list_devices_def serial_def Let_def split: option.splits)

definition stop_effects_of :: "receiver \<Rightarrow> receiver_effect list" where
  "stop_effects_of r = (case rc_runtime r of None \<Rightarrow> [] | Some (n, _) \<Rightarrow> [Engine_stop n])"

lemma stop_runtime_eq:
  "stop_runtime stopped r =
     (if rc_runtime r = None \<or> stopped = None then Inr () else Inl (Plain (the stopped)),
      r\<lparr>rc_runtime := None\<rparr>, stop_effects_of r)"
  by (cases stopped) (auto simp: stop_runtime_def stop_effects_of_def split: option.split)

text \<open>What a change of policy has done, when it succeeds and when it does not.\<close>

lemma apply_policy_Inr:
  assumes "apply_policy stopped start operation r = (Inr v, r', out)"
  defines "ds \<equiv> rs_devices (st_state (rc_store r'))"
  shows "\<exists>x. operation (rc_store r) = (Inr x, rc_store r')"
    and "rc_runtime r' = Some (rc_started r, receiver_config (rc_config r) ds)"
    and "out = stop_effects_of r @ [Policy_write ds, Engine_start (rc_started r) (receiver_config (rc_config r) ds)]"
proof -
  obtain res st where op: "operation (rc_store r) = (res, st)" by (metis surj_pair)
  let ?r = "r\<lparr>rc_runtime := None, rc_store := st\<rparr>"
  obtain res' r2 out2 where l: "launch start ?r = (res', r2, out2)" by (metis prod_cases3)
  from assms(1) op l obtain x u where "res = Inr x" "res' = Inr u" "r' = r2"
      "out = stop_effects_of r @ Policy_write (rs_devices (st_state st)) # out2"
    by (auto simp: apply_policy_def stop_runtime_eq split: if_splits sum.splits)
  with launch_Inr [of start ?r _ r2 out2] op l
  show "\<exists>x. operation (rc_store r) = (Inr x, rc_store r')"
    and "rc_runtime r' = Some (rc_started r, receiver_config (rc_config r) ds)"
    and "out = stop_effects_of r @ [Policy_write ds, Engine_start (rc_started r) (receiver_config (rc_config r) ds)]"
    unfolding ds_def by simp_all
qed

lemma fail_with_failed [simp]: "\<exists>y. rc_failed (fail_with m r) = Some y" "rc_runtime (fail_with m r) = rc_runtime r"
  "rc_store (fail_with m r) = rc_store r"
  by (simp_all add: fail_with_def split: option.split)

text \<open>A failure is one of stopping the engine, which ends the command, or one that is reported.\<close>

lemma apply_policy_Inl:
  assumes "apply_policy stopped start operation r = (Inl e, r', out)"
  shows "(\<exists>n c m. rc_runtime r = Some (n, c) \<and> stopped = Some m \<and> e = Plain m \<and>
       r' = r\<lparr>rc_runtime := None\<rparr> \<and> out = [Engine_stop n]) \<or>
    rc_runtime r' = None \<and> rc_failed r' \<noteq> None \<and>
    out = stop_effects_of r @ [Policy_write (rs_devices (st_state (rc_store r')))]"
proof (cases "rc_runtime r = None \<or> stopped = None")
  case False
  with assms show ?thesis by (auto simp: apply_policy_def stop_runtime_eq stop_effects_of_def)
next
  case True
  obtain res st where op: "operation (rc_store r) = (res, st)" by (metis surj_pair)
  let ?r = "r\<lparr>rc_runtime := None, rc_store := st\<rparr>"
  obtain res' r2 out2 where l: "launch start ?r = (res', r2, out2)" by (metis prod_cases3)
  have "r2 = ?r \<and> out2 = []" if "res' = Inl x" for x using launch_Inl l that by blast
  with assms op l True show ?thesis by (auto simp: apply_policy_def stop_runtime_eq split: sum.splits)
qed

text \<open>What a successful store operation has made of the devices.\<close>

lemma revoke_Inr:
  "revoke key outcome st = (Inr u, st') \<Longrightarrow>
     rs_devices (st_state st') = filter (\<lambda>d. dv_publicKey d \<noteq> key) (rs_devices (st_state st)) \<and>
     (\<exists>d \<in> devices st. dv_publicKey d = key)"
  by (cases outcome; cases "st_failed st")
    (auto simp: revoke_def serial_def Let_def save_then_def save_def split: if_splits option.splits)

lemma grant_Inr:
  "grant_ports key v outcome st = (Inr u, st') \<Longrightarrow>
     (\<exists>g. checkedPorts v = Inr g \<and> rs_devices (st_state st') =
        map (\<lambda>d. if dv_publicKey d = key then d\<lparr>dv_allowTcp := g\<rparr> else d) (rs_devices (st_state st))) \<and>
     (\<exists>d \<in> devices st. dv_publicKey d = key)"
  by (cases outcome; cases "st_failed st")
    (auto simp: grant_ports_def serial_def Let_def save_then_def save_def split: if_splits option.splits sum.splits)

lemma command_policy:
  assumes "prop_of request ''action'' = JStr action" and "action = ''grant'' \<or> action = ''revoke''"
  shows "command sha request w r =
    (case prop_of request ''key'' of
       JStr key \<Rightarrow> policy_command request action key (an_saved w) (an_stopped w) (an_start w) r
     | _ \<Rightarrow> invalid_request r)"
  using assms by (auto simp: command_def)

text \<open>A policy command is refused before anything happens, or it is a change of policy.\<close>

lemma policy_command_cases:
  "(\<exists>e. policy_command request action key saved stopped start r = (Inl e, r, [])) \<or>
   action = ''grant'' \<and> policy_command request action key saved stopped start r =
     apply_policy stopped start (grant_ports key (prop_of request ''ports'') saved) r \<or>
   action \<noteq> ''grant'' \<and> policy_command request action key saved stopped start r =
     apply_policy stopped start (revoke key saved) r"
  unfolding policy_command_def invalid_request_def list_devices_def serial_def by simp

lemma policy_command_applies:
  assumes "command sha request w r = (res, r', out)"
    and "prop_of request ''action'' = JStr action" and "action = ''grant'' \<or> action = ''revoke''"
  obtains (refused) e where "res = Inl e" and "r' = r" and "out = []"
  | (applied) key where "prop_of request ''key'' = JStr key"
      and "apply_policy (an_stopped w) (an_start w)
        (if action = ''grant'' then grant_ports key (prop_of request ''ports'') (an_saved w) else revoke key (an_saved w)) r =
        (res, r', out)"
proof (cases "\<exists>key. prop_of request ''key'' = JStr key")
  case False
  with assms(1) have "command sha request w r = invalid_request r"
    unfolding command_policy [OF assms(2,3)] by (auto split: js.splits)
  with assms(1) show ?thesis using refused by (auto simp: invalid_request_def)
next
  case True
  then obtain key where key: "prop_of request ''key'' = JStr key" by blast
  with assms(1) have "policy_command request action key (an_saved w) (an_stopped w) (an_start w) r = (res, r', out)"
    unfolding command_policy [OF assms(2,3)] by simp
  with policy_command_cases [of request action key "an_saved w" "an_stopped w" "an_start w" r] key
  show ?thesis using refused applied by auto
qed

text \<open>
  C24: A grant or a revocation changes the store only between engines.  What the receiver does for
  such a command is nothing; or it stops the engine that it runs, makes the change and starts an
  engine with the devices that the store has then; or the first steps of this, when one of them
  fails.  When it reports the command as done, the revoked key has been taken from the devices, or
  the ports granted have been set for the key, and nothing else has changed in them; when it
  reports an error, no engine has been started, and the store has been touched only after the stop.
\<close>

theorem policy_applied_between_engines:
  assumes "command sha request w r = (res, r', out)"
    and "prop_of request ''action'' = JStr action" and "action = ''grant'' \<or> action = ''revoke''"
    and "old = rs_devices (st_state (rc_store r))" and "new = rs_devices (st_state (rc_store r'))"
    and "stops = (case rc_runtime r of None \<Rightarrow> [] | Some (n, _) \<Rightarrow> [Engine_stop n])"
    and "c = receiver_config (rc_config r) new"
  shows "case res of
      Inr v \<Rightarrow>
        out = stops @ [Policy_write new, Engine_start (rc_started r) c] \<and> rc_runtime r' = Some (rc_started r, c) \<and>
        (\<exists>key. prop_of request ''key'' = JStr key \<and> (\<exists>d \<in> set old. dv_publicKey d = key) \<and>
          (action = ''revoke'' \<longrightarrow> new = filter (\<lambda>d. dv_publicKey d \<noteq> key) old) \<and>
          (action = ''grant'' \<longrightarrow> (\<exists>g. checkedPorts (prop_of request ''ports'') = Inr g \<and>
             new = map (\<lambda>d. if dv_publicKey d = key then d\<lparr>dv_allowTcp := g\<rparr> else d) old)))
    | Inl e \<Rightarrow>
        out = [] \<and> r' = r \<or>
        out = stops \<and> rc_store r' = rc_store r \<and> rc_runtime r' = None \<or>
        out = stops @ [Policy_write new] \<and> rc_runtime r' = None"
  using assms(1-3)
proof (cases rule: policy_command_applies)
  case (applied key)
  have stops: "stop_effects_of r = stops" by (simp add: assms(6) stop_effects_of_def)
  show ?thesis
  proof (cases res)
    case (Inl e)
    with apply_policy_Inl [OF applied(2) [unfolded Inl]] show ?thesis
      unfolding stops by (auto simp: assms(5,6))
  next
    case (Inr v)
    note effects = apply_policy_Inr [OF applied(2) [unfolded Inr], folded assms(5), folded assms(7), unfolded stops]
    from effects(1) assms(3) have "(\<exists>d \<in> set old. dv_publicKey d = key) \<and>
        (action = ''revoke'' \<longrightarrow> new = filter (\<lambda>d. dv_publicKey d \<noteq> key) old) \<and>
        (action = ''grant'' \<longrightarrow> (\<exists>g. checkedPorts (prop_of request ''ports'') = Inr g \<and>
           new = map (\<lambda>d. if dv_publicKey d = key then d\<lparr>dv_allowTcp := g\<rparr> else d) old))"
      unfolding assms(4,5) by (auto dest!: grant_Inr revoke_Inr)
    with effects(2,3) applied(1) Inr show ?thesis by simp
  qed
qed simp

definition ex_answers :: answers where
  "ex_answers = \<lparr>an_now = 3000, an_secret = ex_key CHR ''e'', an_saved = Committed None, an_stopped = None,
     an_start = (\<lambda>_. None)\<rparr>"

definition ex_revoke :: "(string, js) js_map" where
  "ex_revoke = [(''action'', JStr ''revoke''), (''key'', JStr (ex_key CHR ''c''))]"

lemma ex_revoke_command:
  "\<exists>r'. command ex_sha ex_revoke ex_answers ex_receiver =
     (Inr (JObj [(''ok'', JBool True)]), r',
      [Engine_stop 0, Policy_write [], Engine_start 1 (receiver_config ex_rc_config [])])"
  by (simp add: command_def ex_revoke_def prop_of_def policy_command_def keys_are_def joined_keys_def
      list_devices_def serial_def ex_receiver_def ex_enrolled_def Let_def ex_device_def ex_hex
      apply_policy_def stop_runtime_def revoke_def ex_answers_def launch_def)

theorem policy_applied_between_engines_witness:
  "\<exists>v r' out. command ex_sha ex_revoke ex_answers ex_receiver = (Inr v, r', out) \<and>
     rs_devices (st_state (rc_store r')) = []"
proof -
  obtain r' where c: "command ex_sha ex_revoke ex_answers ex_receiver =
     (Inr (JObj [(''ok'', JBool True)]), r',
      [Engine_stop 0, Policy_write [], Engine_start 1 (receiver_config ex_rc_config [])])"
    using ex_revoke_command by blast
  have "prop_of ex_revoke ''action'' = JStr ''revoke''" by (simp add: ex_revoke_def prop_of_def)
  from policy_applied_between_engines [OF c this _ refl refl refl refl]
  have "rs_devices (st_state (rc_store r')) = []" by (simp add: ex_receiver_def)
  with c show ?thesis by blast
qed

text \<open>
  C31: A grant or a revocation that fails leaves the receiver as it was, or without an engine.  In
  the latter case the receiver has reported its own failure, with one exception: the engine that it
  ran failed to stop.  Then this is the error, the store is as it was, and nothing is reported.
\<close>

theorem policy_failure_closed:
  assumes "command sha request w r = (Inl e, r', out)"
    and "prop_of request ''action'' = JStr action" and "action = ''grant'' \<or> action = ''revoke''"
  shows "r' = r \<and> out = [] \<or>
    rc_runtime r' = None \<and> rc_failed r' \<noteq> None \<or>
    (\<exists>n c m. rc_runtime r = Some (n, c) \<and> an_stopped w = Some m \<and> e = Plain m \<and>
       r' = r\<lparr>rc_runtime := None\<rparr> \<and> out = [Engine_stop n])"
  using assms by (cases rule: policy_command_applies) (auto dest!: apply_policy_Inl)

theorem policy_failure_closed_witness:
  "\<exists>e r' out. command ex_sha ex_revoke (ex_answers\<lparr>an_saved := Uncommitted False None\<rparr>) ex_receiver = (Inl e, r', out) \<and>
     rc_runtime r' = None \<and> rc_failed r' \<noteq> None"
proof -
  let ?w = "ex_answers\<lparr>an_saved := Uncommitted False None\<rparr>"
  obtain e r' where c: "command ex_sha ex_revoke ?w ex_receiver = (Inl e, r', [Engine_stop 0, Policy_write [ex_device]])"
    by (simp add: command_def ex_revoke_def prop_of_def policy_command_def keys_are_def joined_keys_def
      list_devices_def serial_def ex_receiver_def ex_enrolled_def Let_def ex_device_def ex_hex
      apply_policy_def stop_runtime_def revoke_def ex_answers_def)
  have "prop_of ex_revoke ''action'' = JStr ''revoke''" by (simp add: ex_revoke_def prop_of_def)
  from policy_failure_closed [OF c this] c show ?thesis by (auto simp: ex_answers_def)
qed

text \<open>When the engine fails to stop, the receiver is left without one and reports nothing.\<close>

lemma stop_failure_unreported:
  "rc_runtime r \<noteq> None \<Longrightarrow>
     apply_policy (Some m) start operation r = (Inl (Plain m), r\<lparr>rc_runtime := None\<rparr>, stop_effects_of r)"
  by (cases "rc_runtime r") (simp_all add: apply_policy_def stop_runtime_eq)

section \<open>Enrollment\<close>

text \<open>An accepted enrollment: the store has the device, and the pool was free of routes.\<close>

lemma enroll_callback_stores:
  assumes "store_inv (rc_store r)"
    and "enroll_callback sha routes name isOpen key secret now saved r = (Enrolled a, r')"
  shows "checkPoolRoutes routes (rc_pool r) name = Pool_ok" and "store_inv (rc_store r')"
    and "rs_identity (st_state (rc_store r')) = rs_identity (st_state (rc_store r))"
    and "\<exists>d \<in> devices (rc_store r'). dv_publicKey d = key \<and> dv_address d = a"
proof -
  obtain res st where e: "enroll sha key secret now saved (rc_store r) = (res, st)" by (metis surj_pair)
  show ok: "checkPoolRoutes routes (rc_pool r) name = Pool_ok"
    using assms(2) by (cases "checkPoolRoutes routes (rc_pool r) name") (simp_all add: enroll_callback_def)
  obtain d where d: "res = Inr d" "a = dv_address d" "r' = r\<lparr>rc_store := st\<rparr>"
    using assms(2) unfolding enroll_callback_def ok e
    by (cases res) (simp_all split: if_splits rs_error.splits)
  show "store_inv (rc_store r')" and "rs_identity (st_state (rc_store r')) = rs_identity (st_state (rc_store r))"
    using enrolling.keeps_inv [OF assms(1), of sha key secret now saved] d(3)
      enrolling_devices.keeps_identity [OF assms(1), of sha key secret now saved] e by simp_all
  have "fst (enroll sha key secret now saved (rc_store r)) = Inr d" using e d(1) by simp
  then obtain pending where dev: "enroll_device key pending (st_state (rc_store r)) = Inr d"
    and st: "rs_devices (st_state st) = enrolled_devices key d (st_state (rc_store r))"
  proof (rule enroll_successD [OF assms(1)])
    fix k
    assume dev: "enroll_device key (rs_invitations (st_state (rc_store r)) ! k) (st_state (rc_store r)) = Inr d"
      and st: "st_state (snd (enroll sha key secret now saved (rc_store r))) =
        (st_state (rc_store r))\<lparr>rs_devices := enrolled_devices key d (st_state (rc_store r)),
          rs_invitations := filter (live now) (take k (rs_invitations (st_state (rc_store r))) @
            drop (Suc k) (rs_invitations (st_state (rc_store r))))\<rparr>"
    have "rs_devices (st_state st) = enrolled_devices key d (st_state (rc_store r))"
      using arg_cong [OF st, of rs_devices] by (simp add: e)
    with dev show thesis by (rule that)
  qed
  have "d \<in> devices st \<and> dv_publicKey d = key"
    using enroll_device_known [OF dev] enroll_device_new(2) [OF dev] by (auto simp: st enrolled_devices_def)
  then show "\<exists>d \<in> devices (rc_store r'). dv_publicKey d = key \<and> dv_address d = a" using d by auto
qed

text \<open>
  C32: An enrollment that the receiver accepts stores the key with the address that it answers, and
  this address lies in none of the routes that the host has at that moment, other than routes of the
  engine's own interface; \<open>routeContains\<close> does not count the default route.
\<close>

theorem enrolled_address_unrouted:
  assumes "store_inv (rc_store r)" and "rc_pool r = id_pool (rs_identity (st_state (rc_store r)))"
    and "enroll_callback sha routes name isOpen key secret now saved r = (Enrolled a, r')"
  shows "(\<exists>d \<in> set (rs_devices (st_state (rc_store r'))). dv_publicKey d = key \<and> dv_address d = a) \<and>
    (\<exists>items. routes = Some (JArr items) \<and> (\<forall>item \<in> set items. \<forall>dst.
       field_of item ''dst'' = JStr dst \<and> \<not> (\<exists>dev. name = Some dev \<and> dev \<noteq> [] \<and> field_of item ''dev'' = JStr dev) \<longrightarrow>
       \<not> routeContains dst a))"
proof -
  note facts = enroll_callback_stores [OF assms(1,3)]
  have "in_pool (rc_pool r) a"
    using facts(2-4) assms(2) by (auto simp: store_inv_def receiver_inv_def device_ok_def)
  moreover obtain items where "routes = Some (JArr items)"
    using facts(1) by (auto simp: checkPoolRoutes_def readRoutes_def split: option.splits js.splits if_splits)
  moreover have "\<not> routeContains dst a" if "item \<in> set items" and "field_of item ''dst'' = JStr dst"
      and "\<not> (\<exists>dev. name = Some dev \<and> dev \<noteq> [] \<and> field_of item ''dev'' = JStr dev)" for item dst
  proof (cases "skipped_route name item")
    case True
    with that(2,3) have "dst = ''default'' \<or> dst = ''0.0.0.0/0''"
      by (cases name) (auto simp: skipped_route_def)
    then show ?thesis by (auto simp: routeContains_def)
  next
    case False
    with pool_clear(2) facts(1) calculation that(1,2) show ?thesis by blast
  qed
  ultimately show ?thesis using facts(4) by blast
qed

theorem enrolled_address_unrouted_witness:
  "\<exists>r'. enroll_callback ex_sha (Some (JArr ex_routes)) None True (ex_key CHR ''c'') (ex_key CHR ''b'') 2000
       (Committed None) (ex_receiver\<lparr>rc_store := ex_invited\<rparr>) = (Enrolled ''10.0.0.2'', r') \<and>
     \<not> routeContains ''10.0.1.0/24'' ''10.0.0.2''"
proof -
  let ?r = "ex_receiver\<lparr>rc_store := ex_invited\<rparr>"
  obtain r' where e: "enroll_callback ex_sha (Some (JArr ex_routes)) None True (ex_key CHR ''c'') (ex_key CHR ''b'') 2000
       (Committed None) ?r = (Enrolled ''10.0.0.2'', r')"
    by (simp add: enroll_callback_def ex_receiver_def ex_pool_check ex_enroll ex_device_def)
  have "rc_pool ?r = id_pool (rs_identity (st_state (rc_store ?r)))"
    by (simp add: ex_receiver_def ex_invited_def ex_identity_def Let_def)
  moreover have "store_inv (rc_store ?r)" by (simp add: ex_invited_inv)
  ultimately have "\<not> routeContains ''10.0.1.0/24'' ''10.0.0.2''"
    using enrolled_address_unrouted [OF _ _ e]
    by (auto simp: skipped_route_def field_of_def ex_routes_def prop_of_def)
  with e show ?thesis by blast
qed

end
