(* ===== verification/Pair.thy ===== *)
theory Pair
  imports Engine Config_Properties
begin

text \<open>
  Pairing with a receiver, \<open>src/vpn/pair.ts\<close>: one connection, one request, one answer.  The
  listeners of the stream, the timer and the frames that arrive are steps of a machine; the stream
  and the JSON parser are parameters, \<open>json\<close> gives the value of a frame's text or \<open>None\<close> when
  parsing throws.  \<open>response_value\<close> is what the engine of the receiver writes.
\<close>

section \<open>The answer of the receiver\<close>

definition rejection_name :: "enrollment_rejection \<Rightarrow> string" where
  "rejection_name r =
     (case r of Capacity \<Rightarrow> ''capacity'' | Pool \<Rightarrow> ''pool'' | Route \<Rightarrow> ''route'' | Excluded \<Rightarrow> ''excluded'')"

definition response_value :: "response \<Rightarrow> js" where
  "response_value r =
     (case r of
        Response_accepted a receiverAddress receiverKey \<Rightarrow>
          JObj [(''type'', JStr ''accepted''), (''address'', JStr a),
                (''receiverAddress'', JStr receiverAddress), (''receiverKey'', JStr receiverKey)]
      | Response_rejected reason \<Rightarrow>
          JObj [(''type'', JStr ''rejected''), (''reason'', JStr (rejection_name reason)), (''version'', JStr ''1'')]
      | Response_unusable \<Rightarrow> JObj [(''type'', JStr ''unusable''), (''version'', JStr ''1'')]
      | Response_unknown \<Rightarrow> JObj [(''type'', JStr ''unknown''), (''version'', JStr ''1'')])"

section \<open>Reading the answer\<close>

datatype pair_failure = Unusable | Unavailable | Unknown | Not_enrolled enrollment_rejection

type_synonym pair_result = "pair_failure + peer_config"

definition reason_of :: "js \<Rightarrow> enrollment_rejection option" where
  "reason_of v =
     (if v = JStr ''capacity'' then Some Capacity else if v = JStr ''pool'' then Some Pool
      else if v = JStr ''route'' then Some Route else if v = JStr ''excluded'' then Some Excluded
      else None)"

text \<open>The configuration that an accepted device runs with.\<close>

definition pair_config :: "peer_network option \<Rightarrow> string \<Rightarrow> js \<Rightarrow> js \<Rightarrow> error + peer_config" where
  "pair_config network receiverKey own_address receiverAddress =
     parsePeerConfig (JObj ((case network of None \<Rightarrow> [] | Some n \<Rightarrow> [(''network'', network_value n)]) @
       [(''peers'', JArr [JObj [(''label'', JStr ''receiver''), (''publicKey'', JStr receiverKey),
                               (''connection'', JStr ''dial'')]]),
        (''vpn'', JObj [(''address'', own_address),
           (''peers'', JArr [JObj [(''peer'', JStr ''receiver''), (''address'', receiverAddress),
                                  (''allowTcp'', JArr [])]])])]))"

definition pair_item ::
  "peer_network option \<Rightarrow> string \<Rightarrow> (string, js) js_map \<Rightarrow> pair_result" where
  "pair_item network receiverKey item =
     (let keys = joined_keys (map_keys item) in
      if prop_of item ''type'' = JStr ''unusable'' \<and> prop_of item ''version'' = JStr ''1'' \<and> keys = ''type,version''
      then Inl Unusable
      else if prop_of item ''type'' = JStr ''rejected'' \<and> prop_of item ''version'' = JStr ''1'' \<and>
        keys = ''reason,type,version'' \<and> reason_of (prop_of item ''reason'') \<noteq> None
      then Inl (Not_enrolled (the (reason_of (prop_of item ''reason''))))
      else if prop_of item ''type'' \<noteq> JStr ''accepted'' \<or> keys \<noteq> ''address,receiverAddress,receiverKey,type'' \<or>
        prop_of item ''receiverKey'' \<noteq> JStr receiverKey
      then Inl Unknown
      else
        (case pair_config network receiverKey (prop_of item ''address'') (prop_of item ''receiverAddress'') of
           Inl _ \<Rightarrow> Inl Unknown
         | Inr config \<Rightarrow> Inr config))"

text \<open>A frame: the greeting of an engine that knows this device already is passed over.\<close>

definition pair_response ::
  "(bytes \<Rightarrow> js option) \<Rightarrow> peer_network option \<Rightarrow> string \<Rightarrow> bytes \<Rightarrow> pair_result option" where
  "pair_response json network receiverKey frame =
     (if frame = hello then None
      else
        (case json frame of
           Some (JObj item) \<Rightarrow> Some (pair_item network receiverKey item)
         | _ \<Rightarrow> Some (Inl Unknown)))"

section \<open>The connection\<close>

text \<open>
  \<open>pa_listening\<close> says that the listener for \<open>connect\<close> is on, which the event takes off, and
  \<open>pa_sent\<close> that the sending is over and frames are read.
\<close>

record pairing =
  pa_listening :: bool
  pa_done :: bool
  pa_submitted :: bool
  pa_sent :: bool
  pa_result :: "pair_result option"

datatype pair_effect = Pair_send bytes | Pair_destroy | Dht_destroy

text \<open>
  \<open>Pair_already\<close> is the call of \<open>connected\<close> for a stream that is up when the listeners have been
  set; \<open>Pair_connected\<close> is the event \<open>connect\<close> of the stream.  Both come with its remote key.
\<close>

datatype pair_event =
  Pair_already string |
  Pair_connected string |
  Pair_sent |
  Pair_frame bytes |
  Pair_receive_ended |
  Pair_frames_failed |
  Pair_timeout |
  Pair_closed

definition pair_finish :: "pair_result \<Rightarrow> pairing \<Rightarrow> pairing \<times> pair_effect list" where
  "pair_finish result p =
     (if pa_done p then (p, []) else (p\<lparr>pa_done := True, pa_result := Some result\<rparr>, [Pair_destroy]))"

text \<open>The connection has ended without an answer.\<close>

definition pair_closed :: "pairing \<Rightarrow> pairing \<times> pair_effect list" where
  "pair_closed p = pair_finish (Inl (if pa_submitted p then Unknown else Unavailable)) p"

definition pair_connected :: "invitation \<Rightarrow> string \<Rightarrow> pairing \<Rightarrow> pairing \<times> pair_effect list" where
  "pair_connected i remotePublicKey p =
     (if pa_done p then (p, [])
      else if remotePublicKey \<noteq> iv_receiverKey i then pair_finish (Inl Unavailable) p
      else
        (case enrollmentRequest (iv_secret i) of
           Inl _ \<Rightarrow> (p\<lparr>pa_submitted := True\<rparr>, [])
         | Inr request \<Rightarrow> (p\<lparr>pa_submitted := True\<rparr>, [Pair_send request])))"

fun pair_step ::
  "(bytes \<Rightarrow> js option) \<Rightarrow> peer_network option \<Rightarrow> invitation \<Rightarrow> pair_event \<Rightarrow> pairing \<Rightarrow> pairing \<times> pair_effect list" where
  "pair_step json network i (Pair_already key) p = pair_connected i key p"
| "pair_step json network i (Pair_connected key) p =
     (if pa_listening p then pair_connected i key (p\<lparr>pa_listening := False\<rparr>) else (p, []))"
| "pair_step json network i Pair_sent p = (if pa_submitted p then (p\<lparr>pa_sent := True\<rparr>, []) else (p, []))"
| "pair_step json network i (Pair_frame frame) p =
     (if \<not> pa_sent p then (p, [])
      else (case pair_response json network (iv_receiverKey i) frame of
              None \<Rightarrow> (p, []) | Some result \<Rightarrow> pair_finish result p))"
| "pair_step json network i Pair_receive_ended p = (if pa_sent p then pair_finish (Inl Unknown) p else (p, []))"
| "pair_step json network i Pair_frames_failed p = (if pa_submitted p then pair_finish (Inl Unknown) p else (p, []))"
| "pair_step json network i Pair_timeout p = pair_closed p"
| "pair_step json network i Pair_closed p = pair_closed p"

fun pair_run ::
  "(bytes \<Rightarrow> js option) \<Rightarrow> peer_network option \<Rightarrow> invitation \<Rightarrow> pair_event list \<Rightarrow> pairing \<Rightarrow>
   pairing \<times> pair_effect list" where
  "pair_run json network i [] p = (p, [])"
| "pair_run json network i (ev # evs) p =
     (let (p1, out) = pair_step json network i ev p; (p2, out') = pair_run json network i evs p1
      in (p2, out @ out'))"

definition new_pairing :: pairing where
  "new_pairing = \<lparr>pa_listening = True, pa_done = False, pa_submitted = False, pa_sent = False, pa_result = None\<rparr>"

text \<open>
  The whole call: \<open>connect\<close> is what connecting throws, if it does, \<open>own\<close> says that the DHT node was
  made for this call.  The result is \<open>None\<close> as long as the promise is pending.
\<close>

definition pairWithReceiver ::
  "(bytes \<Rightarrow> js option) \<Rightarrow> peer_network option \<Rightarrow> string \<Rightarrow> bool \<Rightarrow> error option \<Rightarrow> pair_event list \<Rightarrow>
   pair_result option \<times> pair_effect list" where
  "pairWithReceiver json network token own connect evs =
     (case parseInvitation token of
        Inl _ \<Rightarrow> (Some (Inl Unusable), [])
      | Inr i \<Rightarrow>
          let release = (if own then [Dht_destroy] else []) in
          (case connect of
             Some _ \<Rightarrow> (Some (Inl Unavailable), release)
           | None \<Rightarrow>
               let (p, out) = pair_run json network i evs new_pairing in
               (pa_result p, out @ (if pa_result p = None then [] else Pair_destroy # release))))"

end
