(* ===== verification/Pair_Properties.thy ===== *)
theory Pair_Properties
  imports Pair Receiver_Process_Properties
begin

text \<open>
  What pairing promises: the request goes out at most once, a failure says whether it may have gone
  out, the configuration names the receiver of the invitation only, and the answer of a receiver
  that has enrolled a device is one with which the device's engine starts.
\<close>

section \<open>The machine\<close>

fun is_send :: "pair_effect \<Rightarrow> bool" where
  "is_send (Pair_send _) \<longleftrightarrow> True"
| "is_send _ \<longleftrightarrow> False"

definition sends :: "pair_effect list \<Rightarrow> nat" where
  "sends out = length (filter is_send out)"

lemma sends_simps [simp]:
  "sends [] = 0" "sends (e # out) = (if is_send e then Suc (sends out) else sends out)"
  "sends (out @ out') = sends out + sends out'"
  by (simp_all add: sends_def)

text \<open>A result is final.\<close>

definition done_inv :: "pairing \<Rightarrow> bool" where
  "done_inv p \<longleftrightarrow> pa_done p = (pa_result p \<noteq> None)"

lemmas pair_step_defs = pair_finish_def pair_closed_def pair_connected_def enrollmentRequest_def

lemma pair_step_final:
  assumes "done_inv p" and "pair_step json network i ev p = (p', out)"
  shows "done_inv p'" and "pa_result p \<noteq> None \<Longrightarrow> pa_result p' = pa_result p"
  using assms by (cases ev; auto simp: done_inv_def pair_step_defs split: option.splits sum.splits if_splits)+

lemma pair_run_final:
  assumes "done_inv p" and "pair_run json network i evs p = (p', out)"
  shows "pa_result p \<noteq> None \<Longrightarrow> pa_result p' = pa_result p"
  using assms
proof (induction evs arbitrary: p out)
  case (Cons ev evs)
  obtain p1 o1 where s: "pair_step json network i ev p = (p1, o1)" by fastforce
  then obtain o2 where r: "pair_run json network i evs p1 = (p', o2)"
    using Cons.prems(3) by (auto split: prod.splits)
  note step = pair_step_final [OF Cons.prems(2) s]
  from step(2) [OF Cons.prems(1)] Cons.prems(1) have "pa_result p1 \<noteq> None" by simp
  from Cons.IH [OF this step(1) r] step(2) [OF Cons.prems(1)] show ?case by simp
qed simp

text \<open>The result tells whether the request was submitted.\<close>

definition pairing_inv :: "pairing \<Rightarrow> bool" where
  "pairing_inv p \<longleftrightarrow>
     (pa_sent p \<longrightarrow> pa_submitted p) \<and> done_inv p \<and>
     (\<forall>r. pa_result p = Some r \<longrightarrow> (r = Inl Unavailable) = (\<not> pa_submitted p))"

definition submissions :: "pairing \<Rightarrow> nat" where
  "submissions p = (if pa_submitted p then 1 else 0)"

text \<open>
  No more calls of \<open>connected\<close> once the request is submitted: the listener is off, or the stream
  emits nothing that it listens to.
\<close>

definition quiet :: "pairing \<Rightarrow> pair_event list \<Rightarrow> bool" where
  "quiet p evs \<longleftrightarrow> (\<forall>key. Pair_already key \<notin> set evs) \<and>
     (pa_submitted p \<longrightarrow> \<not> pa_listening p \<or> (\<forall>key. Pair_connected key \<notin> set evs))"

lemma pair_response_available: "pair_response json network key frame = Some r \<Longrightarrow> r \<noteq> Inl Unavailable"
  by (auto simp: pair_response_def pair_item_def Let_def split: if_splits option.splits js.splits sum.splits)

lemma pair_step_inv:
  assumes "pairing_inv p" and "key_hex (iv_secret i)" and "pair_step json network i ev p = (p', out)"
    and "quiet p (ev # evs) \<or> ev = Pair_already key \<and> \<not> pa_submitted p"
  shows "pairing_inv p'" and "submissions p' = submissions p + sends out"
    and "quiet p (ev # evs) \<Longrightarrow> quiet p' evs"
proof -
  have "pairing_inv p' \<and> submissions p' = submissions p + sends out \<and> (quiet p (ev # evs) \<longrightarrow> quiet p' evs)"
  proof (cases ev)
    case (Pair_frame frame)
    then show ?thesis
      using assms pair_response_available [of json network "iv_receiverKey i" frame]
      by (cases "pair_response json network (iv_receiverKey i) frame")
        (auto simp: pairing_inv_def done_inv_def pair_step_defs submissions_def quiet_def split: if_splits)
  qed (use assms in \<open>auto simp: pairing_inv_def done_inv_def pair_step_defs submissions_def quiet_def
      split: if_splits\<close>)
  then show "pairing_inv p'" and "submissions p' = submissions p + sends out"
    and "quiet p (ev # evs) \<Longrightarrow> quiet p' evs"
    by simp_all
qed

lemma pair_run_inv:
  assumes "pairing_inv p" and "key_hex (iv_secret i)" and "pair_run json network i evs p = (p', out)"
    and "quiet p evs"
  shows "pairing_inv p' \<and> submissions p' = submissions p + sends out"
  using assms
proof (induction evs arbitrary: p out)
  case (Cons ev evs)
  obtain p1 o1 where s: "pair_step json network i ev p = (p1, o1)" by fastforce
  obtain o2 where r: "pair_run json network i evs p1 = (p', o2)" and out: "out = o1 @ o2"
    using Cons.prems(3) s by (auto split: prod.splits)
  note step = pair_step_inv [OF Cons.prems(1,2) s disjI1 [OF Cons.prems(4)]]
  from Cons.IH [OF step(1) Cons.prems(2) r step(3) [OF Cons.prems(4)]] step(2) show ?case by (simp add: out)
qed simp

text \<open>
  What the stream promises: it says at most once, before everything else, that it is up already,
  and then it does not emit \<open>connect\<close>.
\<close>

definition comes_up_once :: "pair_event list \<Rightarrow> bool" where
  "comes_up_once evs \<longleftrightarrow> (\<forall>key. Pair_already key \<notin> set (tl evs)) \<and>
     (\<forall>key key'. Pair_already key \<in> set evs \<longrightarrow> Pair_connected key' \<notin> set evs)"

lemma new_pairing_inv: "pairing_inv new_pairing" "done_inv new_pairing" "submissions new_pairing = 0"
  by (simp_all add: pairing_inv_def done_inv_def new_pairing_def submissions_def)

lemma new_pairing_run:
  assumes "comes_up_once evs" and "key_hex (iv_secret i)" and "pair_run json network i evs new_pairing = (p, out)"
  shows "pairing_inv p \<and> submissions p = sends out"
proof (cases "\<exists>key rest. evs = Pair_already key # rest")
  case False
  with assms(1) have "quiet new_pairing evs" by (cases evs) (auto simp: quiet_def comes_up_once_def new_pairing_def)
  from pair_run_inv [OF new_pairing_inv(1) assms(2,3) this] show ?thesis using new_pairing_inv(3) by simp
next
  case True
  then obtain key rest where evs: "evs = Pair_already key # rest" by blast
  obtain p1 o1 where s: "pair_step json network i (Pair_already key) new_pairing = (p1, o1)" by fastforce
  obtain o2 where r: "pair_run json network i rest p1 = (p, o2)" and out: "out = o1 @ o2"
    using assms(3) s by (auto simp: evs split: prod.splits)
  have "\<not> pa_submitted new_pairing" by (simp add: new_pairing_def)
  note step = pair_step_inv [OF new_pairing_inv(1) assms(2) s disjI2 [OF conjI [OF refl this]]]
  have "quiet p1 rest" using assms(1) by (auto simp: quiet_def comes_up_once_def evs)
  from pair_run_inv [OF step(1) assms(2) r this] step(2) new_pairing_inv(3) show ?thesis by (simp add: out)
qed

text \<open>Without that promise the request goes out twice: once for each call.\<close>

lemma already_and_connect:
  assumes "key_hex (iv_secret i)"
  shows "sends (snd (pair_run json network i
    [Pair_already (iv_receiverKey i), Pair_connected (iv_receiverKey i)] new_pairing)) = 2"
  using assms by (simp add: new_pairing_def pair_step_defs)

lemma pairWithReceiver_cases:
  assumes "pairWithReceiver json network token own connect evs = (res, out)"
  obtains "isl (parseInvitation token)" "res = Some (Inl Unusable)" "out = []"
  | i where "parseInvitation token = Inr i" "connect \<noteq> None" "res = Some (Inl Unavailable)"
      "out = (if own then [Dht_destroy] else [])"
  | i p out' where "parseInvitation token = Inr i" "connect = None"
      "pair_run json network i evs new_pairing = (p, out')" "res = pa_result p"
      "out = out' @ (if res = None then [] else Pair_destroy # (if own then [Dht_destroy] else []))"
proof (cases "parseInvitation token")
  case (Inl e)
  with assms that(1) show thesis by (simp add: pairWithReceiver_def)
next
  case (Inr i)
  obtain p out' where r: "pair_run json network i evs new_pairing = (p, out')" by fastforce
  show thesis
  proof (cases connect)
    case None
    from that(3) [OF Inr None r] assms Inr None r show thesis by (auto simp: pairWithReceiver_def Let_def)
  next
    case (Some e)
    with assms Inr that(2) [OF Inr] show thesis by (simp add: pairWithReceiver_def Let_def)
  qed
qed

text \<open>
  C18: The request to enroll is sent at most once, however often the stream emits \<open>connect\<close>, given
  that a stream that is up from the beginning does not emit it.  The outcome says whether the
  request was sent: it was not when pairing fails as unavailable, or as unusable because of a token
  that is no invitation; it was when pairing fails as unusable otherwise or as unknown, when it is
  rejected and when it succeeds.
\<close>

theorem pairing_never_replays:
  assumes "pairWithReceiver json network token own connect evs = (res, out)" and "comes_up_once evs"
  shows "sends out \<le> 1 \<and> (res = Some (Inl Unavailable) \<longrightarrow> sends out = 0) \<and>
    (res = Some (Inl Unusable) \<longrightarrow> sends out = (if isl (parseInvitation token) then 0 else 1)) \<and>
    (\<forall>r. res = Some r \<and> r \<notin> {Inl Unavailable, Inl Unusable} \<longrightarrow> sends out = 1)"
  using assms(1)
proof (cases rule: pairWithReceiver_cases)
  case (3 i p out')
  have "key_hex (iv_secret i)" using parse_inverse(3) [OF 3(1)] .
  note run = new_pairing_run [OF assms(2) this 3(3)]
  moreover have "sends out = sends out'" using 3(5) by auto
  ultimately show ?thesis using 3(1,4) by (auto simp: pairing_inv_def submissions_def split: if_splits)
qed auto

text \<open>A timeout or the end of the stream settles.\<close>

lemma pair_run_settled:
  assumes "done_inv p" and "pair_run json network i evs p = (p', out)"
    and "Pair_timeout \<in> set evs \<or> Pair_closed \<in> set evs"
  shows "pa_result p' \<noteq> None"
  using assms
proof (induction evs arbitrary: p out)
  case (Cons ev evs)
  obtain p1 o1 where s: "pair_step json network i ev p = (p1, o1)" by fastforce
  obtain o2 where r: "pair_run json network i evs p1 = (p', o2)"
    using Cons.prems(2) s by (auto split: prod.splits)
  have inv: "done_inv p1" using pair_step_final(1) [OF Cons.prems(1) s] .
  show ?case
  proof (cases "ev = Pair_timeout \<or> ev = Pair_closed")
    case True
    then have "pa_result p1 \<noteq> None"
      using s Cons.prems(1) by (auto simp: pair_closed_def pair_finish_def done_inv_def split: if_splits)
    with pair_run_final [OF inv r] show ?thesis by simp
  next
    case False
    with Cons.prems(3) Cons.IH [OF inv r] show ?thesis by auto
  qed
qed simp

text \<open>
  C22: Once twenty seconds have passed, or the stream has closed, the promise is settled; the
  stream is destroyed, and the DHT node too if it was made for the pairing.
\<close>

theorem pairing_settles:
  assumes "pairWithReceiver json network token own connect evs = (res, out)"
    and "Pair_timeout \<in> set evs \<or> Pair_closed \<in> set evs"
  shows "res \<noteq> None \<and> (own \<and> \<not> isl (parseInvitation token) \<longrightarrow> Dht_destroy \<in> set out) \<and>
    (connect = None \<and> \<not> isl (parseInvitation token) \<longrightarrow> Pair_destroy \<in> set out)"
  using assms(1)
proof (cases rule: pairWithReceiver_cases)
  case (3 i p out')
  with pair_run_settled [OF new_pairing_inv(2) 3(3) assms(2)] show ?thesis by auto
qed auto

section \<open>The configuration\<close>

text \<open>
  A configuration with the address \<open>a\<close> that dials the one receiver, at the address \<open>r\<close>, and grants
  it nothing.
\<close>

definition dials_only :: "string \<Rightarrow> js \<Rightarrow> js \<Rightarrow> peer_config \<Rightarrow> bool" where
  "dials_only key a r c \<longleftrightarrow>
     pc_peers c = [\<lparr>pf_label = ''receiver'', pf_publicKey = key, pf_connection = Dial\<rparr>] \<and>
     (\<exists>address receiverAddress. a = JStr address \<and> r = JStr receiverAddress \<and>
        pc_vpn c = Some \<lparr>vc_address = address,
          vc_peers = [\<lparr>vp_peer = ''receiver'', vp_address = receiverAddress, vp_allowTcp = Ports []\<rparr>]\<rparr>)"

lemma pair_config_dials: "pair_config network key a r = Inr c \<Longrightarrow> config_ok c \<and> dials_only key a r c"
  apply (rule conjI)
  subgoal unfolding pair_config_def by (rule parsePeerConfig_ok)
  subgoal
    by (auto simp: pair_config_def parsePeerConfig_def isRecord_def rejectUnknownFields_def prop_of_def
        parsePeerDefinition_def parseKeyHex_def parse_optional_def parsePeerVpn_def dials_only_def
        parsePeerReference_def parse_allowTcp_def parseVpnAddress_Inr Let_def
        split: option.splits sum.splits if_splits js.splits)
  done

text \<open>The object that counts as an acceptance by the receiver \<open>key\<close>.\<close>

definition acceptance :: "string \<Rightarrow> (string, js) js_map \<Rightarrow> bool" where
  "acceptance key item \<longleftrightarrow>
     prop_of item ''type'' = JStr ''accepted'' \<and> prop_of item ''receiverKey'' = JStr key \<and>
     joined_keys (map_keys item) = ''address,receiverAddress,receiverKey,type''"

lemma pair_item_accepted:
  "pair_item network key item = Inr c \<Longrightarrow> acceptance key item \<and> config_ok c \<and>
     dials_only key (prop_of item ''address'') (prop_of item ''receiverAddress'') c"
  using pair_config_dials by (auto simp: pair_item_def Let_def acceptance_def split: if_splits sum.splits)

lemma pair_step_result:
  assumes "pair_step json network i ev p = (p', out)" and "pa_result p' = Some (Inr c)"
  shows "pa_result p = Some (Inr c) \<or>
    (\<exists>frame item. ev = Pair_frame frame \<and> json frame = Some (JObj item) \<and>
       pair_item network (iv_receiverKey i) item = Inr c)"
  using assms
  by (cases ev) (auto simp: pair_step_defs pair_response_def split: if_splits option.splits js.splits sum.splits)

lemma pair_run_result:
  assumes "pair_run json network i evs p = (p', out)" and "pa_result p' = Some (Inr c)"
  shows "pa_result p = Some (Inr c) \<or>
    (\<exists>frame item. Pair_frame frame \<in> set evs \<and> json frame = Some (JObj item) \<and>
       pair_item network (iv_receiverKey i) item = Inr c)"
  using assms
proof (induction evs arbitrary: p out)
  case (Cons ev evs)
  obtain p1 o1 where s: "pair_step json network i ev p = (p1, o1)" by fastforce
  obtain o2 where r: "pair_run json network i evs p1 = (p', o2)"
    using Cons.prems(1) s by (auto split: prod.splits)
  from Cons.IH [OF r Cons.prems(2)] show ?case
    using pair_step_result [OF s] by (metis list.set_intros)
qed simp

text \<open>
  C21: A pairing that succeeds has read an acceptance, with exactly the fields of one, that names
  the receiver of the invitation; its configuration is valid, has the two addresses of the
  acceptance, dials this receiver only and lets it open no connection.
\<close>

theorem paired_config_dials_receiver:
  assumes "pairWithReceiver json network token own connect evs = (Some (Inr c), out)"
  shows "\<exists>i frame item. parseInvitation token = Inr i \<and> Pair_frame frame \<in> set evs \<and>
    json frame = Some (JObj item) \<and> acceptance (iv_receiverKey i) item \<and> config_ok c \<and>
    dials_only (iv_receiverKey i) (prop_of item ''address'') (prop_of item ''receiverAddress'') c"
  using assms
proof (cases rule: pairWithReceiver_cases)
  case (3 i p out')
  with pair_run_result [OF 3(3), of c] obtain frame item where
      "Pair_frame frame \<in> set evs" "json frame = Some (JObj item)"
      and item: "pair_item network (iv_receiverKey i) item = Inr c"
    by (auto simp: new_pairing_def)
  with pair_item_accepted [OF item] 3(1) show ?thesis by blast
qed auto

section \<open>Pairing with a receiver of the model\<close>

definition paired_config :: "peer_network option \<Rightarrow> string \<Rightarrow> string \<Rightarrow> string \<Rightarrow> peer_config" where
  "paired_config network key a receiverAddress =
     \<lparr>pc_vpn = Some \<lparr>vc_address = a,
        vc_peers = [\<lparr>vp_peer = ''receiver'', vp_address = receiverAddress, vp_allowTcp = Ports []\<rparr>]\<rparr>,
      pc_network = network,
      pc_peers = [\<lparr>pf_label = ''receiver'', pf_publicKey = key, pf_connection = Dial\<rparr>]\<rparr>"

definition optional_network_ok :: "peer_network option \<Rightarrow> bool" where
  "optional_network_ok network = (case network of None \<Rightarrow> True | Some n \<Rightarrow> network_ok n)"

lemma receiver_not_hex: "\<not> key_hex ''receiver''"
  by (auto dest: key_hex_length)

lemma pair_config_accept:
  assumes "key_hex key" and "\<not> isl (ipv4_number a)" and "\<not> isl (ipv4_number r)" and "a \<noteq> r"
    and "optional_network_ok network"
  shows "pair_config network key (JStr a) (JStr r) = Inr (paired_config network key a r)"
proof -
  have peer: "parsePeerDefinition (JObj [(''label'', JStr ''receiver''), (''publicKey'', JStr key),
      (''connection'', JStr ''dial'')]) field = Inr \<lparr>pf_label = ''receiver'', pf_publicKey = key, pf_connection = Dial\<rparr>"
    for field
    using assms(1) by (simp add: parsePeerDefinition_def isRecord_def rejectUnknownFields_def prop_of_def
        parseKeyHex_def peerLabelMaximumBytes_def trim_def is_space_def byteLength_def control_char_def)
  have vpn: "parsePeerVpn (JObj [(''address'', JStr a), (''peers'', JArr [JObj [(''peer'', JStr ''receiver''),
      (''address'', JStr r), (''allowTcp'', JArr [])]])]) [\<lparr>pf_label = ''receiver'', pf_publicKey = key, pf_connection = Dial\<rparr>] =
    Inr (the (pc_vpn (paired_config network key a r)))"
    using assms(2-4) by (simp add: parsePeerVpn_def isRecord_def rejectUnknownFields_def prop_of_def
        parsePeerReference_def peerLabelMaximumBytes_def trim_def is_space_def byteLength_def receiver_not_hex
        resolvePeerReference_def parseVpnAddress_eq parse_allowTcp_def paired_config_def Let_def)
  have network: "parsePeerNetwork (network_value n) = Inr n" if "network = Some n" for n
    using assms(5) that by (simp add: optional_network_ok_def network_value_parse)
  have "network_value n \<noteq> JUndefined" for n by (simp add: network_value_def)
  with peer vpn network show ?thesis
    by (cases network) (simp_all add: pair_config_def parsePeerConfig_def isRecord_def rejectUnknownFields_def
        prop_of_def parse_optional_def paired_config_def)
qed

lemma accepted_answer:
  assumes "json frame = Some (response_value (Response_accepted a r key))" and "frame \<noteq> hello"
    and "key_hex key" and "\<not> isl (ipv4_number a)" and "\<not> isl (ipv4_number r)" and "a \<noteq> r"
    and "optional_network_ok network"
  shows "pair_response json network key frame = Some (Inr (paired_config network key a r))"
  using assms pair_config_accept [OF assms(3-7)]
  by (simp add: pair_response_def response_value_def pair_item_def prop_of_def joined_keys_def)

section \<open>Examples\<close>

text \<open>A pairing with the receiver of the examples.\<close>

definition ex_answer :: response where
  "ex_answer = Response_accepted ''10.0.0.2'' ''10.0.0.1'' (ex_key CHR ''a'')"

definition ex_json :: "bytes \<Rightarrow> js option" where
  "ex_json frame = (if frame = [123] then Some (response_value ex_answer) else None)"

definition ex_pair_events :: "pair_event list" where
  "ex_pair_events = [Pair_connected (ex_key CHR ''a''), Pair_sent, Pair_frame hello, Pair_frame [123], Pair_closed]"

definition ex_paired :: peer_config where
  "ex_paired = paired_config None (ex_key CHR ''a'') ''10.0.0.2'' ''10.0.0.1''"

definition ex_request :: bytes where
  "ex_request = ascii_encode (ENROLLMENT_PREFIX @ ex_key CHR ''b'')"

lemma ex_token_parse: "parseInvitation ex_token = Inr \<lparr>iv_receiverKey = ex_key CHR ''a'', iv_secret = ex_key CHR ''b''\<rparr>"
  using parse_format [of "\<lparr>iv_receiverKey = ex_key CHR ''a'', iv_secret = ex_key CHR ''b''\<rparr>"]
  by (simp add: ex_token_def ex_simps)

lemma ex_hello: "[123] \<noteq> hello"
  by (simp add: hello_def ascii_encode_def)

lemma ex_response: "pair_response ex_json None (ex_key CHR ''a'') [123] = Some (Inr ex_paired)"
  unfolding ex_paired_def using ex_hello
  by (intro accepted_answer) (simp_all add: ex_json_def ex_answer_def ex_simps optional_network_ok_def)

lemma ex_greeting: "pair_response json network key hello = None"
  by (simp add: pair_response_def)

lemma ex_pairing:
  "pairWithReceiver ex_json None ex_token True None ex_pair_events =
     (Some (Inr ex_paired), [Pair_send ex_request, Pair_destroy, Pair_destroy, Dht_destroy])"
  by (simp add: pairWithReceiver_def ex_token_parse ex_pair_events_def pair_step_defs new_pairing_def
      ex_response ex_greeting ex_simps ex_request_def)

theorem pairing_never_replays_witness:
  "sends [Pair_send ex_request, Pair_destroy, Pair_destroy, Dht_destroy] = 1"
  using pairing_never_replays [OF ex_pairing] by (simp add: comes_up_once_def ex_pair_events_def)

theorem pairing_settles_witness:
  "Dht_destroy \<in> set (snd (pairWithReceiver ex_json None ex_token True None ex_pair_events))"
  using pairing_settles [OF ex_pairing] ex_pairing by (simp add: ex_pair_events_def ex_token_parse)

theorem paired_config_dials_receiver_witness:
  "config_ok ex_paired \<and> (\<exists>a r. dials_only (ex_key CHR ''a'') a r ex_paired)"
  using paired_config_dials_receiver [OF ex_pairing] by (auto simp: ex_token_parse)

section \<open>End to end\<close>

lemma paired_engine:
  assumes "key \<noteq> own"
  shows "\<exists>e. start_engine own (paired_config network key a r) False = Inr e \<and> en_address e = a \<and>
    en_peers e = [\<lparr>pr_label = ''receiver'', pr_key = key, pr_address = r, pr_direction = Dial, pr_allowTcp = Ports []\<rparr>]"
  using assms by (simp add: start_engine_def engine_peers_def engine_peer_def paired_config_def)

text \<open>
  C14: Pairing end to end: when an engine of the receiver answers a request to enroll with an
  acceptance, the device that reads the answer gets a configuration on which its engine starts,
  with the address that the receiver has stored for its key and with the receiver, at the
  receiver's own key and address, as the one peer.
\<close>

theorem pairing_end_to_end:
  assumes "receiver_started config rkey pool r0 out0" and "receiver_run json' sha r0 evs r out"
    and "rc_runtime r = Some (n, c)" and "start_engine rkey c True = Inr e0" and "engine_run e0 evs' e out'"
    and "enroll_callback sha routes name isOpen key secret now saved r = (outcome, r')"
    and "enroll_request now' stream packet (\<lambda>_. outcome) e = (e', effects)"
    and "Send_response stream answer \<in> set effects" and "answer = Response_accepted a ra rk"
    and "json frame = Some (response_value answer)" and "frame \<noteq> hello" and "optional_network_ok network"
  shows "\<exists>phone. pair_response json network rkey frame = Some (Inr (paired_config network rkey a (vpn_address config))) \<and>
    start_engine key (paired_config network rkey a (vpn_address config)) False = Inr phone \<and> en_address phone = a \<and>
    map pr_key (en_peers phone) = [rkey] \<and> map pr_address (en_peers phone) = [vpn_address config] \<and>
    (\<exists>d \<in> devices (rc_store r'). dv_publicKey d = key \<and> dv_address d = a)"
proof -
  note run = receiver_run_facts [OF assms(1,2)]
  from run(1,3) assms(3) obtain ds where c: "c = receiver_config config ds"
    by (auto simp: receiver_ok_def authorised_def)
  have en: "en_address e = vpn_address config" "en_peerKey e = rkey"
    using assms(4) engine_run_facts(3,6) [OF assms(4,5)]
    by (auto simp: c start_engine_def receiver_config_def same_setup_def split: sum.splits)
  have outcome: "outcome = Enrolled a" "ra = vpn_address config" "rk = rkey"
    using assms(7,8,9) en by (auto simp: enroll_request_def log_rejection_def Let_def
        split: sum.splits option.splits enroll_outcome.splits if_splits prod.splits)
  have inv: "store_inv (rc_store r)" using run(1) by (simp add: receiver_ok_def)
  note stored = enroll_callback_stores [OF inv assms(6) [unfolded outcome(1)]]
  obtain d where d: "d \<in> devices (rc_store r')" "dv_publicKey d = key" "dv_address d = a"
    using stored(4) by blast
  have s: "receiver_inv (st_state (rc_store r'))" using stored(2) by (simp add: store_inv_def)
  have idn: "rs_identity (st_state (rc_store r')) =
      \<lparr>id_receiverKey = rkey, id_receiverAddress = vpn_address config, id_pool = pool\<rparr>"
    using stored(3) run(5) by simp
  have pool_address: "\<not> isl (ipv4_number x)" if "in_pool pool x" for x
    using that by (auto simp: in_pool_def split: sum.splits)
  have "in_pool pool a" using s d idn by (auto simp: receiver_inv_def device_ok_def)
  then have "\<not> isl (ipv4_number a)" by (rule pool_address)
  moreover have "key_hex rkey" "\<not> isl (ipv4_number (vpn_address config))"
    using s idn by (auto simp: receiver_inv_def identity_ok_def)
  moreover have "a \<noteq> vpn_address config" "rkey \<noteq> key"
    using s d idn by (force simp: receiver_inv_def)+
  moreover from this(2) obtain phone where "start_engine key (paired_config network rkey a (vpn_address config)) False = Inr phone"
      "en_address phone = a" "map pr_key (en_peers phone) = [rkey]" "map pr_address (en_peers phone) = [vpn_address config]"
    using paired_engine [of rkey key network a "vpn_address config"] by auto
  ultimately show ?thesis
    using accepted_answer [of json frame a "vpn_address config" rkey network] assms(9-12) outcome(2,3) d by auto
qed

text \<open>The receiver of the examples with one open invitation.\<close>

definition ex_inviting :: receiver where
  "ex_inviting = ex_receiver\<lparr>rc_store := ex_invited, rc_runtime := Some (0, receiver_config ex_rc_config [])\<rparr>"

lemma ex_inviting_started:
  "receiver_started ex_rc_config (ex_key CHR ''a'') ''10.0.0.0/30'' ex_inviting
     [Engine_start 0 (receiver_config ex_rc_config [])]"
proof -
  let ?s = "st_state ex_invited"
  have "receiver_inv ?s" using ex_invited_inv by (simp add: store_inv_def)
  from validate_json [OF this] have "validate (state_json ?s) ex_identity = Inr ?s"
    by (simp add: ex_invited_def Let_def)
  moreover have "ex_invited = \<lparr>st_state = ?s, st_failed = False, st_disk = Some ?s\<rparr>"
    by (simp add: ex_invited_def Let_def)
  ultimately have "receiver_open (Some 501) Already_exists ex_directory (Some ex_file) (Some (state_json ?s))
     (Committed None) ex_identity = Inr ex_invited"
    by (simp add: receiver_open_def read_state_def requirePrivateDirectory_def private_file_def owned_def
        ex_identity_def ex_directory_def ex_file_def ex_simps)
  moreover have "start_receiver ex_rc_config (ex_key CHR ''a'') ''10.0.0.0/30'' (Some (JArr [])) (Inr ex_invited)
      (\<lambda>_. None) None None = (Inr ex_inviting, [Engine_start 0 (receiver_config ex_rc_config [])])"
    by (simp add: start_receiver_def checkPoolRoutes_def readRoutes_def launch_def list_devices_def serial_def
        ex_receiver_def ex_inviting_def ex_rc_config_def ex_invited_def Let_def)
  ultimately show ?thesis unfolding receiver_started_def ex_vpn_address ex_identity_def by blast
qed

theorem pairing_end_to_end_witness:
  "\<exists>phone. pair_response ex_json None (ex_key CHR ''a'') [123] = Some (Inr ex_paired) \<and>
     start_engine (ex_key CHR ''c'') ex_paired False = Inr phone \<and> en_address phone = ''10.0.0.2''"
proof -
  let ?a = "ex_key CHR ''a''" and ?c = "ex_key CHR ''c''"
  obtain r' where enrolled: "enroll_callback ex_sha (Some (JArr ex_routes)) None True ?c (ex_key CHR ''b'') 2000
       (Committed None) ex_inviting = (Enrolled ''10.0.0.2'', r')"
    by (simp add: enroll_callback_def ex_receiver_def ex_inviting_def ex_pool_check ex_enroll ex_device_def)
  obtain e where e: "start_engine ?a (receiver_config ex_rc_config []) True = Inr e"
      "en_address e = ''10.0.0.1''" "en_peerKey e = ?a" "en_enrollment e"
    by (simp add: start_engine_def engine_peers_def receiver_config_def)
  have "enrollmentSecret ex_request = Inr (Some (ex_key CHR ''b''))"
    unfolding ex_request_def by (rule request_roundtrip) (simp add: ex_simps)
  then have answer: "enroll_request 2000 7 ex_request (\<lambda>_. Enrolled ''10.0.0.2'') e =
      (e, [Send_response 7 ex_answer, Enrollment_changed])"
    using e by (simp add: enroll_request_def ex_answer_def)
  have run: "receiver_run (\<lambda>_. None) ex_sha ex_inviting [] ex_inviting []" by (rule receiver_start)
  have running: "rc_runtime ex_inviting = Some (0, receiver_config ex_rc_config [])"
    by (simp add: ex_inviting_def)
  have sent: "Send_response 7 ex_answer \<in> set [Send_response 7 ex_answer, Enrollment_changed]" by simp
  have read: "ex_json [123] = Some (response_value ex_answer)" by (simp add: ex_json_def)
  have network: "optional_network_ok None" by (simp add: optional_network_ok_def)
  show ?thesis
    using pairing_end_to_end [where json = ex_json and frame = "[123]",
        OF ex_inviting_started run running e(1) run_start enrolled answer sent ex_answer_def
        read ex_hello network]
    unfolding ex_paired_def ex_vpn_address by blast
qed

end
