(* ===== verification/Disk.thy ===== *)
theory Disk
  imports Js_Value
begin

text \<open>
  The file system as the code uses it through \<open>node:fs/promises\<close>.  A path is the list of its
  names from the root; a disk has the entries, the states it has been through, the failures that
  are still to come and the suffix that \<open>mkdtemp\<close> picks next.  Every call may fail, before it has
  any effect; writing a file may also fail after a part of the contents.  Ancestors of the paths
  are directories and no symbolic links.
\<close>

section \<open>Entries and failures\<close>

type_synonym path = "string list"

datatype entry = File string nat | Directory nat | Symlink "string option"

type_synonym files = "(path, entry) js_map"

text \<open>An \<open>Error\<close>: its message, its \<open>code\<close> and the \<open>code\<close> of its \<open>cause\<close>.\<close>

record failure =
  fl_message :: error
  fl_code :: "string option"
  fl_cause :: "string option"

definition failure_of :: "error \<Rightarrow> failure" where
  "failure_of m = \<lparr>fl_message = m, fl_code = None, fl_cause = None\<rparr>"

definition io_error :: "string \<Rightarrow> failure" where
  "io_error code = \<lparr>fl_message = code, fl_code = Some code, fl_cause = None\<rparr>"

text \<open>A failure to come; \<open>ft_written\<close> is how much of a file is written before it.\<close>

record fault =
  ft_failure :: failure
  ft_written :: nat

record disk =
  dk_files :: files
  dk_past :: "files list"
  dk_faults :: "fault option list"
  dk_suffix :: string

type_synonym 'a io = "disk \<Rightarrow> (failure + 'a) \<times> disk"

definition entry_at :: "disk \<Rightarrow> path \<Rightarrow> entry option" where
  "entry_at d p = map_get (dk_files d) p"

section \<open>Sequencing\<close>

definition return :: "'a \<Rightarrow> 'a io" where
  "return x d = (Inr x, d)"

definition throw :: "failure \<Rightarrow> 'a io" where
  "throw e d = (Inl e, d)"

definition seq :: "'a io \<Rightarrow> ('a \<Rightarrow> 'b io) \<Rightarrow> 'b io" where
  "seq m f d = (case m d of (Inl e, d1) \<Rightarrow> (Inl e, d1) | (Inr x, d1) \<Rightarrow> f x d1)"

definition catch :: "'a io \<Rightarrow> (failure \<Rightarrow> 'a io) \<Rightarrow> 'a io" where
  "catch m handler d = (case m d of (Inl e, d1) \<Rightarrow> handler e d1 | (Inr x, d1) \<Rightarrow> (Inr x, d1))"

text \<open>\<open>try ... finally\<close>: a failure of the last part replaces the result.\<close>

definition finally_do :: "'a io \<Rightarrow> unit io \<Rightarrow> 'a io" where
  "finally_do m cleanup d =
     (case m d of (r, d1) \<Rightarrow>
        (case cleanup d1 of (Inl e, d2) \<Rightarrow> (Inl e, d2) | (Inr _, d2) \<Rightarrow> (r, d2)))"

fun each :: "('a \<Rightarrow> unit io) \<Rightarrow> 'a list \<Rightarrow> unit io" where
  "each f [] = return ()"
| "each f (x # xs) = seq (f x) (\<lambda>_. each f xs)"

definition of_result :: "error + 'a \<Rightarrow> 'a io" where
  "of_result r = (case r of Inl e \<Rightarrow> throw (failure_of e) | Inr x \<Rightarrow> return x)"

section \<open>Calls\<close>

text \<open>The failure that a call meets, if any, and the disk that has passed it.\<close>

definition fault :: "disk \<Rightarrow> fault option \<times> disk" where
  "fault d = (case dk_faults d of [] \<Rightarrow> (None, d) | f # fs \<Rightarrow> (f, d\<lparr>dk_faults := fs\<rparr>))"

definition mutate :: "files \<Rightarrow> disk \<Rightarrow> disk" where
  "mutate fs d = d\<lparr>dk_files := fs, dk_past := dk_files d # dk_past d\<rparr>"

definition calling :: "'a io \<Rightarrow> 'a io" where
  "calling m d = (case fault d of (Some f, d1) \<Rightarrow> (Inl (ft_failure f), d1) | (None, d1) \<Rightarrow> m d1)"

text \<open>\<open>lstat\<close> reports the entry itself, not what a link leads to.\<close>

definition lstat :: "path \<Rightarrow> entry io" where
  "lstat p = calling (\<lambda>d. case entry_at d p of None \<Rightarrow> (Inl (io_error ''ENOENT''), d) | Some e \<Rightarrow> (Inr e, d))"

definition below :: "path \<Rightarrow> path \<Rightarrow> bool" where
  "below p q \<longleftrightarrow> starts_with p q"

text \<open>\<open>readdir\<close>: the names of the entries in a directory.\<close>

definition names_in :: "files \<Rightarrow> path \<Rightarrow> string list" where
  "names_in fs p = map last (filter (\<lambda>q. q \<noteq> [] \<and> butlast q = p) (map_keys fs))"

definition readdir :: "path \<Rightarrow> string list io" where
  "readdir p = calling (\<lambda>d.
     case entry_at d p of
       Some (Directory _) \<Rightarrow> (Inr (names_in (dk_files d) p), d)
     | Some _ \<Rightarrow> (Inl (io_error ''ENOTDIR''), d)
     | None \<Rightarrow> (Inl (io_error ''ENOENT''), d))"

definition is_directory :: "entry option \<Rightarrow> bool" where
  "is_directory e = (case e of Some (Directory _) \<Rightarrow> True | _ \<Rightarrow> False)"

text \<open>\<open>mkdir\<close> with \<open>recursive\<close>: the directories on the way that are missing.\<close>

fun ancestors :: "path \<Rightarrow> path \<Rightarrow> path list" where
  "ancestors done [] = [done]"
| "ancestors done (name # rest) = done # ancestors (done @ [name]) rest"

fun make_missing :: "nat \<Rightarrow> path list \<Rightarrow> unit io" where
  "make_missing mode [] = return ()"
| "make_missing mode (p # ps) =
     (\<lambda>d. case entry_at d p of
            None \<Rightarrow> make_missing mode ps (mutate (map_set p (Directory mode) (dk_files d)) d)
          | Some (Directory _) \<Rightarrow> make_missing mode ps d
          | Some _ \<Rightarrow> (Inl (io_error (if ps = [] then ''EEXIST'' else ''ENOTDIR'')), d))"

definition mkdir_recursive :: "path \<Rightarrow> nat \<Rightarrow> unit io" where
  "mkdir_recursive p mode = calling (make_missing mode (ancestors [] p))"

text \<open>\<open>mkdtemp\<close>: a new directory beside the last name, which gets the suffix.\<close>

definition mkdtemp :: "path \<Rightarrow> string \<Rightarrow> path io" where
  "mkdtemp parent prefix = calling (\<lambda>d.
     let p = parent @ [prefix @ dk_suffix d] in
     if \<not> is_directory (entry_at d parent) then (Inl (io_error ''ENOENT''), d)
     else if entry_at d p \<noteq> None then (Inl (io_error ''EEXIST''), d)
     else (Inr p, mutate (map_set p (Directory 448) (dk_files d)) d))"

definition chmod :: "path \<Rightarrow> nat \<Rightarrow> unit io" where
  "chmod p mode = calling (\<lambda>d.
     case entry_at d p of
       Some (File s _) \<Rightarrow> (Inr (), mutate (map_set p (File s mode) (dk_files d)) d)
     | Some (Directory _) \<Rightarrow> (Inr (), mutate (map_set p (Directory mode) (dk_files d)) d)
     | Some (Symlink _) \<Rightarrow> (Inr (), d)
     | None \<Rightarrow> (Inl (io_error ''ENOENT''), d))"

text \<open>
  \<open>writeFile\<close> opens, which empties the file, and then writes; \<open>exclusive\<close> is the flag \<open>wx\<close>.  The
  mode is that of a new file.
\<close>

definition writeFile :: "path \<Rightarrow> string \<Rightarrow> nat \<Rightarrow> bool \<Rightarrow> unit io" where
  "writeFile p contents mode exclusive = calling (\<lambda>d.
     if \<not> is_directory (entry_at d (butlast p)) then (Inl (io_error ''ENOENT''), d)
     else if exclusive \<and> entry_at d p \<noteq> None then (Inl (io_error ''EEXIST''), d)
     else
       (case (case entry_at d p of None \<Rightarrow> Some mode | Some (File _ m) \<Rightarrow> Some m | _ \<Rightarrow> None) of
          None \<Rightarrow> (Inl (io_error ''EISDIR''), d)
        | Some m \<Rightarrow>
            (let opened = mutate (map_set p (File [] m) (dk_files d)) d in
             case fault opened of
               (Some f, d1) \<Rightarrow>
                 (Inl (ft_failure f),
                  mutate (map_set p (File (take (ft_written f) contents) m) (dk_files d1)) d1)
             | (None, d1) \<Rightarrow> (Inr (), mutate (map_set p (File contents m) (dk_files d1)) d1))))"

definition readFile :: "path \<Rightarrow> string io" where
  "readFile p = calling (\<lambda>d.
     case entry_at d p of
       Some (File s _) \<Rightarrow> (Inr s, d)
     | Some (Symlink (Some s)) \<Rightarrow> (Inr s, d)
     | Some (Directory _) \<Rightarrow> (Inl (io_error ''EISDIR''), d)
     | _ \<Rightarrow> (Inl (io_error ''ENOENT''), d))"

text \<open>
  \<open>rename\<close> of a file replaces a file or link; a directory takes its contents along, to a place
  that is free.  (An empty directory in its place is replaced too; the code renames directories
  only to a path that it has found absent.)
\<close>

definition relocate :: "path \<Rightarrow> path \<Rightarrow> path \<Rightarrow> path" where
  "relocate src dst q = (if below src q then dst @ drop (length src) q else q)"

definition moved :: "path \<Rightarrow> path \<Rightarrow> files \<Rightarrow> files" where
  "moved src dst fs = map (\<lambda>(q, e). (relocate src dst q, e)) (filter (\<lambda>(q, _). \<not> below dst q) fs)"

definition rename :: "path \<Rightarrow> path \<Rightarrow> unit io" where
  "rename src dst = calling (\<lambda>d.
     case entry_at d src of
       None \<Rightarrow> (Inl (io_error ''ENOENT''), d)
     | Some (Directory _) \<Rightarrow>
         if entry_at d dst = None then (Inr (), mutate (moved src dst (dk_files d)) d)
         else (Inl (io_error (if is_directory (entry_at d dst) then ''ENOTEMPTY'' else ''ENOTDIR'')), d)
     | Some e \<Rightarrow>
         if is_directory (entry_at d dst) then (Inl (io_error ''EISDIR''), d)
         else (Inr (), mutate (map_set dst e (map_delete src (dk_files d))) d))"

text \<open>\<open>rm\<close> with \<open>recursive\<close> and \<open>force\<close>.\<close>

definition removed :: "path \<Rightarrow> files \<Rightarrow> files" where
  "removed p fs = filter (\<lambda>(q, _). \<not> below p q) fs"

definition rm_recursive :: "path \<Rightarrow> unit io" where
  "rm_recursive p = calling (\<lambda>d. (Inr (), mutate (removed p (dk_files d)) d))"

end
