(* ===== verification/State_Files.thy ===== *)
theory State_Files
  imports Disk
begin

text \<open>
  Private directories and files, \<open>src/state/files.ts\<close>: checked before they are read and written
  so that they appear in one step.  \<open>windows\<close> is the constant \<open>isWindows\<close>; permissions are not
  checked there.
\<close>

section \<open>Paths\<close>

definition show_path :: "path \<Rightarrow> string" where
  "show_path p = concat (map (\<lambda>name. CHR ''/'' # name) p)"

text \<open>The directory and the last name of a path.\<close>

definition dirname :: "path \<Rightarrow> path" where "dirname p = butlast p"

definition basename :: "path \<Rightarrow> string" where "basename p = (if p = [] then [] else last p)"

section \<open>Checks\<close>

definition pathExists :: "path \<Rightarrow> bool io" where
  "pathExists p =
     catch (seq (lstat p) (\<lambda>_. return True))
       (\<lambda>e. if fl_code e = Some ''ENOENT'' then return False else throw e)"

definition requireOwnerOnly :: "bool \<Rightarrow> nat \<Rightarrow> string \<Rightarrow> unit io" where
  "requireOwnerOnly windows mode subject =
     (if \<not> windows \<and> mode mod 512 \<noteq> 384
      then throw (failure_of (subject @ '' must have owner-only permissions'')) else return ())"

definition validate_entry :: "bool \<Rightarrow> path \<Rightarrow> string \<Rightarrow> unit io" where
  "validate_entry windows stateDir name =
     (let filePath = stateDir @ [name] in
      seq (lstat filePath) (\<lambda>file.
        case file of
          File _ mode \<Rightarrow> requireOwnerOnly windows mode (''state file '' @ show_path filePath)
        | _ \<Rightarrow> throw (failure_of (''state entry must be a regular file: '' @ show_path filePath))))"

definition validateStateDirectory :: "bool \<Rightarrow> path \<Rightarrow> string list \<Rightarrow> unit io" where
  "validateStateDirectory windows stateDir expectedFileNames =
     seq (lstat stateDir) (\<lambda>directory.
       case directory of
         Directory mode \<Rightarrow>
           if \<not> windows \<and> mode mod 512 \<noteq> 448 then
             throw (failure_of (''state directory must have owner-only permissions: '' @ show_path stateDir))
           else
             seq (readdir stateDir) (\<lambda>names.
               if sort names \<noteq> sort expectedFileNames then
                 throw (failure_of (''partial or invalid state in '' @ show_path stateDir))
               else each (validate_entry windows stateDir) (sort expectedFileNames))
       | _ \<Rightarrow> throw (failure_of (''state path must be a regular directory: '' @ show_path stateDir)))"

text \<open>\<open>json\<close> is \<open>JSON.parse\<close>, \<open>None\<close> when it throws.  The failure keeps the code of its cause.\<close>

definition readStateJson :: "(string \<Rightarrow> js option) \<Rightarrow> path \<Rightarrow> js io" where
  "readStateJson json filePath =
     catch
       (seq (readFile filePath) (\<lambda>s.
          case json s of None \<Rightarrow> throw (failure_of ''SyntaxError'') | Some v \<Rightarrow> return v))
       (\<lambda>e. throw \<lparr>fl_message = ''invalid state file '' @ show_path filePath, fl_code = None,
                   fl_cause = fl_code e\<rparr>)"

section \<open>Writing\<close>

definition replaceFileAtomically :: "path \<Rightarrow> path \<Rightarrow> unit io" where
  "replaceFileAtomically sourcePath destinationPath = rename sourcePath destinationPath"

definition write_entry :: "path \<Rightarrow> string \<times> string \<Rightarrow> unit io" where
  "write_entry directory = (\<lambda>(name, contents). writeFile (directory @ [name]) contents 384 False)"

definition writeStateDirectoryAtomically :: "bool \<Rightarrow> path \<Rightarrow> (string, string) js_map \<Rightarrow> unit io" where
  "writeStateDirectoryAtomically windows stateDir entries =
     seq (mkdir_recursive (dirname stateDir) 448) (\<lambda>_.
     seq (mkdtemp (dirname stateDir) (basename stateDir @ ''.tmp-'')) (\<lambda>temporaryDir.
     seq (chmod temporaryDir 448) (\<lambda>_.
       catch
         (seq (each (write_entry temporaryDir) entries) (\<lambda>_.
          seq (validateStateDirectory windows temporaryDir (map_keys entries)) (\<lambda>_.
            rename temporaryDir stateDir)))
         (\<lambda>e. seq (rm_recursive temporaryDir) (\<lambda>_. throw e)))))"

definition writeStateFileAtomically :: "path \<Rightarrow> string \<Rightarrow> string \<Rightarrow> path io" where
  "writeStateFileAtomically stateDir fileName contents =
     seq (mkdtemp stateDir ''.write-'') (\<lambda>temporaryDir.
       let temporaryPath = temporaryDir @ [fileName]; finalPath = stateDir @ [fileName] in
       finally_do
         (seq (writeFile temporaryPath contents 384 False) (\<lambda>_.
          seq (replaceFileAtomically temporaryPath finalPath) (\<lambda>_. return finalPath)))
         (rm_recursive temporaryDir))"

end
