(* ===== verification/Config_Toml.thy ===== *)
theory Config_Toml
  imports Config_Properties
begin

text \<open>
  The TOML form of a peer configuration, \<open>src/config-toml.ts\<close>, and the \<open>host:port\<close> texts of
  \<open>src/cli/options.ts\<close>.  The parser and the printer of the package \<open>smol-toml\<close> are parameters:
  \<open>parse\<close> gives a value or throws, and so does \<open>stringify\<close>.
\<close>

section \<open>Addresses of bootstrap nodes\<close>

definition parseTcpPort :: "string \<Rightarrow> string \<Rightarrow> bool \<Rightarrow> error + nat" where
  "parseTcpPort value option allowZero =
     (let minimum = if allowZero then 0 else 1 in
      case port_value minimum (js_Number value) of
        None \<Rightarrow> Inl (option @ '' must be an integer from '' @ show_nat minimum @ '' through 65535'')
      | Some port \<Rightarrow> Inr port)"

definition parse_bootstrap_text :: "string \<Rightarrow> string \<Rightarrow> error + string \<times> nat" where
  "parse_bootstrap_text label value =
     (case split_on CHR '':'' value of
        [host, port] \<Rightarrow>
          if host = [] \<or> port = [] then Inl (label @ '' must use host:port'')
          else
            (case parseTcpPort port (label @ '' port'') False of
               Inl e \<Rightarrow> Inl e
             | Inr n \<Rightarrow> Inr (host, n))
      | _ \<Rightarrow> Inl (label @ '' must use host:port''))"

definition parseBootstrapValues :: "string list \<Rightarrow> string \<Rightarrow> error + (string \<times> nat) list" where
  "parseBootstrapValues values label = all_ok (map (parse_bootstrap_text label) values)"

section \<open>Tables\<close>

text \<open>
  \<open>String(value)\<close>.  The text of a fraction is left at \<open>NaN\<close>: it is only compared with the names
  of routes.
\<close>

fun js_String :: "js \<Rightarrow> string" where
  "js_String JUndefined = ''undefined''"
| "js_String JNull = ''null''"
| "js_String (JBool b) = (if b then ''true'' else ''false'')"
| "js_String (JInt n) = (if n < 0 then CHR ''-'' # show_nat (nat (- n)) else show_nat (nat n))"
| "js_String JNum = ''NaN''"
| "js_String (JStr s) = s"
| "js_String (JArr vs) =
     join '','' (map (\<lambda>v. if v = JUndefined \<or> v = JNull then [] else js_String v) vs)"
| "js_String (JObj ps) = ''[object Object]''"

definition requireTable :: "js \<Rightarrow> string \<Rightarrow> error + (string, js) js_map" where
  "requireTable value field =
     (case value of JObj ps \<Rightarrow> Inr ps | _ \<Rightarrow> Inl (field @ '' must be a TOML table''))"

definition rejectUnknownTomlFields :: "(string, js) js_map \<Rightarrow> string \<Rightarrow> string list \<Rightarrow> error option" where
  "rejectUnknownTomlFields ps field allowed =
     (case find (\<lambda>name. name \<notin> set allowed) (map_keys ps) of
        None \<Rightarrow> None
      | Some unknown \<Rightarrow>
          if unknown = [] then None else Some (field @ '' has unknown field: '' @ unknown))"

text \<open>A table with no fields but the allowed ones, as every reader below first demands.\<close>

definition strict_table :: "js \<Rightarrow> string \<Rightarrow> string list \<Rightarrow> error + (string, js) js_map" where
  "strict_table value field allowed =
     (case requireTable value field of
        Inl e \<Rightarrow> Inl e
      | Inr ps \<Rightarrow>
          (case rejectUnknownTomlFields ps field allowed of Some e \<Rightarrow> Inl e | None \<Rightarrow> Inr ps))"

section \<open>Reading\<close>

text \<open>The objects in the shape of \<open>parsePeerConfig\<close> that the tables are renamed to.\<close>

definition toml_peer :: "nat \<Rightarrow> js \<Rightarrow> error + js" where
  "toml_peer i value =
     (case strict_table value (indexed ''peers'' i) [''label'', ''public_key'', ''connection''] of
        Inl e \<Rightarrow> Inl e
      | Inr ps \<Rightarrow>
          Inr (JObj [(''label'', prop_of ps ''label''), (''publicKey'', prop_of ps ''public_key''),
                     (''connection'', prop_of ps ''connection'')]))"

definition toml_vpn_peer :: "nat \<Rightarrow> js \<Rightarrow> error + js" where
  "toml_vpn_peer i value =
     (case strict_table value (indexed ''vpn.peers'' i) [''peer'', ''address'', ''allow_tcp''] of
        Inl e \<Rightarrow> Inl e
      | Inr ps \<Rightarrow>
          Inr (JObj [(''peer'', prop_of ps ''peer''), (''address'', prop_of ps ''address''),
                     (''allowTcp'', prop_of ps ''allow_tcp'')]))"

definition parseTomlVpn :: "js \<Rightarrow> error + js" where
  "parseTomlVpn value =
     (case strict_table value ''vpn'' [''address'', ''peers''] of
        Inl e \<Rightarrow> Inl e
      | Inr vpn \<Rightarrow>
          (case prop_of vpn ''peers'' of
             JArr vs \<Rightarrow>
               (case parse_each toml_vpn_peer 0 vs of
                  Inl e \<Rightarrow> Inl e
                | Inr peers \<Rightarrow> Inr (JObj [(''address'', prop_of vpn ''address''), (''peers'', JArr peers)]))
           | _ \<Rightarrow> Inl ''vpn.peers must be an array''))"

definition string_entries :: "js list \<Rightarrow> string list option" where
  "string_entries vs =
     (if \<forall>v \<in> set vs. case v of JStr _ \<Rightarrow> True | _ \<Rightarrow> False then Some (map js_String vs) else None)"

definition toml_bootstrap :: "js \<Rightarrow> error + (string \<times> nat) list option" where
  "toml_bootstrap value =
     (case value of
        JUndefined \<Rightarrow> Inr None
      | JArr vs \<Rightarrow>
          (case string_entries vs of
             None \<Rightarrow> Inl ''network.bootstrap must be an array of host:port strings''
           | Some entries \<Rightarrow>
               (case parseBootstrapValues entries ''network.bootstrap'' of
                  Inl e \<Rightarrow> Inl e
                | Inr bs \<Rightarrow> Inr (Some bs)))
      | _ \<Rightarrow> Inl ''network.bootstrap must be an array of host:port strings'')"

definition parseTomlNetwork :: "js \<Rightarrow> error + js" where
  "parseTomlNetwork value =
     (case strict_table value ''network'' [''bootstrap'', ''route''] of
        Inl e \<Rightarrow> Inl e
      | Inr network \<Rightarrow>
          (case toml_bootstrap (prop_of network ''bootstrap'') of
             Inl e \<Rightarrow> Inl e
           | Inr bootstrap \<Rightarrow>
               let head = (case bootstrap of
                             Some bs \<Rightarrow> if bs \<noteq> [] then [(''bootstrap'', JArr (map bootstrap_value bs))] else []
                           | None \<Rightarrow> []) in
               if prop_of network ''route'' = JUndefined then Inr (JObj head)
               else
                 (case parseRoute (js_String (prop_of network ''route'')) of
                    Inl e \<Rightarrow> Inl e
                  | Inr r \<Rightarrow> Inr (JObj (head @ [(''route'', js_route r)])))))"

text \<open>A field that is left out when it is \<open>undefined\<close>.\<close>

definition optional_field :: "string \<Rightarrow> (js \<Rightarrow> error + js) \<Rightarrow> js \<Rightarrow> error + (string \<times> js) list" where
  "optional_field name f v =
     (if v = JUndefined then Inr []
      else (case f v of Inl e \<Rightarrow> Inl e | Inr w \<Rightarrow> Inr [(name, w)]))"

definition config_of_toml :: "js \<Rightarrow> error + peer_config" where
  "config_of_toml value =
     (case strict_table value ''config'' [''network'', ''vpn'', ''peers''] of
        Inl e \<Rightarrow> Inl e
      | Inr root \<Rightarrow>
          (case prop_of root ''peers'' of
             JArr vs \<Rightarrow>
               (case parse_each toml_peer 0 vs of
                  Inl e \<Rightarrow> Inl e
                | Inr rawPeers \<Rightarrow>
                    (case optional_field ''vpn'' parseTomlVpn (prop_of root ''vpn'') of
                       Inl e \<Rightarrow> Inl e
                     | Inr vpn \<Rightarrow>
                         (case optional_field ''network'' parseTomlNetwork (prop_of root ''network'') of
                            Inl e \<Rightarrow> Inl e
                          | Inr network \<Rightarrow>
                              parsePeerConfig (JObj (vpn @ network @ [(''peers'', JArr rawPeers)])))))
           | _ \<Rightarrow> Inl ''peers must be an array''))"

definition parseKeposConfig :: "(string \<Rightarrow> error + js) \<Rightarrow> string \<Rightarrow> error + peer_config" where
  "parseKeposConfig parse source =
     (case parse source of Inl e \<Rightarrow> Inl e | Inr value \<Rightarrow> config_of_toml value)"

section \<open>Writing\<close>

definition toml_definition :: "peer_definition \<Rightarrow> js" where
  "toml_definition p =
     JObj [(''label'', JStr (pf_label p)), (''public_key'', JStr (pf_publicKey p)),
           (''connection'', js_connection (pf_connection p))]"

definition toml_vpn_value :: "peer_vpn \<Rightarrow> js" where
  "toml_vpn_value v =
     JObj [(''address'', JStr (vc_address v)),
           (''peers'', JArr (map (\<lambda>p. JObj [(''peer'', JStr (vp_peer p)), (''address'', JStr (vp_address p)),
                                          (''allow_tcp'', js_grant (vp_allowTcp p))]) (vc_peers v)))]"

definition bootstrap_text :: "string \<times> nat \<Rightarrow> string" where
  "bootstrap_text hp = fst hp @ '':'' @ show_nat (snd hp)"

definition toml_network_value :: "peer_network \<Rightarrow> js" where
  "toml_network_value n =
     JObj ((case nw_bootstrap n of None \<Rightarrow> []
            | Some bs \<Rightarrow> [(''bootstrap'', JArr (map (\<lambda>hp. JStr (bootstrap_text hp)) bs))]) @
           (case nw_route n of None \<Rightarrow> [] | Some r \<Rightarrow> [(''route'', js_route r)]))"

definition toml_value :: "peer_config \<Rightarrow> js" where
  "toml_value c =
     JObj ([(''peers'', JArr (map toml_definition (pc_peers c)))] @
           (case pc_vpn c of None \<Rightarrow> [] | Some v \<Rightarrow> [(''vpn'', toml_vpn_value v)]) @
           (case pc_network c of None \<Rightarrow> [] | Some n \<Rightarrow> [(''network'', toml_network_value n)]))"

definition serializeKeposConfig ::
  "(string \<Rightarrow> error + js) \<Rightarrow> (js \<Rightarrow> error + string) \<Rightarrow> js \<Rightarrow> error + string" where
  "serializeKeposConfig parse stringify config =
     (case parsePeerConfig config of
        Inl e \<Rightarrow> Inl e
      | Inr parsed \<Rightarrow>
          (case stringify (toml_value parsed) of
             Inl e \<Rightarrow> Inl e
           | Inr source \<Rightarrow>
               (case parseKeposConfig parse source of Inl e \<Rightarrow> Inl e | Inr _ \<Rightarrow> Inr source)))"

end
