(* ===== verification/Config_Toml_Properties.thy ===== *)
theory Config_Toml_Properties
  imports Config_Toml
begin

text \<open>
  Writing a configuration as TOML and reading it back.  The two differ in one place: a bootstrap
  host with a colon, such as an IPv6 address, has no \<open>host:port\<close> text.
\<close>

section \<open>Texts of addresses\<close>

definition plain_host :: "string \<times> nat \<Rightarrow> bool" where
  "plain_host hp \<longleftrightarrow> CHR '':'' \<notin> set (fst hp)"

lemma split_on_several:
  assumes "c \<in> set s" shows "\<exists>x y zs. split_on c s = x # y # zs"
proof -
  from split_list_first [OF assms] obtain a b where "s = a @ c # b" "c \<notin> set a" by auto
  then show ?thesis by (cases "split_on c b") (simp_all add: split_on_append)
qed

lemma bootstrap_text_parse:
  assumes "fst hp \<noteq> []" "1 \<le> snd hp" "snd hp \<le> 65535"
  shows "parse_bootstrap_text label (bootstrap_text hp) =
    (if plain_host hp then Inr hp else Inl (label @ '' must use host:port''))"
proof (cases "plain_host hp")
  case True
  then have "split_on CHR '':'' (bootstrap_text hp) = [fst hp, show_nat (snd hp)]"
    by (simp add: bootstrap_text_def plain_host_def split_on_append split_on_no_sep)
  moreover have "parseTcpPort (show_nat (snd hp)) (label @ '' port'') False = Inr (snd hp)"
    using assms by (simp add: parseTcpPort_def js_Number_show port_value_int)
  ultimately show ?thesis using assms(1) True by (simp add: parse_bootstrap_text_def)
next
  case False
  then have "CHR '':'' \<in> set (fst hp)" by (simp add: plain_host_def)
  from split_list_first [OF this] obtain a b where h: "fst hp = a @ CHR '':'' # b" "CHR '':'' \<notin> set a"
    by auto
  obtain x y zs where "split_on CHR '':'' (b @ CHR '':'' # show_nat (snd hp)) = x # y # zs"
    using split_on_several [of "CHR '':''" "b @ CHR '':'' # show_nat (snd hp)"] by auto
  then have "split_on CHR '':'' (bootstrap_text hp) = a # x # y # zs"
    using h by (simp add: bootstrap_text_def split_on_append)
  with False show ?thesis by (simp add: parse_bootstrap_text_def)
qed

lemma all_ok_one_error:
  assumes "\<And>x. x \<in> set xs \<Longrightarrow> f x = (if P x then Inr x else Inl e)"
  shows "all_ok (map f xs) = (if \<forall>x \<in> set xs. P x then Inr xs else Inl e)"
  using assms by (induction xs) auto

definition plain_hosts :: "peer_network \<Rightarrow> bool" where
  "plain_hosts n \<longleftrightarrow> (case nw_bootstrap n of None \<Rightarrow> True | Some bs \<Rightarrow> \<forall>hp \<in> set bs. plain_host hp)"

section \<open>Tables of a configuration\<close>

lemmas toml_readers = strict_table_def requireTable_def rejectUnknownTomlFields_def prop_of_def

lemma toml_network_parse:
  assumes "network_ok n"
  shows "parseTomlNetwork (toml_network_value n) =
    (if plain_hosts n then Inr (network_value n) else Inl ''network.bootstrap must use host:port'')"
proof -
  have route: "parseRoute (js_String (js_route r)) = Inr r" for r
    by (cases r) (simp_all add: js_route_def parseRoute_def)
  have boot: "toml_bootstrap (JArr (map (\<lambda>hp. JStr (bootstrap_text hp)) bs)) =
      (if plain_hosts n then Inr (Some bs) else Inl ''network.bootstrap must use host:port'')"
    if "nw_bootstrap n = Some bs" for bs
  proof -
    have "all_ok (map (parse_bootstrap_text ''network.bootstrap'' \<circ> bootstrap_text) bs) =
      (if \<forall>hp \<in> set bs. plain_host hp then Inr bs else Inl (''network.bootstrap'' @ '' must use host:port''))"
      using assms that by (intro all_ok_one_error) (auto simp: network_ok_def bootstrap_text_parse)
    with that show ?thesis
      by (simp add: toml_bootstrap_def string_entries_def parseBootstrapValues_def plain_hosts_def comp_def)
  qed
  have undefined: "js_route r \<noteq> JUndefined" for r by (simp add: js_route_def)
  show ?thesis
  proof (cases "nw_bootstrap n")
    case None
    then show ?thesis
      by (cases "nw_route n") (simp_all add: parseTomlNetwork_def toml_network_value_def toml_readers
          toml_bootstrap_def network_value_def plain_hosts_def route undefined)
  next
    case (Some bs)
    then have "bs \<noteq> []" using assms by (simp add: network_ok_def)
    with Some show ?thesis
      by (cases "nw_route n") (simp_all add: parseTomlNetwork_def toml_network_value_def toml_readers
          boot network_value_def route undefined)
  qed
qed

lemma parse_each_value: "(\<And>j x. x \<in> set xs \<Longrightarrow> f j (g x) = Inr (h x)) \<Longrightarrow> parse_each f i (map g xs) = Inr (map h xs)"
  by (induction xs arbitrary: i) simp_all

lemma toml_peers_parse: "parse_each toml_peer i (map toml_definition ps) = Inr (map definition_value ps)"
  by (intro parse_each_value) (simp add: toml_peer_def toml_definition_def definition_value_def toml_readers)

lemma toml_vpn_parse: "parseTomlVpn (toml_vpn_value v) = Inr (vpn_value v)"
proof -
  have "parse_each toml_vpn_peer 0 (map (\<lambda>p. JObj [(''peer'', JStr (vp_peer p)),
      (''address'', JStr (vp_address p)), (''allow_tcp'', js_grant (vp_allowTcp p))]) (vc_peers v)) =
    Inr (map vpn_peer_value (vc_peers v))"
    by (intro parse_each_value) (simp add: toml_vpn_peer_def vpn_peer_value_def toml_readers)
  then show ?thesis by (simp add: parseTomlVpn_def toml_vpn_value_def vpn_value_def toml_readers)
qed

definition serializable :: "peer_config \<Rightarrow> bool" where
  "serializable c \<longleftrightarrow> (case pc_network c of None \<Rightarrow> True | Some n \<Rightarrow> plain_hosts n)"

lemma toml_value_parse:
  assumes "config_ok c"
  shows "config_of_toml (toml_value c) =
    (if serializable c then Inr c else Inl ''network.bootstrap must use host:port'')"
proof -
  have tables: "toml_vpn_value v \<noteq> JUndefined" "toml_network_value n \<noteq> JUndefined" for v n
    by (simp_all add: toml_vpn_value_def toml_network_value_def)
  have vpn: "optional_field ''vpn'' parseTomlVpn (toml_vpn_value v) = Inr [(''vpn'', vpn_value v)]" for v
    by (simp add: optional_field_def tables toml_vpn_parse)
  have network: "optional_field ''network'' parseTomlNetwork (toml_network_value n) =
      (if serializable c then Inr [(''network'', network_value n)] else Inl ''network.bootstrap must use host:port'')"
    if "pc_network c = Some n" for n
    using assms that by (simp add: optional_field_def tables toml_network_parse config_ok_def serializable_def)
  have none: "optional_field name f JUndefined = Inr []" for name f by (simp add: optional_field_def)
  have "config_of_toml (toml_value c) =
    (if serializable c then parsePeerConfig (config_value c) else Inl ''network.bootstrap must use host:port'')"
    by (cases "pc_vpn c"; cases "pc_network c")
      (simp_all add: config_of_toml_def toml_value_def config_value_def toml_readers toml_peers_parse
        vpn network none, simp_all add: serializable_def)
  with config_value_parse [OF assms] show ?thesis by simp
qed

section \<open>The round trip\<close>

text \<open>
  C19: Provided the TOML library reads back the value it has printed, a configuration that is
  accepted is written as a text that reads back as the same configuration, unless a host of a
  bootstrap node has a colon; then writing fails.
\<close>

theorem serialize_roundtrip:
  assumes "parsePeerConfig v = Inr c" and "stringify (toml_value c) = Inr source"
    and "parse source = Inr (toml_value c)"
  shows "(if serializable c
          then serializeKeposConfig parse stringify v = Inr source \<and> parseKeposConfig parse source = Inr c
          else serializeKeposConfig parse stringify v = Inl ''network.bootstrap must use host:port'')"
  using assms toml_value_parse [OF parsePeerConfig_ok [OF assms(1)]]
  by (simp add: serializeKeposConfig_def parseKeposConfig_def)

definition ex_toml_config :: "string \<Rightarrow> peer_config" where
  "ex_toml_config host =
     \<lparr>pc_vpn = None, pc_network = Some \<lparr>nw_bootstrap = Some [(host, 49737)], nw_route = Some Public\<rparr>, pc_peers = []\<rparr>"

text \<open>A library that knows the one document that is needed.\<close>

definition ex_stringify :: "js \<Rightarrow> error + string" where
  "ex_stringify v = (if v = toml_value (ex_toml_config ''dht'') then Inr ''t'' else Inl ''unprintable'')"

definition ex_parse :: "string \<Rightarrow> error + js" where
  "ex_parse s = (if s = ''t'' then Inr (toml_value (ex_toml_config ''dht'')) else Inl ''Invalid TOML document'')"

lemma ex_toml_parse: "parsePeerConfig (config_value (ex_toml_config ''dht'')) = Inr (ex_toml_config ''dht'')"
  by (rule config_value_parse) (simp add: config_ok_def ex_toml_config_def network_ok_def)

lemma ex_serializable: "serializable (ex_toml_config ''dht'')"
  by (simp add: serializable_def plain_hosts_def plain_host_def ex_toml_config_def)

theorem serialize_roundtrip_witness:
  "serializeKeposConfig ex_parse ex_stringify (config_value (ex_toml_config ''dht'')) = Inr ''t'' \<and>
   parseKeposConfig ex_parse ''t'' = Inr (ex_toml_config ''dht'')"
  using serialize_roundtrip [OF ex_toml_parse, of ex_stringify "''t''" ex_parse] ex_serializable
  by (simp add: ex_stringify_def ex_parse_def)

lemma ex_serialize: "serializeKeposConfig ex_parse ex_stringify (config_value (ex_toml_config ''dht'')) = Inr ''t''"
  using toml_value_parse [OF parsePeerConfig_ok [OF ex_toml_parse]] ex_serializable
  by (simp add: serializeKeposConfig_def parseKeposConfig_def ex_toml_parse ex_stringify_def ex_parse_def)

text \<open>An IPv6 bootstrap node is accepted by \<open>parsePeerConfig\<close> and cannot be written.\<close>

lemma ipv6_bootstrap_unwritable:
  assumes "stringify (toml_value (ex_toml_config ''::1'')) = Inr s"
    and "parse s = Inr (toml_value (ex_toml_config ''::1''))"
  shows "serializeKeposConfig parse stringify (config_value (ex_toml_config ''::1'')) =
    Inl ''network.bootstrap must use host:port''"
proof -
  let ?c = "ex_toml_config ''::1''"
  have ok: "config_ok ?c" by (simp add: config_ok_def ex_toml_config_def network_ok_def)
  have "\<not> serializable ?c" by (simp add: serializable_def plain_hosts_def plain_host_def ex_toml_config_def)
  with assms toml_value_parse [OF ok] config_value_parse [OF ok] show ?thesis
    by (simp add: serializeKeposConfig_def parseKeposConfig_def)
qed

text \<open>A route is also accepted when it is given as an array of the one name.\<close>

lemma route_array_accepted:
  "config_of_toml (JObj [(''peers'', JArr []), (''network'', JObj [(''route'', JArr [JStr ''auto''])])]) =
   Inr \<lparr>pc_vpn = None, pc_network = Some \<lparr>nw_bootstrap = None, nw_route = Some Auto\<rparr>, pc_peers = []\<rparr>"
  by (simp add: config_of_toml_def toml_readers optional_field_def parseTomlNetwork_def toml_bootstrap_def
      parseRoute_def js_route_def parsePeerConfig_def isRecord_def rejectUnknownFields_def parse_optional_def
      parsePeerNetwork_def parsePeerRoute_def)

end
