(* ===== verification/App_Config.thy ===== *)
theory App_Config
  imports State_Files Config_Toml_Properties
begin

text \<open>
  The configuration file, \<open>src/app-config.ts\<close>.  \<open>parse\<close> and \<open>stringify\<close> are those of the TOML
  library.  The default path is \<open>defaultPath\<close>; a file that is missing there means that there is no
  configuration, at a path that was asked for it is a failure.
\<close>

definition missing_default :: "path option \<Rightarrow> failure \<Rightarrow> bool" where
  "missing_default configPath e \<longleftrightarrow> configPath = None \<and> fl_code e = Some ''ENOENT''"

definition readKeposConfigSource :: "path option \<Rightarrow> path \<Rightarrow> string option io" where
  "readKeposConfigSource configPath defaultPath =
     (let resolvedPath = (case configPath of None \<Rightarrow> defaultPath | Some p \<Rightarrow> p) in
      catch (seq (readFile resolvedPath) (\<lambda>s. return (Some s)))
        (\<lambda>e. if missing_default configPath e then return None
             else throw \<lparr>fl_message = ''Cannot read Kepos config: '' @ show_path resolvedPath,
                         fl_code = None, fl_cause = fl_code e\<rparr>))"

definition loadKeposConfig ::
  "(string \<Rightarrow> error + js) \<Rightarrow> path option \<Rightarrow> path \<Rightarrow> peer_config option io" where
  "loadKeposConfig parse configPath defaultPath =
     seq (readKeposConfigSource configPath defaultPath) (\<lambda>source.
       case source of
         None \<Rightarrow> return None
       | Some s \<Rightarrow> seq (of_result (parseKeposConfig parse s)) (\<lambda>c. return (Some c)))"

definition saveKeposConfig ::
  "(string \<Rightarrow> error + js) \<Rightarrow> (js \<Rightarrow> error + string) \<Rightarrow> js \<Rightarrow> path \<Rightarrow> unit io" where
  "saveKeposConfig parse stringify config configPath =
     seq (of_result (serializeKeposConfig parse stringify config)) (\<lambda>source.
     let directory = dirname configPath in
     seq (mkdir_recursive directory 448) (\<lambda>_.
     seq (mkdtemp directory ''.config-'') (\<lambda>temporaryDirectory.
       let temporaryPath = temporaryDirectory @ [''config.toml''] in
       finally_do
         (seq (writeFile temporaryPath source 384 True) (\<lambda>_. replaceFileAtomically temporaryPath configPath))
         (rm_recursive temporaryDirectory))))"

end
