(* ===== verification/Disk_Logic.thy ===== *)
theory Disk_Logic
  imports Disk
begin

text \<open>
  Triples for programs over the disk: a precondition, a postcondition for the value and one for the
  failure.  \<open>always P\<close> says that \<open>P\<close> holds now and held in every state the disk has been through,
  so that it also holds if the process dies at any moment.
\<close>

section \<open>Triples\<close>

definition triple ::
  "(disk \<Rightarrow> bool) \<Rightarrow> 'a io \<Rightarrow> ('a \<Rightarrow> disk \<Rightarrow> bool) \<Rightarrow> (failure \<Rightarrow> disk \<Rightarrow> bool) \<Rightarrow> bool" where
  "triple P m Q E \<longleftrightarrow>
     (\<forall>d. P d \<longrightarrow> (case m d of (Inl e, d') \<Rightarrow> E e d' | (Inr x, d') \<Rightarrow> Q x d'))"

named_theorems triple_rules

lemma tripleI: "(\<And>d. P d \<Longrightarrow> case m d of (Inl e, d') \<Rightarrow> E e d' | (Inr x, d') \<Rightarrow> Q x d') \<Longrightarrow> triple P m Q E"
  by (simp add: triple_def)

lemma triple_InrD: "triple P m Q E \<Longrightarrow> P d \<Longrightarrow> m d = (Inr x, d') \<Longrightarrow> Q x d'"
  by (fastforce simp: triple_def)

lemma triple_InlD: "triple P m Q E \<Longrightarrow> P d \<Longrightarrow> m d = (Inl e, d') \<Longrightarrow> E e d'"
  by (fastforce simp: triple_def)

lemma triple_conseq:
  "triple P m Q E \<Longrightarrow> (\<And>d. P' d \<Longrightarrow> P d) \<Longrightarrow> (\<And>x d. Q x d \<Longrightarrow> Q' x d) \<Longrightarrow> (\<And>e d. E e d \<Longrightarrow> E' e d) \<Longrightarrow>
   triple P' m Q' E'"
  by (force simp: triple_def split: prod.splits sum.splits)

lemma triple_return [triple_rules]: "triple (Q x) (return x) Q E"
  by (simp add: triple_def return_def)

lemma triple_throw [triple_rules]: "triple (E e) (throw e) Q E"
  by (simp add: triple_def throw_def)

lemma triple_seq [triple_rules]:
  assumes "triple P m Q E" and "\<And>x. triple (Q x) (f x) R E"
  shows "triple P (seq m f) R E"
proof (rule tripleI)
  fix d assume d: "P d"
  obtain r d1 where m: "m d = (r, d1)" by fastforce
  show "case seq m f d of (Inl e, d') \<Rightarrow> E e d' | (Inr x, d') \<Rightarrow> R x d'"
  proof (cases r)
    case (Inl e)
    with triple_InlD [OF assms(1) d] m show ?thesis by (simp add: seq_def)
  next
    case (Inr x)
    with triple_InrD [OF assms(1) d] m have "Q x d1" by simp
    with assms(2) [of x] m Inr show ?thesis by (simp add: triple_def seq_def)
  qed
qed

lemma triple_catch [triple_rules]:
  assumes "triple P m Q E'" and "\<And>e. triple (E' e) (h e) Q E"
  shows "triple P (catch m h) Q E"
proof (rule tripleI)
  fix d assume d: "P d"
  obtain r d1 where m: "m d = (r, d1)" by fastforce
  show "case catch m h d of (Inl e, d') \<Rightarrow> E e d' | (Inr x, d') \<Rightarrow> Q x d'"
  proof (cases r)
    case (Inr x)
    with triple_InrD [OF assms(1) d] m show ?thesis by (simp add: catch_def)
  next
    case (Inl e)
    with triple_InlD [OF assms(1) d] m have "E' e d1" by simp
    with assms(2) [of e] m Inl show ?thesis by (simp add: triple_def catch_def)
  qed
qed

lemma triple_finally [triple_rules]:
  assumes "triple P m Q E'" and "\<And>x. triple (Q x) c (\<lambda>_. R x) E" and "\<And>e. triple (E' e) c (\<lambda>_. E e) E"
  shows "triple P (finally_do m c) R E"
proof (rule tripleI)
  fix d assume d: "P d"
  obtain r d1 r' d2 where m: "m d = (r, d1)" "c d1 = (r', d2)" by (metis surj_pair)
  show "case finally_do m c d of (Inl e, d') \<Rightarrow> E e d' | (Inr x, d') \<Rightarrow> R x d'"
  proof (cases r)
    case (Inr x)
    with triple_InrD [OF assms(1) d] m have "Q x d1" by simp
    with triple_InrD [OF assms(2) this] triple_InlD [OF assms(2) this] m Inr show ?thesis
      by (cases r') (simp_all add: finally_do_def)
  next
    case (Inl e)
    with triple_InlD [OF assms(1) d] m have "E' e d1" by simp
    with triple_InrD [OF assms(3) this] triple_InlD [OF assms(3) this] m Inl show ?thesis
      by (cases r') (simp_all add: finally_do_def)
  qed
qed

lemma triple_each [triple_rules]:
  "(\<And>x. x \<in> set xs \<Longrightarrow> triple I (f x) (\<lambda>_. I) E) \<Longrightarrow> triple I (each f xs) (\<lambda>_. I) E"
  by (induction xs) (auto intro!: triple_return triple_seq)

lemma triple_of_result:
  "(\<And>d. P d \<Longrightarrow> case r of Inl e \<Rightarrow> E (failure_of e) d | Inr x \<Rightarrow> Q x d) \<Longrightarrow> triple P (of_result r) Q E"
  by (cases r) (auto simp: triple_def of_result_def throw_def return_def)

text \<open>The failures to come are no part of what the programs are about.\<close>

definition stable :: "(disk \<Rightarrow> bool) \<Rightarrow> bool" where
  "stable P \<longleftrightarrow> (\<forall>d fs. P d \<longrightarrow> P (d\<lparr>dk_faults := fs\<rparr>))"

lemma fault_shape: "fault d = (r, d1) \<Longrightarrow> \<exists>fs. d1 = d\<lparr>dk_faults := fs\<rparr>"
proof (cases "dk_faults d")
  case Nil
  assume "fault d = (r, d1)"
  with Nil have "d1 = d\<lparr>dk_faults := dk_faults d\<rparr>" by (simp add: fault_def)
  then show ?thesis ..
qed (auto simp: fault_def)

lemma triple_calling:
  assumes "stable P" and "triple P m Q E" and "\<And>f d. P d \<Longrightarrow> E f d"
  shows "triple P (calling m) Q E"
proof (rule tripleI)
  fix d assume d: "P d"
  obtain r d1 where f: "fault d = (r, d1)" by fastforce
  with assms(1) d fault_shape [OF f] have "P d1" by (auto simp: stable_def)
  with assms(2,3) f show "case calling m d of (Inl e, d') \<Rightarrow> E e d' | (Inr x, d') \<Rightarrow> Q x d'"
    by (cases r) (auto simp: calling_def triple_def)
qed

section \<open>What always holds\<close>

definition always :: "(files \<Rightarrow> bool) \<Rightarrow> disk \<Rightarrow> bool" where
  "always P d \<longleftrightarrow> P (dk_files d) \<and> (\<forall>fs \<in> set (dk_past d). P fs)"

lemma always_mutate [simp]: "always P (mutate fs d) \<longleftrightarrow> P fs \<and> always P d"
  by (auto simp: always_def mutate_def)

lemma mutate_simps [simp]:
  "dk_files (mutate fs d) = fs" "dk_suffix (mutate fs d) = dk_suffix d" "dk_faults (mutate fs d) = dk_faults d"
  "entry_at (mutate fs d) p = map_get fs p"
  by (simp_all add: mutate_def entry_at_def)

lemma always_faults [simp]: "always P (d\<lparr>dk_faults := fs\<rparr>) = always P d"
  by (simp add: always_def)

lemma entry_at_faults [simp]: "entry_at (d\<lparr>dk_faults := fs\<rparr>) p = entry_at d p"
  by (simp add: entry_at_def)

text \<open>A fact about the entries below a path, and what leaves all of them alone.\<close>

definition about :: "path \<Rightarrow> (files \<Rightarrow> bool) \<Rightarrow> bool" where
  "about p P \<longleftrightarrow> (\<forall>fs fs'. (\<forall>q. below p q \<longrightarrow> map_get fs q = map_get fs' q) \<longrightarrow> P fs \<longrightarrow> P fs')"

lemma aboutD: "about p P \<Longrightarrow> P fs \<Longrightarrow> (\<And>q. below p q \<Longrightarrow> map_get fs' q = map_get fs q) \<Longrightarrow> P fs'"
  unfolding about_def by metis

lemma below_refl [simp]: "below p p"
  by (simp add: below_def starts_with_def)

lemma below_append [simp]: "below p (p @ q)"
  by (simp add: below_def)

lemma belowD: "below p q \<Longrightarrow> q = p @ drop (length p) q"
  unfolding below_def by (rule starts_withD)

lemma below_trans: "below p q \<Longrightarrow> below q r \<Longrightarrow> below p r"
  by (metis append.assoc below_append belowD)

lemma below_sibling: "below (p @ [a]) (p @ b # r) \<longleftrightarrow> a = b"
  by (auto simp: below_def starts_with_def)

lemma siblings:
  assumes "a \<noteq> b"
  shows "\<not> below (D @ [a]) (D @ [b])" "\<not> below (D @ [a]) ((D @ [b]) @ r)" "(D @ [b]) @ r \<noteq> D @ [a]"
    "\<not> below (D @ [a]) D"
  using assms below_sibling [of D a b] by (auto simp: below_def starts_with_def)

lemma map_get_removed: "map_get (removed p fs) q = (if below p q then None else map_get fs q)"
  by (induction fs) (auto simp: removed_def)

lemma map_get_set: "map_get (map_set p e fs) q = (if q = p then Some e else map_get fs q)"
  by (simp add: update_conv)

lemma map_get_delete: "map_get (map_delete p fs) q = (if q = p then None else map_get fs q)"
  by (simp add: delete_conv)

text \<open>A directory that is moved, between places that are not inside each other.\<close>

lemma map_get_moved:
  assumes "\<not> below src dst" and "\<not> below dst src"
  shows "map_get (moved src dst fs) q =
    (if below dst q then map_get fs (src @ drop (length dst) q) else if below src q then None else map_get fs q)"
proof -
  have sub: "\<not> below dst (src @ r)" for r
  proof
    assume b: "below dst (src @ r)"
    show False
    proof (cases "length dst \<le> length src")
      case True
      with b assms(2) show False by (simp add: below_def starts_with_def)
    next
      case False
      with b have "dst = src @ take (length dst - length src) r" by (simp add: below_def starts_with_def)
      with assms(1) below_append show False by metis
    qed
  qed
  have eq: "relocate src dst x = q \<longleftrightarrow> x = src @ drop (length dst) q"
    if "below dst q" "\<not> below dst x" for x
    using that belowD [of src x] belowD [of dst q] by (auto simp: relocate_def)
  have other: "relocate src dst x = q \<longleftrightarrow> x = q \<and> \<not> below src q" if "\<not> below dst q" "\<not> below dst x" for x
    using that by (auto simp: relocate_def)
  show ?thesis
  proof (induction fs)
    case (Cons a fs)
    obtain x e where a: "a = (x, e)" by fastforce
    show ?case
    proof (cases "below dst x")
      case True
      then have "src @ r \<noteq> x" for r using sub by auto
      with True Cons show ?thesis by (auto simp: moved_def a)
    next
      case False
      with Cons show ?thesis
        using eq [OF _ False] other [OF _ False] by (auto simp: moved_def a)
    qed
  qed (simp add: moved_def)
qed

end
