(* ===== verification/Disk_Steps.thy ===== *)
theory Disk_Steps
  imports Disk_Logic State_Files
begin

text \<open>
  Triples of the single calls, for facts about what lies below one path, and of the checks and
  writers of \<open>State_Files\<close>.
\<close>

section \<open>Calls that only read\<close>

definition safe :: "(files \<Rightarrow> bool) \<Rightarrow> string \<Rightarrow> disk \<Rightarrow> bool" where
  "safe P s d \<longleftrightarrow> always P d \<and> dk_suffix d = s"

lemma stable_safe [simp]: "stable (safe P s)"
  by (simp add: stable_def safe_def)

lemma stable_conj: "stable P \<Longrightarrow> stable Q \<Longrightarrow> stable (\<lambda>d. P d \<and> Q d)"
  by (simp add: stable_def)

lemma stable_files [simp]: "stable (\<lambda>d. P (dk_files d))" "stable (\<lambda>d. Q (entry_at d p))"
  by (simp_all add: stable_def)

lemma triple_lstat [triple_rules]:
  "stable I \<Longrightarrow> triple I (lstat q) (\<lambda>e d. I d \<and> entry_at d q = Some e) (\<lambda>_. I)"
  unfolding lstat_def by (rule triple_calling) (auto simp: triple_def split: option.splits)

lemma triple_readdir [triple_rules]:
  "stable I \<Longrightarrow> triple I (readdir q) (\<lambda>names d. I d \<and> names = names_in (dk_files d) q) (\<lambda>_. I)"
  unfolding readdir_def by (rule triple_calling) (auto simp: triple_def split: option.splits entry.splits)

lemma triple_readFile [triple_rules]: "stable I \<Longrightarrow> triple I (readFile q) (\<lambda>_. I) (\<lambda>_. I)"
  unfolding readFile_def by (rule triple_calling) (auto simp: triple_def split: option.splits entry.splits)

section \<open>Calls beside a path\<close>

lemma safe_mutate: "safe P s d \<Longrightarrow> P fs \<Longrightarrow> safe P s (mutate fs d)"
  by (simp add: safe_def)

lemma safe_now: "safe P s d \<Longrightarrow> P (dk_files d)"
  by (simp add: safe_def always_def)

lemma safe_beside:
  assumes "about p P" and "safe P s d" and "\<And>q. below p q \<Longrightarrow> map_get fs q = entry_at d q"
  shows "safe P s (mutate fs d)"
  using assms(2) by (rule safe_mutate) (rule aboutD [OF assms(1) safe_now [OF assms(2)]], simp add: assms(3) entry_at_def)

lemma safe_set:
  "about p P \<Longrightarrow> safe P s d \<Longrightarrow> \<not> below p q \<Longrightarrow> safe P s (mutate (map_set q e (dk_files d)) d)"
  by (erule safe_beside) (auto simp: map_get_set entry_at_def)

lemma ancestors_below: "a \<in> set (ancestors done rest) \<Longrightarrow> below a (done @ rest)"
proof (induction "done" rest rule: ancestors.induct)
  case (2 "done" name rest)
  then show ?case by (auto simp: below_trans)
qed simp

lemma triple_mkdir_recursive:
  assumes "about p P" and "\<not> below p q"
  shows "triple (safe P s) (mkdir_recursive q mode) (\<lambda>_. safe P s) (\<lambda>_. safe P s)"
proof -
  have "triple (safe P s) (make_missing mode as) (\<lambda>_. safe P s) (\<lambda>_. safe P s)"
    if "\<forall>a \<in> set as. \<not> below p a" for as
    using that
  proof (induction as)
    case (Cons a as)
    then have ih: "triple (safe P s) (make_missing mode as) (\<lambda>_. safe P s) (\<lambda>_. safe P s)" by simp
    show ?case
    proof (rule tripleI)
      fix d assume d: "safe P s d"
      then have "safe P s (mutate (map_set a (Directory mode) (dk_files d)) d)"
        using Cons.prems assms(1) by (simp add: safe_set)
      with ih d show "case make_missing mode (a # as) d of (Inl e, d') \<Rightarrow> safe P s d' | (Inr x, d') \<Rightarrow> safe P s d'"
        by (auto simp: triple_def split: option.splits entry.splits)
    qed
  qed (simp add: triple_def return_def)
  moreover have "\<forall>a \<in> set (ancestors [] q). \<not> below p a"
    using ancestors_below [of _ "[]" q] assms(2) below_trans by auto
  ultimately show ?thesis
    unfolding mkdir_recursive_def by (intro triple_calling) auto
qed

lemma triple_mkdtemp:
  assumes "about p P" and "\<not> below p (parent @ [prefix @ s])"
  shows "triple (safe P s) (mkdtemp parent prefix)
    (\<lambda>t d. t = parent @ [prefix @ s] \<and> safe P s d \<and> entry_at d t = Some (Directory 448)) (\<lambda>_. safe P s)"
  unfolding mkdtemp_def
proof (rule triple_calling)
  show "triple (safe P s) (\<lambda>d. let p = parent @ [prefix @ dk_suffix d] in
     if \<not> is_directory (entry_at d parent) then (Inl (io_error ''ENOENT''), d)
     else if entry_at d p \<noteq> None then (Inl (io_error ''EEXIST''), d)
     else (Inr p, mutate (map_set p (Directory 448) (dk_files d)) d))
    (\<lambda>t d. t = parent @ [prefix @ s] \<and> safe P s d \<and> entry_at d t = Some (Directory 448)) (\<lambda>_. safe P s)"
  proof (rule tripleI)
    fix d assume d: "safe P s d"
    with assms safe_set [OF assms(1) d assms(2)] have s: "dk_suffix d = s" by (simp add: safe_def)
    from safe_set [OF assms(1) d assms(2), of "Directory 448"] d
    show "case let p = parent @ [prefix @ dk_suffix d] in
       if \<not> is_directory (entry_at d parent) then (Inl (io_error ''ENOENT''), d)
       else if entry_at d p \<noteq> None then (Inl (io_error ''EEXIST''), d)
       else (Inr p, mutate (map_set p (Directory 448) (dk_files d)) d) of
      (Inl e, d') \<Rightarrow> safe P s d'
      | (Inr t, d') \<Rightarrow> t = parent @ [prefix @ s] \<and> safe P s d' \<and> entry_at d' t = Some (Directory 448)"
      by (simp add: Let_def s map_get_set)
  qed
qed simp_all

lemma triple_chmod:
  assumes "about p P" and "\<not> below p q"
  shows "triple (\<lambda>d. safe P s d \<and> is_directory (entry_at d q)) (chmod q mode)
    (\<lambda>_ d. safe P s d \<and> entry_at d q = Some (Directory mode)) (\<lambda>_. safe P s)"
  unfolding chmod_def
  by (rule triple_calling [OF stable_conj [OF stable_safe stable_files(2)]])
    (auto simp: triple_def is_directory_def map_get_set safe_set [OF assms(1) _ assms(2)]
      split: option.splits entry.splits)

text \<open>A file that is written: its contents in the end, and all other entries as they were.\<close>

lemma writeFile_Inr:
  assumes "writeFile q contents mode exclusive d = (Inr (), d')"
  shows "\<exists>m. entry_at d' q = Some (File contents m) \<and> (exclusive \<longrightarrow> m = mode) \<and>
    (\<forall>r. r \<noteq> q \<longrightarrow> entry_at d' r = entry_at d r)"
  using assms
  by (auto simp: writeFile_def calling_def Let_def map_get_set entry_at_def
      dest!: fault_shape split: prod.splits option.splits if_splits entry.splits)

lemma triple_writeFile:
  assumes "about p P" and "\<not> below p q"
  shows "triple (safe P s) (writeFile q contents mode exclusive) (\<lambda>_. safe P s) (\<lambda>_. safe P s)"
  unfolding writeFile_def
proof (rule triple_calling)
  have opened: "safe P s d \<Longrightarrow> fault (mutate (map_set q e (dk_files d)) d) = (r, d1) \<Longrightarrow>
      safe P s d1 \<and> safe P s (mutate (map_set q e' (dk_files d1)) d1)" for d e r d1 e'
    using safe_set [OF assms(1) _ assms(2), of s] by (force dest!: fault_shape simp: safe_def)
  show "triple (safe P s) (\<lambda>d.
     if \<not> is_directory (entry_at d (butlast q)) then (Inl (io_error ''ENOENT''), d)
     else if exclusive \<and> entry_at d q \<noteq> None then (Inl (io_error ''EEXIST''), d)
     else
       (case (case entry_at d q of None \<Rightarrow> Some mode | Some (File _ m) \<Rightarrow> Some m | _ \<Rightarrow> None) of
          None \<Rightarrow> (Inl (io_error ''EISDIR''), d)
        | Some m \<Rightarrow>
            (let opened = mutate (map_set q (File [] m) (dk_files d)) d in
             case fault opened of
               (Some f, d1) \<Rightarrow>
                 (Inl (ft_failure f),
                  mutate (map_set q (File (take (ft_written f) contents) m) (dk_files d1)) d1)
             | (None, d1) \<Rightarrow> (Inr (), mutate (map_set q (File contents m) (dk_files d1)) d1))))
    (\<lambda>_. safe P s) (\<lambda>_. safe P s)"
    by (rule tripleI) (auto simp: Let_def dest: opened split: prod.splits option.splits)
qed simp_all

lemma triple_rm_recursive:
  assumes "about p P" and "\<not> below p q" and "\<not> below q p"
  shows "triple (safe P s) (rm_recursive q) (\<lambda>_. safe P s) (\<lambda>_. safe P s)"
proof -
  have "\<not> below q r" if "below p r" for r
    using that assms(2,3) by (metis append_eq_append_conv2 below_append belowD)
  then have "safe P s (mutate (removed q (dk_files d)) d)" if "safe P s d" for d
    using that by (intro safe_beside [OF assms(1)]) (simp_all add: map_get_removed entry_at_def)
  then show ?thesis unfolding rm_recursive_def by (intro triple_calling) (auto simp: triple_def)
qed

lemma triple_learn:
  "triple P m Q E \<Longrightarrow> (\<And>d x d'. m d = (Inr x, d') \<Longrightarrow> R x d') \<Longrightarrow> triple P m (\<lambda>x d. Q x d \<and> R x d) E"
  by (fastforce simp: triple_def split: prod.splits sum.splits)

lemma rm_recursive_Inr:
  "rm_recursive q d = (Inr (), d') \<Longrightarrow> \<forall>r. entry_at d' r = (if below q r then None else entry_at d r)"
  by (auto simp: rm_recursive_def calling_def entry_at_def map_get_removed dest!: fault_shape
      split: prod.splits option.splits)

lemma triple_rm_keeps:
  assumes "about p P" and "\<not> below p q" and "\<not> below q p"
  shows "triple (\<lambda>d. safe P s d \<and> entry_at d p = e) (rm_recursive q)
    (\<lambda>_ d. safe P s d \<and> entry_at d p = e \<and> (\<forall>r. below q r \<longrightarrow> entry_at d r = None)) (\<lambda>_. safe P s)"
proof (rule tripleI)
  fix d assume d: "safe P s d \<and> entry_at d p = e"
  obtain r d' where r: "rm_recursive q d = (r, d')" by fastforce
  note rm = triple_rm_recursive [OF assms, of s]
  show "case rm_recursive q d of (Inl f, d') \<Rightarrow> safe P s d'
    | (Inr x, d') \<Rightarrow> safe P s d' \<and> entry_at d' p = e \<and> (\<forall>r. below q r \<longrightarrow> entry_at d' r = None)"
  proof (cases r)
    case (Inl f)
    with triple_InlD [OF rm conjunct1 [OF d]] r show ?thesis by simp
  next
    case (Inr u)
    with triple_InrD [OF rm conjunct1 [OF d]] rm_recursive_Inr [of q d d'] d r assms(3) show ?thesis by simp
  qed
qed

text \<open>A file that takes the place of another.\<close>

lemma triple_replace:
  assumes "\<And>fs. map_get fs p = Some (File contents m) \<Longrightarrow> P fs" and "src \<noteq> p"
  shows "triple (\<lambda>d. safe P s d \<and> entry_at d src = Some (File contents m)) (replaceFileAtomically src p)
    (\<lambda>_ d. safe P s d \<and> entry_at d p = Some (File contents m)) (\<lambda>_. safe P s)"
  unfolding replaceFileAtomically_def rename_def
  by (rule triple_calling [OF stable_conj [OF stable_safe stable_files(2)]])
    (auto simp: triple_def map_get_set assms(1) intro!: safe_mutate split: option.splits entry.splits)

text \<open>The calls as functions, to run them on a concrete disk.\<close>

lemmas disk_calls =
  calling_def fault_def mutate_def entry_at_def seq_def catch_def finally_do_def return_def throw_def of_result_def
  lstat_def readdir_def names_in_def mkdir_recursive_def mkdtemp_def chmod_def writeFile_def readFile_def
  rename_def moved_def relocate_def removed_def rm_recursive_def is_directory_def dirname_def basename_def
  replaceFileAtomically_def below_def starts_with_def

end
