(* ===== verification/App_Config_Properties.thy ===== *)
theory App_Config_Properties
  imports App_Config Disk_Steps
begin

text \<open>
  Saving a configuration replaces the file in one step: whatever call fails, and whenever the
  process dies, the file is the old or the new one.
\<close>

definition config_written :: "path \<Rightarrow> string \<Rightarrow> path" where
  "config_written configPath s = dirname configPath @ [''.config-'' @ s]"

lemma saveKeposConfig_triple:
  assumes "configPath \<noteq> []" and "last configPath \<noteq> ''.config-'' @ s"
    and "about configPath P" and "\<And>fs. map_get fs configPath = Some (File source 384) \<Longrightarrow> P fs"
    and "serializeKeposConfig parse stringify config = Inr source"
  shows "triple (safe P s) (saveKeposConfig parse stringify config configPath)
    (\<lambda>_ d. safe P s d \<and> entry_at d configPath = Some (File source 384) \<and>
       (\<forall>r. below (config_written configPath s) r \<longrightarrow> entry_at d r = None)) (\<lambda>_. safe P s)"
proof -
  let ?p = configPath and ?tmp = "config_written configPath s"
  let ?file = "?tmp @ [''config.toml'']"
  obtain D a where p: "?p = D @ [a]" using assms(1) by (metis rev_exhaust)
  then have ab: "a \<noteq> ''.config-'' @ s" and tmp: "?tmp = D @ [''.config-'' @ s]" and D: "dirname ?p = D"
    using assms(2) by (simp_all add: config_written_def dirname_def)
  have beside: "\<not> below ?p ?tmp" "\<not> below ?tmp ?p" "\<not> below ?p ?file" "\<not> below ?p (dirname ?p)" "?file \<noteq> ?p"
    unfolding tmp D unfolding p using siblings [OF ab] siblings [OF ab [symmetric]] by blast+
  have "triple (safe P s) (writeFile ?file source 384 True)
      (\<lambda>_ d. safe P s d \<and> entry_at d ?file = Some (File source 384)) (\<lambda>_. safe P s)"
    using triple_learn [OF triple_writeFile [OF assms(3) beside(3)], of source 384 True
        "\<lambda>_ d. entry_at d ?file = Some (File source 384)"] writeFile_Inr by fastforce
  then have body: "triple (safe P s)
      (seq (writeFile ?file source 384 True) (\<lambda>_. replaceFileAtomically ?file ?p))
      (\<lambda>_ d. safe P s d \<and> entry_at d ?p = Some (File source 384)) (\<lambda>_. safe P s)"
    by (rule triple_seq) (rule triple_replace [OF assms(4) beside(5)])
  have whole: "triple (safe P s) (finally_do
        (seq (writeFile ?file source 384 True) (\<lambda>_. replaceFileAtomically ?file ?p)) (rm_recursive ?tmp))
      (\<lambda>_ d. safe P s d \<and> entry_at d ?p = Some (File source 384) \<and> (\<forall>r. below ?tmp r \<longrightarrow> entry_at d r = None))
      (\<lambda>_. safe P s)"
    by (rule triple_finally [OF body triple_rm_keeps [OF assms(3) beside(1,2)]
          triple_rm_recursive [OF assms(3) beside(1,2)]])
  have named: "triple (\<lambda>d. t = ?tmp \<and> safe P s d \<and> entry_at d t = Some (Directory 448))
      (let temporaryPath = t @ [''config.toml''] in
       finally_do (seq (writeFile temporaryPath source 384 True) (\<lambda>_. replaceFileAtomically temporaryPath ?p))
         (rm_recursive t))
      (\<lambda>_ d. safe P s d \<and> entry_at d ?p = Some (File source 384) \<and> (\<forall>r. below ?tmp r \<longrightarrow> entry_at d r = None))
      (\<lambda>_. safe P s)" for t
  proof (cases "t = ?tmp")
    case True
    show ?thesis unfolding True Let_def by (rule triple_conseq [OF whole]) auto
  qed (simp add: triple_def)
  have "triple (safe P s) (seq (mkdir_recursive (dirname ?p) 448) (\<lambda>_.
      seq (mkdtemp (dirname ?p) ''.config-'') (\<lambda>t. let temporaryPath = t @ [''config.toml''] in
       finally_do (seq (writeFile temporaryPath source 384 True) (\<lambda>_. replaceFileAtomically temporaryPath ?p))
         (rm_recursive t))))
      (\<lambda>_ d. safe P s d \<and> entry_at d ?p = Some (File source 384) \<and> (\<forall>r. below ?tmp r \<longrightarrow> entry_at d r = None))
      (\<lambda>_. safe P s)"
    by (rule triple_seq [OF triple_mkdir_recursive [OF assms(3) beside(4)]],
        rule triple_seq [OF triple_mkdtemp [OF assms(3)]],
        use beside(1) in \<open>simp add: config_written_def\<close>,
        use named in \<open>simp add: config_written_def\<close>)
  then show ?thesis
    by (simp add: saveKeposConfig_def assms(5) of_result_def seq_def return_def Let_def triple_def)
qed

text \<open>
  C15: In every state that the disk goes through while a configuration is saved, whichever calls
  fail, the file has its old entry or exactly the new text, private to the user; a save that
  reports success has left the new text and nothing of the temporary directory.
\<close>

theorem save_is_atomic:
  assumes "saveKeposConfig parse stringify config configPath d = (r, d')" and "dk_past d = []"
    and "configPath \<noteq> []" and "last configPath \<noteq> ''.config-'' @ dk_suffix d"
  shows "case serializeKeposConfig parse stringify config of
      Inl e \<Rightarrow> r = Inl (failure_of e) \<and> d' = d
    | Inr source \<Rightarrow>
        (\<forall>fs \<in> set (dk_files d' # dk_past d').
           map_get fs configPath \<in> {entry_at d configPath, Some (File source 384)}) \<and>
        (r = Inr () \<longrightarrow> entry_at d' configPath = Some (File source 384) \<and>
           (\<forall>q. below (config_written configPath (dk_suffix d)) q \<longrightarrow> entry_at d' q = None))"
proof (cases "serializeKeposConfig parse stringify config")
  case (Inl e)
  with assms(1) show ?thesis
    by (simp add: saveKeposConfig_def of_result_def seq_def throw_def)
next
  case (Inr source)
  let ?P = "\<lambda>fs. map_get fs configPath \<in> {entry_at d configPath, Some (File source 384)}"
  have "about configPath ?P" unfolding about_def by (metis below_refl)
  note t = saveKeposConfig_triple [OF assms(3,4) this _ Inr]
  have d: "safe ?P (dk_suffix d) d" using assms(2) by (simp add: safe_def always_def entry_at_def)
  show ?thesis
  proof (cases r)
    case (Inl e)
    from triple_InlD [OF t d] assms(1) Inl Inr show ?thesis by (simp add: safe_def always_def)
  next
    case ok: (Inr u)
    from triple_InrD [OF t d] assms(1) ok Inr show ?thesis by (simp add: safe_def always_def)
  qed
qed

definition ex_disk :: disk where
  "ex_disk = \<lparr>dk_files = [([], Directory 493), ([''c''], File ''old'' 384)], dk_past = [], dk_faults = [], dk_suffix = ''x''\<rparr>"

lemma ex_save:
  "\<exists>d'. saveKeposConfig ex_parse ex_stringify (config_value (ex_toml_config ''dht'')) [''c''] ex_disk = (Inr (), d')"
  by (simp add: saveKeposConfig_def ex_serialize disk_calls ex_disk_def Let_def)

theorem save_is_atomic_witness:
  "\<exists>d'. saveKeposConfig ex_parse ex_stringify (config_value (ex_toml_config ''dht'')) [''c''] ex_disk = (Inr (), d') \<and>
     entry_at d' [''c''] = Some (File ''t'' 384)"
proof -
  obtain d' where d': "saveKeposConfig ex_parse ex_stringify (config_value (ex_toml_config ''dht'')) [''c''] ex_disk = (Inr (), d')"
    using ex_save by blast
  have "dk_past ex_disk = []" and "last [''c''] \<noteq> ''.config-'' @ dk_suffix ex_disk" by (simp_all add: ex_disk_def)
  from save_is_atomic [OF d' this(1) _ this(2)] d' show ?thesis by (simp add: ex_serialize)
qed

end
