(* ===== verification/Peer_State.thy ===== *)
theory Peer_State
  imports State_Files
begin

text \<open>
  The identity of a peer: keys, \<open>src/keys.ts\<close>, and the state directory with the seed,
  \<open>src/state/peer.ts\<close>.  \<open>keyPair\<close> is \<open>HyperDHT.keyPair\<close>, which makes a public and a secret key
  from a seed; the random bytes are an argument.
\<close>

section \<open>Hexadecimal texts\<close>

definition hex_digit :: "nat \<Rightarrow> char" where
  "hex_digit n = (if n < 10 then char_of (48 + n) else char_of (87 + n))"

definition hex_encode :: "bytes \<Rightarrow> string" where
  "hex_encode bs = concat (map (\<lambda>b. [hex_digit (unat b div 16), hex_digit (unat b mod 16)]) bs)"

definition nibble :: "char \<Rightarrow> nat" where
  "nibble c = (if is_digit c then of_char c - 48 else of_char c - 87)"

fun hex_decode :: "string \<Rightarrow> bytes" where
  "hex_decode (a # b # s) = of_nat (16 * nibble a + nibble b) # hex_decode s"
| "hex_decode s = []"

section \<open>Keys\<close>

type_synonym key_maker = "bytes \<Rightarrow> bytes \<times> bytes"

definition deriveKeyPair :: "key_maker \<Rightarrow> bytes \<Rightarrow> error + bytes \<times> bytes" where
  "deriveKeyPair keyPair seed =
     (let (publicKey, secretKey) = keyPair seed in
      if length publicKey \<noteq> 32 \<or> length secretKey \<noteq> 64 then Inl ''HyperDHT returned an invalid keypair''
      else Inr (publicKey, secretKey))"

definition generatePeerSeed :: "bytes \<Rightarrow> string" where
  "generatePeerSeed random = hex_encode random"

definition derivePeerPublicKey :: "key_maker \<Rightarrow> string \<Rightarrow> error + string" where
  "derivePeerPublicKey keyPair seed =
     (if \<not> key_hex seed then Inl ''peer seed must be 32 bytes of lowercase hex''
      else
        (case deriveKeyPair keyPair (hex_decode seed) of
           Inl e \<Rightarrow> Inl e
         | Inr (publicKey, _) \<Rightarrow> Inr (hex_encode publicKey)))"

section \<open>The identity\<close>

definition identityFileName :: string where "identityFileName = ''peer.json''"

definition parsePeerIdentity :: "js \<Rightarrow> error + string" where
  "parsePeerIdentity value =
     (case value of
        JObj ps \<Rightarrow>
          if \<exists>key \<in> set (map_keys ps). key \<noteq> ''seed'' then Inl ''peer identity must be an object with only seed''
          else
            (case prop_of ps ''seed'' of
               JStr seed \<Rightarrow>
                 if key_hex seed then Inr seed
                 else Inl ''peer identity seed must be 32 bytes of lowercase hex''
             | _ \<Rightarrow> Inl ''peer identity seed must be 32 bytes of lowercase hex'')
      | _ \<Rightarrow> Inl ''peer identity must be an object with only seed'')"

text \<open>\<open>JSON.stringify(parsed, null, 2)\<close> of the one field, which needs no escapes, and a newline.\<close>

definition identity_text :: "string \<Rightarrow> string" where
  "identity_text seed =
     [CHR ''{'', CHR 0x0A, CHR '' '', CHR '' '', CHR 0x22] @ ''seed'' @ [CHR 0x22, CHR '':'', CHR '' '', CHR 0x22] @
     seed @ [CHR 0x22, CHR 0x0A, CHR ''}'', CHR 0x0A]"

definition serializePeerIdentity :: "string \<Rightarrow> error + string" where
  "serializePeerIdentity seed =
     (case parsePeerIdentity (JObj [(''seed'', JStr seed)]) of
        Inl e \<Rightarrow> Inl e
      | Inr parsed \<Rightarrow> Inr (identity_text parsed))"

section \<open>The state directory\<close>

definition loadPeerIdentity :: "bool \<Rightarrow> (string \<Rightarrow> js option) \<Rightarrow> path \<Rightarrow> string io" where
  "loadPeerIdentity windows json stateDir =
     seq (validateStateDirectory windows stateDir [identityFileName]) (\<lambda>_.
     seq (readStateJson json (stateDir @ [identityFileName])) (\<lambda>value.
       of_result (parsePeerIdentity value)))"

definition getPeerPublicKey :: "bool \<Rightarrow> (string \<Rightarrow> js option) \<Rightarrow> key_maker \<Rightarrow> path \<Rightarrow> string io" where
  "getPeerPublicKey windows json keyPair stateDir =
     seq (loadPeerIdentity windows json stateDir) (\<lambda>seed. of_result (derivePeerPublicKey keyPair seed))"

definition create_identity :: "bool \<Rightarrow> key_maker \<Rightarrow> bytes \<Rightarrow> path \<Rightarrow> (bool \<times> string) io" where
  "create_identity windows keyPair random stateDir =
     seq (of_result (parsePeerIdentity (JObj [(''seed'', JStr (generatePeerSeed random))]))) (\<lambda>seed.
     seq (of_result (serializePeerIdentity seed)) (\<lambda>contents.
     seq (writeStateDirectoryAtomically windows stateDir [(identityFileName, contents)]) (\<lambda>_.
     seq (of_result (derivePeerPublicKey keyPair seed)) (\<lambda>publicKey. return (True, publicKey)))))"

text \<open>\<open>created\<close> and the public key.\<close>

definition setupPeer ::
  "bool \<Rightarrow> (string \<Rightarrow> js option) \<Rightarrow> key_maker \<Rightarrow> bytes \<Rightarrow> path \<Rightarrow> (bool \<times> string) io" where
  "setupPeer windows json keyPair random stateDir =
     seq (pathExists stateDir) (\<lambda>present.
       if present then
         seq (loadPeerIdentity windows json stateDir) (\<lambda>seed.
         seq (of_result (derivePeerPublicKey keyPair seed)) (\<lambda>publicKey. return (False, publicKey)))
       else create_identity windows keyPair random stateDir)"

end
