(* ===== verification/State_Files_Properties.thy ===== *)
theory State_Files_Properties
  imports Disk_Steps
begin

text \<open>
  Programs that only read, what a directory that passes its check looks like, and the writer of a
  directory: its path has the old entries or the whole new directory, in every state of the disk.
\<close>

section \<open>Reading\<close>

text \<open>Two disks that differ in the failures to come only.\<close>

definition same_disk :: "disk \<Rightarrow> disk \<Rightarrow> bool" where
  "same_disk d d' \<longleftrightarrow> dk_files d' = dk_files d \<and> dk_past d' = dk_past d \<and> dk_suffix d' = dk_suffix d"

lemma same_refl [simp]: "same_disk d d"
  by (simp add: same_disk_def)

lemma same_trans [trans]: "same_disk d d1 \<Longrightarrow> same_disk d1 d2 \<Longrightarrow> same_disk d d2"
  by (simp add: same_disk_def)

lemma same_entry: "same_disk d d1 \<Longrightarrow> entry_at d1 p = entry_at d p"
  by (simp add: same_disk_def entry_at_def)

lemma fault_same: "fault d = (r, d1) \<Longrightarrow> same_disk d d1"
  by (auto dest!: fault_shape simp: same_disk_def)

lemma seq_Inr: "seq m f d = (Inr y, d') \<longleftrightarrow> (\<exists>x d1. m d = (Inr x, d1) \<and> f x d1 = (Inr y, d'))"
  by (auto simp: seq_def split: prod.splits sum.splits)

lemma seq_of_result:
  "seq (of_result (Inr x)) f = f x" "seq (of_result (Inl e)) f = throw (failure_of e)"
  by (simp_all add: fun_eq_iff seq_def of_result_def return_def throw_def)

lemma reading:
  "lstat p d = (Inr e, d1) \<Longrightarrow> same_disk d d1 \<and> entry_at d p = Some e"
  "readdir p d = (Inr names, d1) \<Longrightarrow> same_disk d d1 \<and> names = names_in (dk_files d) p"
  "readFile p d = (Inr s, d1) \<Longrightarrow> same_disk d d1 \<and>
     ((\<exists>m. entry_at d p = Some (File s m)) \<or> entry_at d p = Some (Symlink (Some s)))"
  by (auto simp: lstat_def readdir_def readFile_def calling_def entry_at_def same_disk_def
      dest!: fault_shape split: prod.splits option.splits entry.splits)

lemma reading_only:
  "lstat p d = (r, d1) \<Longrightarrow> same_disk d d1" "readdir p d = (r', d1) \<Longrightarrow> same_disk d d1"
  "readFile p d = (r'', d1) \<Longrightarrow> same_disk d d1"
  by (auto simp: lstat_def readdir_def readFile_def calling_def
      dest!: fault_same split: prod.splits option.splits entry.splits)

text \<open>A program that only reads.\<close>

definition reads :: "'a io \<Rightarrow> bool" where
  "reads m \<longleftrightarrow> (\<forall>d r d'. m d = (r, d') \<longrightarrow> same_disk d d')"

lemma reads_intros [intro!]:
  "reads (lstat p)" "reads (readdir p)" "reads (readFile p)" "reads (return x)" "reads (throw e)" "reads (of_result r)"
  unfolding reads_def using reading_only
  by (auto simp: return_def throw_def of_result_def split: sum.splits)

lemma reads_seq [intro!]: "reads m \<Longrightarrow> (\<And>x. reads (f x)) \<Longrightarrow> reads (seq m f)"
  unfolding reads_def seq_def by (fastforce split: prod.splits sum.splits intro: same_trans)

lemma reads_catch [intro!]: "reads m \<Longrightarrow> (\<And>e. reads (h e)) \<Longrightarrow> reads (catch m h)"
  unfolding reads_def catch_def by (fastforce split: prod.splits sum.splits intro: same_trans)

lemma reads_each [intro!]: "(\<And>x. reads (f x)) \<Longrightarrow> reads (each f xs)"
  by (induction xs) auto

lemma reads_validate [intro!]: "reads (validateStateDirectory w p names)"
proof -
  have "reads (validate_entry w p name)" for name
    unfolding validate_entry_def requireOwnerOnly_def Let_def
    by (intro reads_seq reads_intros) (auto split: entry.split)
  then show ?thesis
    unfolding validateStateDirectory_def by (auto split: entry.split)
qed

lemma reads_exists [intro!]: "reads (pathExists p)"
  unfolding pathExists_def by (auto intro!: reads_catch)

text \<open>What a state directory that passes the check looks like.\<close>

definition entry_ok :: "bool \<Rightarrow> path \<Rightarrow> files \<Rightarrow> string \<Rightarrow> bool" where
  "entry_ok w p fs name \<longleftrightarrow>
     (\<exists>c m. map_get fs (p @ [name]) = Some (File c m) \<and> (w \<or> m mod 512 = 384))"

definition directory_ok :: "bool \<Rightarrow> path \<Rightarrow> string list \<Rightarrow> files \<Rightarrow> bool" where
  "directory_ok w p names fs \<longleftrightarrow>
     (\<exists>mode. map_get fs p = Some (Directory mode) \<and> (w \<or> mode mod 512 = 448)) \<and>
     sort (names_in fs p) = sort names \<and> (\<forall>name \<in> set names. entry_ok w p fs name)"

lemma validate_entry_Inr:
  "validate_entry w p name d = (Inr u, d1) \<Longrightarrow> same_disk d d1 \<and> entry_ok w p (dk_files d) name"
proof -
  assume "validate_entry w p name d = (Inr u, d1)"
  then obtain e d0 where e: "lstat (p @ [name]) d = (Inr e, d0)"
    and rest: "(case e of
          File _ mode \<Rightarrow> requireOwnerOnly w mode (''state file '' @ show_path (p @ [name]))
        | _ \<Rightarrow> throw (failure_of (''state entry must be a regular file: '' @ show_path (p @ [name])))) d0 = (Inr u, d1)"
    unfolding validate_entry_def Let_def seq_Inr by blast
  from rest show ?thesis
    using reading(1) [OF e]
    by (cases e) (auto simp: requireOwnerOnly_def entry_ok_def entry_at_def return_def throw_def split: if_splits)
qed

lemma each_Inr:
  assumes "\<And>x d u d1. f x d = (Inr u, d1) \<Longrightarrow> same_disk d d1 \<and> P (dk_files d) x"
    and "each f xs d = (Inr u, d')"
  shows "same_disk d d' \<and> (\<forall>x \<in> set xs. P (dk_files d) x)"
  using assms(2)
proof (induction xs arbitrary: d)
  case (Cons x xs)
  then obtain v d1 where x: "f x d = (Inr v, d1)" and xs: "each f xs d1 = (Inr u, d')"
    by (auto simp: seq_Inr)
  from assms(1) [OF x] Cons.IH [OF xs] show ?case
    by (auto simp: same_disk_def)
qed (simp add: return_def)

lemma entries_Inr:
  "each (validate_entry w p) names d = (Inr u, d') \<Longrightarrow>
     same_disk d d' \<and> (\<forall>name \<in> set names. entry_ok w p (dk_files d) name)"
  by (rule each_Inr [where f = "validate_entry w p" and P = "entry_ok w p"]) (rule validate_entry_Inr)

lemma validate_Inr:
  assumes "validateStateDirectory w p names d = (Inr u, d')"
  shows "same_disk d d' \<and> directory_ok w p names (dk_files d)"
proof -
  from assms obtain e d1 where e: "lstat p d = (Inr e, d1)"
    and rest: "(case e of
         Directory mode \<Rightarrow>
           if \<not> w \<and> mode mod 512 \<noteq> 448 then
             throw (failure_of (''state directory must have owner-only permissions: '' @ show_path p))
           else
             seq (readdir p) (\<lambda>found.
               if sort found \<noteq> sort names then
                 throw (failure_of (''partial or invalid state in '' @ show_path p))
               else each (validate_entry w p) (sort names))
       | _ \<Rightarrow> throw (failure_of (''state path must be a regular directory: '' @ show_path p))) d1 = (Inr u, d')"
    unfolding validateStateDirectory_def seq_Inr by blast
  then obtain mode where mode: "e = Directory mode" "w \<or> mode mod 512 = 448"
    by (cases e) (auto simp: throw_def split: if_splits)
  with rest obtain found d2 where found: "readdir p d1 = (Inr found, d2)" "sort found = sort names"
      "each (validate_entry w p) (sort names) d2 = (Inr u, d')"
    by (auto simp: seq_Inr throw_def split: if_splits)
  note steps = reading(1) [OF e] reading(2) [OF found(1)] entries_Inr [OF found(3)]
  then have files: "dk_files d1 = dk_files d" "dk_files d2 = dk_files d" by (auto simp: same_disk_def)
  have "same_disk d d'" using steps same_trans by blast
  with steps files mode found(2) show ?thesis
    by (auto simp: directory_ok_def entry_at_def)
qed

lemma directory_validates:
  assumes "dk_faults d = []" and "directory_ok w p names (dk_files d)"
  shows "validateStateDirectory w p names d = (Inr (), d)"
proof -
  have none: "fault d = (None, d)" using assms(1) by (simp add: fault_def)
  have "each (validate_entry w p) xs d = (Inr (), d)" if "set xs \<subseteq> set names" for xs
    using that
  proof (induction xs)
    case (Cons x xs)
    then have "entry_ok w p (dk_files d) x" using assms(2) by (simp add: directory_ok_def)
    then have "validate_entry w p x d = (Inr (), d)"
      by (auto simp: entry_ok_def validate_entry_def seq_def lstat_def calling_def none entry_at_def
          requireOwnerOnly_def return_def Let_def)
    with Cons show ?case by (simp add: seq_def)
  qed (simp add: return_def)
  then have "each (validate_entry w p) (sort names) d = (Inr (), d)" by simp
  with assms(2) show ?thesis
    by (auto simp: directory_ok_def validateStateDirectory_def seq_def lstat_def readdir_def calling_def none entry_at_def)
qed

section \<open>Writing a directory\<close>

lemma set_names_in: "n \<in> set (names_in fs p) \<longleftrightarrow> map_get fs (p @ [n]) \<noteq> None"
proof -
  have "n \<in> set (names_in fs p) \<longleftrightarrow> (\<exists>q \<in> set (map_keys fs). q = p @ [n])"
    by (force simp: names_in_def dest: append_butlast_last_id)
  then show ?thesis by (simp add: map_of_eq_None_iff)
qed

text \<open>The whole new directory: the entries with their contents, and no others.\<close>

definition holds_files :: "bool \<Rightarrow> path \<Rightarrow> (string, string) js_map \<Rightarrow> files \<Rightarrow> bool" where
  "holds_files w p entries fs \<longleftrightarrow>
     map_get fs p = Some (Directory 448) \<and>
     (\<forall>(name, contents) \<in> set entries.
        \<exists>m. map_get fs (p @ [name]) = Some (File contents m) \<and> (w \<or> m mod 512 = 384)) \<and>
     (\<forall>name. map_get fs (p @ [name]) \<noteq> None \<longrightarrow> name \<in> fst ` set entries)"

definition unchanged_or_written :: "files \<Rightarrow> bool \<Rightarrow> path \<Rightarrow> (string, string) js_map \<Rightarrow> files \<Rightarrow> bool" where
  "unchanged_or_written old w p entries fs \<longleftrightarrow>
     (\<forall>q. below p q \<longrightarrow> map_get fs q = map_get old q) \<or> (map_get old p = None \<and> holds_files w p entries fs)"

text \<open>Nothing lies below a path that has no entry.\<close>

definition tree_at :: "files \<Rightarrow> path \<Rightarrow> bool" where
  "tree_at fs p \<longleftrightarrow> (map_get fs p = None \<longrightarrow> (\<forall>q. below p q \<longrightarrow> map_get fs q = None))"

lemma about_unchanged: "about p (unchanged_or_written old w p entries)"
  unfolding about_def unchanged_or_written_def holds_files_def by (simp add: below_append)

text \<open>The temporary directory while its files are written.\<close>

definition written :: "path \<Rightarrow> (string, string) js_map \<Rightarrow> disk \<Rightarrow> bool" where
  "written t entries d \<longleftrightarrow> entry_at d t = Some (Directory 448) \<and>
     (\<forall>(name, contents) \<in> set entries. \<exists>m. entry_at d (t @ [name]) = Some (File contents m))"

lemma triple_write_entries:
  assumes "about p P" and "\<And>name. \<not> below p (t @ [name])" and "distinct (map fst entries)"
  shows "triple (\<lambda>d. safe P s d \<and> entry_at d t = Some (Directory 448)) (each (write_entry t) entries)
    (\<lambda>_ d. safe P s d \<and> written t entries d) (\<lambda>_. safe P s)"
proof -
  have "triple (\<lambda>d. safe P s d \<and> written t done d) (each (write_entry t) rest)
      (\<lambda>_ d. safe P s d \<and> written t (done @ rest) d) (\<lambda>_. safe P s)"
    if "distinct (map fst (done @ rest))" for "done" rest
    using that
  proof (induction rest arbitrary: "done")
    case Nil
    show ?case by (simp add: triple_def return_def)
  next
    case (Cons nc rest)
    obtain name contents where nc: "nc = (name, contents)" by fastforce
    have "triple (\<lambda>d. safe P s d \<and> written t done d) (write_entry t nc)
        (\<lambda>_ d. safe P s d \<and> written t (done @ [nc]) d) (\<lambda>_. safe P s)"
    proof (rule tripleI)
      fix d assume d: "safe P s d \<and> written t done d"
      obtain r d' where w: "writeFile (t @ [name]) contents 384 False d = (r, d')" by fastforce
      note step = triple_writeFile [OF assms(1,2), of s name contents 384 False]
      show "case write_entry t nc d of (Inl e, d') \<Rightarrow> safe P s d'
        | (Inr x, d') \<Rightarrow> safe P s d' \<and> written t (done @ [nc]) d'"
      proof (cases r)
        case (Inl e)
        with triple_InlD [OF step conjunct1 [OF d]] w show ?thesis by (simp add: nc write_entry_def)
      next
        case (Inr u)
        have other: "t @ [n] \<noteq> t @ [name]" if "(n, c) \<in> set done" for n c
          using that Cons.prems by (force simp: nc)
        obtain m where m: "entry_at d' (t @ [name]) = Some (File contents m)"
            "\<forall>r. r \<noteq> t @ [name] \<longrightarrow> entry_at d' r = entry_at d r"
          using writeFile_Inr [of "t @ [name]" contents 384 False d d'] w Inr by auto
        have "entry_at d' t = Some (Directory 448)" using d m(2) by (simp add: written_def)
        moreover have "\<exists>m. entry_at d' (t @ [n]) = Some (File c m)" if "(n, c) \<in> set (done @ [nc])" for n c
        proof (cases "(n, c) \<in> set done")
          case True
          with d other m(2) show ?thesis by (force simp: written_def)
        next
          case False
          with that m(1) show ?thesis by (simp add: nc)
        qed
        ultimately have "written t (done @ [nc]) d'" unfolding written_def by blast
        with triple_InrD [OF step conjunct1 [OF d]] w Inr show ?thesis by (simp add: nc write_entry_def)
      qed
    qed
    from triple_seq [OF this Cons.IH [of "done @ [nc]"]] Cons.prems show ?case by simp
  qed
  from this [of "[]" entries] assms(3) show ?thesis
    by (simp add: written_def)
qed

text \<open>Moving the directory to its place.\<close>

lemma butlast_child:
  assumes "p \<noteq> []" shows "(p @ r \<noteq> [] \<and> butlast (p @ r) = p) \<longleftrightarrow> (\<exists>n. r = [n])"
proof -
  have "butlast p \<noteq> p" using assms by (metis append_butlast_last_id list.distinct(1) self_append_conv)
  then show ?thesis by (cases r rule: rev_cases) (auto simp: butlast_append)
qed

lemma names_in_moved:
  assumes "\<not> below src dst" and "\<not> below dst src" and "src \<noteq> []" and "dst \<noteq> []"
    and "\<And>q. below dst q \<Longrightarrow> q \<notin> set (map_keys fs)"
  shows "names_in (moved src dst fs) dst = names_in fs src"
  using assms(5)
proof (induction fs)
  case (Cons a fs)
  obtain x e where a: "a = (x, e)" by fastforce
  have ih: "names_in (moved src dst fs) dst = names_in fs src" using Cons by simp
  have x: "\<not> below dst x" using Cons.prems [of x] by (auto simp: a)
  show ?case
  proof (cases "below src x")
    case True
    then obtain r where r: "x = src @ r" using belowD by blast
    then have "relocate src dst x = dst @ r" by (simp add: relocate_def)
    moreover note butlast_child [OF assms(3), of r] butlast_child [OF assms(4), of r]
    ultimately show ?thesis using ih x r by (auto simp: names_in_def moved_def a)
  next
    case False
    then have "relocate src dst x = x" by (simp add: relocate_def)
    moreover have "\<not> (x \<noteq> [] \<and> butlast x = dst)" "\<not> (x \<noteq> [] \<and> butlast x = src)"
      using x False by (metis append_butlast_last_id below_append)+
    ultimately show ?thesis using ih x by (auto simp: names_in_def moved_def a)
  qed
qed (simp add: names_in_def moved_def)

lemma triple_move_directory:
  assumes "\<And>fs. holds_files w p entries fs \<Longrightarrow> map_get old p = None \<Longrightarrow> P fs"
    and "\<And>d. safe P s d \<Longrightarrow> entry_at d p = None \<Longrightarrow> map_get old p = None \<and> (\<forall>q. below p q \<longrightarrow> entry_at d q = None)"
    and "\<not> below t p" "\<not> below p t" "t \<noteq> []" "p \<noteq> []"
  shows "triple (\<lambda>d. safe P s d \<and> written t entries d \<and> directory_ok w t (map_keys entries) (dk_files d))
    (rename t p)
    (\<lambda>_ d. safe P s d \<and> holds_files w p entries (dk_files d) \<and> map_get old p = None \<and>
       sort (names_in (dk_files d) p) = sort (map_keys entries)) (\<lambda>_. safe P s)"
proof -
  have moved_files: "holds_files w p entries (moved t p fs)"
    if "map_get fs t = Some (Directory 448)" and "directory_ok w t (map_keys entries) fs"
      and c: "\<forall>(name, contents) \<in> set entries. \<exists>m. map_get fs (t @ [name]) = Some (File contents m)" for fs
  proof -
    have get: "map_get (moved t p fs) (p @ r) = map_get fs (t @ r)" for r
      using map_get_moved [OF assms(3,4), of fs "p @ r"] by simp
    have "name \<in> fst ` set entries" if "map_get fs (t @ [name]) \<noteq> None" for name
      using that \<open>directory_ok w t (map_keys entries) fs\<close> set_names_in [of name fs t]
      by (metis directory_ok_def image_set set_sort)
    moreover have "\<exists>m. map_get fs (t @ [name]) = Some (File contents m) \<and> (w \<or> m mod 512 = 384)"
      if "(name, contents) \<in> set entries" for name contents
    proof -
      have "name \<in> set (map_keys entries)" using that by force
      then have "entry_ok w t fs name" using \<open>directory_ok w t (map_keys entries) fs\<close> by (auto simp: directory_ok_def)
      then show ?thesis using c that by (fastforce simp: entry_ok_def)
    qed
    moreover have "map_get (moved t p fs) p = Some (Directory 448)" using get [of "[]"] that(1) by simp
    ultimately show ?thesis unfolding holds_files_def get by auto
  qed
  have stable: "stable (\<lambda>d. safe P s d \<and> written t entries d \<and> directory_ok w t (map_keys entries) (dk_files d))"
    by (simp add: stable_def safe_def written_def)
  have step: "safe P s (mutate (moved t p (dk_files d)) d) \<and> holds_files w p entries (moved t p (dk_files d)) \<and>
      map_get old p = None \<and> sort (names_in (moved t p (dk_files d)) p) = sort (map_keys entries)"
    if d: "safe P s d" "written t entries d" "directory_ok w t (map_keys entries) (dk_files d)" "entry_at d p = None" for d
  proof -
    note absent = assms(2) [OF d(1,4)]
    have h: "holds_files w p entries (moved t p (dk_files d))"
      by (rule moved_files) (use d in \<open>auto simp: written_def entry_at_def\<close>)
    moreover have "q \<notin> set (map_keys (dk_files d))" if "below p q" for q
      using absent that by (metis entry_at_def map_of_eq_None_iff image_set)
    then have "names_in (moved t p (dk_files d)) p = names_in (dk_files d) t"
      by (intro names_in_moved assms)
    ultimately show ?thesis
      using d absent assms(1) by (simp add: safe_def directory_ok_def)
  qed
  show ?thesis
    unfolding rename_def
    by (rule triple_calling [OF stable])
      (use step in \<open>auto simp: triple_def written_def split: option.splits\<close>)
qed

lemma triple_validate:
  assumes "stable I" and "\<And>d d'. I d \<Longrightarrow> same_disk d d' \<Longrightarrow> I d'"
  shows "triple I (validateStateDirectory w p names) (\<lambda>_ d. I d \<and> directory_ok w p names (dk_files d)) (\<lambda>_. I)"
proof (rule tripleI)
  fix d assume I: "I d"
  obtain r d' where r: "validateStateDirectory w p names d = (r, d')" by fastforce
  have "same_disk d d'" using reads_validate r by (auto simp: reads_def)
  with r I assms(2) validate_Inr [of w p names d _ d']
  show "case validateStateDirectory w p names d of (Inl e, d') \<Rightarrow> I d'
    | (Inr x, d') \<Rightarrow> I d' \<and> directory_ok w p names (dk_files d')"
    by (cases r) (auto simp: same_disk_def)
qed

lemma triple_write_directory:
  fixes p :: path and w :: bool and entries :: "(string, string) js_map" and old :: files
  assumes "p \<noteq> []" and "distinct (map_keys entries)"
    and hollow: "tree_at old p"
  defines "P \<equiv> unchanged_or_written old w p entries"
  shows "triple (safe P s) (writeStateDirectoryAtomically w p entries)
    (\<lambda>_ d. safe P s d \<and> holds_files w p entries (dk_files d) \<and> map_get old p = None \<and>
       sort (names_in (dk_files d) p) = sort (map_keys entries)) (\<lambda>_. safe P s)"
    (is "triple _ _ ?R _")
proof -
  obtain D a where p: "p = D @ [a]" using assms(1) by (metis rev_exhaust)
  let ?b = "(a @ ''.tmp-'') @ s"
  let ?t = "D @ [?b]"
  have names: "dirname p = D" "basename p = a" by (simp_all add: p dirname_def basename_def)
  have ab: "a \<noteq> ?b" "?b \<noteq> a" by simp_all
  note beside = siblings [OF ab(1), of D] siblings [OF ab(2), of D]
  have about: "about p P" unfolding P_def by (rule about_unchanged)
  have absent: "map_get old p = None \<and> (\<forall>q. below p q \<longrightarrow> entry_at d q = None)"
    if "safe P s d" "entry_at d p = None" for d
    using safe_now [OF that(1)] that(2) hollow
    by (auto simp: tree_at_def P_def unchanged_or_written_def holds_files_def entry_at_def)
  have entries: "triple (\<lambda>d. safe P s d \<and> entry_at d ?t = Some (Directory 448)) (each (write_entry ?t) entries)
      (\<lambda>_ d. safe P s d \<and> written ?t entries d) (\<lambda>_. safe P s)"
    by (rule triple_write_entries [OF about _ assms(2)]) (unfold p, rule beside(2))
  have validated: "triple (\<lambda>d. safe P s d \<and> written ?t entries d) (validateStateDirectory w ?t (map_keys entries))
      (\<lambda>_ d. (safe P s d \<and> written ?t entries d) \<and> directory_ok w ?t (map_keys entries) (dk_files d)) (\<lambda>_. safe P s)"
    by (rule triple_conseq [OF triple_validate [of "\<lambda>d. safe P s d \<and> written ?t entries d"]])
      (auto simp: stable_def safe_def always_def written_def same_disk_def entry_at_def)
  have move: "triple (\<lambda>d. safe P s d \<and> written ?t entries d \<and> directory_ok w ?t (map_keys entries) (dk_files d))
      (rename ?t p) ?R (\<lambda>_. safe P s)"
    by (rule triple_move_directory [OF _ absent])
      (use beside p in \<open>auto simp: P_def unchanged_or_written_def\<close>)
  have body: "triple (\<lambda>d. safe P s d \<and> entry_at d ?t = Some (Directory 448))
      (catch (seq (each (write_entry ?t) entries) (\<lambda>_.
          seq (validateStateDirectory w ?t (map_keys entries)) (\<lambda>_. rename ?t p)))
        (\<lambda>e. seq (rm_recursive ?t) (\<lambda>_. throw e))) ?R (\<lambda>_. safe P s)"
    by (rule triple_catch [OF triple_seq [OF entries triple_seq [OF validated]]
          triple_seq [OF triple_rm_recursive [OF about]]])
      (use move beside p in \<open>simp_all add: triple_def throw_def\<close>)
  have named: "triple (\<lambda>d. t = ?t \<and> safe P s d \<and> entry_at d t = Some (Directory 448))
      (seq (chmod t 448) (\<lambda>_. catch (seq (each (write_entry t) entries) (\<lambda>_.
          seq (validateStateDirectory w t (map_keys entries)) (\<lambda>_. rename t p)))
        (\<lambda>e. seq (rm_recursive t) (\<lambda>_. throw e)))) ?R (\<lambda>_. safe P s)" for t
  proof (cases "t = ?t")
    case True
    have "\<not> below p ?t" using beside(1) p by simp
    from triple_seq [OF triple_chmod [OF about this] body] show ?thesis
      unfolding True by (rule triple_conseq) (auto simp: is_directory_def)
  qed (simp add: triple_def)
  show ?thesis
    unfolding writeStateDirectoryAtomically_def names
    by (rule triple_seq [OF triple_mkdir_recursive [OF about] triple_seq [OF triple_mkdtemp [OF about] named]])
      (use beside p in simp_all)
qed

end
