(* ===== verification/Peer_State_Properties.thy ===== *)
theory Peer_State_Properties
  imports Peer_State State_Files_Properties
begin

text \<open>
  The identity of a peer on disk: it appears in one step, is never replaced, and is read back with
  the same public key.
\<close>

section \<open>Seeds\<close>

lemma hex_digit_hex: "n < 16 \<Longrightarrow> is_hex (hex_digit n)"
  by (auto simp: hex_digit_def is_hex_def is_digit_def)

lemma hex_encode_key:
  assumes "length random = 32" shows "key_hex (hex_encode random)"
proof -
  have "length (hex_encode random) = 2 * length random"
    by (induction random) (simp_all add: hex_encode_def)
  moreover have "is_hex c" if "c \<in> set (hex_encode random)" for c
  proof -
    have "unat b div 16 < 16" for b :: byte
    proof -
      have "unat b < 2 ^ LENGTH(8)" by (rule unsigned_less)
      then show ?thesis by simp
    qed
    with that hex_digit_hex show ?thesis by (auto simp: hex_encode_def)
  qed
  ultimately show ?thesis using assms by (simp add: key_hex_def)
qed

lemma identity_seed: "key_hex seed \<Longrightarrow> parsePeerIdentity (JObj [(''seed'', JStr seed)]) = Inr seed"
  by (simp add: parsePeerIdentity_def prop_of_def)

section \<open>Setting up\<close>

lemma reads_load [intro!]: "reads (loadPeerIdentity w json p)"
  unfolding loadPeerIdentity_def readStateJson_def by (auto split: option.split)

lemma triple_reads:
  assumes "reads m" and "\<And>d d'. I d \<Longrightarrow> same_disk d d' \<Longrightarrow> I d'"
  shows "triple I m (\<lambda>_. I) (\<lambda>_. I)"
proof (rule tripleI)
  fix d assume I: "I d"
  obtain r d' where m: "m d = (r, d')" by fastforce
  with I assms show "case m d of (Inl e, d') \<Rightarrow> I d' | (Inr x, d') \<Rightarrow> I d'"
    unfolding reads_def by (cases r) auto
qed

lemma safe_same: "safe P s d \<Longrightarrow> same_disk d d' \<Longrightarrow> safe P s d'"
  by (simp add: safe_def always_def same_disk_def)

text \<open>The last step of either way: the public key, with what is known of the disk.\<close>

lemma triple_answer:
  "triple I (seq (of_result r) (\<lambda>x. return (created, x))) (\<lambda>x d. I d \<and> fst x = created \<and> r = Inr (snd x)) (\<lambda>_. I)"
  by (cases r) (simp_all add: triple_def seq_of_result return_def throw_def)

definition identity_entries :: "bytes \<Rightarrow> (string, string) js_map" where
  "identity_entries random = [(identityFileName, identity_text (hex_encode random))]"

lemma triple_create:
  fixes w :: bool and random :: bytes and old :: files and stateDir :: path
  assumes "stateDir \<noteq> []" and "length random = 32"
    and "tree_at old stateDir"
  defines "P \<equiv> unchanged_or_written old w stateDir (identity_entries random)"
  shows "triple (safe P s) (create_identity w keyPair random stateDir)
    (\<lambda>x d. safe P s d \<and> fst x \<and> holds_files w stateDir (identity_entries random) (dk_files d) \<and>
       map_get old stateDir = None \<and> sort (names_in (dk_files d) stateDir) = [identityFileName] \<and>
       derivePeerPublicKey keyPair (hex_encode random) = Inr (snd x)) (\<lambda>_. safe P s)"
proof -
  have hex: "key_hex (hex_encode random)" using assms(2) by (rule hex_encode_key)
  have "distinct (map_keys (identity_entries random))" by (simp add: identity_entries_def)
  note writing = triple_write_directory [OF assms(1) this assms(3), where w = w and s = s, folded P_def]
  have create: "create_identity w keyPair random stateDir =
      seq (writeStateDirectoryAtomically w stateDir (identity_entries random)) (\<lambda>_.
      seq (of_result (derivePeerPublicKey keyPair (hex_encode random))) (\<lambda>publicKey. return (True, publicKey)))"
    by (simp add: create_identity_def generatePeerSeed_def identity_seed [OF hex] serializePeerIdentity_def
        seq_of_result identity_entries_def)
  show ?thesis unfolding create
    by (rule triple_seq [OF writing], rule triple_conseq [OF triple_answer [of "\<lambda>d. safe P s d \<and>
          holds_files w stateDir (identity_entries random) (dk_files d) \<and> map_get old stateDir = None \<and>
          sort (names_in (dk_files d) stateDir) = [identityFileName]"]])
      (auto simp: identity_entries_def)
qed

lemma triple_setup:
  fixes w :: bool and random :: bytes and old :: files and stateDir :: path
  assumes "stateDir \<noteq> []" and "length random = 32"
    and "tree_at old stateDir"
  defines "P \<equiv> unchanged_or_written old w stateDir (identity_entries random)"
  shows "triple (\<lambda>d. safe P s d \<and> dk_files d = old) (setupPeer w json keyPair random stateDir)
    (\<lambda>x d. safe P s d \<and>
       (if fst x then holds_files w stateDir (identity_entries random) (dk_files d) \<and>
          map_get old stateDir = None \<and> sort (names_in (dk_files d) stateDir) = [identityFileName] \<and>
          derivePeerPublicKey keyPair (hex_encode random) = Inr (snd x)
        else dk_files d = old)) (\<lambda>_. safe P s)"
proof -
  let ?I = "\<lambda>d. safe P s d \<and> dk_files d = old"
  have same: "?I d \<Longrightarrow> same_disk d d' \<Longrightarrow> ?I d'" for d d'
    using safe_same by (auto simp: same_disk_def)
  note create = triple_conseq [OF triple_create [OF assms(1,2,3), of w s keyPair, folded P_def]]
  have known: "triple ?I (seq (loadPeerIdentity w json stateDir) (\<lambda>seed.
      seq (of_result (derivePeerPublicKey keyPair seed)) (\<lambda>publicKey. return (False, publicKey))))
      (\<lambda>x d. ?I d \<and> \<not> fst x) (\<lambda>_. safe P s)"
  proof (rule triple_seq [of _ _ "\<lambda>_. ?I"])
    show "triple ?I (loadPeerIdentity w json stateDir) (\<lambda>_. ?I) (\<lambda>_. safe P s)"
      by (rule triple_conseq [OF triple_reads [OF reads_load same]]) auto
    show "triple ?I (seq (of_result (derivePeerPublicKey keyPair seed)) (\<lambda>publicKey. return (False, publicKey)))
      (\<lambda>x d. ?I d \<and> \<not> fst x) (\<lambda>_. safe P s)" for seed
      by (rule triple_conseq [OF triple_answer [of ?I]]) auto
  qed
  have "triple ?I (pathExists stateDir) (\<lambda>_. ?I) (\<lambda>_. safe P s)"
    by (rule triple_conseq [OF triple_reads [OF reads_exists same]]) auto
  then show ?thesis unfolding setupPeer_def
  proof (rule triple_seq)
    fix present
    show "triple ?I (if present then seq (loadPeerIdentity w json stateDir) (\<lambda>seed.
          seq (of_result (derivePeerPublicKey keyPair seed)) (\<lambda>publicKey. return (False, publicKey)))
        else create_identity w keyPair random stateDir)
      (\<lambda>x d. safe P s d \<and>
         (if fst x then holds_files w stateDir (identity_entries random) (dk_files d) \<and>
            map_get old stateDir = None \<and> sort (names_in (dk_files d) stateDir) = [identityFileName] \<and>
            derivePeerPublicKey keyPair (hex_encode random) = Inr (snd x)
          else dk_files d = old)) (\<lambda>_. safe P s)"
    proof (cases present)
      case True
      then show ?thesis by (simp, intro triple_conseq [OF known]) auto
    next
      case False
      then show ?thesis by (simp, intro create) auto
    qed
  qed
qed

text \<open>
  C16: Setting up an identity never replaces one.  Whichever calls fail, in every state of the disk
  the entries below the state directory are as before, or the directory was absent and is there
  with the one complete private file; what it reports is what happened.
\<close>

theorem setup_is_atomic:
  assumes "setupPeer w json keyPair random stateDir d = (r, d')" and "dk_past d = []" and "stateDir \<noteq> []"
    and "length random = 32" and "tree_at (dk_files d) stateDir"
  shows "(\<forall>fs \<in> set (dk_files d' # dk_past d').
      unchanged_or_written (dk_files d) w stateDir (identity_entries random) fs) \<and>
    (\<forall>publicKey. r = Inr (True, publicKey) \<longrightarrow>
       entry_at d stateDir = None \<and> holds_files w stateDir (identity_entries random) (dk_files d')) \<and>
    (\<forall>publicKey. r = Inr (False, publicKey) \<longrightarrow> dk_files d' = dk_files d)"
proof -
  let ?P = "unchanged_or_written (dk_files d) w stateDir (identity_entries random)"
  note made = triple_setup [OF assms(3-5), of w "dk_suffix d" json keyPair]
  have d: "safe ?P (dk_suffix d) d \<and> dk_files d = dk_files d"
    using assms(2) by (simp add: safe_def always_def unchanged_or_written_def)
  show ?thesis
  proof (cases r)
    case (Inl e)
    with triple_InlD [OF made d] assms(1) show ?thesis by (simp add: safe_def always_def)
  next
    case (Inr x)
    with triple_InrD [OF made d] assms(1) show ?thesis
      by (cases x) (auto simp: safe_def always_def entry_at_def)
  qed
qed

section \<open>Reading the identity back\<close>

lemma load_written:
  assumes "dk_faults d = []" and "holds_files w stateDir (identity_entries random) (dk_files d)"
    and "sort (names_in (dk_files d) stateDir) = [identityFileName]" and "key_hex (hex_encode random)"
    and "json (identity_text (hex_encode random)) = Some (JObj [(''seed'', JStr (hex_encode random))])"
  shows "loadPeerIdentity w json stateDir d = (Inr (hex_encode random), d)"
proof -
  have none: "fault d = (None, d)" using assms(1) by (simp add: fault_def)
  obtain m where m: "map_get (dk_files d) (stateDir @ [identityFileName]) = Some (File (identity_text (hex_encode random)) m)"
      "w \<or> m mod 512 = 384"
    using assms(2) by (auto simp: holds_files_def identity_entries_def)
  have "directory_ok w stateDir [identityFileName] (dk_files d)"
    using assms(2,3) m by (auto simp: directory_ok_def holds_files_def entry_ok_def)
  with assms(1) have "validateStateDirectory w stateDir [identityFileName] d = (Inr (), d)" by (rule directory_validates)
  moreover have "readStateJson json (stateDir @ [identityFileName]) d =
      (Inr (JObj [(''seed'', JStr (hex_encode random))]), d)"
    using m(1) assms(5) by (simp add: readStateJson_def catch_def seq_def readFile_def calling_def none entry_at_def return_def)
  ultimately show ?thesis
    by (simp add: loadPeerIdentity_def seq_def identity_seed [OF assms(4)] of_result_def return_def)
qed

text \<open>
  C20: Once an identity has been created, it is read back with the public key that was reported, and
  setting up again reports the same key and changes nothing, provided that JSON is parsed as it was
  written and no further call fails.
\<close>

theorem setup_then_load:
  assumes "setupPeer w json keyPair random stateDir d = (Inr (True, publicKey), d')" and "stateDir \<noteq> []"
    and "length random = 32" and "tree_at (dk_files d) stateDir" and "dk_faults d' = []"
    and "json (identity_text (hex_encode random)) = Some (JObj [(''seed'', JStr (hex_encode random))])"
    and "dk_past d = []"
  shows "getPeerPublicKey w json keyPair stateDir d' = (Inr publicKey, d') \<and>
    setupPeer w json keyPair random' stateDir d' = (Inr (False, publicKey), d')"
proof -
  let ?P = "unchanged_or_written (dk_files d) w stateDir (identity_entries random)"
  note made = triple_setup [OF assms(2-4), of w "dk_suffix d" json keyPair]
  have "safe ?P (dk_suffix d) d \<and> dk_files d = dk_files d"
    using assms(7) by (simp add: safe_def always_def unchanged_or_written_def)
  from triple_InrD [OF made this assms(1)]
  have holds: "holds_files w stateDir (identity_entries random) (dk_files d')"
    and names: "sort (names_in (dk_files d') stateDir) = [identityFileName]"
    and key: "derivePeerPublicKey keyPair (hex_encode random) = Inr publicKey" by simp_all
  note load = load_written [where random = random and json = json, OF assms(5) holds names hex_encode_key [OF assms(3)] assms(6)]
  have "fault d' = (None, d')" using assms(5) by (simp add: fault_def)
  moreover have "entry_at d' stateDir = Some (Directory 448)"
    using holds by (simp add: holds_files_def entry_at_def)
  ultimately have "pathExists stateDir d' = (Inr True, d')"
    by (simp add: pathExists_def catch_def seq_def lstat_def calling_def return_def)
  with load key show ?thesis
    by (simp add: getPeerPublicKey_def setupPeer_def seq_def of_result_def return_def)
qed

definition ex_random :: bytes where "ex_random = replicate 32 170"

definition ex_root :: disk where
  "ex_root = \<lparr>dk_files = [([], Directory 493)], dk_past = [], dk_faults = [], dk_suffix = ''x''\<rparr>"

definition ex_key_pair :: key_maker where
  "ex_key_pair seed = (replicate 32 17, replicate 64 34)"

definition ex_identity_json :: "string \<Rightarrow> js option" where
  "ex_identity_json s =
     (if s = identity_text (hex_encode ex_random) then Some (JObj [(''seed'', JStr (hex_encode ex_random))]) else None)"

lemma ex_seed: "key_hex (hex_encode ex_random)"
  by (rule hex_encode_key) (simp add: ex_random_def)

lemma ex_setup:
  "\<exists>publicKey d'. setupPeer False ex_identity_json ex_key_pair ex_random [''peer''] ex_root =
     (Inr (True, publicKey), d') \<and> dk_faults d' = []"
  by (simp add: setupPeer_def pathExists_def create_identity_def generatePeerSeed_def identity_seed [OF ex_seed]
      serializePeerIdentity_def derivePeerPublicKey_def deriveKeyPair_def ex_seed ex_key_pair_def
      writeStateDirectoryAtomically_def write_entry_def validateStateDirectory_def validate_entry_def requireOwnerOnly_def
      ex_root_def io_error_def disk_calls Let_def)

theorem setup_is_atomic_witness:
  "\<exists>publicKey d'. setupPeer False ex_identity_json ex_key_pair ex_random [''peer''] ex_root = (Inr (True, publicKey), d') \<and>
     holds_files False [''peer''] (identity_entries ex_random) (dk_files d')"
proof -
  obtain publicKey d' where s: "setupPeer False ex_identity_json ex_key_pair ex_random [''peer''] ex_root =
     (Inr (True, publicKey), d')" using ex_setup by blast
  have "length ex_random = 32" "dk_past ex_root = []" by (simp_all add: ex_random_def ex_root_def)
  moreover have "tree_at (dk_files ex_root) [''peer'']"
    by (auto simp: tree_at_def ex_root_def below_def starts_with_def)
  ultimately show ?thesis using setup_is_atomic [OF s] s by auto
qed

theorem setup_then_load_witness:
  "\<exists>publicKey d'. getPeerPublicKey False ex_identity_json ex_key_pair [''peer''] d' = (Inr publicKey, d')"
proof -
  obtain publicKey d' where s: "setupPeer False ex_identity_json ex_key_pair ex_random [''peer''] ex_root =
     (Inr (True, publicKey), d')" "dk_faults d' = []" using ex_setup by blast
  have "length ex_random = 32" "dk_past ex_root = []" by (simp_all add: ex_random_def ex_root_def)
  moreover have "tree_at (dk_files ex_root) [''peer'']"
    by (auto simp: tree_at_def ex_root_def below_def starts_with_def)
  ultimately show ?thesis using setup_then_load [OF s(1) _ _ _ s(2)] by (auto simp: ex_identity_json_def)
qed

end
