(* ===== verification/Runtime_Lock.thy ===== *)
theory Runtime_Lock
  imports State_Files
begin

text \<open>
  The lock of a peer runtime, \<open>src/runtime/runtime-lock.ts\<close>.  The kernel has open descriptors and
  the descriptor that owns the lock of a path; a lock belongs to its descriptor and ends with it.
  Every call may fail; a \<open>close\<close> that fails has closed the descriptor nevertheless.
\<close>

section \<open>The kernel\<close>

datatype lock_error = Lock_error error | Aggregate "lock_error list" error

record kernel =
  kn_handles :: "(nat, path) js_map"
  kn_owners :: "(path, nat) js_map"
  kn_next :: nat
  kn_faults :: "error option list"

definition kernel_fault :: "kernel \<Rightarrow> error option \<times> kernel" where
  "kernel_fault k =
     (case kn_faults k of [] \<Rightarrow> (None, k) | f # fs \<Rightarrow> (f, k\<lparr>kn_faults := fs\<rparr>))"

definition open_file :: "path \<Rightarrow> kernel \<Rightarrow> (lock_error + nat) \<times> kernel" where
  "open_file p k =
     (case kernel_fault k of
        (Some e, k1) \<Rightarrow> (Inl (Lock_error e), k1)
      | (None, k1) \<Rightarrow>
          (Inr (kn_next k1), k1\<lparr>kn_handles := map_set (kn_next k1) p (kn_handles k1), kn_next := Suc (kn_next k1)\<rparr>))"

text \<open>\<open>tryLock\<close>: whether the descriptor owns the lock now.\<close>

definition tryLock :: "nat \<Rightarrow> path \<Rightarrow> kernel \<Rightarrow> (lock_error + bool) \<times> kernel" where
  "tryLock h p k =
     (case kernel_fault k of
        (Some e, k1) \<Rightarrow> (Inl (Lock_error e), k1)
      | (None, k1) \<Rightarrow>
          if map_get (kn_owners k1) p \<in> {None, Some h}
          then (Inr True, k1\<lparr>kn_owners := map_set p h (kn_owners k1)\<rparr>) else (Inr False, k1))"

definition drop_owner :: "nat \<Rightarrow> kernel \<Rightarrow> kernel" where
  "drop_owner h k = k\<lparr>kn_owners := filter (\<lambda>(_, owner). owner \<noteq> h) (kn_owners k)\<rparr>"

definition unlock :: "nat \<Rightarrow> kernel \<Rightarrow> lock_error option \<times> kernel" where
  "unlock h k =
     (case kernel_fault k of
        (Some e, k1) \<Rightarrow> (Some (Lock_error e), k1) | (None, k1) \<Rightarrow> (None, drop_owner h k1))"

definition close_file :: "nat \<Rightarrow> kernel \<Rightarrow> lock_error option \<times> kernel" where
  "close_file h k =
     (case kernel_fault k of
        (f, k1) \<Rightarrow>
          (map_option Lock_error f, drop_owner h (k1\<lparr>kn_handles := map_delete h (kn_handles k1)\<rparr>)))"

text \<open>\<open>mkdir\<close> and \<open>chmod\<close>, of which only the failure matters here.\<close>

definition kernel_call :: "kernel \<Rightarrow> lock_error option \<times> kernel" where
  "kernel_call k = (case kernel_fault k of (f, k1) \<Rightarrow> (map_option Lock_error f, k1))"

section \<open>The lock\<close>

definition peerRuntimeLockPath :: "path \<Rightarrow> path" where
  "peerRuntimeLockPath stateDir =
     dirname stateDir @ [CHR ''.'' # basename stateDir @ ''.peer.runtime.lock'']"

definition closeHandle :: "nat \<Rightarrow> bool \<Rightarrow> string \<Rightarrow> kernel \<Rightarrow> lock_error option \<times> kernel" where
  "closeHandle h locked description k =
     (let (unlockError, k1) = (if locked then unlock h k else (None, k));
          (closeError, k2) = close_file h k1 in
      (case (unlockError, closeError) of
         (Some u, Some c) \<Rightarrow> Some (Aggregate [u, c] (''Failed to unlock and close '' @ description))
       | (Some u, None) \<Rightarrow> Some u
       | (None, c) \<Rightarrow> c, k2))"

definition combineErrors :: "lock_error \<Rightarrow> lock_error \<Rightarrow> lock_error" where
  "combineErrors primary cleanup = Aggregate [primary, cleanup] ''Runtime lock cleanup failed''"

text \<open>A failure after the file was opened: the handle is closed first.\<close>

definition abandon :: "nat \<Rightarrow> bool \<Rightarrow> string \<Rightarrow> lock_error \<Rightarrow> kernel \<Rightarrow> (lock_error + 'a) \<times> kernel" where
  "abandon h locked description error k =
     (case closeHandle h locked description k of
        (None, k1) \<Rightarrow> (Inl error, k1) | (Some c, k1) \<Rightarrow> (Inl (combineErrors error c), k1))"

text \<open>The object \<open>RuntimeLock\<close>: its handle and the result of its release, once there is one.\<close>

record runtime_lock =
  rl_handle :: nat
  rl_description :: string
  rl_released :: "lock_error option option"

definition runtimeLockForHandle :: "nat \<Rightarrow> string \<Rightarrow> runtime_lock" where
  "runtimeLockForHandle h description = \<lparr>rl_handle = h, rl_description = description, rl_released = None\<rparr>"

definition acquireRuntimeLock ::
  "path \<Rightarrow> error \<Rightarrow> string \<Rightarrow> kernel \<Rightarrow> (lock_error + runtime_lock) \<times> kernel" where
  "acquireRuntimeLock lockPath conflictMessage description k =
     (case kernel_call k of
        (Some e, k1) \<Rightarrow> (Inl e, k1)
      | (None, k1) \<Rightarrow>
          (case open_file lockPath k1 of
             (Inl e, k2) \<Rightarrow> (Inl e, k2)
           | (Inr h, k2) \<Rightarrow>
               (case tryLock h lockPath k2 of
                  (Inl e, k3) \<Rightarrow> abandon h False description e k3
                | (Inr locked, k3) \<Rightarrow>
                    if \<not> locked then abandon h False description (Lock_error conflictMessage) k3
                    else
                      (case kernel_call k3 of
                         (Some e, k4) \<Rightarrow> abandon h True description e k4
                       | (None, k4) \<Rightarrow> (Inr (runtimeLockForHandle h description), k4)))))"

definition acquirePeerRuntimeLock :: "path \<Rightarrow> kernel \<Rightarrow> (lock_error + runtime_lock) \<times> kernel" where
  "acquirePeerRuntimeLock stateDir =
     acquireRuntimeLock (peerRuntimeLockPath stateDir) ''Peer identity is already in use'' ''peer runtime lock''"

definition releaseHandle :: "nat \<Rightarrow> string \<Rightarrow> kernel \<Rightarrow> lock_error option \<times> kernel" where
  "releaseHandle h description k = closeHandle h True description k"

text \<open>\<open>release\<close>: all calls share the result of the first.\<close>

definition release :: "runtime_lock \<Rightarrow> kernel \<Rightarrow> lock_error option \<times> runtime_lock \<times> kernel" where
  "release l k =
     (case rl_released l of
        Some r \<Rightarrow> (r, l, k)
      | None \<Rightarrow>
          (let (r, k1) = releaseHandle (rl_handle l) (rl_description l) k
           in (r, l\<lparr>rl_released := Some r\<rparr>, k1)))"

section \<open>Many processes\<close>

text \<open>Runtimes that acquire and release locks, in any order; the list has every lock ever acquired.\<close>

datatype lock_event = Lock_acquire path | Lock_release nat

fun lock_step :: "lock_event \<Rightarrow> (path \<times> runtime_lock) list \<times> kernel \<Rightarrow> (path \<times> runtime_lock) list \<times> kernel" where
  "lock_step (Lock_acquire stateDir) (locks, k) =
     (case acquirePeerRuntimeLock stateDir k of
        (Inl _, k1) \<Rightarrow> (locks, k1)
      | (Inr l, k1) \<Rightarrow> (locks @ [(stateDir, l)], k1))"
| "lock_step (Lock_release i) (locks, k) =
     (if i < length locks then
        (case release (snd (locks ! i)) k of (_, l, k1) \<Rightarrow> (locks[i := (fst (locks ! i), l)], k1))
      else (locks, k))"

definition held :: "(path \<times> runtime_lock) list \<Rightarrow> (path \<times> runtime_lock) list" where
  "held locks = filter (\<lambda>(_, l). rl_released l = None) locks"

end
