(* ===== verification/Runtime_Lock_Properties.thy ===== *)
theory Runtime_Lock_Properties
  imports Runtime_Lock
begin

text \<open>
  One runtime per state directory: however many processes acquire and release the lock, and
  whatever calls fail, at most one holds it, and no descriptor is left open that is not a held lock's.
\<close>

section \<open>The kernel\<close>

definition kernel_inv :: "kernel \<Rightarrow> bool" where
  "kernel_inv k \<longleftrightarrow>
     map_wf (kn_owners k) \<and> (\<forall>h \<in> set (map_keys (kn_handles k)). h < kn_next k) \<and>
     (\<forall>p h. map_get (kn_owners k) p = Some h \<longrightarrow> map_get (kn_handles k) h \<noteq> None)"

text \<open>What a call leaves alone: owners, handles and the next descriptor.\<close>

definition same_kernel :: "kernel \<Rightarrow> kernel \<Rightarrow> bool" where
  "same_kernel k k' \<longleftrightarrow>
     kn_owners k' = kn_owners k \<and> kn_handles k' = kn_handles k \<and> kn_next k' = kn_next k"

lemma kernel_fault_same: "kernel_fault k = (r, k1) \<Longrightarrow> same_kernel k k1"
  by (auto simp: kernel_fault_def same_kernel_def split: list.splits)

lemma kernel_call_same: "kernel_call k = (r, k1) \<Longrightarrow> same_kernel k k1"
  by (auto simp: kernel_call_def dest: kernel_fault_same split: prod.splits)

lemma same_inv: "same_kernel k k1 \<Longrightarrow> kernel_inv k \<Longrightarrow> kernel_inv k1"
  by (simp add: same_kernel_def kernel_inv_def)

lemma owners_filter:
  "map_wf m \<Longrightarrow> map_get (filter (\<lambda>(_, owner). owner \<noteq> h) m) = (\<lambda>p. if map_get m p = Some h then None else map_get m p)"
proof (induction m)
  case (Cons a m)
  obtain p o' where a: "a = (p, o')" by fastforce
  have "map_get m p = None" using Cons.prems by (simp add: a map_wf_def map_of_eq_None_iff)
  with Cons show ?case by (auto simp: a map_wf_def fun_eq_iff)
qed simp

lemma wf_filter: "map_wf m \<Longrightarrow> map_wf (filter P m)"
  by (simp add: map_wf_def distinct_map_filter)

text \<open>Closing: the descriptor and all that it owned are gone, with or without an error.\<close>

lemma closeHandle_effect:
  assumes "map_wf (kn_owners k)" and "closeHandle h locked description k = (r, k')"
  shows "map_get (kn_owners k') = (\<lambda>p. if map_get (kn_owners k) p = Some h then None else map_get (kn_owners k) p)"
    and "map_get (kn_handles k') = (map_get (kn_handles k))(h := None)"
    and "kn_next k' = kn_next k" and "map_wf (kn_owners k')"
    and "set (map_keys (kn_handles k')) \<subseteq> set (map_keys (kn_handles k))"
proof -
  obtain u k1 where u: "(if locked then unlock h k else (None, k)) = (u, k1)" by fastforce
  obtain c k2 where c: "close_file h k1 = (c, k2)" by fastforce
  have k': "k' = k2" using assms(2) u c by (simp add: closeHandle_def Let_def split: option.splits)
  have k1: "(kn_owners k1 = kn_owners k \<or> kn_owners k1 = filter (\<lambda>(_, owner). owner \<noteq> h) (kn_owners k)) \<and>
      kn_handles k1 = kn_handles k \<and> kn_next k1 = kn_next k"
    using u by (auto simp: unlock_def drop_owner_def same_kernel_def dest!: kernel_fault_same
        split: if_splits prod.splits option.splits)
  obtain f k0 where f: "kernel_fault k1 = (f, k0)" by fastforce
  have k2: "k2 = drop_owner h (k0\<lparr>kn_handles := map_delete h (kn_handles k0)\<rparr>)"
    using c f by (simp add: close_file_def)
  have k0: "kn_owners k0 = kn_owners k1" "kn_handles k0 = kn_handles k1" "kn_next k0 = kn_next k1"
    using kernel_fault_same [OF f] by (simp_all add: same_kernel_def)
  from k1 have wf1: "map_wf (kn_owners k1)" using assms(1) wf_filter by metis
  have o1: "(if map_get (kn_owners k1) p = Some h then None else map_get (kn_owners k1) p) =
      (if map_get (kn_owners k) p = Some h then None else map_get (kn_owners k) p)" for p
    using k1 owners_filter [OF assms(1), of h] by auto
  show "map_get (kn_owners k') = (\<lambda>p. if map_get (kn_owners k) p = Some h then None else map_get (kn_owners k) p)"
    using o1 owners_filter [OF wf1, of h] by (auto simp: k' k2 drop_owner_def k0)
  show "map_wf (kn_owners k')" using wf_filter [OF wf1] by (simp add: k' k2 drop_owner_def k0)
  show "map_get (kn_handles k') = (map_get (kn_handles k))(h := None)" "kn_next k' = kn_next k"
    using k1 by (auto simp: k' k2 drop_owner_def k0 delete_conv')
  have "map_keys (kn_handles k') = removeAll h (map_keys (kn_handles k))"
    using k1 by (simp add: k' k2 drop_owner_def k0 delete_keys)
  then show "set (map_keys (kn_handles k')) \<subseteq> set (map_keys (kn_handles k))" by (metis Diff_subset set_removeAll)
qed

lemma abandon_effect:
  assumes "map_wf (kn_owners k)" and "abandon h locked description e k = (r, k')"
  shows "isl r \<and> (\<exists>c. closeHandle h locked description k = (c, k'))"
  using assms by (auto simp: abandon_def split: prod.splits option.splits)

section \<open>Acquiring and releasing\<close>

text \<open>What the outside sees of an acquisition.\<close>

definition acquired :: "path \<Rightarrow> kernel \<Rightarrow> lock_error + runtime_lock \<Rightarrow> kernel \<Rightarrow> bool" where
  "acquired p k r k' \<longleftrightarrow> kernel_inv k' \<and> kn_next k \<le> kn_next k' \<and>
     (case r of
        Inl _ \<Rightarrow> map_get (kn_owners k') = map_get (kn_owners k) \<and> map_get (kn_handles k') = map_get (kn_handles k)
      | Inr l \<Rightarrow>
          rl_released l = None \<and> map_get (kn_owners k) p = None \<and> map_get (kn_handles k) (rl_handle l) = None \<and>
          map_get (kn_owners k') = (map_get (kn_owners k))(p \<mapsto> rl_handle l) \<and>
          map_get (kn_handles k') = (map_get (kn_handles k))(rl_handle l \<mapsto> p))"

text \<open>The file is open: \<open>h\<close> is a new descriptor, and the locks are as before.\<close>

lemma open_file_Inr:
  assumes "kernel_inv k" and "open_file p k = (Inr h, k')"
  shows "map_get (kn_handles k) h = None" and "map_get (kn_owners k) q \<noteq> Some h"
    and "map_get (kn_handles k') = (map_get (kn_handles k))(h \<mapsto> p)" and "kn_owners k' = kn_owners k"
    and "kn_next k' = Suc (kn_next k)" and "h = kn_next k"
    and "set (map_keys (kn_handles k')) \<subseteq> insert h (set (map_keys (kn_handles k)))"
proof -
  obtain f k1 where f: "kernel_fault k = (f, k1)" by fastforce
  have k1: "kn_owners k1 = kn_owners k" "kn_handles k1 = kn_handles k" "kn_next k1 = kn_next k"
    using kernel_fault_same [OF f] by (simp_all add: same_kernel_def)
  from assms(2) f have h: "h = kn_next k" and
    k': "k' = k1\<lparr>kn_handles := map_set h p (kn_handles k1), kn_next := Suc h\<rparr>"
    by (auto simp: open_file_def k1 split: option.splits)
  have fresh: "h \<notin> set (map_keys (kn_handles k))" using assms(1) h by (force simp: kernel_inv_def)
  then show none: "map_get (kn_handles k) h = None" by (simp add: map_of_eq_None_iff)
  then show "map_get (kn_owners k) q \<noteq> Some h" using assms(1) unfolding kernel_inv_def by blast
  show "map_get (kn_handles k') = (map_get (kn_handles k))(h \<mapsto> p)" "kn_owners k' = kn_owners k"
    "kn_next k' = Suc (kn_next k)" "h = kn_next k"
    by (simp_all add: k' k1 h update_conv')
  show "set (map_keys (kn_handles k')) \<subseteq> insert h (set (map_keys (kn_handles k)))"
    by (auto simp: k' k1 update_keys)
qed

text \<open>Abandoning what was opened restores the state.\<close>

lemma abandon_restores:
  assumes "kernel_inv k" and "open_file p k = (Inr h, k2)"
    and "map_wf (kn_owners k3)" and "kn_handles k3 = kn_handles k2" and "kn_next k3 = kn_next k2"
    and "map_get (kn_owners k3) = map_get (kn_owners k) \<or>
      map_get (kn_owners k) p = None \<and> map_get (kn_owners k3) = (map_get (kn_owners k))(p \<mapsto> h)"
    and "abandon h locked description e k3 = (r, k')"
  shows "acquired p k r k'"
proof -
  note opened = open_file_Inr [OF assms(1,2)]
  obtain c where r: "isl r" and c: "closeHandle h locked description k3 = (c, k')"
    using abandon_effect [OF assms(3,7)] by blast
  note closed = closeHandle_effect [OF assms(3) c]
  have owners: "map_get (kn_owners k') = map_get (kn_owners k)"
  proof
    fix x
    show "map_get (kn_owners k') x = map_get (kn_owners k) x"
      using assms(6) opened(2) by (cases "x = p") (auto simp: closed(1))
  qed
  have handles: "map_get (kn_handles k') = map_get (kn_handles k)"
    using opened(1,3) by (auto simp: closed(2) assms(4) fun_eq_iff)
  have "kernel_inv k'"
    using assms(1) closed(3-5) opened(5-7) assms(4,5) owners handles
    by (fastforce simp: kernel_inv_def)
  with r owners handles closed(3) opened(5) assms(5) show ?thesis
    by (auto simp: acquired_def split: sum.splits)
qed

lemma same_acquired: "same_kernel k k1 \<Longrightarrow> acquired p k1 r k' \<Longrightarrow> acquired p k r k'"
  by (cases r) (simp_all add: acquired_def same_kernel_def)

lemma tryLock_effect:
  assumes "tryLock h p k = (t, k')"
  shows "kn_handles k' = kn_handles k" "kn_next k' = kn_next k"
    "t = Inr True \<Longrightarrow> map_get (kn_owners k) p \<in> {None, Some h} \<and> kn_owners k' = map_set p h (kn_owners k)"
    "t \<noteq> Inr True \<Longrightarrow> kn_owners k' = kn_owners k"
  using assms
  by (auto simp: tryLock_def same_kernel_def dest!: kernel_fault_same split: prod.splits option.splits if_splits)

lemma acquire_effect:
  assumes "kernel_inv k" and "acquireRuntimeLock p conflictMessage description k = (r, k')"
  shows "acquired p k r k'"
proof -
  obtain c k1 where c: "kernel_call k = (c, k1)" by fastforce
  note s1 = kernel_call_same [OF c]
  have inv1: "kernel_inv k1" using same_inv [OF s1 assms(1)] .
  show ?thesis
  proof (cases c)
    case (Some e)
    with assms(2) c s1 inv1 show ?thesis by (auto simp: acquireRuntimeLock_def acquired_def same_kernel_def)
  next
    case None
    obtain o' k2 where o': "open_file p k1 = (o', k2)" by fastforce
    show ?thesis
    proof (cases o')
      case (Inl e)
      with o' have "same_kernel k1 k2"
        by (auto simp: open_file_def dest!: kernel_fault_same split: prod.splits option.splits)
      with assms(2) c None o' Inl s1 same_inv [OF _ inv1] show ?thesis
        by (auto simp: acquireRuntimeLock_def acquired_def same_kernel_def)
    next
      case (Inr h)
      note opened = open_file_Inr [OF inv1 o' [unfolded Inr]]
      have wf2: "map_wf (kn_owners k2)" using inv1 opened(4) by (simp add: kernel_inv_def)
      obtain t k3 where t: "tryLock h p k2 = (t, k3)" by fastforce
      have k3: "kn_handles k3 = kn_handles k2" "kn_next k3 = kn_next k2"
        "t = Inr True \<Longrightarrow> map_get (kn_owners k1) p = None \<and> kn_owners k3 = map_set p h (kn_owners k1)"
        "t \<noteq> Inr True \<Longrightarrow> kn_owners k3 = kn_owners k1"
        using tryLock_effect [OF t] opened(2) [of p] by (auto simp: opened(4))
      have wf3: "map_wf (kn_owners k3)"
        using k3(3,4) inv1 by (cases "t = Inr True") (simp_all add: kernel_inv_def map_wf_def distinct_update)
      show ?thesis
      proof (cases "t = Inr True")
        case False
        then obtain locked e where "abandon h locked description e k3 = (r, k')"
          using assms(2) c None o' Inr t by (auto simp: acquireRuntimeLock_def split: sum.splits if_splits)
        from abandon_restores [OF inv1 o' [unfolded Inr] wf3 k3(1,2) _ this] k3(4) False
        show ?thesis by (intro same_acquired [OF s1]) simp
      next
        case True
        obtain c2 k4 where c2: "kernel_call k3 = (c2, k4)" by fastforce
        have k4: "kn_owners k4 = kn_owners k3" "kn_handles k4 = kn_handles k3" "kn_next k4 = kn_next k3"
          using kernel_call_same [OF c2] by (simp_all add: same_kernel_def)
        note owned = k3(3) [OF True]
        have owners: "map_get (kn_owners k4) = (map_get (kn_owners k1))(p \<mapsto> h)"
          using owned by (simp add: k4(1) update_conv')
        show ?thesis
        proof (cases c2)
          case (Some e)
          then have "abandon h True description e k4 = (r, k')"
            using assms(2) c None o' Inr t True c2 by (simp add: acquireRuntimeLock_def)
          from abandon_restores [OF inv1 o' [unfolded Inr] _ _ _ _ this] wf3 k3(1,2) owners owned
          show ?thesis by (intro same_acquired [OF s1]) (simp add: k4)
        next
          case n: None
          then have r: "r = Inr (runtimeLockForHandle h description)" "k' = k4"
            using assms(2) c None o' Inr t True c2 by (simp_all add: acquireRuntimeLock_def)
          have "kernel_inv k4"
            using inv1 owners opened(3,5-7) k3(1,2) wf3 by (fastforce simp: kernel_inv_def k4)
          then have "acquired p k1 r k'"
            using owners owned opened(1,3,5) k3(1,2) by (simp add: acquired_def r runtimeLockForHandle_def k4)
          then show ?thesis by (rule same_acquired [OF s1])
        qed
      qed
    qed
  qed
qed

lemma release_effect:
  assumes "kernel_inv k" and "rl_released l = None" and "release l k = (r, l', k')"
  shows "kernel_inv k'" and "rl_released l' = Some r" and "rl_handle l' = rl_handle l"
    and "map_get (kn_owners k') = (\<lambda>p. if map_get (kn_owners k) p = Some (rl_handle l) then None else map_get (kn_owners k) p)"
    and "map_get (kn_handles k') = (map_get (kn_handles k))(rl_handle l := None)"
proof -
  have wf: "map_wf (kn_owners k)" using assms(1) by (simp add: kernel_inv_def)
  have c: "closeHandle (rl_handle l) True (rl_description l) k = (r, k')" and "l' = l\<lparr>rl_released := Some r\<rparr>"
    using assms(2,3) by (auto simp: release_def releaseHandle_def split: prod.splits)
  note closed = closeHandle_effect [OF wf c]
  have "h < kn_next k'" if "h \<in> set (map_keys (kn_handles k'))" for h
    using that closed(3,5) assms(1) unfolding kernel_inv_def by (metis subsetD)
  moreover have "map_get (kn_handles k') h \<noteq> None" if "map_get (kn_owners k') p = Some h" for p h
    using that assms(1) unfolding kernel_inv_def closed(1,2) by (auto split: if_splits)
  ultimately show "kernel_inv k'" using closed(4) unfolding kernel_inv_def by blast
  show "rl_released l' = Some r" "rl_handle l' = rl_handle l" by (simp_all add: \<open>l' = _\<close>)
  show "map_get (kn_owners k') = (\<lambda>p. if map_get (kn_owners k) p = Some (rl_handle l) then None else map_get (kn_owners k) p)"
    and "map_get (kn_handles k') = (map_get (kn_handles k))(rl_handle l := None)"
    using closed by simp_all
qed

section \<open>Runs\<close>

fun lock_run :: "lock_event list \<Rightarrow> (path \<times> runtime_lock) list \<times> kernel \<Rightarrow> (path \<times> runtime_lock) list \<times> kernel" where
  "lock_run [] s = s"
| "lock_run (ev # evs) s = lock_run evs (lock_step ev s)"

lemma lock_path_inj: "p \<noteq> [] \<Longrightarrow> q \<noteq> [] \<Longrightarrow> peerRuntimeLockPath p = peerRuntimeLockPath q \<Longrightarrow> p = q"
  by (simp add: peerRuntimeLockPath_def dirname_def basename_def) (metis append_butlast_last_id)

text \<open>The held locks are exactly the owners and the open descriptors.\<close>

definition locks_inv :: "(path \<times> runtime_lock) list \<times> kernel \<Rightarrow> bool" where
  "locks_inv s \<longleftrightarrow> (case s of (locks, k) \<Rightarrow>
     kernel_inv k \<and> (\<forall>(p, l) \<in> set locks. p \<noteq> []) \<and>
     distinct (map fst (held locks)) \<and> distinct (map (rl_handle \<circ> snd) (held locks)) \<and>
     (\<forall>(p, l) \<in> set (held locks). map_get (kn_owners k) (peerRuntimeLockPath p) = Some (rl_handle l)) \<and>
     (\<forall>h. map_get (kn_handles k) h \<noteq> None \<longleftrightarrow> h \<in> (rl_handle \<circ> snd) ` set (held locks)))"

fun lock_event_ok :: "lock_event \<Rightarrow> bool" where
  "lock_event_ok (Lock_acquire p) \<longleftrightarrow> p \<noteq> []"
| "lock_event_ok (Lock_release i) \<longleftrightarrow> True"

lemma held_append: "held (xs @ ys) = held xs @ held ys"
  by (simp add: held_def)

lemma acquire_inv:
  assumes "locks_inv (locks, k)" and "p \<noteq> []"
  shows "locks_inv (lock_step (Lock_acquire p) (locks, k))"
proof -
  obtain r k' where r: "acquirePeerRuntimeLock p k = (r, k')" by fastforce
  have k: "kernel_inv k" using assms(1) by (simp add: locks_inv_def)
  have a: "acquired (peerRuntimeLockPath p) k r k'"
    using acquire_effect [OF k] r by (simp add: acquirePeerRuntimeLock_def)
  show ?thesis
  proof (cases r)
    case (Inl e)
    with a r assms(1) show ?thesis by (simp add: locks_inv_def acquired_def)
  next
    case (Inr l)
    have h: "held [(p, l)] = [(p, l)]" using a Inr by (simp add: held_def acquired_def)
    have a': "kernel_inv k'" "rl_released l = None" "map_get (kn_owners k) (peerRuntimeLockPath p) = None"
        "map_get (kn_handles k) (rl_handle l) = None"
        "map_get (kn_owners k') = (map_get (kn_owners k))(peerRuntimeLockPath p \<mapsto> rl_handle l)"
        "map_get (kn_handles k') = (map_get (kn_handles k))(rl_handle l \<mapsto> peerRuntimeLockPath p)"
      using a Inr by (simp_all add: acquired_def)
    have inv: "\<forall>(p, l) \<in> set locks. p \<noteq> []" "distinct (map fst (held locks))" "distinct (map (rl_handle \<circ> snd) (held locks))"
        "\<And>q l'. (q, l') \<in> set (held locks) \<Longrightarrow> map_get (kn_owners k) (peerRuntimeLockPath q) = Some (rl_handle l')"
        "\<And>h. map_get (kn_handles k) h \<noteq> None \<longleftrightarrow> h \<in> (rl_handle \<circ> snd) ` set (held locks)"
      using assms(1) by (auto simp: locks_inv_def)
    have path: "peerRuntimeLockPath q \<noteq> peerRuntimeLockPath p" if "(q, l') \<in> set (held locks)" for q l'
      using inv(4) [OF that] a'(3) by auto
    then have "p \<notin> fst ` set (held locks)" by force
    moreover have new: "rl_handle l \<notin> (rl_handle \<circ> snd) ` set (held locks)" using inv(5) a'(4) by blast
    moreover have "map_get (kn_owners k') (peerRuntimeLockPath q) = Some (rl_handle l')"
      if "(q, l') \<in> set (held locks) \<union> {(p, l)}" for q l'
      using that inv(4) path by (auto simp: a'(5))
    moreover have "map_get (kn_handles k') h \<noteq> None \<longleftrightarrow> h \<in> insert (rl_handle l) ((rl_handle \<circ> snd) ` set (held locks))" for h
      using inv(5) [of h] by (auto simp: a'(6))
    ultimately show ?thesis
      using assms(2) inv(1-3) a'(1) by (simp add: r Inr locks_inv_def held_append h) blast
  qed
qed

lemma held_released:
  assumes "i < length locks" and "rl_released l' \<noteq> None"
  shows "held (locks[i := (p, l')]) = held (take i locks) @ held (drop (Suc i) locks)"
  using assms by (simp add: upd_conv_take_nth_drop held_append) (auto simp: held_def)

lemma release_inv:
  assumes "locks_inv (locks, k)"
  shows "locks_inv (lock_step (Lock_release i) (locks, k))"
proof (cases "i < length locks \<and> rl_released (snd (locks ! i)) = None")
  case False
  then show ?thesis using assms by (auto simp: release_def)
next
  case True
  obtain p l where pl: "locks ! i = (p, l)" by fastforce
  obtain r l' k' where r: "release l k = (r, l', k')" by (metis surj_pair)
  have inv: "kernel_inv k" "\<forall>(p, l) \<in> set locks. p \<noteq> []" "distinct (map fst (held locks))"
      "distinct (map (rl_handle \<circ> snd) (held locks))"
      "\<And>q m. (q, m) \<in> set (held locks) \<Longrightarrow> map_get (kn_owners k) (peerRuntimeLockPath q) = Some (rl_handle m)"
      "\<And>h. map_get (kn_handles k) h \<noteq> None \<longleftrightarrow> h \<in> (rl_handle \<circ> snd) ` set (held locks)"
    using assms by (auto simp: locks_inv_def)
  note e = release_effect [OF inv(1) _ r]
  have l: "rl_released l = None" using True pl by simp
  have split: "locks = take i locks @ (p, l) # drop (Suc i) locks" using True pl by (metis id_take_nth_drop)
  let ?rest = "held (take i locks) @ held (drop (Suc i) locks)"
  have before: "held locks = held (take i locks) @ (p, l) # held (drop (Suc i) locks)"
    by (subst split) (simp add: held_append, simp add: held_def l)
  have after: "held (locks[i := (p, l')]) = ?rest"
    using True e(2) [OF l] by (intro held_released) simp_all
  have rest: "rl_handle m \<noteq> rl_handle l \<and> (q, m) \<in> set (held locks)" if "(q, m) \<in> set ?rest" for q m
    using that inv(4) unfolding before by force
  have owners: "map_get (kn_owners k') (peerRuntimeLockPath q) = Some (rl_handle m)" if "(q, m) \<in> set ?rest" for q m
    using rest [OF that] inv(5) [of q m] by (simp add: e(4) [OF l])
  have handles: "map_get (kn_handles k') h \<noteq> None \<longleftrightarrow> h \<in> (rl_handle \<circ> snd) ` set ?rest" for h
    using inv(4) inv(6) [of h] unfolding before by (auto simp: e(5) [OF l])
  have "\<forall>(q, m) \<in> set (locks[i := (p, l')]). q \<noteq> []"
  proof -
    have "p \<noteq> []" using inv(2) True pl nth_mem [of i locks] by fastforce
    then show ?thesis using inv(2) set_update_subset_insert [of locks i "(p, l')"] by fastforce
  qed
  then show ?thesis
    using True pl r inv(3,4) owners handles e(1) [OF l]
    by (simp add: locks_inv_def after) (auto simp: before)
qed

lemma lock_run_inv: "locks_inv s \<Longrightarrow> \<forall>ev \<in> set evs. lock_event_ok ev \<Longrightarrow> locks_inv (lock_run evs s)"
proof (induction evs arbitrary: s)
  case (Cons ev evs)
  obtain locks k where s: "s = (locks, k)" by fastforce
  have "locks_inv (lock_step ev s)"
  proof (cases ev)
    case (Lock_acquire p)
    with Cons.prems acquire_inv show ?thesis unfolding s by simp
  next
    case (Lock_release i)
    with Cons.prems release_inv show ?thesis unfolding s by blast
  qed
  with Cons show ?case by simp
qed simp

text \<open>
  C17: However processes acquire and release runtime locks, and whatever calls of the kernel fail, no
  two hold the lock of the same state directory, and the descriptors that are open are exactly those
  of the locks that are held: a failed acquisition or release leaks none.
\<close>

theorem runtime_lock_exclusive:
  assumes "lock_run evs ([], \<lparr>kn_handles = [], kn_owners = [], kn_next = n, kn_faults = faults\<rparr>) = (locks, k)"
    and "\<forall>ev \<in> set evs. lock_event_ok ev"
  shows "distinct (map fst (held locks)) \<and>
    (\<forall>h. map_get (kn_handles k) h \<noteq> None \<longleftrightarrow> h \<in> (rl_handle \<circ> snd) ` set (held locks))"
proof -
  have "locks_inv ([], \<lparr>kn_handles = [], kn_owners = [], kn_next = n, kn_faults = faults\<rparr>)"
    by (simp add: locks_inv_def kernel_inv_def map_wf_def held_def)
  from lock_run_inv [OF this assms(2)] show ?thesis using assms(1) by (simp add: locks_inv_def)
qed

definition ex_lock_events :: "lock_event list" where
  "ex_lock_events = [Lock_acquire [''peer''], Lock_acquire [''peer''], Lock_release 0, Lock_acquire [''peer'']]"

theorem runtime_lock_exclusive_witness:
  "\<exists>locks k. lock_run ex_lock_events ([], \<lparr>kn_handles = [], kn_owners = [], kn_next = 3, kn_faults = []\<rparr>) = (locks, k) \<and>
     map fst (held locks) = [[''peer'']] \<and> length locks = 2 \<and> distinct (map fst (held locks))"
proof -
  let ?k = "\<lparr>kn_handles = [], kn_owners = [], kn_next = 3, kn_faults = []\<rparr>"
  obtain locks k where r: "lock_run ex_lock_events ([], ?k) = (locks, k)" by fastforce
  have "\<forall>ev \<in> set ex_lock_events. lock_event_ok ev" by (simp add: ex_lock_events_def)
  note d = runtime_lock_exclusive [OF r this]
  have "map fst (held locks) = [[''peer'']] \<and> length locks = 2"
    using r by (simp add: ex_lock_events_def acquirePeerRuntimeLock_def acquireRuntimeLock_def kernel_call_def
        kernel_fault_def open_file_def tryLock_def abandon_def closeHandle_def unlock_def close_file_def drop_owner_def
        runtimeLockForHandle_def release_def releaseHandle_def held_def)
      (auto simp: held_def)
  with r d show ?thesis by (intro exI [of _ locks] exI [of _ k] conjI) simp_all
qed

end
