(* ===== verification/Network.thy ===== *)
theory Network
  imports Pair
begin

text \<open>
  Several hosts, each with the engine of \<open>src/vpn/engine.ts\<close>, joined by the streams of the DHT.
  A stream has two ends; each is known at its host by a number, and the Noise handshake tells each
  host the key of the other (\<open>remotePublicKey\<close>).  Frames travel in order towards an end and may
  be lost with everything behind them, as when a stream is destroyed; \<open>Framing_Properties\<close> shows
  that this is what the bytes of a stream carry.  Whoever holds a key without an engine here may
  send any frames.  Hosts and links come and go in any order; an engine may be started again with
  another configuration, as the receiver does.
\<close>

section \<open>The state\<close>

type_synonym wire_end = "string \<times> nat"

text \<open>
  \<open>nw_links\<close> gives the far end of an end, \<open>nw_wires\<close> the frames on their way to an end.  The rest is
  history: the engines that hosts have started with, the packets a host has read from its device,
  the frames sent at an end, and the packets written to the device that arrived at an end.
\<close>

record network =
  nw_hosts :: "(string, engine) js_map"
  nw_links :: "(wire_end, wire_end) js_map"
  nw_wires :: "wire_end \<Rightarrow> bytes list"
  nw_started :: "(string \<times> engine) list"
  nw_taken :: "string \<Rightarrow> bytes list"
  nw_sent :: "wire_end \<Rightarrow> bytes list"
  nw_written :: "wire_end \<Rightarrow> bytes list"

definition empty_network :: network where
  "empty_network =
     \<lparr>nw_hosts = [], nw_links = [], nw_wires = (\<lambda>_. []), nw_started = [], nw_taken = (\<lambda>_. []),
      nw_sent = (\<lambda>_. []), nw_written = (\<lambda>_. [])\<rparr>"

section \<open>What an engine does to the network\<close>

definition put_frame :: "wire_end \<Rightarrow> bytes \<Rightarrow> network \<Rightarrow> network" where
  "put_frame near frame n =
     (case map_get (nw_links n) near of
        None \<Rightarrow> n
      | Some far \<Rightarrow>
          n\<lparr>nw_wires := (nw_wires n)(far := nw_wires n far @ [frame]),
            nw_sent := (nw_sent n)(near := nw_sent n near @ [frame])\<rparr>)"

text \<open>The frame of an effect; \<open>stringify\<close> is \<open>JSON.stringify\<close> with the encoding of \<open>Buffer.from\<close>.\<close>

fun frame_of :: "(js \<Rightarrow> bytes) \<Rightarrow> effect \<Rightarrow> (nat \<times> bytes) option" where
  "frame_of stringify (Send_frame stream packet) = Some (stream, packet)"
| "frame_of stringify (Send_response stream r) = Some (stream, stringify (response_value r))"
| "frame_of stringify _ = None"

fun put_frames :: "(js \<Rightarrow> bytes) \<Rightarrow> string \<Rightarrow> effect list \<Rightarrow> network \<Rightarrow> network" where
  "put_frames stringify host [] n = n"
| "put_frames stringify host (x # out) n =
     put_frames stringify host out
       (case frame_of stringify x of None \<Rightarrow> n | Some (stream, frame) \<Rightarrow> put_frame (host, stream) frame n)"

text \<open>The frame that an event hands to the engine, and the device's packet that it reads.\<close>

fun arriving :: "engine_event \<Rightarrow> (nat \<times> bytes) option" where
  "arriving (Ev_frame now date stream packet outcome) = Some (stream, packet)"
| "arriving (Ev_enrollment_frame now stream is_first packet outcome) = Some (stream, packet)"
| "arriving _ = None"

fun device_read :: "engine_event \<Rightarrow> bytes list" where
  "device_read (Ev_device date packet sent) = [packet]"
| "device_read _ = []"

fun device_writes :: "effect list \<Rightarrow> bytes list" where
  "device_writes [] = []"
| "device_writes (To_device packet # out) = packet # device_writes out"
| "device_writes (_ # out) = device_writes out"

text \<open>
  When the network gives an event to an engine: a frame is the first on its wire, and the key that
  comes with a new stream is that of the far end.
\<close>

definition far_key :: "network \<Rightarrow> wire_end \<Rightarrow> string option" where
  "far_key n near = map_option fst (map_get (nw_links n) near)"

fun permitted :: "string \<Rightarrow> engine_event \<Rightarrow> network \<Rightarrow> bool" where
  "permitted host (Ev_accept key stream) n \<longleftrightarrow> far_key n (host, stream) = Some key"
| "permitted host (Ev_dial_connected p stream remote) n \<longleftrightarrow> far_key n (host, stream) = Some remote"
| "permitted host ev n \<longleftrightarrow>
     (case arriving ev of
        None \<Rightarrow> True
      | Some (stream, packet) \<Rightarrow>
          nw_wires n (host, stream) \<noteq> [] \<and> hd (nw_wires n (host, stream)) = packet)"

definition take_frame :: "string \<Rightarrow> engine_event \<Rightarrow> effect list \<Rightarrow> network \<Rightarrow> network" where
  "take_frame host ev out n =
     (case arriving ev of
        None \<Rightarrow> n
      | Some (stream, packet) \<Rightarrow>
          n\<lparr>nw_wires := (nw_wires n)((host, stream) := tl (nw_wires n (host, stream))),
            nw_written := (nw_written n)((host, stream) := nw_written n (host, stream) @ device_writes out)\<rparr>)"

definition host_event :: "(js \<Rightarrow> bytes) \<Rightarrow> string \<Rightarrow> engine_event \<Rightarrow> engine \<Rightarrow> network \<Rightarrow> network" where
  "host_event stringify host ev e n =
     (let (e', out) = engine_step ev e in
      put_frames stringify host out
        (take_frame host ev out
          (n\<lparr>nw_hosts := map_set host e' (nw_hosts n),
             nw_taken := (nw_taken n)(host := nw_taken n host @ device_read ev)\<rparr>)))"

definition host_start :: "string \<Rightarrow> engine \<Rightarrow> network \<Rightarrow> network" where
  "host_start host e n =
     n\<lparr>nw_hosts := map_set host e (nw_hosts n), nw_started := (host, e) # nw_started n\<rparr>"

definition link :: "wire_end \<Rightarrow> wire_end \<Rightarrow> network \<Rightarrow> network" where
  "link near far n = n\<lparr>nw_links := map_set near far (map_set far near (nw_links n))\<rparr>"

definition lose_frames :: "wire_end \<Rightarrow> nat \<Rightarrow> network \<Rightarrow> network" where
  "lose_frames near k n = n\<lparr>nw_wires := (nw_wires n)(near := take k (nw_wires n near))\<rparr>"

section \<open>Runs\<close>

inductive network_step :: "(js \<Rightarrow> bytes) \<Rightarrow> network \<Rightarrow> network \<Rightarrow> bool" for stringify where
  net_start: "start_engine host config enrollment = Inr e \<Longrightarrow>
    map_get (nw_hosts n) host \<noteq> None \<or> host \<notin> fst ` set (map_keys (nw_links n)) \<Longrightarrow>
    network_step stringify n (host_start host e n)"
| net_link: "near \<noteq> far \<Longrightarrow> map_get (nw_links n) near = None \<Longrightarrow> map_get (nw_links n) far = None \<Longrightarrow>
    network_step stringify n (link near far n)"
| net_event: "map_get (nw_hosts n) host = Some e \<Longrightarrow> event_ok ev e \<Longrightarrow> permitted host ev n \<Longrightarrow>
    network_step stringify n (host_event stringify host ev e n)"
| net_foreign: "map_get (nw_hosts n) key = None \<Longrightarrow>
    network_step stringify n (put_frame (key, stream) frame n)"
| net_lose: "network_step stringify n (lose_frames near k n)"

inductive reachable_network :: "(js \<Rightarrow> bytes) \<Rightarrow> network \<Rightarrow> bool" for stringify where
  net_empty: "reachable_network stringify empty_network"
| net_next: "reachable_network stringify n \<Longrightarrow> network_step stringify n n' \<Longrightarrow>
    reachable_network stringify n'"

inductive_simps network_step_simps: "network_step stringify n n'"

end
