(* ===== verification/Network_Properties.thy ===== *)
theory Network_Properties
  imports Network Engine_Properties "HOL-Library.Sublist"
begin

text \<open>
  What the engines promise together: a packet that one host writes to its device was read from the
  device of the host whose key authenticates the stream, unchanged, on its way between the two
  addresses that both configurations agree on, and packets of a stream are neither repeated nor
  reordered.
\<close>

declare split_paired_All [simp del] split_paired_Ex [simp del]

section \<open>Frames that are not packets\<close>

text \<open>\<open>JSON.stringify\<close> of an object begins with a brace.\<close>

definition braces :: "(js \<Rightarrow> bytes) \<Rightarrow> bool" where
  "braces stringify \<longleftrightarrow> (\<forall>m. byte_at (stringify (JObj m)) 0 = 123)"

lemma response_brace: "braces stringify \<Longrightarrow> byte_at (stringify (response_value r)) 0 = 123"
  by (cases r) (simp_all add: braces_def response_value_def)

lemma admitted_first_byte:
  assumes "fst (admit date packet d p)"
  shows "byte_at packet 0 = 69"
proof -
  from assms obtain pk where "ipv4 packet = Some pk" by (auto simp: admit_eq split: option.splits)
  then have "byte_at packet 0 div 16 = 4" and "byte_at packet 0 mod 16 * 4 = 20"
    by (auto simp: ipv4_def Let_def split: if_splits)
  moreover have "byte_at packet 0 = byte_at packet 0 div 16 * 16 + byte_at packet 0 mod 16" by simp
  ultimately show ?thesis by simp
qed

lemma hello_first_byte: "byte_at hello 0 = 75"
  by (simp add: hello_def ascii_encode_def byte_at_def)

section \<open>What a host sends and writes\<close>

text \<open>A frame that a host has sent at an end: a greeting, an answer, or a packet of its device.\<close>

definition device_frame :: "network \<Rightarrow> wire_end \<Rightarrow> bytes \<Rightarrow> bool" where
  "device_frame n near frame \<longleftrightarrow>
     frame \<in> set (nw_taken n (fst near)) \<and>
     (\<exists>e0 q. (fst near, e0) \<in> set (nw_started n) \<and> q \<in> set (en_peers e0) \<and>
        far_key n near = Some (pr_key q) \<and>
        address frame 12 = en_address e0 \<and> address frame 16 = pr_address q)"

definition sent_ok :: "network \<Rightarrow> wire_end \<Rightarrow> bytes \<Rightarrow> bool" where
  "sent_ok n near frame \<longleftrightarrow> byte_at frame 0 \<noteq> 69 \<or> device_frame n near frame"

definition written_ok :: "network \<Rightarrow> wire_end \<Rightarrow> bytes \<Rightarrow> bool" where
  "written_ok n near packet \<longleftrightarrow>
     byte_at packet 0 = 69 \<and>
     (\<exists>e0 p. (fst near, e0) \<in> set (nw_started n) \<and> p \<in> set (en_peers e0) \<and>
        far_key n near = Some (pr_key p) \<and>
        address packet 12 = pr_address p \<and> address packet 16 = en_address e0 \<and>
        (en_enrollment e0 \<and> byte_at packet 9 = 6 \<longrightarrow>
           granted (pr_allowTcp p) (readUInt16BE packet 22)))"

lemma written_okI:
  assumes "byte_at packet 0 = 69" and "(fst near, e0) \<in> set (nw_started n)" and "p \<in> set (en_peers e0)"
    and "far_key n near = Some (pr_key p)"
    and "address packet 12 = pr_address p" and "address packet 16 = en_address e0"
    and "en_enrollment e0 \<and> byte_at packet 9 = 6 \<longrightarrow> granted (pr_allowTcp p) (readUInt16BE packet 22)"
  shows "written_ok n near packet"
  using assms unfolding written_ok_def by blast

lemma device_frameI:
  assumes "frame \<in> set (nw_taken n (fst near))" and "(fst near, e0) \<in> set (nw_started n)"
    and "q \<in> set (en_peers e0)" and "far_key n near = Some (pr_key q)"
    and "address frame 12 = en_address e0" and "address frame 16 = pr_address q"
  shows "device_frame n near frame"
  using assms unfolding device_frame_def by blast

text \<open>The engine of a host has run since it started, and its sessions are keyed by the far ends.\<close>

definition host_ok :: "network \<Rightarrow> string \<Rightarrow> engine \<Rightarrow> bool" where
  "host_ok n host e \<longleftrightarrow>
     (\<exists>e0 config enrollment evs out. (host, e0) \<in> set (nw_started n) \<and>
        start_engine host config enrollment = Inr e0 \<and> engine_run e0 evs e out) \<and>
     (\<forall>stream s. map_get (en_objects e) stream = Some s \<longrightarrow> far_key n (host, stream) = Some (ss_key s))"

definition links_ok :: "network \<Rightarrow> bool" where
  "links_ok n \<longleftrightarrow>
     (\<forall>x y. map_get (nw_links n) x = Some y \<longrightarrow>
        map_get (nw_links n) y = Some x \<and> subseq (nw_written n x @ nw_wires n x) (nw_sent n y)) \<and>
     (\<forall>x. map_get (nw_links n) x = None \<longrightarrow> nw_wires n x = [] \<and> nw_sent n x = [] \<and> nw_written n x = [])"

definition network_inv :: "network \<Rightarrow> bool" where
  "network_inv n \<longleftrightarrow>
     links_ok n \<and>
     (\<forall>host e. map_get (nw_hosts n) host = Some e \<longrightarrow> host_ok n host e) \<and>
     (\<forall>near frame. map_get (nw_hosts n) (fst near) \<noteq> None \<longrightarrow> frame \<in> set (nw_sent n near) \<longrightarrow>
        sent_ok n near frame) \<and>
     (\<forall>near packet. packet \<in> set (nw_written n near) \<longrightarrow> written_ok n near packet)"


section \<open>Facts that survive\<close>

text \<open>The history only grows, and links stay.\<close>

definition grows :: "network \<Rightarrow> network \<Rightarrow> bool" where
  "grows n n' \<longleftrightarrow>
     set (nw_started n) \<subseteq> set (nw_started n') \<and> (\<forall>h. set (nw_taken n h) \<subseteq> set (nw_taken n' h)) \<and>
     (\<forall>x y. map_get (nw_links n) x = Some y \<longrightarrow> map_get (nw_links n') x = Some y)"

lemma far_key_grows: "grows n n' \<Longrightarrow> far_key n x = Some k \<Longrightarrow> far_key n' x = Some k"
  by (auto simp: grows_def far_key_def)

lemma sent_ok_grows: "grows n n' \<Longrightarrow> sent_ok n near frame \<Longrightarrow> sent_ok n' near frame"
  using far_key_grows [of n n' near] unfolding sent_ok_def device_frame_def grows_def by blast

lemma written_ok_grows: "grows n n' \<Longrightarrow> written_ok n near packet \<Longrightarrow> written_ok n' near packet"
  using far_key_grows [of n n' near] unfolding written_ok_def grows_def by blast

lemma host_ok_grows: "grows n n' \<Longrightarrow> host_ok n host e \<Longrightarrow> host_ok n' host e"
  using far_key_grows [of n n'] unfolding host_ok_def grows_def by blast

text \<open>A frame on its way changes the wires only.\<close>

lemma put_frame_fields [simp]:
  "nw_hosts (put_frame near frame n) = nw_hosts n" "nw_links (put_frame near frame n) = nw_links n"
  "nw_started (put_frame near frame n) = nw_started n" "nw_taken (put_frame near frame n) = nw_taken n"
  "nw_written (put_frame near frame n) = nw_written n"
  by (simp_all add: put_frame_def split: option.split)

lemma put_frame_same [simp]:
  "far_key (put_frame near frame n) = far_key n" "sent_ok (put_frame near frame n) = sent_ok n"
  "written_ok (put_frame near frame n) = written_ok n" "host_ok (put_frame near frame n) = host_ok n"
  by (simp_all add: fun_eq_iff far_key_def sent_ok_def device_frame_def written_ok_def host_ok_def)

section \<open>The wires\<close>

lemma links_sym: "links_ok n \<Longrightarrow> map_get (nw_links n) x = Some y \<Longrightarrow> map_get (nw_links n) y = Some x"
  unfolding links_ok_def by blast

lemma links_subseq:
  "links_ok n \<Longrightarrow> map_get (nw_links n) x = Some y \<Longrightarrow> subseq (nw_written n x @ nw_wires n x) (nw_sent n y)"
  unfolding links_ok_def by blast

lemma unlinked:
  "links_ok n \<Longrightarrow> map_get (nw_links n) x = None \<Longrightarrow> nw_wires n x = [] \<and> nw_sent n x = [] \<and> nw_written n x = []"
  unfolding links_ok_def by blast

lemma links_okI:
  assumes "\<And>x y. map_get (nw_links n) x = Some y \<Longrightarrow> map_get (nw_links n) y = Some x"
    and "\<And>x y. map_get (nw_links n) x = Some y \<Longrightarrow> subseq (nw_written n x @ nw_wires n x) (nw_sent n y)"
    and "\<And>x. map_get (nw_links n) x = None \<Longrightarrow> nw_wires n x = [] \<and> nw_sent n x = [] \<and> nw_written n x = []"
  shows "links_ok n"
  using assms unfolding links_ok_def by blast

lemma links_ok_same:
  assumes "links_ok n" and "nw_links n' = nw_links n" and "nw_wires n' = nw_wires n"
    and "nw_sent n' = nw_sent n" and "nw_written n' = nw_written n"
  shows "links_ok n'"
  using assms(1) unfolding links_ok_def assms(2-5) .

lemma put_frame_links:
  assumes "links_ok n"
  shows "links_ok (put_frame near frame n)"
proof (cases "map_get (nw_links n) near")
  case None
  with assms show ?thesis by (simp add: put_frame_def)
next
  case (Some far)
  note mate = links_sym [OF assms Some]
  show ?thesis
  proof (rule links_okI)
    fix x y
    assume "map_get (nw_links (put_frame near frame n)) x = Some y"
    then have xy: "map_get (nw_links n) x = Some y" by simp
    then have yx: "map_get (nw_links n) y = Some x" by (rule links_sym [OF assms])
    then show "map_get (nw_links (put_frame near frame n)) y = Some x" by simp
    have "x = far \<longleftrightarrow> y = near" using xy yx Some mate by (metis option.inject)
    then show "subseq (nw_written (put_frame near frame n) x @ nw_wires (put_frame near frame n) x)
        (nw_sent (put_frame near frame n) y)"
      using links_subseq [OF assms xy] Some by (cases "x = far") (auto simp: put_frame_def simp flip: append_assoc)
  next
    fix x
    assume "map_get (nw_links (put_frame near frame n)) x = None"
    then have x: "map_get (nw_links n) x = None" by simp
    then have "x \<noteq> near" "x \<noteq> far" using Some mate by auto
    with unlinked [OF assms x] Some show "nw_wires (put_frame near frame n) x = [] \<and>
        nw_sent (put_frame near frame n) x = [] \<and> nw_written (put_frame near frame n) x = []"
      by (simp add: put_frame_def)
  qed
qed

lemma lose_frames_links:
  assumes "links_ok n"
  shows "links_ok (lose_frames near k n)"
proof (rule links_okI)
  fix x y
  assume "map_get (nw_links (lose_frames near k n)) x = Some y"
  then have xy: "map_get (nw_links n) x = Some y" by (simp add: lose_frames_def)
  then show "map_get (nw_links (lose_frames near k n)) y = Some x"
    using links_sym [OF assms xy] by (simp add: lose_frames_def)
  have "prefix (nw_written n x @ take k (nw_wires n x)) (nw_written n x @ nw_wires n x)"
    by (simp add: take_is_prefix)
  then show "subseq (nw_written (lose_frames near k n) x @ nw_wires (lose_frames near k n) x)
      (nw_sent (lose_frames near k n) y)"
    using links_subseq [OF assms xy] subseq_order.trans [OF prefix_imp_subseq links_subseq [OF assms xy]]
    by (auto simp: lose_frames_def)
qed (use unlinked [OF assms] in \<open>auto simp: lose_frames_def\<close>)

lemma link_links:
  assumes "links_ok n" and "near \<noteq> far" and "map_get (nw_links n) near = None" and "map_get (nw_links n) far = None"
  shows "links_ok (link near far n)"
proof -
  have get: "map_get (nw_links (link near far n)) x =
      (if x = near then Some far else if x = far then Some near else map_get (nw_links n) x)" for x
    by (simp add: link_def map_simps)
  have same: "nw_written (link near far n) = nw_written n" "nw_wires (link near far n) = nw_wires n"
    "nw_sent (link near far n) = nw_sent n"
    by (simp_all add: link_def)
  have old: "y \<noteq> near" "y \<noteq> far" if "map_get (nw_links n) x = Some y" for x y
    using links_sym [OF assms(1) that] assms(3,4) by auto
  show ?thesis
  proof (rule links_okI, unfold get same)
    fix x y
    assume xy: "(if x = near then Some far else if x = far then Some near else map_get (nw_links n) x) = Some y"
    then show "(if y = near then Some far else if y = far then Some near else map_get (nw_links n) y) = Some x"
      using assms(2) links_sym [OF assms(1), of x y] old [of x y] by (auto split: if_splits)
    from xy show "subseq (nw_written n x @ nw_wires n x) (nw_sent n y)"
      using links_subseq [OF assms(1), of x y] unlinked [OF assms(1) assms(3)] unlinked [OF assms(1) assms(4)]
      by (auto split: if_splits)
  next
    fix x
    assume "(if x = near then Some far else if x = far then Some near else map_get (nw_links n) x) = None"
    then show "nw_wires n x = [] \<and> nw_sent n x = [] \<and> nw_written n x = []"
      using unlinked [OF assms(1)] by (simp split: if_splits)
  qed
qed

lemma link_grows:
  "map_get (nw_links n) near = None \<Longrightarrow> map_get (nw_links n) far = None \<Longrightarrow> grows n (link near far n)"
  by (auto simp: grows_def link_def map_simps)


section \<open>Every step keeps the invariant\<close>

lemma network_invI:
  assumes "network_inv n" and "grows n n'" and "links_ok n'"
    and "\<And>host e. map_get (nw_hosts n') host = Some e \<Longrightarrow> map_get (nw_hosts n) host = Some e \<or> host_ok n' host e"
    and "\<And>near frame. map_get (nw_hosts n') (fst near) \<noteq> None \<Longrightarrow> frame \<in> set (nw_sent n' near) \<Longrightarrow>
      map_get (nw_hosts n) (fst near) \<noteq> None \<and> frame \<in> set (nw_sent n near) \<or> sent_ok n' near frame"
    and "\<And>near packet. packet \<in> set (nw_written n' near) \<Longrightarrow>
      packet \<in> set (nw_written n near) \<or> written_ok n' near packet"
  shows "network_inv n'"
  unfolding network_inv_def
proof (intro conjI allI impI)
  show "links_ok n'" by fact
  show "host_ok n' host e" if "map_get (nw_hosts n') host = Some e" for host e
    using assms(4) [OF that] assms(1) host_ok_grows [OF assms(2)] by (auto simp: network_inv_def)
  show "sent_ok n' near frame"
    if "map_get (nw_hosts n') (fst near) \<noteq> None" "frame \<in> set (nw_sent n' near)" for near frame
    using assms(5) [OF that] assms(1) sent_ok_grows [OF assms(2)] unfolding network_inv_def by blast
  show "written_ok n' near packet" if "packet \<in> set (nw_written n' near)" for near packet
    using assms(6) [OF that] assms(1) written_ok_grows [OF assms(2)] unfolding network_inv_def by blast
qed

lemma put_frame_sent:
  "f \<in> set (nw_sent (put_frame near frame n) x) \<Longrightarrow> f \<in> set (nw_sent n x) \<or> x = near \<and> f = frame"
  by (auto simp: put_frame_def split: option.splits if_splits)

lemma put_frame_inv:
  assumes "network_inv n" and "map_get (nw_hosts n) (fst near) \<noteq> None \<Longrightarrow> sent_ok n near frame"
  shows "network_inv (put_frame near frame n)"
proof (rule network_invI [OF assms(1)])
  show "links_ok (put_frame near frame n)"
    using assms(1) by (simp add: network_inv_def put_frame_links)
  show "map_get (nw_hosts n) (fst x) \<noteq> None \<and> f \<in> set (nw_sent n x) \<or> sent_ok (put_frame near frame n) x f"
    if "map_get (nw_hosts (put_frame near frame n)) (fst x) \<noteq> None"
      and "f \<in> set (nw_sent (put_frame near frame n) x)" for x f
    using that(1) put_frame_sent [OF that(2)] assms(2) by auto
qed (simp_all add: grows_def)

lemma put_frames_inv:
  assumes "network_inv n"
    and "\<And>x stream frame. x \<in> set out \<Longrightarrow> frame_of stringify x = Some (stream, frame) \<Longrightarrow>
      sent_ok n (host, stream) frame"
  shows "network_inv (put_frames stringify host out n)"
  using assms
proof (induction out arbitrary: n)
  case (Cons x out)
  show ?case
  proof (cases "frame_of stringify x")
    case None
    have "network_inv (put_frames stringify host out n)"
      by (rule Cons.IH [OF Cons.prems(1)]) (use Cons.prems(2) in auto)
    with None show ?thesis by simp
  next
    case (Some a)
    obtain stream frame where a: "a = (stream, frame)" by (cases a)
    with Cons.prems Some have "network_inv (put_frame (host, stream) frame n)"
      by (intro put_frame_inv) auto
    then have "network_inv (put_frames stringify host out (put_frame (host, stream) frame n))"
      by (rule Cons.IH) (use Cons.prems(2) in auto)
    with Some a show ?thesis by simp
  qed
qed simp

lemma start_inv:
  assumes "network_inv n" and "start_engine host config enrollment = Inr e"
    and "map_get (nw_hosts n) host \<noteq> None \<or> host \<notin> fst ` set (map_keys (nw_links n))"
  shows "network_inv (host_start host e n)"
proof (rule network_invI [OF assms(1)])
  let ?n = "host_start host e n"
  have links: "links_ok n" using assms(1) by (simp add: network_inv_def)
  then show "links_ok ?n" by (rule links_ok_same) (simp_all add: host_start_def)
  show "map_get (nw_hosts n) h = Some d \<or> host_ok ?n h d" if "map_get (nw_hosts ?n) h = Some d" for h d
    using that assms(2) start_engine_facts(4) [OF assms(2)] run_start [of e]
    by (fastforce simp: host_start_def host_ok_def map_simps split: if_splits)
  show "map_get (nw_hosts n) (fst near) \<noteq> None \<and> frame \<in> set (nw_sent n near) \<or> sent_ok ?n near frame"
    if hosted: "map_get (nw_hosts ?n) (fst near) \<noteq> None" and frame: "frame \<in> set (nw_sent ?n near)" for near frame
  proof (cases "map_get (nw_hosts n) (fst near)")
    case None
    with hosted have "fst near = host" by (auto simp: host_start_def map_simps split: if_splits)
    with assms(3) None have "near \<notin> set (map_keys (nw_links n))" by force
    then have "map_get (nw_links n) near = None" by (simp add: map_of_eq_None_iff)
    with unlinked [OF links] frame show ?thesis by (simp add: host_start_def)
  next
    case Some
    with frame show ?thesis by (simp add: host_start_def)
  qed
qed (auto simp: grows_def host_start_def)

lemma link_inv:
  assumes "network_inv n" and "near \<noteq> far" and "map_get (nw_links n) near = None" and "map_get (nw_links n) far = None"
  shows "network_inv (link near far n)"
proof (rule network_invI [OF assms(1)])
  show "links_ok (link near far n)"
    using link_links [OF _ assms(2-4)] assms(1) by (simp add: network_inv_def)
qed (use link_grows [OF assms(3,4)] in \<open>simp_all add: link_def\<close>)

lemma lose_inv: "network_inv n \<Longrightarrow> network_inv (lose_frames near k n)"
  by (rule network_invI [of n])
    (simp_all add: network_inv_def lose_frames_links, simp_all add: lose_frames_def grows_def)

section \<open>A step of an engine\<close>

lemma device_writes_quiet: "quiet out \<Longrightarrow> device_writes out = []"
  by (induction out rule: device_writes.induct) simp_all

lemma device_writes_append [simp]: "device_writes (xs @ ys) = device_writes xs @ device_writes ys"
  by (induction xs rule: device_writes.induct) simp_all

lemma device_writes_elem: "packet \<in> set (device_writes out) \<longleftrightarrow> To_device packet \<in> set out"
  by (induction out rule: device_writes.induct) auto

lemma first_frame_writes: "device_writes (snd (first_frame now st s packet f e)) = []"
  by (simp add: first_frame_def Let_def split_beta device_writes_quiet peerStatus_def)

text \<open>A frame that arrives is written once, or not at all.\<close>

lemma arriving_writes:
  assumes "arriving ev = Some (stream, packet)"
  shows "device_writes (snd (engine_step ev e)) \<in> {[], [packet]}"
proof (cases ev)
  case (Ev_frame now date st pk f)
  with assms show ?thesis
    by (simp add: session_frame_def first_frame_writes Let_def split_beta device_writes_quiet split: option.split)
next
  case (Ev_enrollment_frame now st is_first pk f)
  with assms show ?thesis
    by (simp add: enrollment_frame_def enrollment_done_def Let_def split_beta device_writes_quiet)
qed (use assms in simp_all)

definition frame_taken :: "string \<Rightarrow> engine_event \<Rightarrow> engine \<Rightarrow> network \<Rightarrow> network" where
  "frame_taken host ev e n =
     take_frame host ev (snd (engine_step ev e))
       (n\<lparr>nw_hosts := map_set host (fst (engine_step ev e)) (nw_hosts n),
          nw_taken := (nw_taken n)(host := nw_taken n host @ device_read ev)\<rparr>)"

lemma host_event_split:
  "host_event stringify host ev e n = put_frames stringify host (snd (engine_step ev e)) (frame_taken host ev e n)"
  by (simp add: host_event_def frame_taken_def split_beta)

lemma frame_taken_fields [simp]:
  "nw_hosts (frame_taken host ev e n) = map_set host (fst (engine_step ev e)) (nw_hosts n)"
  "nw_links (frame_taken host ev e n) = nw_links n" "nw_started (frame_taken host ev e n) = nw_started n"
  "nw_sent (frame_taken host ev e n) = nw_sent n"
  "nw_taken (frame_taken host ev e n) = (nw_taken n)(host := nw_taken n host @ device_read ev)"
  by (simp_all add: frame_taken_def take_frame_def split: option.split prod.split)

lemma far_key_taken [simp]: "far_key (frame_taken host ev e n) = far_key n"
  by (simp add: fun_eq_iff far_key_def)

lemma frame_taken_grows: "grows n (frame_taken host ev e n)"
  by (simp add: grows_def)


text \<open>An event that the network permits, as the rest of the section uses it.\<close>

lemma permitted_arriving:
  assumes "permitted host ev n" and "arriving ev = Some (stream, packet)"
  obtains rest where "nw_wires n (host, stream) = packet # rest"
  using assms by (cases ev; cases "nw_wires n (host, stream)") auto

lemma frame_taken_links:
  assumes "links_ok n" and "permitted host ev n"
  shows "links_ok (frame_taken host ev e n)"
proof (cases "arriving ev")
  case None
  with assms(1) show ?thesis by (intro links_ok_same [OF assms(1)]) (simp_all add: frame_taken_def take_frame_def)
next
  case (Some a)
  obtain stream packet where a: "a = (stream, packet)" by (cases a)
  with Some have arr: "arriving ev = Some (stream, packet)" by simp
  from permitted_arriving [OF assms(2) arr] obtain rest
    where wire: "nw_wires n (host, stream) = packet # rest" .
  have linked: "map_get (nw_links n) (host, stream) \<noteq> None"
    using unlinked [OF assms(1), of "(host, stream)"] wire by auto
  have written: "nw_written (frame_taken host ev e n) x =
      (if x = (host, stream) then nw_written n x @ device_writes (snd (engine_step ev e)) else nw_written n x)"
    and wires: "nw_wires (frame_taken host ev e n) x = (if x = (host, stream) then rest else nw_wires n x)" for x
    using wire arr by (simp_all add: frame_taken_def take_frame_def)
  show ?thesis
  proof (rule links_okI, unfold frame_taken_fields written wires)
    fix x y
    assume xy: "map_get (nw_links n) x = Some y"
    then show "map_get (nw_links n) y = Some x" by (rule links_sym [OF assms(1)])
    have "subseq (nw_written n x @ device_writes (snd (engine_step ev e)) @ rest) (nw_written n x @ packet # rest)"
      using arriving_writes [OF arr, of e] by (auto simp: subseq_append')
    then show "subseq ((if x = (host, stream) then nw_written n x @ device_writes (snd (engine_step ev e))
          else nw_written n x) @ (if x = (host, stream) then rest else nw_wires n x)) (nw_sent n y)"
      using links_subseq [OF assms(1) xy] wire subseq_order.trans by auto
  next
    fix x
    assume "map_get (nw_links n) x = None"
    with unlinked [OF assms(1) this] linked
    show "(if x = (host, stream) then rest else nw_wires n x) = [] \<and> nw_sent n x = [] \<and>
        (if x = (host, stream) then nw_written n x @ device_writes (snd (engine_step ev e)) else nw_written n x) = []"
      by auto
  qed
qed

lemma frame_taken_host:
  assumes "host_ok n host e" and "event_ok ev e" and "permitted host ev n"
  shows "host_ok (frame_taken host ev e n) host (fst (engine_step ev e))"
proof -
  obtain e' out' where step: "engine_step ev e = (e', out')" by (cases "engine_step ev e")
  from assms(1) obtain e0 config enrollment evs out where e0: "(host, e0) \<in> set (nw_started n)"
    "start_engine host config enrollment = Inr e0" and run: "engine_run e0 evs e out"
    and keys: "\<And>stream s. map_get (en_objects e) stream = Some s \<Longrightarrow> far_key n (host, stream) = Some (ss_key s)"
    by (auto simp: host_ok_def)
  have "far_key n (host, stream) = Some (ss_key s')" if "map_get (en_objects e') stream = Some s'" for stream s'
    using session_key_step [of ev e stream s'] that step keys assms(3) by auto
  with e0 run_step [OF run assms(2) step] step show ?thesis unfolding host_ok_def by auto
qed

lemma frame_taken_written:
  assumes "host_ok n host e" and "packet \<in> set (nw_written (frame_taken host ev e n) near)"
  shows "packet \<in> set (nw_written n near) \<or> written_ok (frame_taken host ev e n) near packet"
proof (rule disjCI)
  assume "\<not> written_ok (frame_taken host ev e n) near packet"
  show "packet \<in> set (nw_written n near)"
  proof (rule ccontr)
    assume "packet \<notin> set (nw_written n near)"
    with assms(2) obtain stream pk where arr: "arriving ev = Some (stream, pk)" and near: "near = (host, stream)"
      and "packet \<in> set (device_writes (snd (engine_step ev e)))"
      by (auto simp: frame_taken_def take_frame_def split: option.splits if_splits)
    then have out: "To_device packet \<in> set (snd (engine_step ev e))" by (simp add: device_writes_elem)
    from assms(1) obtain e0 config enrollment evs out where e0: "(host, e0) \<in> set (nw_started n)"
      and start: "start_engine host config enrollment = Inr e0" and run: "engine_run e0 evs e out"
      and keys: "\<And>stream s. map_get (en_objects e) stream = Some s \<Longrightarrow> far_key n (host, stream) = Some (ss_key s)"
      by (auto simp: host_ok_def)
    from start run out obtain now date st f s p where ev: "ev = Ev_frame now date st packet f"
      and s: "map_get (en_objects e) st = Some s" and ok: "fst (admit date packet In (ss_policy s))"
      and p: "p \<in> set (en_peers e0)" "pr_key p = ss_key s" "address packet 12 = pr_address p"
        "address packet 16 = en_address e0"
        "byte_at packet 9 = 6 \<longrightarrow> granted (pr_allowTcp p) (readUInt16BE packet 22) \<or> \<not> enrollment"
      by (rule to_device_source)
    have "st = stream" using ev arr by simp
    with keys [OF s] near p(2) have "far_key n near = Some (pr_key p)" by simp
    with e0 p start_engine_facts(3) [OF start] admitted_first_byte [OF ok] near
    have "written_ok (frame_taken host ev e n) near packet" by (intro written_okI [of _ _ e0 _ p]) auto
    then show False using \<open>\<not> written_ok (frame_taken host ev e n) near packet\<close> by simp
  qed
qed

lemma frame_taken_inv:
  assumes "network_inv n" and "map_get (nw_hosts n) host = Some e" and "event_ok ev e" and "permitted host ev n"
  shows "network_inv (frame_taken host ev e n)"
proof (rule network_invI [OF assms(1) frame_taken_grows])
  have inv: "links_ok n" "host_ok n host e" using assms(1,2) by (simp_all add: network_inv_def)
  show "links_ok (frame_taken host ev e n)" using inv(1) assms(4) by (rule frame_taken_links)
  show "map_get (nw_hosts n) h = Some d \<or> host_ok (frame_taken host ev e n) h d"
    if "map_get (nw_hosts (frame_taken host ev e n)) h = Some d" for h d
    using that frame_taken_host [OF inv(2) assms(3,4)] by (auto simp: map_simps split: if_splits)
  show "map_get (nw_hosts n) (fst near) \<noteq> None \<and> frame \<in> set (nw_sent n near) \<or>
      sent_ok (frame_taken host ev e n) near frame"
    if "map_get (nw_hosts (frame_taken host ev e n)) (fst near) \<noteq> None"
      and "frame \<in> set (nw_sent (frame_taken host ev e n) near)" for near frame
    using that assms(2) by (auto simp: map_simps split: if_splits)
  show "packet \<in> set (nw_written n near) \<or> written_ok (frame_taken host ev e n) near packet"
    if "packet \<in> set (nw_written (frame_taken host ev e n) near)" for near packet
    using inv(2) that by (rule frame_taken_written)
qed

text \<open>Every frame that an engine sends is a greeting, an answer, or a packet that it has just read.\<close>

lemma engine_frame_ok:
  assumes "braces stringify" and "host_ok n host e"
    and "x \<in> set (snd (engine_step ev e))" and "frame_of stringify x = Some (stream, frame)"
  shows "sent_ok (frame_taken host ev e n) (host, stream) frame"
proof (cases "x = Send_frame stream frame \<and> frame \<noteq> hello")
  case True
  from assms(2) obtain e0 config enrollment evs out where e0: "(host, e0) \<in> set (nw_started n)"
    and start: "start_engine host config enrollment = Inr e0" and run: "engine_run e0 evs e out"
    and keys: "\<And>stream s. map_get (en_objects e) stream = Some s \<Longrightarrow> far_key n (host, stream) = Some (ss_key s)"
    by (auto simp: host_ok_def)
  from send_frame_authorised [OF start run, of stream frame ev] True assms(3)
  obtain date sent q s where "ev = Ev_device date frame sent" and "q \<in> set (en_peers e0)"
    and "map_get (en_objects e) stream = Some s" "ss_key s = pr_key q"
    and "address frame 12 = en_address e0" "address frame 16 = pr_address q"
    by blast
  with e0 keys have "device_frame (frame_taken host ev e n) (host, stream) frame"
    by (intro device_frameI [of _ _ _ e0 q]) simp_all
  then show ?thesis by (simp add: sent_ok_def)
next
  case False
  with assms(4) have "frame = hello \<or> (\<exists>r. frame = stringify (response_value r))"
    by (cases x) auto
  then show ?thesis
    using hello_first_byte response_brace [OF assms(1)] by (auto simp: sent_ok_def)
qed

lemma network_step_inv:
  assumes "network_step stringify n n'" and "braces stringify" and "network_inv n"
  shows "network_inv n'"
  using assms(1)
proof cases
  case (net_event host e ev)
  from assms(3) net_event(2) have "host_ok n host e" by (simp add: network_inv_def)
  then show ?thesis
    unfolding net_event(1) host_event_split
    by (intro put_frames_inv frame_taken_inv [OF assms(3) net_event(2-4)] engine_frame_ok [OF assms(2)])
next
  case (net_foreign key stream frame)
  show ?thesis unfolding net_foreign(1)
    by (rule put_frame_inv [OF assms(3)]) (simp add: net_foreign(2))
qed (use start_inv link_inv lose_inv assms(3) in blast)+

lemma reachable_network_inv:
  assumes "reachable_network stringify n" and "braces stringify"
  shows "network_inv n"
  using assms(1)
proof (induction rule: reachable_network.induct)
  case net_empty
  then show ?case by (simp add: network_inv_def links_ok_def empty_network_def)
next
  case (net_next n n')
  then show ?case using network_step_inv assms(2) by blast
qed

section \<open>From device to device\<close>

lemma written_from_device:
  assumes "reachable_network stringify n" and "braces stringify"
    and "packet \<in> set (nw_written n (host, stream))"
  obtains e0 p i where "(host, e0) \<in> set (nw_started n)" and "p \<in> set (en_peers e0)"
    and "map_get (nw_links n) (host, stream) = Some (pr_key p, i)"
    and "address packet 12 = pr_address p" and "address packet 16 = en_address e0"
    and "en_enrollment e0 \<and> byte_at packet 9 = 6 \<longrightarrow> granted (pr_allowTcp p) (readUInt16BE packet 22)"
    and "map_get (nw_hosts n) (pr_key p) \<noteq> None \<longrightarrow> device_frame n (pr_key p, i) packet"
proof -
  have inv: "network_inv n" using assms(1,2) by (rule reachable_network_inv)
  then have "written_ok n (host, stream) packet" using assms(3) by (simp add: network_inv_def)
  then obtain e0 p where e0: "(host, e0) \<in> set (nw_started n)" "p \<in> set (en_peers e0)"
    and far: "far_key n (host, stream) = Some (pr_key p)" and byte: "byte_at packet 0 = 69"
    and facts: "address packet 12 = pr_address p" "address packet 16 = en_address e0"
      "en_enrollment e0 \<and> byte_at packet 9 = 6 \<longrightarrow> granted (pr_allowTcp p) (readUInt16BE packet 22)"
    unfolding written_ok_def by auto
  from far obtain i where link: "map_get (nw_links n) (host, stream) = Some (pr_key p, i)"
    by (auto simp: far_key_def)
  have "links_ok n" using inv by (simp add: network_inv_def)
  then have "subseq (nw_written n (host, stream) @ nw_wires n (host, stream)) (nw_sent n (pr_key p, i))"
    using link by (rule links_subseq)
  moreover have "subseq [packet] (nw_written n (host, stream) @ nw_wires n (host, stream))"
    using assms(3) by (simp add: subseq_singleton_left)
  ultimately have "packet \<in> set (nw_sent n (pr_key p, i))"
    using subseq_order.trans by (fastforce simp: subseq_singleton_left)
  then have "device_frame n (pr_key p, i) packet" if "map_get (nw_hosts n) (pr_key p) \<noteq> None"
    using inv that byte unfolding network_inv_def sent_ok_def by auto
  with that [OF e0 link facts] show thesis by blast
qed

text \<open>
  C1: End to end.  Whatever engines start, dial, accept, read, lose and stop anywhere, a packet that
  a host writes to its device came on a stream that is authenticated with the key of a configured
  peer, from the address of that peer to the host's own, and for TCP to a port granted to that peer
  if the host enrolls others.  If the peer runs this program, it read that very packet from its own
  device, under a configuration that gives the same two addresses to the same two keys.
\<close>

theorem packets_end_to_end:
  assumes "reachable_network stringify n" and "braces stringify"
    and "packet \<in> set (nw_written n (host, stream))"
  shows "\<exists>e0 p i. (host, e0) \<in> set (nw_started n) \<and> p \<in> set (en_peers e0) \<and>
    map_get (nw_links n) (host, stream) = Some (pr_key p, i) \<and>
    address packet 12 = pr_address p \<and> address packet 16 = en_address e0 \<and>
    (en_enrollment e0 \<and> byte_at packet 9 = 6 \<longrightarrow> granted (pr_allowTcp p) (readUInt16BE packet 22)) \<and>
    (map_get (nw_hosts n) (pr_key p) \<noteq> None \<longrightarrow>
       packet \<in> set (nw_taken n (pr_key p)) \<and>
       (\<exists>e1 q. (pr_key p, e1) \<in> set (nw_started n) \<and> en_address e1 = pr_address p \<and>
          q \<in> set (en_peers e1) \<and> pr_key q = host \<and> pr_address q = en_address e0))"
proof -
  from assms obtain e0 p i where e0: "(host, e0) \<in> set (nw_started n)" "p \<in> set (en_peers e0)"
    and link: "map_get (nw_links n) (host, stream) = Some (pr_key p, i)"
    and facts: "address packet 12 = pr_address p" "address packet 16 = en_address e0"
      "en_enrollment e0 \<and> byte_at packet 9 = 6 \<longrightarrow> granted (pr_allowTcp p) (readUInt16BE packet 22)"
    and device: "map_get (nw_hosts n) (pr_key p) \<noteq> None \<longrightarrow> device_frame n (pr_key p, i) packet"
    by (rule written_from_device)
  have "links_ok n" using reachable_network_inv [OF assms(1,2)] by (simp add: network_inv_def)
  from links_sym [OF this link] have "far_key n (pr_key p, i) = Some host" by (simp add: far_key_def)
  then have "packet \<in> set (nw_taken n (pr_key p)) \<and>
      (\<exists>e1 q. (pr_key p, e1) \<in> set (nw_started n) \<and> en_address e1 = pr_address p \<and>
         q \<in> set (en_peers e1) \<and> pr_key q = host \<and> pr_address q = en_address e0)"
    if "device_frame n (pr_key p, i) packet"
    using that facts(1,2) unfolding device_frame_def fst_conv by (metis option.inject)
  with device have "map_get (nw_hosts n) (pr_key p) \<noteq> None \<longrightarrow> packet \<in> set (nw_taken n (pr_key p)) \<and>
      (\<exists>e1 q. (pr_key p, e1) \<in> set (nw_started n) \<and> en_address e1 = pr_address p \<and>
         q \<in> set (en_peers e1) \<and> pr_key q = host \<and> pr_address q = en_address e0)"
    by blast
  with e0 link facts show ?thesis by blast
qed

text \<open>The wires alone need nothing of \<open>stringify\<close>.\<close>

lemma put_frames_links: "links_ok n \<Longrightarrow> links_ok (put_frames stringify host out n)"
  by (induction out arbitrary: n) (auto simp: put_frame_links split: option.split)

lemma network_step_links:
  assumes "network_step stringify n n'" and "links_ok n"
  shows "links_ok n'"
  using assms(1)
proof cases
  case (net_start host config enrollment e)
  then show ?thesis using links_ok_same [OF assms(2)] by (simp add: host_start_def)
next
  case (net_event host e ev)
  then show ?thesis
    unfolding host_event_split by (simp add: put_frames_links frame_taken_links assms(2))
qed (simp_all add: assms(2) link_links put_frame_links lose_frames_links)

lemma reachable_network_links: "reachable_network stringify n \<Longrightarrow> links_ok n"
proof (induction rule: reachable_network.induct)
  case net_empty
  show ?case by (rule links_okI) (simp_all add: empty_network_def)
next
  case (net_next n n')
  then show ?case using network_step_links by blast
qed

text \<open>
  C11: The packets of one stream that a host writes to its device, with the frames still on
  their way, are in the order in which the far end sent them, and no frame is there more often.
\<close>

theorem packets_in_order:
  assumes "reachable_network stringify n" and "map_get (nw_links n) near = Some far"
  shows "subseq (nw_written n near @ nw_wires n near) (nw_sent n far)"
  using reachable_network_links [OF assms(1)] assms(2) by (rule links_subseq)

section \<open>A concrete network\<close>

text \<open>The network of the two hosts, with stream 7 at \<open>a\<close> and stream 3 at \<open>c\<close> as its ends.\<close>

definition ex_net ::
  "engine \<Rightarrow> engine \<Rightarrow> bytes list \<Rightarrow> bytes list \<Rightarrow> bytes list \<Rightarrow> bytes list \<Rightarrow> bytes list \<Rightarrow> bytes list \<Rightarrow> network" where
  "ex_net ea ec to_a to_c from_a from_c taken written =
     \<lparr>nw_hosts = [(ex_key CHR ''a'', ea), (ex_key CHR ''c'', ec)],
      nw_links = [((ex_key CHR ''a'', 7), (ex_key CHR ''c'', 3)), ((ex_key CHR ''c'', 3), (ex_key CHR ''a'', 7))],
      nw_wires = (\<lambda>_. [])((ex_key CHR ''a'', 7) := to_a, (ex_key CHR ''c'', 3) := to_c),
      nw_started = [(ex_key CHR ''c'', ex_dialer), (ex_key CHR ''a'', ex_engine False)],
      nw_taken = (\<lambda>_. [])(ex_key CHR ''a'' := [], ex_key CHR ''c'' := taken),
      nw_sent = (\<lambda>_. [])((ex_key CHR ''a'', 7) := from_a, (ex_key CHR ''c'', 3) := from_c),
      nw_written = (\<lambda>_. [])((ex_key CHR ''a'', 7) := written, (ex_key CHR ''c'', 3) := [])\<rparr>"

lemma ex_keys [simp]: "ex_key CHR ''a'' \<noteq> ex_key CHR ''c''" "ex_key CHR ''c'' \<noteq> ex_key CHR ''a''"
  by (simp_all add: ex_key_eq)

lemma ex_net_start: "reachable_network stringify (ex_net (ex_engine False) ex_dialer [] [] [] [] [] [])"
proof -
  let ?n1 = "host_start (ex_key CHR ''a'') (ex_engine False) empty_network"
  let ?n2 = "host_start (ex_key CHR ''c'') ex_dialer ?n1"
  have "reachable_network stringify ?n1"
    by (rule net_next [OF net_empty net_start [OF ex_start]]) (simp add: empty_network_def)
  then have "reachable_network stringify ?n2"
    by (rule net_next [OF _ net_start [OF ex_dialer_start]]) (simp add: host_start_def empty_network_def)
  then have "reachable_network stringify (link (ex_key CHR ''c'', 3) (ex_key CHR ''a'', 7) ?n2)"
    by (rule net_next [OF _ net_link]) (simp_all add: host_start_def empty_network_def)
  moreover have "link (ex_key CHR ''c'', 3) (ex_key CHR ''a'', 7) ?n2 =
      ex_net (ex_engine False) ex_dialer [] [] [] [] [] []"
    by (simp add: link_def host_start_def empty_network_def ex_net_def fun_eq_iff)
  ultimately show ?thesis by simp
qed

lemma ex_net_event:
  assumes "reachable_network stringify n" and "map_get (nw_hosts n) host = Some e"
    and "event_ok ev e" and "permitted host ev n" and "host_event stringify host ev e n = n'"
  shows "reachable_network stringify n'"
  using net_next [OF assms(1) net_event [OF assms(2-4)]] assms(5) by simp

lemmas ex_net_simps = ex_net_def host_event_def take_frame_def put_frame_def far_key_def fun_upd_twist

lemma ex_net_greeted:
  "reachable_network stringify
     (ex_net (ex_attached False True) (ex_dialed True) [] [] [hello] [hello] [] [])"
proof -
  note start = ex_net_start [of stringify]
  have "reachable_network stringify (ex_net (ex_engine False) (ex_dialed False) [hello] [] [] [hello] [] [])"
    by (rule ex_net_event [OF start, of "ex_key CHR ''c''" ex_dialer "Ev_dial_connected ex_acceptor 3 (ex_key CHR ''a'')"])
      (simp_all only: ex_dial_step host_event_def, simp_all add: ex_net_simps ex_dialer_defs)
  then have "reachable_network stringify (ex_net (ex_attached False False) (ex_dialed False) [hello] [hello] [hello] [hello] [] [])"
    by (rule ex_net_event [of _ _ "ex_key CHR ''a''" "ex_engine False" "Ev_accept (ex_key CHR ''c'') 7"])
      (simp_all only: ex_attach_step host_event_def, simp_all add: ex_net_simps ex_engine_def)
  then have "reachable_network stringify (ex_net (ex_attached False True) (ex_dialed False) [] [hello] [hello] [hello] [] [])"
    by (rule ex_net_event [of _ _ "ex_key CHR ''a''" "ex_attached False False" "Ev_frame 0 0 7 hello (\<lambda>_. Threw [])"])
      (simp_all only: ex_hello_step host_event_def, simp_all add: ex_net_simps)
  then show ?thesis
    by (rule ex_net_event [of _ _ "ex_key CHR ''c''" "ex_dialed False" "Ev_frame 0 0 3 hello (\<lambda>_. Threw [])"])
      (simp_all only: ex_greeted_step host_event_def, simp_all add: ex_net_simps)
qed

lemma ex_net_delivered:
  "\<exists>ea ec. reachable_network stringify
     (ex_net ea ec [] [] [hello] [hello, ex_insyn] [ex_insyn] [ex_insyn])"
proof -
  obtain ec where ec: "engine_step (Ev_device 1 ex_insyn True) (ex_dialed True) = (ec, [Send_frame 3 ex_insyn])"
    using ex_send_step by blast
  obtain ea where ea: "engine_step (Ev_frame 1 1 7 ex_insyn (\<lambda>_. Threw [])) (ex_attached False True) =
      (ea, [Diagnostic Policy_admitted, To_device ex_insyn])"
    using ex_write_step by blast
  from ex_net_greeted have "reachable_network stringify
      (ex_net (ex_attached False True) ec [ex_insyn] [] [hello] [hello, ex_insyn] [ex_insyn] [])"
    by (rule ex_net_event [of _ _ "ex_key CHR ''c''" "ex_dialed True" "Ev_device 1 ex_insyn True"])
      (simp_all only: ec host_event_def, simp_all add: ex_net_simps)
  then have "reachable_network stringify (ex_net ea ec [] [] [hello] [hello, ex_insyn] [ex_insyn] [ex_insyn])"
    by (rule ex_net_event [of _ _ "ex_key CHR ''a''" "ex_attached False True"
          "Ev_frame 1 1 7 ex_insyn (\<lambda>_. Threw [])"])
      (simp_all only: ea host_event_def, simp_all add: ex_net_simps)
  then show ?thesis by blast
qed

definition ex_braces :: "js \<Rightarrow> bytes" where "ex_braces v = [123, 125]"

lemma ex_braces_ok: "braces ex_braces"
  by (simp add: braces_def ex_braces_def byte_at_def)

theorem packets_end_to_end_witness:
  "\<exists>n. reachable_network ex_braces n \<and> map_get (nw_hosts n) (ex_key CHR ''c'') \<noteq> None \<and>
     nw_written n (ex_key CHR ''a'', 7) = [ex_insyn] \<and> ex_insyn \<in> set (nw_taken n (ex_key CHR ''c''))"
proof -
  obtain ea ec where n: "reachable_network ex_braces
      (ex_net ea ec [] [] [hello] [hello, ex_insyn] [ex_insyn] [ex_insyn])" (is "reachable_network _ ?n")
    using ex_net_delivered by blast
  have "ex_insyn \<in> set (nw_taken ?n (ex_key CHR ''c''))"
    using packets_end_to_end [OF n ex_braces_ok, of ex_insyn "ex_key CHR ''a''" 7] by (auto simp: ex_net_def)
  with n show ?thesis by (intro exI [of _ ?n]) (simp add: ex_net_def)
qed

theorem packets_in_order_witness: "subseq [ex_insyn] [hello, ex_insyn]"
proof -
  obtain ea ec where n: "reachable_network ex_braces
      (ex_net ea ec [] [] [hello] [hello, ex_insyn] [ex_insyn] [ex_insyn])"
    using ex_net_delivered by blast
  from packets_in_order [OF n, of "(ex_key CHR ''a'', 7)" "(ex_key CHR ''c'', 3)"]
  show ?thesis by (simp add: ex_net_def)
qed

end
