(* ===== verification/Engine_Startup.thy ===== *)
theory Engine_Startup
  imports Engine
begin

text \<open>
  The course of \<open>startVpnEngine\<close> around the callbacks of \<open>Engine\<close>: opening the device, listening,
  the dial loops, the promise \<open>failed\<close>, and stopping, which the caller asks for or a failed start
  does.  What is awaited comes back as an event.
\<close>

section \<open>A dial loop\<close>

text \<open>
  What \<open>dial(peer)\<close> awaits: that a stream connects, that the stream of the session closes, or the
  second before the next round.
\<close>

datatype dialing = Dial_connecting nat | Dial_attached nat | Dial_pausing | Dial_over

datatype dial_event =
  Dial_connects string |
  Dial_times_out |
  Dial_closes |
  Dial_errors thrown |
  Dial_wakes "thrown + nat"

text \<open>The head of the loop; \<open>connect\<close> is what \<open>dht.connect\<close> throws, or the stream that it returns.\<close>

definition dial_round :: "peer \<Rightarrow> thrown + nat \<Rightarrow> engine \<Rightarrow> dialing \<times> engine \<times> effect list" where
  "dial_round p connect e =
     (if en_stopping e then (Dial_over, e, [])
      else
        (case connect of
           Inl err \<Rightarrow>
             (Dial_pausing, e,
              [Log (''VPN dial to '' @ pr_label p @ '' failed before transport connected: '' @ diagnosticError err)])
         | Inr stream \<Rightarrow> (Dial_connecting stream, dial_open stream e, [])))"

text \<open>The end of a round.\<close>

definition dial_rest :: "engine \<Rightarrow> dialing" where
  "dial_rest e = (if en_stopping e then Dial_over else Dial_pausing)"

definition dial_lost :: "peer \<Rightarrow> nat \<Rightarrow> thrown \<Rightarrow> engine \<Rightarrow> dialing \<times> engine \<times> effect list" where
  "dial_lost p stream err e = (let (e1, out) = dial_failed p stream err e in (dial_rest e1, e1, out))"

text \<open>
  One event: the first of connect, timeout, close and error settles the wait and takes the other
  listeners off.  An event that nothing waits for is \<open>None\<close>.
\<close>

fun dial_step :: "peer \<Rightarrow> dial_event \<Rightarrow> dialing \<Rightarrow> engine \<Rightarrow> (dialing \<times> engine \<times> effect list) option" where
  "dial_step p (Dial_connects remote) (Dial_connecting stream) e =
     (let (e1, out) = dial_connected p stream remote e in
      Some (if en_stopping e \<or> remote \<noteq> pr_key p then dial_rest e1 else Dial_attached stream, e1, out))"
| "dial_step p Dial_times_out (Dial_connecting stream) e =
     Some (dial_lost p stream (thrown_error ''VPN connection timed out'') e)"
| "dial_step p Dial_closes (Dial_connecting stream) e =
     Some (dial_lost p stream (thrown_error ''VPN connection closed'') e)"
| "dial_step p (Dial_errors err) (Dial_connecting stream) e = Some (dial_lost p stream err e)"
| "dial_step p Dial_closes (Dial_attached stream) e =
     (let (e1, out) = session_closed stream e in Some (dial_rest e1, e1, out))"
| "dial_step p (Dial_wakes connect) Dial_pausing e = Some (dial_round p connect e)"
| "dial_step _ _ _ _ = None"

section \<open>The engine's course\<close>

datatype phase = Opening_device | Listening string | Started string | Stopping_failed error | Failed_start error

datatype stopping = Not_stopped | Cleaning | Stop_over "error option"

text \<open>
  \<open>su_listening\<close> is the line that is logged then; \<open>su_own\<close> says that the DHT node was made for this engine, \<open>su_server\<close> and \<open>su_device\<close> that the
  variables \<open>server\<close> and \<open>tun\<close> are set; \<open>su_failed\<close> is the promise \<open>failed\<close>.
\<close>

record startup =
  su_engine :: engine
  su_listening :: string
  su_own :: bool
  su_device :: bool
  su_server :: bool
  su_phase :: phase
  su_dials :: "(peer \<times> dialing) list"
  su_failed :: "error option"
  su_stop :: stopping

datatype startup_effect = Engine_does effect | Close_server | Close_device | Destroy_node

datatype startup_event =
  Device_settled "error + string" |
  Listen_settled "error option" "(thrown + nat) list" |
  Device_lost error |
  Packets_ended "error option" |
  Dial_does nat dial_event |
  Engine_event engine_event |
  Stop_called |
  Cleanup_settled "error option"

definition listening_line :: "peer_config \<Rightarrow> string" where
  "listening_line config =
     (let network = pc_network config;
          bootstrap = (case network of None \<Rightarrow> None | Some n \<Rightarrow> nw_bootstrap n);
          route = (case network of None \<Rightarrow> None | Some n \<Rightarrow> nw_route n);
          peers = (case pc_vpn config of None \<Rightarrow> [] | Some vpn \<Rightarrow> vc_peers vpn) in
      ''VPN DHT listening: bootstrap='' @
      (case bootstrap of Some (b # bs) \<Rightarrow> ''configured'' | _ \<Rightarrow> ''default'') @
      '' route='' @ (case route of Some Public \<Rightarrow> ''public'' | _ \<Rightarrow> ''auto'') @
      '' peers='' @ show_nat (length peers))"

definition new_startup :: "string \<Rightarrow> peer_config \<Rightarrow> bool \<Rightarrow> bool \<Rightarrow> error + startup" where
  "new_startup peerKey config enrollment own =
     (case start_engine peerKey config enrollment of
        Inl err \<Rightarrow> Inl err
      | Inr e \<Rightarrow>
          Inr \<lparr>su_engine = e, su_listening = listening_line config, su_own = own, su_device = False, su_server = False, su_phase = Opening_device,
               su_dials = [], su_failed = None, su_stop = Not_stopped\<rparr>)"

text \<open>What \<open>cleanupAll\<close> closes.\<close>

definition closings :: "startup \<Rightarrow> startup_effect list" where
  "closings s =
     (if su_server s then [Close_server] else []) @ (if su_device s then [Close_device] else []) @
     (if su_own s then [Destroy_node] else [])"

definition stop_startup :: "startup \<Rightarrow> startup \<times> startup_effect list" where
  "stop_startup s =
     (if su_stop s \<noteq> Not_stopped then (s, [])
      else
        (let (e1, out) = stop_engine (su_engine s) in
         (s\<lparr>su_engine := e1, su_stop := Cleaning\<rparr>,
          concat (map (\<lambda>x. if x = Close_all then closings s else [Engine_does x]) out))))"

text \<open>The \<open>catch\<close> of the start, and the promise \<open>failed\<close>.\<close>

definition start_fails :: "error \<Rightarrow> startup \<Rightarrow> startup \<times> startup_effect list" where
  "start_fails err s = stop_startup (s\<lparr>su_phase := Stopping_failed err\<rparr>)"

definition reject_failure :: "error \<Rightarrow> startup \<Rightarrow> startup" where
  "reject_failure err s =
     (if en_stopping (su_engine s) then s
      else s\<lparr>su_failed := (case su_failed s of None \<Rightarrow> Some err | Some old \<Rightarrow> Some old)\<rparr>)"

text \<open>The loops are begun one after the other, each with the outcome of its first \<open>dht.connect\<close>.\<close>

fun begin_dials :: "peer list \<Rightarrow> (thrown + nat) list \<Rightarrow> engine \<Rightarrow> (peer \<times> dialing) list \<times> engine \<times> effect list" where
  "begin_dials (p # ps) (connect # connects) e =
     (let (d, e1, out) = dial_round p connect e; (ds, e2, out') = begin_dials ps connects e1
      in ((p, d) # ds, e2, out @ out'))"
| "begin_dials _ _ e = ([], e, [])"

definition dial_peers :: "engine \<Rightarrow> peer list" where
  "dial_peers e = filter (\<lambda>p. pr_direction p = Dial) (en_peers e)"

text \<open>Events of the engine that may come while it listens, whatever its dial loops do.\<close>

fun engine_waits :: "engine_event \<Rightarrow> phase \<Rightarrow> bool" where
  "engine_waits (Ev_dial_open stream) _ = False"
| "engine_waits (Ev_dial_connected p stream remote) _ = False"
| "engine_waits (Ev_dial_failed p stream err) _ = False"
| "engine_waits Ev_stop _ = False"
| "engine_waits (Ev_device date packet sent) ph = (\<exists>name. ph = Started name)"
| "engine_waits _ ph = (ph \<noteq> Opening_device)"

fun startup_step :: "startup_event \<Rightarrow> startup \<Rightarrow> (startup \<times> startup_effect list) option" where
  "startup_step (Device_settled result) s =
     (if su_phase s \<noteq> Opening_device then None
      else
        (case result of
           Inl err \<Rightarrow> Some (start_fails err s)
         | Inr name \<Rightarrow> Some (s\<lparr>su_device := True, su_server := True, su_phase := Listening name\<rparr>, [])))"
| "startup_step (Listen_settled failure connects) s =
     (case (su_phase s, failure) of
        (Listening name, Some err) \<Rightarrow> Some (start_fails err s)
      | (Listening name, None) \<Rightarrow>
          if length connects \<noteq> length (dial_peers (su_engine s)) then None
          else
            (let (ds, e1, out) = begin_dials (dial_peers (su_engine s)) connects (su_engine s)
             in Some (s\<lparr>su_phase := Started name, su_dials := ds, su_engine := e1\<rparr>,
                      map Engine_does (Log (su_listening s) # out)))
      | _ \<Rightarrow> None)"
| "startup_step (Device_lost err) s = (if su_device s then Some (reject_failure err s, []) else None)"
| "startup_step (Packets_ended failure) s =
     (case su_phase s of
        Started name \<Rightarrow>
          Some (reject_failure (case failure of None \<Rightarrow> ''TUN packet stream closed'' | Some err \<Rightarrow> err) s, [])
      | _ \<Rightarrow> None)"
| "startup_step (Dial_does i ev) s =
     (if i < length (su_dials s) then
        (case su_dials s ! i of
           (p, d) \<Rightarrow>
             (case dial_step p ev d (su_engine s) of
                None \<Rightarrow> None
              | Some (d', e1, out) \<Rightarrow>
                  Some (s\<lparr>su_dials := (su_dials s)[i := (p, d')], su_engine := e1\<rparr>, map Engine_does out)))
      else None)"
| "startup_step (Engine_event ev) s =
     (if engine_waits ev (su_phase s) then
        (let (e1, out) = engine_step ev (su_engine s) in Some (s\<lparr>su_engine := e1\<rparr>, map Engine_does out))
      else None)"
| "startup_step Stop_called s =
     (case su_phase s of Started name \<Rightarrow> Some (stop_startup s) | _ \<Rightarrow> None)"
| "startup_step (Cleanup_settled result) s =
     (if su_stop s \<noteq> Cleaning then None
      else
        Some (s\<lparr>su_stop := Stop_over result,
                su_phase := (case su_phase s of
                   Stopping_failed err \<Rightarrow> Failed_start (case result of None \<Rightarrow> err | Some cleanup \<Rightarrow> cleanup)
                 | ph \<Rightarrow> ph)\<rparr>, []))"

section \<open>Runs\<close>

fun streams_of :: "dialing \<Rightarrow> nat list" where
  "streams_of (Dial_connecting stream) = [stream]"
| "streams_of (Dial_attached stream) = [stream]"
| "streams_of _ = []"

definition dial_streams :: "startup \<Rightarrow> nat list" where
  "dial_streams s = concat (map (\<lambda>(p, d). streams_of d) (su_dials s))"

text \<open>
  A stream that the DHT gives is new, and the end of a stream that a loop waits for is the loop's
  event.
\<close>

definition new_stream :: "nat \<Rightarrow> startup \<Rightarrow> bool" where
  "new_stream stream s \<longleftrightarrow>
     stream \<notin> set (en_streams (su_engine s)) \<and> map_get (en_objects (su_engine s)) stream = None \<and>
     stream \<notin> set (dial_streams s)"

fun connected_streams :: "(thrown + nat) list \<Rightarrow> nat list" where
  "connected_streams [] = []"
| "connected_streams (Inl err # cs) = connected_streams cs"
| "connected_streams (Inr stream # cs) = stream # connected_streams cs"

fun ended_stream :: "engine_event \<Rightarrow> nat option" where
  "ended_stream (Ev_accept key stream) = Some stream"
| "ended_stream (Ev_closed stream) = Some stream"
| "ended_stream (Ev_enrollment_done stream) = Some stream"
| "ended_stream (Ev_enrollment_frame now stream is_first packet outcome) = Some stream"
| "ended_stream _ = None"

fun startup_ok :: "startup_event \<Rightarrow> startup \<Rightarrow> bool" where
  "startup_ok (Listen_settled failure connects) s \<longleftrightarrow>
     distinct (connected_streams connects) \<and> (\<forall>stream \<in> set (connected_streams connects). new_stream stream s)"
| "startup_ok (Dial_does i (Dial_wakes (Inr stream))) s \<longleftrightarrow> new_stream stream s"
| "startup_ok (Engine_event ev) s \<longleftrightarrow>
     event_ok ev (su_engine s) \<and>
     (case ended_stream ev of None \<Rightarrow> True | Some stream \<Rightarrow> stream \<notin> set (dial_streams s))"
| "startup_ok _ s \<longleftrightarrow> True"

inductive startup_run :: "startup \<Rightarrow> startup_event list \<Rightarrow> startup \<Rightarrow> startup_effect list \<Rightarrow> bool" where
  startup_start: "startup_run s [] s []"
| startup_next: "startup_run s evs s1 out \<Longrightarrow> startup_ok ev s1 \<Longrightarrow> startup_step ev s1 = Some (s2, out') \<Longrightarrow>
    startup_run s (evs @ [ev]) s2 (out @ out')"

end
