(* ===== verification/Engine_Startup_Properties.thy ===== *)
theory Engine_Startup_Properties
  imports Engine_Startup Engine_Lifecycle
begin

text \<open>
  Around the engine: every course of \<open>startVpnEngine\<close> is a run of \<open>Engine\<close>, what was opened is
  closed exactly once, and the dial loops end after a stop and never before.
\<close>

section \<open>What an event of the engine leaves alone\<close>

lemma stopping_frame:
  "en_stopping (fst (attach p stream e)) = en_stopping e"
  "en_stopping (fst (logAdmission now p m e)) = en_stopping e"
  "en_stopping (fst (enroll_request now stream packet f e)) = en_stopping e"
  by (simp_all add: attach_def logAdmission_def enroll_request_def log_rejection_def Let_def split_beta
      split: option.split sum.split enroll_outcome.split)

lemma stopping_same: "ev \<noteq> Ev_stop \<Longrightarrow> en_stopping (fst (engine_step ev e)) = en_stopping e"
  by (cases ev)
    (simp_all add: firewall_def reserve_enrollment_def unknown_admission_def accept_stream_def
      attachEnrollment_def dial_open_def dial_connected_def dial_failed_def enrollment_frame_def
      enrollment_done_def session_frame_def first_frame_def device_written_def session_ended_def
      handshake_timeout_def session_closed_def device_packet_def stopping_frame Let_def split_beta
      split: option.split)

lemma stopping_stop: "en_stopping (fst (stop_engine e))"
  using end_sessions_fields [of "en_sessions e" "e\<lparr>en_stopping := True\<rparr>"]
  by (simp add: stop_engine_def split_beta)

lemma streams_frame:
  "en_streams (fst (logAdmission now p m e)) = en_streams e"
  "en_streams (fst (enroll_request now stream packet f e)) = en_streams e"
  by (simp_all add: logAdmission_def enroll_request_def log_rejection_def Let_def split_beta
      split: option.split sum.split enroll_outcome.split)

lemma attach_streams: "set (en_streams e) \<subseteq> set (en_streams (fst (attach p stream e)))"
  by (auto simp: attach_def)

text \<open>A stream leaves \<open>streams\<close> only by its own end.\<close>

lemma streams_kept:
  assumes "stream \<in> set (en_streams e)" and "ended_stream ev \<noteq> Some stream"
    and "\<And>p r. ev \<noteq> Ev_dial_connected p stream r" and "\<And>p err. ev \<noteq> Ev_dial_failed p stream err"
  shows "stream \<in> set (en_streams (fst (engine_step ev e)))"
proof (cases ev)
  case (Ev_accept key st)
  let ?e = "e\<lparr>en_enrollmentReservations := map_delete key (en_enrollmentReservations e)\<rparr>"
  show ?thesis
    using attach_streams [of ?e _ st] assms(1) unfolding Ev_accept
    by (auto simp: accept_stream_def attachEnrollment_def Let_def split_beta split: option.split)
next
  case (Ev_dial_connected p st r)
  with assms(3) have "st \<noteq> stream" by blast
  with assms(1) attach_streams [of e p st] show ?thesis
    unfolding Ev_dial_connected by (auto simp: dial_connected_def dial_failed_def split_beta)
next
  case (Ev_dial_failed p st err)
  with assms(4) have "st \<noteq> stream" by blast
  with assms(1) show ?thesis unfolding Ev_dial_failed by (simp add: dial_failed_def)
next
  case Ev_stop
  then show ?thesis
    using assms(1) end_sessions_fields [of "en_sessions e" "e\<lparr>en_stopping := True\<rparr>"]
    by (simp add: stop_engine_def split_beta)
next
  case (Ev_frame now date st packet f)
  with assms(1) show ?thesis
    by (simp add: session_frame_def first_frame_def streams_frame Let_def split_beta split: option.split)
next
  case (Ev_enrollment_frame now st is_first packet f)
  with assms(1,2) show ?thesis
    by (auto simp: enrollment_frame_def enrollment_done_def streams_frame Let_def split_beta)
next
  case (Ev_firewall now key)
  with assms(1) show ?thesis
    by (simp add: firewall_def reserve_enrollment_def unknown_admission_def streams_frame Let_def split_beta
        split: option.split)
next
  case (Ev_closed st)
  with assms(1,2) show ?thesis by (auto simp: session_closed_def Let_def split: option.split)
qed (use assms(1,2) in \<open>simp_all add: dial_open_def enrollment_done_def device_written_def
      session_ended_def handshake_timeout_def device_packet_def Let_def split_beta split: option.split\<close>)

section \<open>Runs of the engine\<close>

lemma engine_run_append:
  assumes "engine_run e1 evs' e2 out'" and "engine_run e evs e1 out"
  shows "engine_run e (evs @ evs') e2 (out @ out')"
  using assms
proof (induction rule: engine_run.induct)
  case (run_step e1 evs' e2 out' ev e3 out'')
  from engine_run.run_step [OF run_step.IH [OF run_step.prems] run_step.hyps(2,3)] show ?case by simp
qed simp

lemma engine_run_one: "event_ok ev e \<Longrightarrow> engine_step ev e = (e', out) \<Longrightarrow> engine_run e [ev] e' out"
  using engine_run.run_step [OF run_start] by fastforce

text \<open>What a host sends, writes and reports, among the effects.\<close>

fun path_effects :: "startup_effect list \<Rightarrow> effect list" where
  "path_effects [] = []"
| "path_effects (Engine_does x # out) = (if on_path x then x # path_effects out else path_effects out)"
| "path_effects (_ # out) = path_effects out"

lemma path_effects_append [simp]: "path_effects (xs @ ys) = path_effects xs @ path_effects ys"
  by (induction xs rule: path_effects.induct) simp_all

lemma path_effects_engine [simp]: "path_effects (map Engine_does out) = filter on_path out"
  by (induction out) simp_all

lemma path_effects_closings [simp]: "path_effects (closings s) = []"
  by (simp add: closings_def)

lemma path_effects_stop:
  "path_effects (concat (map (\<lambda>x. if x = Close_all then closings s else [Engine_does x]) out)) = filter on_path out"
  by (induction out) auto

lemma dial_round_run:
  "dial_round p connect e = (d, e', out) \<Longrightarrow> \<exists>evs effs. engine_run e evs e' effs \<and> filter on_path out = filter on_path effs"
  using run_start [of e] engine_run_one [of "Ev_dial_open _" e]
  by (fastforce simp: dial_round_def split: if_splits sum.splits)

lemma begin_dials_run:
  "begin_dials ps connects e = (ds, e', out) \<Longrightarrow>
     \<exists>evs effs. engine_run e evs e' effs \<and> filter on_path out = filter on_path effs"
proof (induction ps connects e arbitrary: ds e' out rule: begin_dials.induct)
  case (1 p ps connect connects e)
  obtain d e1 o1 where round: "dial_round p connect e = (d, e1, o1)" by (cases "dial_round p connect e")
  obtain ds2 e2 o2 where rest: "begin_dials ps connects e1 = (ds2, e2, o2)" by (cases "begin_dials ps connects e1")
  from dial_round_run [OF round] obtain evs effs where "engine_run e evs e1 effs"
    and "filter on_path o1 = filter on_path effs" by blast
  moreover from "1.IH" [OF round [symmetric] refl refl rest] obtain evs' effs' where "engine_run e1 evs' e2 effs'"
    and "filter on_path o2 = filter on_path effs'" by blast
  ultimately have "engine_run e (evs @ evs') e2 (effs @ effs')"
    and "filter on_path (o1 @ o2) = filter on_path (effs @ effs')"
    by (simp_all add: engine_run_append)
  with round rest "1.prems" show ?case by (intro exI [of _ "evs @ evs'"] exI [of _ "effs @ effs'"]) auto
qed (auto intro!: exI [where x = "[]"] run_start)

text \<open>
  A step of a dial loop is one event of the engine, which is about the loop's own stream, or begins
  a round.
\<close>

definition touches :: "engine_event \<Rightarrow> nat \<Rightarrow> bool" where
  "touches ev stream \<longleftrightarrow>
     ended_stream ev = Some stream \<or> (\<exists>p r. ev = Ev_dial_connected p stream r) \<or> (\<exists>p err. ev = Ev_dial_failed p stream err)"

lemma dial_step_cases:
  assumes "dial_step p ev d e = Some (d', e', out)"
  obtains (acts) eev where "engine_step eev e = (e', out)" and "\<And>stream. touches eev stream \<Longrightarrow> streams_of d = [stream]"
      and "p \<in> set (en_peers e) \<Longrightarrow> (\<And>stream. d = Dial_connecting stream \<Longrightarrow> map_get (en_objects e) stream = None) \<Longrightarrow>
        event_ok eev e"
      and "eev \<noteq> Ev_stop" and "d' = dial_rest e' \<or> (\<exists>stream. d = Dial_connecting stream \<and> d' = Dial_attached stream \<and>
        \<not> en_stopping e \<and> (stream \<in> set (en_streams e) \<longrightarrow> stream \<in> set (en_streams e')))"
  | (rounds) connect where "ev = Dial_wakes connect" and "d = Dial_pausing" and "dial_round p connect e = (d', e', out)"
proof -
  consider (connects) remote stream where "ev = Dial_connects remote" "d = Dial_connecting stream" |
    (lost) stream err where "d = Dial_connecting stream" "dial_lost p stream err e = (d', e', out)" |
    (closes) stream where "ev = Dial_closes" "d = Dial_attached stream" |
    (wakes) connect where "ev = Dial_wakes connect" "d = Dial_pausing"
    using assms by (cases ev; cases d) auto
  then show thesis
  proof cases
    case connects
    show ?thesis
    proof (rule acts [of "Ev_dial_connected p stream remote"])
      show "engine_step (Ev_dial_connected p stream remote) e = (e', out)"
        using assms connects by (auto simp: split_beta)
      show "d' = dial_rest e' \<or> (\<exists>stream. d = Dial_connecting stream \<and> d' = Dial_attached stream \<and>
          \<not> en_stopping e \<and> (stream \<in> set (en_streams e) \<longrightarrow> stream \<in> set (en_streams e')))"
        using assms connects attach_streams [of e p stream]
        by (auto simp: split_beta dial_connected_def split: if_splits)
    qed (use connects in \<open>auto simp: touches_def\<close>)
  next
    case lost
    show ?thesis
      by (rule acts [of "Ev_dial_failed p stream err"])
        (use lost in \<open>auto simp: dial_lost_def split_beta touches_def\<close>)
  next
    case closes
    show ?thesis
      by (rule acts [of "Ev_closed stream"]) (use assms closes in \<open>auto simp: split_beta touches_def\<close>)
  next
    case wakes
    with assms show ?thesis by (intro rounds) simp_all
  qed
qed

lemma dial_step_run:
  assumes "dial_step p ev d e = Some (d', e', out)" and "p \<in> set (en_peers e)"
    and "\<And>stream. d = Dial_connecting stream \<Longrightarrow> map_get (en_objects e) stream = None"
  shows "\<exists>evs effs. engine_run e evs e' effs \<and> filter on_path out = filter on_path effs"
  using assms(1)
proof (cases rule: dial_step_cases)
  case (acts eev)
  then show ?thesis using engine_run_one [of eev e] assms(2,3) by blast
next
  case (rounds connect)
  then show ?thesis using dial_round_run by blast
qed

section \<open>The invariant of the course\<close>

definition dial_ok :: "engine \<Rightarrow> peer \<times> dialing \<Rightarrow> bool" where
  "dial_ok e x \<longleftrightarrow>
     fst x \<in> set (en_peers e) \<and> pr_direction (fst x) = Dial \<and> (snd x = Dial_over \<longrightarrow> en_stopping e) \<and>
     set (streams_of (snd x)) \<subseteq> set (en_streams e) \<and>
     (\<forall>stream. snd x = Dial_connecting stream \<longrightarrow> map_get (en_objects e) stream = None)"

definition phase_ok :: "startup \<Rightarrow> bool" where
  "phase_ok s \<longleftrightarrow> su_server s = su_device s \<and>
     (case su_phase s of
        Opening_device \<Rightarrow> \<not> su_device s \<and> su_dials s = [] \<and> su_stop s = Not_stopped
      | Listening name \<Rightarrow> su_device s \<and> su_dials s = [] \<and> su_stop s = Not_stopped
      | Started name \<Rightarrow> su_device s \<and> map fst (su_dials s) = dial_peers (su_engine s)
      | Stopping_failed err \<Rightarrow> su_dials s = [] \<and> su_stop s = Cleaning
      | Failed_start err \<Rightarrow> su_dials s = [] \<and> (\<exists>r. su_stop s = Stop_over r))"

definition startup_inv :: "startup \<Rightarrow> bool" where
  "startup_inv s \<longleftrightarrow>
     phase_ok s \<and> (su_stop s = Not_stopped \<longleftrightarrow> \<not> en_stopping (su_engine s)) \<and>
     (\<forall>x \<in> set (su_dials s). dial_ok (su_engine s) x) \<and> distinct (dial_streams s)"

lemma dial_ok_step:
  assumes "dial_ok e x" and "\<And>stream. stream \<in> set (streams_of (snd x)) \<Longrightarrow> \<not> touches ev stream"
  shows "dial_ok (fst (engine_step ev e)) x"
proof -
  have "en_peers (fst (engine_step ev e)) = en_peers e"
    using engine_step_setup [of e ev] by (simp add: same_setup_def)
  moreover have "stream \<in> set (en_streams (fst (engine_step ev e)))" if "stream \<in> set (streams_of (snd x))" for stream
    using assms(1) assms(2) [OF that] that by (intro streams_kept) (auto simp: dial_ok_def touches_def)
  moreover have "map_get (en_objects (fst (engine_step ev e))) stream = None"
    if "snd x = Dial_connecting stream" for stream
    using session_key_step [of ev e stream] assms(2) [of stream] assms(1) that
    by (cases "map_get (en_objects (fst (engine_step ev e))) stream") (auto simp: dial_ok_def touches_def)
  ultimately show ?thesis
    using assms(1) stopping_step [of e ev] by (auto simp: dial_ok_def)
qed

lemma dial_round_running:
  "dial_round p connect e = (d, e1, out) \<Longrightarrow> \<not> en_stopping e \<Longrightarrow>
     d \<noteq> Dial_over \<and> connected_streams (connect # connects) = streams_of d @ connected_streams connects \<and>
     e1 = e\<lparr>en_streams := en_streams e1\<rparr> \<and> set (en_streams e) \<union> set (streams_of d) \<subseteq> set (en_streams e1)"
  by (cases connect) (auto simp: dial_round_def dial_open_def)

lemma same_streams: "\<exists>streams. e = e\<lparr>en_streams := streams\<rparr> \<and> set (en_streams e) \<subseteq> set streams"
  by (intro exI [of _ "en_streams e"]) simp

lemma begin_dials_facts:
  assumes "begin_dials ps connects e = (ds, e', out)" and "\<not> en_stopping e" and "length connects = length ps"
  shows "map fst ds = ps \<and> concat (map (\<lambda>(p, d). streams_of d) ds) = connected_streams connects \<and>
    (\<exists>streams. e' = e\<lparr>en_streams := streams\<rparr> \<and> set (en_streams e) \<union> set (connected_streams connects) \<subseteq> set streams) \<and>
    Dial_over \<notin> snd ` set ds"
  using assms
proof (induction ps connects e arbitrary: ds e' out rule: begin_dials.induct)
  case (1 p ps connect connects e)
  obtain d e1 o1 where round: "dial_round p connect e = (d, e1, o1)" by (cases "dial_round p connect e")
  obtain ds2 e2 o2 where rest: "begin_dials ps connects e1 = (ds2, e2, o2)" by (cases "begin_dials ps connects e1")
  have e1: "\<exists>streams. e1 = e\<lparr>en_streams := streams\<rparr> \<and> set (en_streams e) \<union> set (streams_of d) \<subseteq> set streams"
    and d: "d \<noteq> Dial_over" "connected_streams (connect # connects) = streams_of d @ connected_streams connects"
    using dial_round_running [OF round "1.prems"(2), of connects] by blast+
  then have "\<not> en_stopping e1" using "1.prems"(2) by auto
  from "1.IH" [OF round [symmetric] refl refl rest this] "1.prems" e1 d round rest show ?case
    by auto
qed (auto simp: same_streams)

lemma new_startup_inv: "new_startup peerKey config enrollment own = Inr s \<Longrightarrow> startup_inv s"
  using start_engine_facts(5) [of peerKey config enrollment]
  by (auto simp: new_startup_def startup_inv_def phase_ok_def dial_streams_def split: sum.splits)

lemma dial_ok_stop: "dial_ok e x \<Longrightarrow> dial_ok (fst (stop_engine e)) x"
  using dial_ok_step [of e x Ev_stop] by (simp add: touches_def)

lemma stop_startup_fields:
  "su_engine (fst (stop_startup s)) = (if su_stop s = Not_stopped then fst (stop_engine (su_engine s)) else su_engine s)"
  "su_stop (fst (stop_startup s)) = (if su_stop s = Not_stopped then Cleaning else su_stop s)"
  "su_dials (fst (stop_startup s)) = su_dials s" "su_phase (fst (stop_startup s)) = su_phase s"
  "su_device (fst (stop_startup s)) = su_device s" "su_server (fst (stop_startup s)) = su_server s"
  "su_own (fst (stop_startup s)) = su_own s"
  by (simp_all add: stop_startup_def split_beta)

lemma dial_peers_step: "dial_peers (fst (engine_step ev e)) = dial_peers e"
  using engine_step_setup [of e ev] by (simp add: dial_peers_def same_setup_def)

lemma stop_startup_inv:
  assumes "phase_ok (fst (stop_startup s))" and "su_stop s = Not_stopped \<longleftrightarrow> \<not> en_stopping (su_engine s)"
    and "\<forall>x \<in> set (su_dials s). dial_ok (su_engine s) x" and "distinct (dial_streams s)"
  shows "startup_inv (fst (stop_startup s))"
  unfolding startup_inv_def
proof (intro conjI)
  show "\<forall>x \<in> set (su_dials (fst (stop_startup s))). dial_ok (su_engine (fst (stop_startup s))) x"
    using assms(3) by (simp add: stop_startup_fields dial_ok_stop)
  show "distinct (dial_streams (fst (stop_startup s)))"
    using assms(4) by (simp add: dial_streams_def stop_startup_fields)
  show "(su_stop (fst (stop_startup s)) = Not_stopped) = (\<not> en_stopping (su_engine (fst (stop_startup s))))"
    using assms(2) stopping_stop [of "su_engine s"] by (simp add: stop_startup_fields)
qed fact

lemma stop_inv:
  assumes "startup_inv s" and "su_phase s = Started name"
  shows "startup_inv (fst (stop_startup s))"
proof (rule stop_startup_inv)
  show "phase_ok (fst (stop_startup s))"
    using assms dial_peers_step [of Ev_stop "su_engine s"]
    by (simp add: startup_inv_def phase_ok_def stop_startup_fields)
qed (use assms in \<open>simp_all add: startup_inv_def\<close>)

lemma start_fails_inv:
  assumes "startup_inv s" and "su_phase s = Opening_device \<or> su_phase s = Listening name"
  shows "startup_inv (fst (start_fails err s))"
  unfolding start_fails_def
proof (rule stop_startup_inv)
  show "phase_ok (fst (stop_startup (s\<lparr>su_phase := Stopping_failed err\<rparr>)))"
    using assms by (auto simp: startup_inv_def phase_ok_def stop_startup_fields)
qed (use assms in \<open>simp_all add: startup_inv_def dial_streams_def\<close>)

lemma streams_elem:
  "x \<in> set xs \<Longrightarrow> set (streams_of (snd x)) \<subseteq> set (concat (map (\<lambda>(p, d). streams_of d) xs))"
  by (induction xs) auto

lemma distinct_middle:
  "distinct (A @ m @ B) \<Longrightarrow> set m' \<subseteq> set m \<Longrightarrow> distinct m' \<Longrightarrow> distinct (A @ m' @ B)"
  by auto

text \<open>One loop moves, and the others keep what they have.\<close>

lemma dial_does_inv:
  assumes inv: "startup_inv s" and i: "i < length (su_dials s)" and x: "su_dials s ! i = (p, d)"
    and ok: "startup_ok (Dial_does i ev) s" and step: "dial_step p ev d (su_engine s) = Some (d', e', out)"
  shows "startup_inv (s\<lparr>su_dials := (su_dials s)[i := (p, d')], su_engine := e'\<rparr>)"
proof -
  let ?e = "su_engine s" and ?A = "take i (su_dials s)" and ?B = "drop (Suc i) (su_dials s)"
  let ?streams = "\<lambda>xs. concat (map (\<lambda>(p, d). streams_of d) xs)"
  have old: "su_dials s = ?A @ (p, d) # ?B" using id_take_nth_drop [OF i] x by simp
  have new: "(su_dials s)[i := (p, d')] = ?A @ (p, d') # ?B" using i by (simp add: upd_conv_take_nth_drop)
  have streams: "dial_streams s = ?streams ?A @ streams_of d @ ?streams ?B"
    unfolding dial_streams_def by (subst old) simp
  with inv have dist: "distinct (?streams ?A @ streams_of d @ ?streams ?B)" by (simp add: startup_inv_def)
  have all: "dial_ok ?e x" if "x \<in> set (su_dials s)" for x
    using inv that unfolding startup_inv_def by blast
  have self: "dial_ok ?e (p, d)" using all [of "su_dials s ! i"] nth_mem [OF i] x by simp
  have rest: "dial_ok ?e x" if "x \<in> set (?A @ ?B)" for x
    using that by (intro all) (auto dest: in_set_takeD in_set_dropD)
  have others: "set (streams_of (snd x)) \<subseteq> set (?streams (?A @ ?B))" if "x \<in> set (?A @ ?B)" for x
    using that by (rule streams_elem)
  have *: "en_stopping e' = en_stopping ?e \<and> dial_peers e' = dial_peers ?e \<and> dial_ok e' (p, d') \<and>
      (\<forall>x \<in> set (?A @ ?B). dial_ok e' x) \<and> distinct (?streams ?A @ streams_of d' @ ?streams ?B)"
    using step
  proof (cases rule: dial_step_cases)
    case (acts eev)
    then have e': "e' = fst (engine_step eev ?e)" by simp
    have "en_peers e' = en_peers ?e" using engine_step_setup [of ?e eev] e' by (simp add: same_setup_def)
    then have "dial_ok e' (p, d')" and "set (streams_of d') \<subseteq> set (streams_of d)" and "distinct (streams_of d')"
      using acts(5) self by (cases "en_stopping e'"; auto simp: dial_ok_def dial_rest_def)+
    moreover have "dial_ok e' x" if "x \<in> set (?A @ ?B)" for x
      unfolding e' using rest [OF that]
    proof (rule dial_ok_step)
      show "\<not> touches eev stream" if "stream \<in> set (streams_of (snd x))" for stream
      proof
        assume "touches eev stream"
        then have "stream \<in> set (streams_of d)" using acts(2) by simp
        moreover have "set (streams_of d) \<inter> set (?streams (?A @ ?B)) = {}"
          using dist by (simp only: distinct_append map_append concat_append set_append) blast
        ultimately show False using that others [OF \<open>x \<in> set (?A @ ?B)\<close>] by blast
      qed
    qed
    moreover from dist have "distinct (?streams ?A @ streams_of d' @ ?streams ?B)"
      by (rule distinct_middle) fact+
    ultimately show ?thesis
      using stopping_same [OF acts(4), of ?e] dial_peers_step [of eev ?e] unfolding e' by blast
  next
    case (rounds connect)
    show ?thesis
    proof (cases "\<not> en_stopping ?e \<and> (\<exists>stream. connect = Inr stream)")
      case True
      then obtain stream where c: "connect = Inr stream" by blast
      with True rounds(3) have e': "e' = fst (engine_step (Ev_dial_open stream) ?e)" and d': "d' = Dial_connecting stream"
        by (auto simp: dial_round_def)
      from ok c rounds(1) have fresh: "new_stream stream s" by simp
      have "dial_ok e' (p, d')"
        using True self fresh by (auto simp: e' d' dial_ok_def dial_open_def new_stream_def)
      moreover have "dial_ok e' x" if "x \<in> set (?A @ ?B)" for x
        unfolding e' using rest [OF that] by (rule dial_ok_step) (simp add: touches_def)
      moreover have "distinct (?streams ?A @ streams_of d' @ ?streams ?B)"
        using dist fresh rounds(2) unfolding new_stream_def streams by (auto simp: d')
      ultimately show ?thesis
        using stopping_same [of "Ev_dial_open stream" ?e] dial_peers_step [of "Ev_dial_open stream" ?e]
        unfolding e' by auto
    next
      case False
      with rounds(3) have "e' = ?e" and "d' = Dial_pausing \<or> d' = Dial_over \<and> en_stopping ?e"
        by (auto simp: dial_round_def split: sum.splits if_splits)
      then have "dial_ok e' (p, d')" and "streams_of d' = []" using self by (auto simp: dial_ok_def)
      moreover from this have "distinct (?streams ?A @ streams_of d' @ ?streams ?B)"
        by (intro distinct_middle [OF dist]) simp_all
      ultimately show ?thesis using \<open>e' = ?e\<close> rest by blast
    qed
  qed
  have "map fst ((su_dials s)[i := (p, d')]) = map fst (su_dials s)"
    unfolding new by (subst (2) old) simp
  with inv * show ?thesis
    unfolding startup_inv_def phase_ok_def dial_streams_def new by (auto split: phase.splits)
qed

text \<open>Listening has begun, and the loops with it.\<close>

lemma listening_inv:
  assumes inv: "startup_inv s" and phase: "su_phase s = Listening name"
    and ok: "startup_ok (Listen_settled None connects) s" and n: "length connects = length (dial_peers (su_engine s))"
    and dials: "begin_dials (dial_peers (su_engine s)) connects (su_engine s) = (ds, e', out)"
  shows "startup_inv (s\<lparr>su_phase := Started name, su_dials := ds, su_engine := e'\<rparr>)"
proof -
  let ?e = "su_engine s"
  have s: "\<not> en_stopping ?e" "su_stop s = Not_stopped" "su_device s" "su_server s"
    using inv phase by (auto simp: startup_inv_def phase_ok_def)
  from begin_dials_facts [OF dials s(1) n] obtain streams where fst: "map fst ds = dial_peers ?e"
    and conn: "concat (map (\<lambda>(p, d). streams_of d) ds) = connected_streams connects"
    and e': "e' = ?e\<lparr>en_streams := streams\<rparr>" and kept: "set (connected_streams connects) \<subseteq> set streams"
    and over: "Dial_over \<notin> snd ` set ds" by auto
  have "dial_ok e' x" if x: "x \<in> set ds" for x
  proof -
    have mine: "set (streams_of (snd x)) \<subseteq> set (connected_streams connects)"
      using streams_elem [OF x] conn by simp
    have "fst x \<in> set (dial_peers ?e)" using x fst by (metis image_eqI set_map)
    moreover have "map_get (en_objects e') stream = None" if "snd x = Dial_connecting stream" for stream
      using ok mine that by (auto simp: e' new_stream_def)
    moreover have "snd x \<noteq> Dial_over" using over x by force
    ultimately show ?thesis
      using mine kept by (auto simp: dial_ok_def e' dial_peers_def)
  qed
  then show ?thesis
    using s fst conn ok unfolding startup_inv_def phase_ok_def dial_streams_def by (auto simp: e' dial_peers_def)
qed

lemma engine_event_inv:
  assumes inv: "startup_inv s" and ok: "startup_ok (Engine_event ev) s" and waits: "engine_waits ev (su_phase s)"
  shows "startup_inv (s\<lparr>su_engine := fst (engine_step ev (su_engine s))\<rparr>)"
proof -
  let ?e = "su_engine s"
  have ev: "ev \<noteq> Ev_stop" "\<And>p stream r. ev \<noteq> Ev_dial_connected p stream r"
    "\<And>p stream err. ev \<noteq> Ev_dial_failed p stream err" using waits by auto
  have "dial_ok (fst (engine_step ev ?e)) x" if x: "x \<in> set (su_dials s)" for x
  proof (rule dial_ok_step)
    show "dial_ok ?e x" using inv x unfolding startup_inv_def by blast
    show "\<not> touches ev stream" if "stream \<in> set (streams_of (snd x))" for stream
    proof -
      have "stream \<in> set (dial_streams s)" using streams_elem [OF x] that unfolding dial_streams_def by blast
      then show ?thesis using ok ev by (auto simp: touches_def split: option.splits)
    qed
  qed
  then show ?thesis
    using inv stopping_same [OF ev(1), of ?e] dial_peers_step [of ev ?e]
    unfolding startup_inv_def phase_ok_def dial_streams_def by (auto split: phase.splits)
qed

lemma reject_failure_inv: "startup_inv s \<Longrightarrow> startup_inv (reject_failure err s)"
  by (cases "su_phase s") (auto simp: reject_failure_def startup_inv_def phase_ok_def dial_streams_def)

lemma cleanup_inv:
  "startup_inv s \<Longrightarrow> su_stop s = Cleaning \<Longrightarrow>
     startup_inv (s\<lparr>su_stop := Stop_over result,
       su_phase := (case su_phase s of
          Stopping_failed err \<Rightarrow> Failed_start (case result of None \<Rightarrow> err | Some cleanup \<Rightarrow> cleanup) | ph \<Rightarrow> ph)\<rparr>)"
  by (cases "su_phase s") (simp_all add: startup_inv_def phase_ok_def dial_streams_def)

lemma device_opened_inv:
  "startup_inv s \<Longrightarrow> su_phase s = Opening_device \<Longrightarrow>
     startup_inv (s\<lparr>su_device := True, su_server := True, su_phase := Listening name\<rparr>)"
  by (auto simp: startup_inv_def phase_ok_def dial_streams_def)

lemma startup_step_inv:
  assumes "startup_inv s" and "startup_ok ev s" and "startup_step ev s = Some (s', out)"
  shows "startup_inv s'"
proof (cases ev)
  case (Device_settled result)
  with assms(3) have phase: "su_phase s = Opening_device" by (simp split: if_splits)
  show ?thesis
  proof (cases result)
    case (Inl err)
    with Device_settled assms(3) phase have "s' = fst (start_fails err s)" by simp
    with start_fails_inv [OF assms(1)] phase show ?thesis by simp
  next
    case (Inr name)
    with Device_settled assms(3) phase device_opened_inv [OF assms(1)] show ?thesis by auto
  qed
next
  case (Listen_settled failure connects)
  with assms(3) obtain name where phase: "su_phase s = Listening name" by (auto split: phase.splits)
  show ?thesis
  proof (cases failure)
    case None
    obtain ds e1 eff where dials: "begin_dials (dial_peers (su_engine s)) connects (su_engine s) = (ds, e1, eff)"
      by (cases "begin_dials (dial_peers (su_engine s)) connects (su_engine s)")
    with None Listen_settled assms(3) phase have n: "length connects = length (dial_peers (su_engine s))"
      and "s' = s\<lparr>su_phase := Started name, su_dials := ds, su_engine := e1\<rparr>"
      by (auto split: if_splits)
    with listening_inv [OF assms(1) phase _ n dials] assms(2) Listen_settled None show ?thesis by simp
  next
    case (Some err)
    with Listen_settled assms(3) phase have "s' = fst (start_fails err s)" by simp
    with start_fails_inv [OF assms(1)] phase show ?thesis by simp
  qed
next
  case (Dial_does i dev)
  then obtain p d d' e1 eff where i: "i < length (su_dials s)" "su_dials s ! i = (p, d)"
    "dial_step p dev d (su_engine s) = Some (d', e1, eff)"
    and s': "s' = s\<lparr>su_dials := (su_dials s)[i := (p, d')], su_engine := e1\<rparr>"
    using assms(3) by (auto split: if_splits prod.splits option.splits)
  then show ?thesis using dial_does_inv [OF assms(1) i(1,2) _ i(3)] assms(2) Dial_does by simp
next
  case (Engine_event eev)
  with assms show ?thesis
    using engine_event_inv [OF assms(1), of eev] by (auto simp: split_beta simp del: startup_ok.simps split: if_splits)
next
  case Stop_called
  with assms(3) obtain name where "su_phase s = Started name" and "s' = fst (stop_startup s)"
    by (auto split: phase.splits)
  with stop_inv [OF assms(1)] show ?thesis by simp
next
  case (Cleanup_settled result)
  with assms show ?thesis using cleanup_inv [OF assms(1)] by (auto split: if_splits)
qed (use assms reject_failure_inv in \<open>auto split: if_splits phase.splits\<close>)

lemma startup_run_inv:
  assumes "startup_run s0 evs s out" and "startup_inv s0"
  shows "startup_inv s"
  using assms by (induction rule: startup_run.induct) (auto intro: startup_step_inv)

section \<open>Every course is a run of the engine\<close>

lemma stop_startup_run:
  "\<exists>evs effs. engine_run (su_engine s) evs (su_engine (fst (stop_startup s))) effs \<and>
     path_effects (snd (stop_startup s)) = filter on_path effs"
proof (cases "su_stop s = Not_stopped")
  case True
  obtain e1 effs where step: "stop_engine (su_engine s) = (e1, effs)" by (cases "stop_engine (su_engine s)")
  with engine_run_one [of Ev_stop "su_engine s" e1 effs] True show ?thesis
    by (intro exI [of _ "[Ev_stop]"] exI [of _ effs]) (simp add: stop_startup_def path_effects_stop)
next
  case False
  then show ?thesis
    by (intro exI [of _ "[]"]) (simp add: stop_startup_def run_start)
qed

lemma startup_step_run:
  assumes inv: "startup_inv s" and ok: "startup_ok ev s" and step: "startup_step ev s = Some (s', out)"
  shows "\<exists>evs effs. engine_run (su_engine s) evs (su_engine s') effs \<and> path_effects out = filter on_path effs"
proof -
  have stays: ?thesis if "su_engine s' = su_engine s" "out = []"
    using that by (intro exI [of _ "[]"]) (simp add: run_start)
  have fails: ?thesis if "start_fails err s = (s', out)" for err
  proof -
    from that have "s' = fst (start_fails err s)" "out = snd (start_fails err s)" by simp_all
    then show ?thesis using stop_startup_run [of "s\<lparr>su_phase := Stopping_failed err\<rparr>"] by (simp add: start_fails_def)
  qed
  show ?thesis
  proof (cases ev)
    case (Device_settled result)
    with step show ?thesis using stays fails by (auto split: if_splits sum.splits)
  next
    case (Listen_settled failure connects)
    obtain ds e1 eff where dials: "begin_dials (dial_peers (su_engine s)) connects (su_engine s) = (ds, e1, eff)"
      by (cases "begin_dials (dial_peers (su_engine s)) connects (su_engine s)")
    show ?thesis
    proof (cases failure)
      case None
      with Listen_settled step dials have "su_engine s' = e1" and "path_effects out = filter on_path eff"
        by (auto split: phase.splits if_splits)
      with begin_dials_run [OF dials] show ?thesis by simp
    next
      case (Some err)
      with Listen_settled step show ?thesis using fails [of err] by (auto split: phase.splits)
    qed
  next
    case (Dial_does i dev)
    with step obtain p d d' e1 eff where i: "i < length (su_dials s)" "su_dials s ! i = (p, d)"
      and d: "dial_step p dev d (su_engine s) = Some (d', e1, eff)"
      and s': "su_engine s' = e1" "out = map Engine_does eff"
      by (auto split: if_splits prod.splits option.splits)
    from i have "(p, d) \<in> set (su_dials s)" using nth_mem [OF i(1)] by simp
    with inv have "dial_ok (su_engine s) (p, d)" unfolding startup_inv_def by blast
    with dial_step_run [OF d] s' show ?thesis by (simp add: dial_ok_def)
  next
    case (Engine_event eev)
    with step ok obtain e1 eff where "engine_step eev (su_engine s) = (e1, eff)" and "event_ok eev (su_engine s)"
      and "su_engine s' = e1" "out = map Engine_does eff"
      by (auto split: if_splits prod.splits)
    with engine_run_one show ?thesis by fastforce
  next
    case Stop_called
    with step have "(s', out) = stop_startup s" by (auto split: phase.splits)
    then show ?thesis using stop_startup_run [of s] by (metis fst_conv snd_conv)
  qed (use step stays in \<open>auto simp: reject_failure_def split: if_splits phase.splits\<close>)
qed

lemma startup_run_engine:
  assumes "startup_run s0 evs s out" and "startup_inv s0"
  shows "\<exists>events effs. engine_run (su_engine s0) events (su_engine s) effs \<and> path_effects out = filter on_path effs"
  using assms
proof (induction rule: startup_run.induct)
  case (startup_start s)
  then show ?case by (intro exI [of _ "[]"]) (simp add: run_start)
next
  case (startup_next s evs s1 out ev s2 out')
  then obtain events effs where run: "engine_run (su_engine s) events (su_engine s1) effs"
    and eff: "path_effects out = filter on_path effs" by blast
  from startup_step_run [OF startup_run_inv [OF startup_next.hyps(1) startup_next.prems] startup_next.hyps(2,3)]
  obtain events' effs' where "engine_run (su_engine s1) events' (su_engine s2) effs'"
    and "path_effects out' = filter on_path effs'" by blast
  with engine_run_append [OF _ run] eff show ?case
    by (intro exI [of _ "events @ events'"] exI [of _ "effs @ effs'"]) simp
qed

text \<open>
  C12: Whatever is opened, fails, listens, dials and stops, in any order that \<open>startVpnEngine\<close>
  permits, the engine's state is that of a run of its callbacks from the start, in which only
  configured peers are dialed, and the packets and reports that go out are those of that run.
\<close>

theorem startup_refines_engine:
  assumes "new_startup peerKey config enrollment own = Inr s0" and "startup_run s0 evs s out"
  shows "\<exists>e0 events effs. start_engine peerKey config enrollment = Inr e0 \<and>
    engine_run e0 events (su_engine s) effs \<and> path_effects out = filter on_path effs"
proof -
  from assms(1) have "start_engine peerKey config enrollment = Inr (su_engine s0)"
    by (auto simp: new_startup_def split: sum.splits)
  with startup_run_engine [OF assms(2) new_startup_inv [OF assms(1)]] show ?thesis by blast
qed

section \<open>Closing\<close>

fun closing :: "startup_effect \<Rightarrow> bool" where
  "closing (Engine_does x) = False"
| "closing _ = True"

lemma closing_engine [simp]: "filter closing (map Engine_does xs) = []"
  by (induction xs) simp_all

lemma closing_closings [simp]: "filter closing (closings s) = closings s"
  by (simp add: closings_def)

lemma closings_fields: "su_server s' = su_server s \<Longrightarrow> su_device s' = su_device s \<Longrightarrow> su_own s' = su_own s \<Longrightarrow>
    closings s' = closings s"
  by (simp add: closings_def)

lemma closing_none:
  "Close_all \<notin> set out \<Longrightarrow> filter closing (concat (map (\<lambda>x. if x = Close_all then closings s else [Engine_does x]) out)) = []"
  by (induction out) auto

lemma stop_engine_closes:
  assumes "\<not> en_stopping e"
  shows "filter closing (concat (map (\<lambda>x. if x = Close_all then closings s else [Engine_does x]) (snd (stop_engine e)))) =
    closings s"
proof -
  let ?r = "end_sessions (en_sessions e) (e\<lparr>en_stopping := True\<rparr>)"
  have "Close_all \<notin> set (snd ?r)" using end_sessions_effects [of Close_all] by blast
  moreover have "Close_all \<notin> set (map Destroy ss)" for ss by auto
  ultimately show ?thesis
    using assms by (simp add: stop_engine_def split_beta closing_none)
qed

lemma stop_startup_closes:
  assumes "su_stop s = Not_stopped \<longleftrightarrow> \<not> en_stopping (su_engine s)"
  shows "filter closing (snd (stop_startup s)) = (if su_stop s = Not_stopped then closings s else [])"
  using assms stop_engine_closes [of "su_engine s" s] by (auto simp: stop_startup_def split_beta)

text \<open>The closings of one step: those of the stop, when it begins.\<close>

definition closes_once :: "startup \<Rightarrow> startup \<Rightarrow> startup_effect list \<Rightarrow> bool" where
  "closes_once s s' out \<longleftrightarrow>
     (if su_stop s = Not_stopped then
        filter closing out = (if su_stop s' = Not_stopped then [] else closings s')
      else su_stop s' \<noteq> Not_stopped \<and> closings s' = closings s \<and> filter closing out = [])"

lemma stop_startup_once:
  assumes "su_stop s = Not_stopped \<longleftrightarrow> \<not> en_stopping (su_engine s)"
  shows "closes_once s (fst (stop_startup s)) (snd (stop_startup s))"
  using stop_startup_closes [OF assms] closings_fields [of "fst (stop_startup s)" s]
  by (simp add: closes_once_def stop_startup_fields)

lemma closes_once_same:
  "su_stop s' = su_stop s \<Longrightarrow> su_server s' = su_server s \<Longrightarrow> su_device s' = su_device s \<Longrightarrow>
     su_own s' = su_own s \<Longrightarrow> filter closing out = [] \<Longrightarrow> closes_once s s' out"
  using closings_fields [of s' s] by (simp add: closes_once_def)

lemma startup_step_closes:
  assumes inv: "startup_inv s" and step: "startup_step ev s = Some (s', out)"
  shows "closes_once s s' out"
proof -
  have stop: "su_stop s = Not_stopped \<longleftrightarrow> \<not> en_stopping (su_engine s)" using inv by (simp add: startup_inv_def)
  have fails: ?thesis if "start_fails err s = (s', out)" for err
  proof -
    have "closes_once (s\<lparr>su_phase := Stopping_failed err\<rparr>) s' out"
      using stop_startup_once [of "s\<lparr>su_phase := Stopping_failed err\<rparr>"] stop that by (simp add: start_fails_def)
    then show ?thesis
      using closings_fields [of "s\<lparr>su_phase := Stopping_failed err\<rparr>" s] by (simp add: closes_once_def)
  qed
  show ?thesis
  proof (cases ev)
    case (Device_settled result)
    show ?thesis
    proof (cases result)
      case (Inl err)
      with Device_settled step fails show ?thesis by (auto split: if_splits)
    next
      case (Inr name)
      with Device_settled step have phase: "su_phase s = Opening_device" and s': "out = []"
        "s' = s\<lparr>su_device := True, su_server := True, su_phase := Listening name\<rparr>"
        by (auto split: if_splits)
      with inv show ?thesis by (simp add: startup_inv_def phase_ok_def closes_once_def)
    qed
  next
    case (Listen_settled failure connects)
    show ?thesis
    proof (cases failure)
      case None
      with Listen_settled step show ?thesis
        by (auto intro!: closes_once_same split: phase.splits if_splits prod.splits)
    next
      case (Some err)
      with Listen_settled step fails show ?thesis by (auto split: phase.splits)
    qed
  next
    case Stop_called
    with step have "s' = fst (stop_startup s)" "out = snd (stop_startup s)" by (auto split: phase.splits)
    with stop_startup_once [OF stop] show ?thesis by simp
  next
    case (Cleanup_settled result)
    with step show ?thesis by (auto simp: closes_once_def closings_def split: if_splits)
  next
    case (Dial_does i dev)
    with step show ?thesis
      by (auto intro!: closes_once_same split: if_splits prod.splits option.splits)
  next
    case (Engine_event eev)
    with step show ?thesis by (auto intro!: closes_once_same split: if_splits prod.splits)
  qed (use step in \<open>auto simp: reject_failure_def intro!: closes_once_same split: if_splits phase.splits\<close>)
qed

lemma startup_run_closes:
  assumes "startup_run s0 evs s out" and "startup_inv s0" and "su_stop s0 = Not_stopped"
  shows "filter closing out = (if su_stop s = Not_stopped then [] else closings s)"
  using assms
proof (induction rule: startup_run.induct)
  case (startup_next s evs s1 out ev s2 out')
  have "startup_inv s1" using startup_run_inv [OF startup_next.hyps(1) startup_next.prems(1)] .
  from startup_step_closes [OF this startup_next.hyps(3)] startup_next show ?case
    by (auto simp: closes_once_def split: if_splits)
qed simp

text \<open>Where a loop stands while nothing stops, and what is left of it afterwards.\<close>

lemma dial_step_stopping:
  assumes "dial_step p ev d e = Some (d', e', out)" and "en_stopping e"
  shows "d' = Dial_over"
  using assms(1)
proof (cases rule: dial_step_cases)
  case (acts eev)
  then show ?thesis using stopping_step [of e eev] assms(2) by (auto simp: dial_rest_def)
next
  case (rounds connect)
  then show ?thesis using assms(2) by (simp add: dial_round_def)
qed

text \<open>What has been opened and whether the engine stops, by the events of the run.\<close>

fun opens :: "startup_event \<Rightarrow> bool" where
  "opens (Device_settled result) = (\<not> isl result)"
| "opens _ = False"

fun stops_start :: "startup_event \<Rightarrow> bool" where
  "stops_start Stop_called = True"
| "stops_start (Device_settled result) = isl result"
| "stops_start (Listen_settled failure connects) = (failure \<noteq> None)"
| "stops_start _ = False"

lemma opens_iff: "opens ev \<longleftrightarrow> (\<exists>name. ev = Device_settled (Inr name))"
  by (cases ev) (auto simp: isl_def split: sum.splits, metis sum.exhaust)

lemma stops_start_iff:
  "stops_start ev \<longleftrightarrow> ev = Stop_called \<or> (\<exists>err. ev = Device_settled (Inl err)) \<or>
     (\<exists>err connects. ev = Listen_settled (Some err) connects)"
  by (cases ev) (auto simp: isl_def)

lemma startup_step_opened:
  assumes "startup_step ev s = Some (s', out)"
  shows "su_own s' = su_own s \<and> (su_server s' \<longleftrightarrow> su_server s \<or> opens ev) \<and> (su_device s' \<longleftrightarrow> su_device s \<or> opens ev) \<and>
    (su_stop s' \<noteq> Not_stopped \<longleftrightarrow> su_stop s \<noteq> Not_stopped \<or> stops_start ev)"
proof -
  have fails: ?thesis if "start_fails err s = (s', out)" and "stops_start ev" and "\<not> opens ev" for err
    using that stop_startup_fields [of "s\<lparr>su_phase := Stopping_failed err\<rparr>"]
    by (cases "stop_startup (s\<lparr>su_phase := Stopping_failed err\<rparr>)") (simp add: start_fails_def)
  show ?thesis
  proof (cases ev)
    case (Device_settled result)
    with assms fails show ?thesis by (cases result) (auto split: if_splits)
  next
    case (Listen_settled failure connects)
    with assms fails show ?thesis
      by (cases failure) (auto split: phase.splits if_splits prod.splits)
  next
    case (Dial_does i dev)
    with assms show ?thesis by (auto split: if_splits prod.splits option.splits)
  next
    case (Engine_event eev)
    with assms show ?thesis by (auto split: if_splits prod.splits)
  next
    case Stop_called
    with assms stop_startup_fields [of s] show ?thesis by (cases "stop_startup s") (auto split: phase.splits)
  next
    case (Cleanup_settled result)
    with assms show ?thesis by (auto split: if_splits)
  qed (use assms in \<open>auto simp: reject_failure_def split: if_splits phase.splits\<close>)
qed

lemma startup_run_opened:
  assumes "startup_run s0 evs s out" and "\<not> su_server s0" and "\<not> su_device s0" and "su_stop s0 = Not_stopped"
  shows "su_own s = su_own s0 \<and> (su_server s \<longleftrightarrow> list_ex opens evs) \<and> (su_device s \<longleftrightarrow> list_ex opens evs) \<and>
    (su_stop s \<noteq> Not_stopped \<longleftrightarrow> list_ex stops_start evs)"
  using assms
proof (induction rule: startup_run.induct)
  case (startup_next s evs s1 out ev s2 out')
  from startup_step_opened [OF startup_next.hyps(3)] startup_next.IH [OF startup_next.prems]
  show ?case by simp
qed simp

lemma opened_events:
  "list_ex opens evs \<longleftrightarrow> (\<exists>name. Device_settled (Inr name) \<in> set evs)"
  "list_ex stops_start evs \<longleftrightarrow> Stop_called \<in> set evs \<or> (\<exists>err. Device_settled (Inl err) \<in> set evs) \<or>
     (\<exists>err connects. Listen_settled (Some err) connects \<in> set evs)"
  unfolding list_ex_iff opens_iff stops_start_iff by blast+

text \<open>
  C13: The engine stops when the caller calls for it, when the device could not be opened or when
  listening has failed, and in no other case.  Before, nothing is closed.  When it stops, the server
  and the device are closed if the device had been opened, and the DHT node is destroyed if it is the
  engine's own, each exactly once and whatever happens afterwards.  A start that failed has no dial
  loop, and it has stopped or is stopping.  Of a started engine every peer to be dialed has one loop,
  which goes on as long as nothing stops; from then on its next event is its last.
\<close>

theorem startup_closes_once:
  assumes "new_startup peerKey config enrollment own = Inr s0" and "startup_run s0 evs s out"
  shows "filter closing out =
      (if su_stop s = Not_stopped then []
       else (if \<exists>name. Device_settled (Inr name) \<in> set evs then [Close_server, Close_device] else []) @
         (if own then [Destroy_node] else [])) \<and>
    (su_stop s \<noteq> Not_stopped \<longleftrightarrow> Stop_called \<in> set evs \<or> (\<exists>err. Device_settled (Inl err) \<in> set evs) \<or>
       (\<exists>err connects. Listen_settled (Some err) connects \<in> set evs)) \<and>
    (su_stop s = Not_stopped \<longleftrightarrow> \<not> en_stopping (su_engine s)) \<and>
    (\<forall>err. su_phase s = Stopping_failed err \<longrightarrow> su_dials s = [] \<and> su_stop s = Cleaning) \<and>
    (\<forall>err. su_phase s = Failed_start err \<longrightarrow> su_dials s = [] \<and> (\<exists>r. su_stop s = Stop_over r)) \<and>
    (\<forall>name. su_phase s = Started name \<longrightarrow>
       map fst (su_dials s) = filter (\<lambda>p. pr_direction p = Dial) (en_peers (su_engine s))) \<and>
    (\<forall>(p, d) \<in> set (su_dials s). (su_stop s = Not_stopped \<longrightarrow> d \<noteq> Dial_over) \<and>
       (su_stop s \<noteq> Not_stopped \<longrightarrow>
          (\<forall>ev d' e' eff. dial_step p ev d (su_engine s) = Some (d', e', eff) \<longrightarrow> d' = Dial_over)))"
proof -
  have inv0: "startup_inv s0" and s0: "\<not> su_server s0" "\<not> su_device s0" "su_stop s0 = Not_stopped" and own: "su_own s0 = own"
    using new_startup_inv [OF assms(1)] assms(1) by (auto simp: new_startup_def split: sum.splits)
  have inv: "startup_inv s" using assms(2) inv0 by (rule startup_run_inv)
  then have stop: "su_stop s = Not_stopped \<longleftrightarrow> \<not> en_stopping (su_engine s)" by (simp add: startup_inv_def)
  have loops: "dial_ok (su_engine s) x" if "x \<in> set (su_dials s)" for x
    using inv that unfolding startup_inv_def by blast
  have live: "su_stop s = Not_stopped \<longrightarrow> d \<noteq> Dial_over" if "(p, d) \<in> set (su_dials s)" for p d
    using loops [OF that] stop by (auto simp: dial_ok_def)
  have phase: "phase_ok s" using inv by (simp add: startup_inv_def)
  note facts = startup_run_opened [OF assms(2) s0, unfolded opened_events]
  then have opened: "su_own s = own" "su_server s \<longleftrightarrow> (\<exists>name. Device_settled (Inr name) \<in> set evs)"
    "su_device s \<longleftrightarrow> (\<exists>name. Device_settled (Inr name) \<in> set evs)" using own by blast+
  have closed: "filter closing out =
      (if su_stop s = Not_stopped then []
       else (if \<exists>name. Device_settled (Inr name) \<in> set evs then [Close_server, Close_device] else []) @
         (if own then [Destroy_node] else []))"
    unfolding startup_run_closes [OF assms(2) inv0 s0(3)] closings_def opened by simp
  have failing: "su_phase s = Stopping_failed err \<Longrightarrow> su_dials s = [] \<and> su_stop s = Cleaning"
    and failed: "su_phase s = Failed_start err \<Longrightarrow> su_dials s = [] \<and> (\<exists>r. su_stop s = Stop_over r)"
    and started: "su_phase s = Started name \<Longrightarrow>
      map fst (su_dials s) = filter (\<lambda>p. pr_direction p = Dial) (en_peers (su_engine s))" for err name
    using phase by (simp_all add: phase_ok_def dial_peers_def)
  have over: "d' = Dial_over" if "su_stop s \<noteq> Not_stopped" and "dial_step p ev d (su_engine s) = Some (d', e', eff)"
    for p ev d d' e' eff using dial_step_stopping [OF that(2)] stop that(1) by blast
  show ?thesis
    using facts by (intro conjI closed stop allI impI ballI) (use live failing failed started over in auto)
qed

section \<open>A concrete course\<close>

definition ex_startup :: "phase \<Rightarrow> bool \<Rightarrow> engine \<Rightarrow> (peer \<times> dialing) list \<Rightarrow> stopping \<Rightarrow> startup" where
  "ex_startup ph device e dials stop =
     \<lparr>su_engine = e, su_listening = listening_line ex_dialer_config, su_own = True, su_device = device,
      su_server = device, su_phase = ph, su_dials = dials, su_failed = None, su_stop = stop\<rparr>"

lemma ex_new_startup:
  "new_startup (ex_key CHR ''c'') ex_dialer_config False True = Inr (ex_startup Opening_device False ex_dialer [] Not_stopped)"
  by (simp add: new_startup_def ex_dialer_start ex_startup_def)

lemma startup_extend:
  "\<exists>out. startup_run s evs s1 out \<Longrightarrow> startup_ok ev s1 \<Longrightarrow> \<exists>out'. startup_step ev s1 = Some (s2, out') \<Longrightarrow>
     \<exists>out. startup_run s (evs @ [ev]) s2 out"
  by (blast intro: startup_next)

lemma ex_startup_run:
  "\<exists>e out. startup_run (ex_startup Opening_device False ex_dialer [] Not_stopped)
     [Device_settled (Inr ''tun0''), Listen_settled None [Inr 3], Dial_does 0 (Dial_connects (ex_key CHR ''a'')), Stop_called]
     (ex_startup (Started ''tun0'') True e [(ex_acceptor, Dial_attached 3)] Cleaning) out"
proof -
  let ?s0 = "ex_startup Opening_device False ex_dialer [] Not_stopped"
  let ?s1 = "ex_startup (Listening ''tun0'') True ex_dialer [] Not_stopped"
  let ?s2 = "ex_startup (Started ''tun0'') True (dial_open 3 ex_dialer) [(ex_acceptor, Dial_connecting 3)] Not_stopped"
  let ?s3 = "ex_startup (Started ''tun0'') True (ex_dialed False) [(ex_acceptor, Dial_attached 3)] Not_stopped"
  have start: "\<exists>out. startup_run ?s0 [] ?s0 out" using startup_start by blast
  have dials: "dial_peers ex_dialer = [ex_acceptor]" by (simp add: dial_peers_def ex_dialer_defs)
  have running: "\<not> en_stopping ex_dialer" by (simp add: ex_dialer_defs)
  have "\<exists>out. startup_run ?s0 ([] @ [Device_settled (Inr ''tun0'')]) ?s1 out"
    by (rule startup_extend [OF start]) (simp_all add: ex_startup_def)
  then have "\<exists>out. startup_run ?s0 (([] @ [Device_settled (Inr ''tun0'')]) @ [Listen_settled None [Inr 3]]) ?s2 out"
    by (rule startup_extend)
      (simp_all add: ex_startup_def new_stream_def dial_streams_def dials dial_round_def running, simp add: ex_dialer_defs)
  then have "\<exists>out. startup_run ?s0 ((([] @ [Device_settled (Inr ''tun0'')]) @ [Listen_settled None [Inr 3]]) @
      [Dial_does 0 (Dial_connects (ex_key CHR ''a''))]) ?s3 out"
    by (rule startup_extend)
      (simp_all add: ex_startup_def dial_connected_def attach_def dial_open_def set_add_def, simp_all add: ex_dialer_defs)
  then have "\<exists>out. startup_run ?s0 (((([] @ [Device_settled (Inr ''tun0'')]) @ [Listen_settled None [Inr 3]]) @
      [Dial_does 0 (Dial_connects (ex_key CHR ''a''))]) @ [Stop_called])
      (ex_startup (Started ''tun0'') True (fst (stop_engine (ex_dialed False))) [(ex_acceptor, Dial_attached 3)] Cleaning) out"
    by (rule startup_extend) (simp_all add: ex_startup_def stop_startup_def split_beta)
  then show ?thesis by auto
qed

theorem startup_refines_engine_witness:
  "\<exists>e events effs. engine_run ex_dialer events e effs \<and> en_stopping e"
proof -
  obtain e out where run: "startup_run (ex_startup Opening_device False ex_dialer [] Not_stopped)
      [Device_settled (Inr ''tun0''), Listen_settled None [Inr 3], Dial_does 0 (Dial_connects (ex_key CHR ''a'')), Stop_called]
      (ex_startup (Started ''tun0'') True e [(ex_acceptor, Dial_attached 3)] Cleaning) out"
    using ex_startup_run by blast
  from startup_refines_engine [OF ex_new_startup run] obtain events effs where "engine_run ex_dialer events e effs"
    by (auto simp: ex_dialer_start ex_startup_def)
  moreover have "en_stopping e"
    using startup_run_inv [OF run new_startup_inv [OF ex_new_startup]] by (simp add: startup_inv_def ex_startup_def)
  ultimately show ?thesis by blast
qed

theorem startup_closes_once_witness:
  "\<exists>e out. startup_run (ex_startup Opening_device False ex_dialer [] Not_stopped)
     [Device_settled (Inr ''tun0''), Listen_settled None [Inr 3], Dial_does 0 (Dial_connects (ex_key CHR ''a'')), Stop_called]
     (ex_startup (Started ''tun0'') True e [(ex_acceptor, Dial_attached 3)] Cleaning) out \<and>
     filter closing out = [Close_server, Close_device, Destroy_node]"
proof -
  obtain e out where run: "startup_run (ex_startup Opening_device False ex_dialer [] Not_stopped)
      [Device_settled (Inr ''tun0''), Listen_settled None [Inr 3], Dial_does 0 (Dial_connects (ex_key CHR ''a'')), Stop_called]
      (ex_startup (Started ''tun0'') True e [(ex_acceptor, Dial_attached 3)] Cleaning) out"
    using ex_startup_run by blast
  have "filter closing out = [Close_server, Close_device, Destroy_node]"
    using startup_closes_once [OF ex_new_startup run] by (simp add: ex_startup_def)
  with run show ?thesis by blast
qed

end
