(* ===== verification/Control_Socket.thy ===== *)
theory Control_Socket
  imports Receiver
begin

text \<open>
  A request over the receiver's control socket, \<open>src/vpn/receiver.ts\<close>: \<open>receiverRequest\<close> at the one
  end, a connection of \<open>startReceiver\<close> at the other, for every way in which the texts are cut into
  chunks.  \<open>json\<close> and \<open>stringify\<close> are \<open>JSON.parse\<close> and \<open>JSON.stringify\<close>; a chunk is the text that
  its bytes decode to.
\<close>

section \<open>The client\<close>

text \<open>
  \<open>cc_ended\<close> is \<open>readableEnded\<close>; a destroyed socket has no more events but its close.  The promise
  keeps the first outcome.
\<close>

record control_client =
  cc_data :: string
  cc_ended :: bool
  cc_destroyed :: bool
  cc_result :: "(error + js) option"

definition new_control :: control_client where
  "new_control = \<lparr>cc_data = [], cc_ended = False, cc_destroyed = False, cc_result = None\<rparr>"

datatype control_event =
  Socket_connects | Socket_data string | Socket_ends | Socket_errs | Socket_times_out | Socket_closes

datatype control_effect = Socket_write string | Socket_destroy

definition settle_control :: "error + js \<Rightarrow> control_client \<Rightarrow> control_client" where
  "settle_control result c = (if cc_result c = None then c\<lparr>cc_result := Some result\<rparr> else c)"

definition text_line :: "(js \<Rightarrow> string) \<Rightarrow> js \<Rightarrow> string" where
  "text_line stringify v = stringify v @ [CHR 10]"

fun control_step ::
  "(string \<Rightarrow> js option) \<Rightarrow> (js \<Rightarrow> string) \<Rightarrow> (string, js) js_map \<Rightarrow> control_event \<Rightarrow> control_client \<Rightarrow>
   control_client \<times> control_effect list" where
  "control_step json stringify request Socket_connects c =
     (if cc_destroyed c then (c, []) else (c, [Socket_write (text_line stringify (JObj request))]))"
| "control_step json stringify request (Socket_data chunk) c =
     (if cc_destroyed c then (c, [])
      else
        (let c1 = c\<lparr>cc_data := cc_data c @ chunk\<rparr> in
         if byteLength (cc_data c1) > 32768 then (c1\<lparr>cc_destroyed := True\<rparr>, [Socket_destroy]) else (c1, [])))"
| "control_step json stringify request Socket_ends c =
     (if cc_destroyed c then (c, [])
      else (settle_control (receiver_reply (json (cc_data c))) (c\<lparr>cc_ended := True\<rparr>), []))"
| "control_step json stringify request Socket_errs c =
     (settle_control (Inl ''receiver control unavailable'') c, [])"
| "control_step json stringify request Socket_times_out c = (c\<lparr>cc_destroyed := True\<rparr>, [Socket_destroy])"
| "control_step json stringify request Socket_closes c =
     (if cc_ended c then (c, []) else (settle_control (Inl ''receiver control unavailable'') c, []))"

fun receiverRequest ::
  "(string \<Rightarrow> js option) \<Rightarrow> (js \<Rightarrow> string) \<Rightarrow> (string, js) js_map \<Rightarrow> control_event list \<Rightarrow> control_client \<Rightarrow>
   control_client \<times> control_effect list" where
  "receiverRequest json stringify request [] c = (c, [])"
| "receiverRequest json stringify request (ev # evs) c =
     (let (c1, out) = control_step json stringify request ev c;
          (c2, out') = receiverRequest json stringify request evs c1
      in (c2, out @ out'))"

section \<open>The connection\<close>

definition new_client :: client where
  "new_client = \<lparr>cl_data = [], cl_handling = False\<rparr>"

text \<open>
  The chunks of a connection: whether it lives, and the data that is handed over.  A chunk after
  that destroys the socket, but the request is carried out all the same.
\<close>

fun serve_chunks :: "string list \<Rightarrow> client \<Rightarrow> bool \<times> string option" where
  "serve_chunks [] c = (True, None)"
| "serve_chunks (chunk # chunks) c =
     (case client_data chunk c of
        (Waiting, c1) \<Rightarrow> serve_chunks chunks c1
      | (Destroyed, c1) \<Rightarrow> (False, None)
      | (Request line, c1) \<Rightarrow> (chunks = [], Some line))"

text \<open>What the receiver does with them, and the text that it ends the socket with.\<close>

definition serve_request ::
  "(string \<Rightarrow> js option) \<Rightarrow> (js \<Rightarrow> string) \<Rightarrow> (string \<Rightarrow> string) \<Rightarrow> string list \<Rightarrow> answers \<Rightarrow> receiver \<Rightarrow>
   string option \<times> receiver \<times> receiver_effect list" where
  "serve_request json stringify sha chunks w r =
     (case serve_chunks chunks new_client of
        (alive, None) \<Rightarrow> (None, r, [])
      | (alive, Some line) \<Rightarrow>
          (let (reply, r1, out) = answer_line json sha line w r
           in (if alive then Some (text_line stringify reply) else None, r1, out)))"

end
