(* ===== verification/Control_Socket_Properties.thy ===== *)
theory Control_Socket_Properties
  imports Control_Socket Receiver_Process_Properties
begin

text \<open>
  A request and its reply cross the control socket unharmed, and the caller's promise is settled by
  the time its socket has closed.
\<close>

section \<open>An exchange\<close>

text \<open>What the caller of \<open>receiverRequest\<close> gets to know of a command.\<close>

definition told :: "rs_error + js \<Rightarrow> error + js" where
  "told result =
     (case result of
        Inr v \<Rightarrow> Inr v
      | Inl Exclusion_invalid \<Rightarrow>
          Inl ''Excluded address must be a usable pool address different from the receiver address''
      | Inl Exclusion_allocated \<Rightarrow>
          Inl ''Excluded address is assigned to an authorized device; inspect devices and revoke the affected device first''
      | Inl _ \<Rightarrow> Inl ''receiver request failed'')"

lemma receiver_reply_to: "receiver_reply (Some (reply_to result)) = told result"
  by (auto simp: receiver_reply_def reply_to_def told_def prop_of_def split: sum.split rs_error.split)

lemma byteLength_append [simp]: "byteLength (s @ t) = byteLength s + byteLength t"
  by (simp add: byteLength_def)

lemma serve_line:
  assumes "cl_data c @ concat chunks = line @ [CHR 10]" and "CHR 10 \<notin> set line" and "[] \<notin> set chunks"
    and "\<not> cl_handling c" and "chunks \<noteq> []" and "byteLength (line @ [CHR 10]) \<le> 4096"
  shows "serve_chunks chunks c = (True, Some (line @ [CHR 10]))"
  using assms
proof (induction chunks arbitrary: c)
  case (Cons chunk chunks)
  have "byteLength (cl_data c @ concat (chunk # chunks)) \<le> 4096" using Cons.prems(1,6) by simp
  then have small: "byteLength (cl_data c @ chunk) \<le> 4096" by simp
  show ?case
  proof (cases "chunks = []")
    case True
    with Cons.prems small show ?thesis by (simp add: client_data_def Let_def)
  next
    case False
    then have "concat chunks \<noteq> []" using Cons.prems(3) by (cases chunks) auto
    then obtain rest where rest: "concat chunks = rest @ [CHR 10]" "cl_data c @ chunk @ rest = line"
      using Cons.prems(1) by (cases "concat chunks" rule: rev_cases) auto
    then have "CHR 10 \<notin> set (cl_data c @ chunk)" using Cons.prems(2) by auto
    with small Cons.prems(4) have "client_data chunk c = (Waiting, c\<lparr>cl_data := cl_data c @ chunk\<rparr>)"
      by (simp add: client_data_def Let_def)
    with Cons.IH [of "c\<lparr>cl_data := cl_data c @ chunk\<rparr>"] Cons.prems False show ?thesis by simp
  qed
qed simp

lemma request_data:
  assumes "\<not> cc_destroyed c" and "byteLength (cc_data c @ concat chunks) \<le> 32768"
  shows "receiverRequest json stringify request (map Socket_data chunks @ evs) c =
    receiverRequest json stringify request evs (c\<lparr>cc_data := cc_data c @ concat chunks\<rparr>)"
  using assms
proof (induction chunks arbitrary: c)
  case (Cons chunk chunks)
  then have "byteLength (cc_data c @ chunk) \<le> 32768" by simp
  with Cons show ?case by (simp add: Let_def)
qed simp

text \<open>
  C6: The control socket carries requests faithfully.  However the request's line and the reply's are
  cut into chunks, the receiver carries out that command, once, and the caller is told its result, or the
  message of its error, and nothing else.
\<close>

theorem control_exchange:
  assumes "json (stringify (JObj request)) = Some (JObj request)" and "CHR 10 \<notin> set (stringify (JObj request))"
    and "concat chunks = text_line stringify (JObj request)" and "[] \<notin> set chunks"
    and "byteLength (text_line stringify (JObj request)) \<le> 4096"
    and "command sha request w r = (result, r1, out)"
    and "json (text_line stringify (reply_to result)) = Some (reply_to result)"
    and "concat replies = text_line stringify (reply_to result)"
    and "byteLength (text_line stringify (reply_to result)) \<le> 32768"
  shows "\<exists>c. receiverRequest json stringify request (Socket_connects # map Socket_data replies @ [Socket_ends, Socket_closes])
      new_control = (c, [Socket_write (concat chunks)]) \<and> cc_result c = Some (told result) \<and>
    serve_request json stringify sha chunks w r =
      (Some (concat replies),
       (if result = Inl Storage_failure then fail_with ''receiver storage failed'' r1 else r1), out)"
proof -
  let ?line = "stringify (JObj request)"
  have "chunks \<noteq> []" using assms(3) by (auto simp: text_line_def)
  with serve_line [of new_client chunks ?line] assms(2-5)
  have serve: "serve_chunks chunks new_client = (True, Some (?line @ [CHR 10]))"
    by (simp add: new_client_def text_line_def)
  have "takeWhile (\<lambda>ch. ch \<noteq> CHR 10) (?line @ [CHR 10]) = ?line"
    using assms(2) by (subst takeWhile_append2) auto
  then have "handle_line json sha (?line @ [CHR 10]) w r = (result, r1, out)"
    using assms(1,6) by (simp add: handle_line_def Let_def)
  then have answer: "serve_request json stringify sha chunks w r =
      (Some (concat replies),
       (if result = Inl Storage_failure then fail_with ''receiver storage failed'' r1 else r1), out)"
    using serve assms(8) by (simp add: serve_request_def answer_line_def)
  have "receiverRequest json stringify request (map Socket_data replies @ [Socket_ends, Socket_closes]) new_control =
      receiverRequest json stringify request [Socket_ends, Socket_closes] (new_control\<lparr>cc_data := concat replies\<rparr>)"
    using request_data [of new_control replies] assms(8,9) by (simp add: new_control_def)
  with answer show ?thesis
    using assms(3,7,8) receiver_reply_to [of result]
    by (simp add: settle_control_def new_control_def)
qed

text \<open>
  Whatever happens to the socket, the promise is settled when it has closed, and it gives a result only
  if that is the \<open>result\<close> of the whole text that came before the end.
\<close>

lemma request_settles:
  assumes "receiverRequest json stringify request evs c = (c', out)"
    and "Socket_closes \<in> set evs" and "cc_ended c \<longrightarrow> cc_result c \<noteq> None"
  shows "cc_result c' \<noteq> None"
proof -
  have keeps: "cc_result (fst (receiverRequest json stringify request evs d)) \<noteq> None" if "cc_result d \<noteq> None" for evs d
    using that
  proof (induction evs arbitrary: d)
    case (Cons ev evs)
    then have "cc_result (fst (control_step json stringify request ev d)) \<noteq> None"
      by (cases ev) (auto simp: settle_control_def Let_def)
    with Cons.IH show ?case by (simp add: split_beta)
  qed simp
  from assms show ?thesis
  proof (induction evs arbitrary: c out)
    case (Cons ev evs)
    let ?c = "fst (control_step json stringify request ev c)"
    have rest: "fst (receiverRequest json stringify request evs ?c) = c'"
      using Cons.prems(1) by (auto simp: split_beta)
    show ?case
    proof (cases "ev = Socket_closes")
      case True
      then have "cc_result ?c \<noteq> None" using Cons.prems(3) by (auto simp: settle_control_def)
      with keeps rest show ?thesis by metis
    next
      case False
      then have "Socket_closes \<in> set evs" using Cons.prems(2) by simp
      moreover have "cc_ended ?c \<longrightarrow> cc_result ?c \<noteq> None"
        using Cons.prems(3) by (cases ev) (auto simp: settle_control_def Let_def)
      ultimately show ?thesis using Cons.IH [of ?c] rest by (metis prod.collapse)
    qed
  qed simp
qed

text \<open>A request for the devices of \<open>ex_receiver\<close>, with texts cut in the middle.\<close>

definition ex_list :: "(string, js) js_map" where "ex_list = [(''action'', JStr ''list'')]"

definition ex_listed :: js where "ex_listed = JObj [(''devices'', JArr [device_json ex_device])]"

definition ex_list_text :: "js \<Rightarrow> string" where "ex_list_text v = (if v = JObj ex_list then ''ask'' else ''reply'')"

definition ex_list_json :: "string \<Rightarrow> js option" where
  "ex_list_json s = (if s = ''ask'' then Some (JObj ex_list) else Some (JObj [(''result'', ex_listed)]))"

lemma ex_list_command: "command ex_sha ex_list w ex_receiver = (Inr ex_listed, ex_receiver, [])"
  by (simp add: command_def ex_list_def prop_of_def list_command_def list_devices_def serial_def ex_receiver_def
      ex_enrolled_def ex_listed_def Let_def)

theorem control_exchange_witness:
  "\<forall>w. \<exists>c. receiverRequest ex_list_json ex_list_text ex_list
      (Socket_connects # map Socket_data [''re'', ''ply'' @ [CHR 10]] @ [Socket_ends, Socket_closes]) new_control =
      (c, [Socket_write (''ask'' @ [CHR 10])]) \<and> cc_result c = Some (Inr ex_listed) \<and>
    serve_request ex_list_json ex_list_text ex_sha [''as'', ''k'' @ [CHR 10]] w ex_receiver =
      (Some (''reply'' @ [CHR 10]), ex_receiver, [])"
proof
  fix w
  let ?chunks = "[''as'', ''k'' @ [CHR 10]]" and ?replies = "[''re'', ''ply'' @ [CHR 10]]"
  have reply: "reply_to (Inr ex_listed) = JObj [(''result'', ex_listed)]" by (simp add: reply_to_def)
  have texts: "text_line ex_list_text (JObj ex_list) = ''ask'' @ [CHR 10]"
    "text_line ex_list_text (reply_to (Inr ex_listed)) = ''reply'' @ [CHR 10]"
    unfolding reply by (simp_all add: text_line_def ex_list_text_def ex_list_def)
  have ask: "ex_list_json (ex_list_text (JObj ex_list)) = Some (JObj ex_list)"
    "CHR 10 \<notin> set (ex_list_text (JObj ex_list))"
    by (simp_all add: ex_list_text_def ex_list_json_def)
  have sizes: "byteLength (text_line ex_list_text (JObj ex_list)) \<le> 4096"
    "byteLength (text_line ex_list_text (reply_to (Inr ex_listed))) \<le> 32768"
    unfolding texts by (simp_all add: byteLength_def)
  have cuts: "concat ?chunks = text_line ex_list_text (JObj ex_list)" "[] \<notin> set ?chunks"
    "concat ?replies = text_line ex_list_text (reply_to (Inr ex_listed))"
    unfolding texts by simp_all
  have parsed: "ex_list_json (text_line ex_list_text (reply_to (Inr ex_listed))) = Some (reply_to (Inr ex_listed))"
    unfolding texts unfolding reply by (simp add: ex_list_json_def)
  show "\<exists>c. receiverRequest ex_list_json ex_list_text ex_list
      (Socket_connects # map Socket_data ?replies @ [Socket_ends, Socket_closes]) new_control =
      (c, [Socket_write (''ask'' @ [CHR 10])]) \<and> cc_result c = Some (Inr ex_listed) \<and>
    serve_request ex_list_json ex_list_text ex_sha ?chunks w ex_receiver =
      (Some (''reply'' @ [CHR 10]), ex_receiver, [])"
    using control_exchange [OF ask cuts(1,2) sizes(1) ex_list_command [of w] parsed cuts(3) sizes(2)]
    unfolding cuts texts by (simp only: told_def sum.case sum.distinct if_False)
qed

end
