(* ===== verification/Receiver_Files.thy ===== *)
theory Receiver_Files
  imports Control_Socket Runtime_Lock_Properties
begin

text \<open>
  Where a receiver keeps its files, \<open>receiverDirectory\<close> and \<open>socketPath\<close> of \<open>src/vpn/receiver.ts\<close>:
  beside the state directory, which has a fixed format, and apart from the lock of
  \<open>src/runtime/runtime-lock.ts\<close> there.
\<close>

definition receiverDirectory :: "path \<Rightarrow> path" where
  "receiverDirectory stateDir = dirname stateDir @ [''.'' @ basename stateDir @ ''.receiver'']"

definition socketPath :: "path \<Rightarrow> path" where
  "socketPath stateDir = receiverDirectory stateDir @ [''control.sock'']"

lemma receiver_directory_inj:
  "p \<noteq> [] \<Longrightarrow> q \<noteq> [] \<Longrightarrow> receiverDirectory p = receiverDirectory q \<Longrightarrow> p = q"
  by (simp add: receiverDirectory_def dirname_def basename_def) (metis append_butlast_last_id)

text \<open>
  Receivers of different state directories share neither directory nor socket, and no receiver's
  directory is a lock file or its own state directory.
\<close>

theorem receiver_files_apart:
  assumes "p \<noteq> []" and "q \<noteq> []"
  shows "(receiverDirectory p = receiverDirectory q \<longleftrightarrow> p = q) \<and> (socketPath p = socketPath q \<longleftrightarrow> p = q) \<and>
    receiverDirectory p \<noteq> peerRuntimeLockPath q \<and> receiverDirectory p \<noteq> p"
proof -
  have "last (last (receiverDirectory p)) \<noteq> last (last (peerRuntimeLockPath q))"
    by (simp add: receiverDirectory_def peerRuntimeLockPath_def)
  moreover have "length (last (receiverDirectory p)) \<noteq> length (last p)"
    using assms(1) by (simp add: receiverDirectory_def basename_def)
  ultimately show ?thesis
    using receiver_directory_inj [OF assms] by (auto simp: socketPath_def)
qed

end
