(* ===== verification/Paths.thy ===== *)
theory Paths
  imports State_Files
begin

text \<open>
  Paths as texts: \<open>path.posix.join\<close> and \<open>path.resolve\<close> as the code uses them, and the default
  places of \<open>src/platform/paths.ts\<close>.  \<open>path.win32.join\<close>, with its drives, is the argument
  \<open>win32_join\<close>.
\<close>

section \<open>Joining and resolving\<close>

text \<open>One segment of a path that is normalized; \<open>relative\<close> lets \<open>..\<close> lead out of a relative path.\<close>

definition normal_step :: "bool \<Rightarrow> string list \<Rightarrow> string \<Rightarrow> string list" where
  "normal_step relative segments name =
     (if name = [] \<or> name = ''.'' then segments
      else if name = ''..'' then
        (if segments \<noteq> [] \<and> last segments \<noteq> ''..'' then butlast segments
         else if relative then segments @ [''..''] else segments)
      else segments @ [name])"

definition posix_normalize :: "string \<Rightarrow> string" where
  "posix_normalize p =
     (let absolute = starts_with ''/'' p;
          trailing = (p \<noteq> [] \<and> last p = CHR ''/'');
          segments = foldl (normal_step (\<not> absolute)) [] (split_on CHR ''/'' p) in
      if segments = [] then (if absolute then ''/'' else if trailing then ''./'' else ''.'')
      else (if absolute then ''/'' else []) @ join ''/'' segments @ (if trailing then ''/'' else []))"

definition posix_join :: "string list \<Rightarrow> string" where
  "posix_join parts =
     (let joined = join ''/'' (filter (\<lambda>s. s \<noteq> []) parts)
      in if joined = [] then ''.'' else posix_normalize joined)"

definition path_step :: "path \<Rightarrow> string \<Rightarrow> path" where
  "path_step p name =
     (if name = [] \<or> name = ''.'' then p else if name = ''..'' then butlast p else p @ [name])"

definition path_resolve :: "path \<Rightarrow> string \<Rightarrow> path" where
  "path_resolve cwd s =
     foldl path_step (if starts_with ''/'' s then [] else cwd) (split_on CHR ''/'' s)"

section \<open>Default places\<close>

type_synonym environment = "(string, string) js_map"

text \<open>\<open>environment.NAME || alternative\<close>.\<close>

definition env_or :: "environment \<Rightarrow> string \<Rightarrow> string \<Rightarrow> string" where
  "env_or environment name alternative =
     (case map_get environment name of
        Some v \<Rightarrow> if v = [] then alternative else v | None \<Rightarrow> alternative)"

definition pathForPlatform :: "(string list \<Rightarrow> string) \<Rightarrow> string \<Rightarrow> string list \<Rightarrow> string" where
  "pathForPlatform win32_join platform = (if platform = ''win32'' then win32_join else posix_join)"

definition defaultKeposConfigPath ::
  "(string list \<Rightarrow> string) \<Rightarrow> environment \<Rightarrow> string \<Rightarrow> string \<Rightarrow> string" where
  "defaultKeposConfigPath win32_join environment homeDirectory platform =
     (let pathApi = pathForPlatform win32_join platform;
          configHome =
            (if platform = ''win32''
             then env_or environment ''APPDATA'' (pathApi [homeDirectory, ''AppData'', ''Roaming''])
             else env_or environment ''XDG_CONFIG_HOME'' (pathApi [homeDirectory, ''.config''])) in
      pathApi [configHome, if platform = ''win32'' then ''Kepos'' else ''kepos'', ''config.toml''])"

definition defaultKeposStateRoot ::
  "(string list \<Rightarrow> string) \<Rightarrow> environment \<Rightarrow> string \<Rightarrow> string \<Rightarrow> string" where
  "defaultKeposStateRoot win32_join environment homeDirectory platform =
     (let pathApi = pathForPlatform win32_join platform;
          stateHome =
            (if platform = ''win32''
             then env_or environment ''LOCALAPPDATA'' (pathApi [homeDirectory, ''AppData'', ''Local''])
             else env_or environment ''XDG_STATE_HOME'' (pathApi [homeDirectory, ''.local'', ''state''])) in
      if platform = ''win32'' then pathApi [stateHome, ''Kepos'', ''state'']
      else pathApi [stateHome, ''kepos-neo''])"

definition defaultKeposPeerStatePath ::
  "(string list \<Rightarrow> string) \<Rightarrow> environment \<Rightarrow> string \<Rightarrow> string \<Rightarrow> string" where
  "defaultKeposPeerStatePath win32_join environment homeDirectory platform =
     pathForPlatform win32_join platform
       [defaultKeposStateRoot win32_join environment homeDirectory platform, ''peer'']"

definition defaultKeposDiagnosticsDirectory ::
  "(string list \<Rightarrow> string) \<Rightarrow> environment \<Rightarrow> string \<Rightarrow> string \<Rightarrow> string" where
  "defaultKeposDiagnosticsDirectory win32_join environment homeDirectory platform =
     pathForPlatform win32_join platform
       [defaultKeposStateRoot win32_join environment homeDirectory platform, ''diagnostics'']"

section \<open>Where the defaults lie\<close>

text \<open>
  Normalizing a path does not change what it resolves to, so a joined path resolves below its first
  part.
\<close>

definition plain_name :: "string \<Rightarrow> bool" where
  "plain_name name \<longleftrightarrow> name \<noteq> [] \<and> name \<noteq> ''.'' \<and> name \<noteq> ''..'' \<and> CHR ''/'' \<notin> set name"

lemma path_step_plain: "plain_name name \<Longrightarrow> path_step p name = p @ [name]"
  by (simp add: path_step_def plain_name_def)

lemma normal_step_resolve:
  assumes "\<forall>x \<in> set segments. x \<noteq> [] \<and> x \<noteq> ''.''" and "\<not> relative \<longrightarrow> base = [] \<and> ''..'' \<notin> set segments"
  shows "foldl path_step base (normal_step relative segments name) =
    path_step (foldl path_step base segments) name"
proof (cases "segments = []")
  case True
  with assms show ?thesis by (auto simp: normal_step_def path_step_def)
next
  case False
  then obtain xs x where s: "segments = xs @ [x]" by (metis rev_exhaust)
  with assms show ?thesis by (auto simp: normal_step_def path_step_def)
qed

lemma normal_step_segments:
  assumes "\<forall>x \<in> set segments. x \<noteq> [] \<and> x \<noteq> ''.''" and "x \<in> set (normal_step relative segments name)"
  shows "x \<noteq> [] \<and> x \<noteq> ''.''"
  using assms by (auto simp: normal_step_def split: if_splits dest: in_set_butlastD)

lemma normal_step_above:
  "''..'' \<notin> set segments \<Longrightarrow> ''..'' \<notin> set (normal_step False segments name)"
  by (auto simp: normal_step_def dest: in_set_butlastD)

lemma foldl_normal:
  assumes "\<forall>x \<in> set segments. x \<noteq> [] \<and> x \<noteq> ''.''" and "\<not> relative \<longrightarrow> base = [] \<and> ''..'' \<notin> set segments"
  shows "foldl path_step base (foldl (normal_step relative) segments names) =
    foldl path_step (foldl path_step base segments) names \<and>
    (\<forall>x \<in> set (foldl (normal_step relative) segments names). x \<noteq> [] \<and> x \<noteq> ''.'')"
  using assms
proof (induction names arbitrary: segments)
  case (Cons name names)
  let ?s = "normal_step relative segments name"
  have segments: "\<forall>x \<in> set ?s. x \<noteq> [] \<and> x \<noteq> ''.''"
    using normal_step_segments [OF Cons.prems(1)] by blast
  have base: "\<not> relative \<longrightarrow> base = [] \<and> ''..'' \<notin> set ?s" using Cons.prems(2) normal_step_above by auto
  note step = normal_step_resolve [OF Cons.prems, of name]
  show ?case unfolding foldl.simps using Cons.IH [OF segments base] unfolding step .
qed simp

lemma normal_segments_parts:
  assumes "\<And>x. x \<in> set segments \<union> set names \<Longrightarrow> CHR ''/'' \<notin> set x"
  shows "\<forall>x \<in> set (foldl (normal_step relative) segments names). CHR ''/'' \<notin> set x"
  using assms
proof (induction names arbitrary: segments)
  case (Cons name names)
  have "CHR ''/'' \<notin> set x" if "x \<in> set (normal_step relative segments name) \<union> set names" for x
    using that Cons.prems by (auto simp: normal_step_def split: if_splits dest: in_set_butlastD)
  from Cons.IH [OF this] show ?case by simp
qed simp

lemma split_on_sep: "split_on c (s @ c # t) = split_on c s @ split_on c t"
proof (induction s)
  case (Cons x s)
  obtain y ys where "split_on c s = y # ys" using split_on_nonempty by (meson list.exhaust)
  with Cons show ?case by simp
qed simp

lemma path_step_empty [simp]: "path_step p [] = p"
  by (simp add: path_step_def)

lemma starts_slash: "starts_with ''/'' s \<longleftrightarrow> (\<exists>t. s = CHR ''/'' # t)"
  by (cases s) (auto simp: starts_with_def)

lemma resolve_normalize: "path_resolve cwd (posix_normalize p) = path_resolve cwd p"
proof -
  define absolute where "absolute = starts_with ''/'' p"
  define trailing where "trailing = (p \<noteq> [] \<and> last p = CHR ''/'')"
  define segments where "segments = foldl (normal_step (\<not> absolute)) [] (split_on CHR ''/'' p)"
  define base where "base = (if absolute then [] else cwd)"
  have fold: "foldl path_step base segments = foldl path_step base (split_on CHR ''/'' p)"
    and nonempty: "\<forall>x \<in> set segments. x \<noteq> []"
    using foldl_normal [of "[]" "\<not> absolute" base "split_on CHR ''/'' p"]
    by (auto simp: segments_def base_def)
  have parts: "CHR ''/'' \<notin> set x" if "x \<in> set segments" for x
    using normal_segments_parts [of "[]" "split_on CHR ''/'' p"] split_on_parts that
    by (fastforce simp: segments_def)
  have resolve: "path_resolve cwd p = foldl path_step base segments"
    unfolding fold by (simp add: path_resolve_def base_def absolute_def)
  show ?thesis
  proof (cases segments)
    case Nil
    then have "posix_normalize p = (if absolute then ''/'' else if trailing then ''./'' else ''.'')"
      by (simp add: posix_normalize_def segments_def absolute_def trailing_def Let_def)
    with Nil show ?thesis unfolding resolve
      by (simp add: path_resolve_def path_step_def base_def starts_with_def)
  next
    case (Cons x xs)
    let ?body = "join ''/'' segments"
    have whole: "posix_normalize p = (if absolute then ''/'' else []) @ ?body @ (if trailing then ''/'' else [])"
      using Cons by (simp add: posix_normalize_def segments_def absolute_def trailing_def Let_def)
    have body: "split_on CHR ''/'' ?body = segments"
      using split_on_join [of segments "CHR ''/''"] parts Cons by auto
    have tail: "split_on CHR ''/'' (?body @ (if trailing then ''/'' else [])) =
        segments @ (if trailing then [[]] else [])"
      using split_on_sep [of "CHR ''/''" ?body "[]"] body by simp
    have split: "foldl path_step base (split_on CHR ''/'' (posix_normalize p)) = foldl path_step base segments"
      unfolding whole using tail by (cases absolute) simp_all
    have "x \<noteq> []" "CHR ''/'' \<notin> set x" using nonempty parts Cons by auto
    then have "\<not> starts_with ''/'' (?body @ (if trailing then ''/'' else []))"
      using Cons by (cases xs; cases x) (auto simp: starts_slash)
    then have "starts_with ''/'' (posix_normalize p) = absolute"
      unfolding whole by (cases absolute) (simp_all add: starts_slash)
    then show ?thesis unfolding resolve by (simp add: path_resolve_def split base_def [symmetric])
  qed
qed

lemma join_nonempty: "xs \<noteq> [] \<Longrightarrow> [] \<notin> set xs \<Longrightarrow> join sep xs \<noteq> []"
  by (cases xs; cases "tl xs") auto

lemma normalize_nonempty: "posix_normalize p \<noteq> []"
proof -
  let ?segments = "foldl (normal_step (\<not> starts_with ''/'' p)) [] (split_on CHR ''/'' p)"
  have "\<forall>x \<in> set ?segments. x \<noteq> []"
    using foldl_normal [of "[]" "\<not> starts_with ''/'' p" "[]" "split_on CHR ''/'' p"] by auto
  then have "join ''/'' ?segments \<noteq> []" if "?segments \<noteq> []"
    using that by (intro join_nonempty) auto
  then show ?thesis by (auto simp: posix_normalize_def Let_def)
qed

lemma resolve_join:
  assumes "root \<noteq> []" and "\<forall>name \<in> set names. plain_name name"
  shows "path_resolve cwd (posix_join (root # names)) = path_resolve cwd root @ names"
proof -
  have "\<And>r. r \<noteq> [] \<Longrightarrow> join ''/'' (r # names) \<noteq> [] \<and>
      path_resolve cwd (join ''/'' (r # names)) = path_resolve cwd r @ names"
    using assms(2)
  proof (induction names rule: rev_induct)
    case (snoc name names)
    let ?j = "join ''/'' (r # names)"
    have j: "join ''/'' (r # names @ [name]) = ?j @ CHR ''/'' # name"
    proof -
      have "join ''/'' (y # ys @ [name]) = join ''/'' (y # ys) @ CHR ''/'' # name" for y ys
        by (induction ys arbitrary: y) simp_all
      then show ?thesis .
    qed
    have name: "plain_name name" using snoc.prems by simp
    have ih: "?j \<noteq> []" "path_resolve cwd ?j = path_resolve cwd r @ names"
      using snoc by auto
    have "starts_with ''/'' (?j @ CHR ''/'' # name) = starts_with ''/'' ?j"
      using ih(1) by (cases ?j) (simp_all add: starts_slash)
    moreover have "split_on CHR ''/'' name = [name]"
      using name by (simp add: plain_name_def split_on_no_sep)
    ultimately have "path_resolve cwd (?j @ CHR ''/'' # name) = path_step (path_resolve cwd ?j) name"
      by (simp add: path_resolve_def split_on_sep)
    then show ?case using ih name j path_step_plain by simp
  qed simp
  moreover have "filter (\<lambda>s. s \<noteq> []) (root # names) = root # names"
    using assms by (auto simp: plain_name_def filter_id_conv)
  ultimately show ?thesis
    using assms(1) resolve_normalize by (simp add: posix_join_def Let_def del: join.simps)
qed

lemma default_paths:
  assumes "platform \<noteq> ''win32''" and "map_get environment ''XDG_CONFIG_HOME'' = Some config"
    and "map_get environment ''XDG_STATE_HOME'' = Some state" and "config \<noteq> []" and "state \<noteq> []"
  shows "path_resolve cwd (defaultKeposConfigPath win32_join environment home platform) =
      path_resolve cwd config @ [''kepos'', ''config.toml'']"
    and "path_resolve cwd (defaultKeposPeerStatePath win32_join environment home platform) =
      path_resolve cwd state @ [''kepos-neo'', ''peer'']"
proof -
  show "path_resolve cwd (defaultKeposConfigPath win32_join environment home platform) =
      path_resolve cwd config @ [''kepos'', ''config.toml'']"
    using assms by (simp add: defaultKeposConfigPath_def pathForPlatform_def env_or_def resolve_join plain_name_def Let_def)
  have "posix_join [state, ''kepos-neo''] \<noteq> []"
    using normalize_nonempty by (auto simp: posix_join_def Let_def split: if_splits)
  with assms show "path_resolve cwd (defaultKeposPeerStatePath win32_join environment home platform) =
      path_resolve cwd state @ [''kepos-neo'', ''peer'']"
    by (simp add: defaultKeposPeerStatePath_def defaultKeposStateRoot_def pathForPlatform_def env_or_def
        resolve_join plain_name_def Let_def)
qed

end
