(* ===== verification/Cli.thy ===== *)
theory Cli
  imports Receiver Paths
begin

text \<open>
  The command line, \<open>src/cli/main.ts\<close>: the choice of the command, its options, and the requests
  that the administration commands send to a running receiver.
\<close>

section \<open>Commands\<close>

datatype admin_action = Invite | Devices | Grant | Revoke

datatype cli_command =
  Cmd_usage |
  Cmd_setup "string list" |
  Cmd_key "string list" |
  Cmd_status "string list" |
  Cmd_pair "string list" |
  Cmd_join "string list" |
  Cmd_vpn "string list" |
  Cmd_receiver "string list" |
  Cmd_admin admin_action "string list" |
  Cmd_unknown

text \<open>The command that \<open>runCli\<close> calls; an unknown one is an error that shows the usage.\<close>

definition peer_command :: "string \<Rightarrow> string list \<Rightarrow> cli_command" where
  "peer_command action rest =
     (if action = ''key'' then Cmd_key rest
      else if action = ''status'' then Cmd_status rest
      else if action = ''pair'' then Cmd_pair rest
      else if action = ''join'' then Cmd_join rest
      else if action = ''vpn'' then Cmd_vpn rest
      else if action = ''receiver'' then Cmd_receiver rest
      else if action = ''invite'' then Cmd_admin Invite rest
      else if action = ''devices'' then Cmd_admin Devices rest
      else if action = ''grant'' then Cmd_admin Grant rest
      else if action = ''revoke'' then Cmd_admin Revoke rest
      else Cmd_unknown)"

definition dispatch :: "string list \<Rightarrow> cli_command" where
  "dispatch arguments =
     (if arguments = [] \<or> ''--help'' \<in> set arguments \<or> ''-h'' \<in> set arguments then Cmd_usage
      else
        (case arguments of
           noun # action # rest \<Rightarrow>
             if noun = ''setup'' \<and> action = ''peer'' then Cmd_setup rest
             else if noun = ''peer'' then peer_command action rest
             else Cmd_unknown
         | _ \<Rightarrow> Cmd_unknown))"

section \<open>Options\<close>

type_synonym options = "(string, string) js_map"

fun parse_options :: "string list \<Rightarrow> string list \<Rightarrow> options \<Rightarrow> error + options" where
  "parse_options allowed [] values = Inr values"
| "parse_options allowed [option] values =
     (if option = [] \<or> option \<notin> set allowed then Inl ''unknown option''
      else Inl (option @ '' requires a value''))"
| "parse_options allowed (option # v # rest) values =
     (if option = [] \<or> option \<notin> set allowed then Inl ''unknown option''
      else if v = [] \<or> starts_with ''--'' v then Inl (option @ '' requires a value'')
      else if map_get values option \<noteq> None then Inl (option @ '' may be used only once'')
      else parse_options allowed rest (map_set option v values))"

definition parseArguments :: "string list \<Rightarrow> string list \<Rightarrow> error + options" where
  "parseArguments arguments allowed = parse_options allowed arguments []"

definition required :: "options \<Rightarrow> string \<Rightarrow> error + string" where
  "required options option =
     (case map_get options option of
        None \<Rightarrow> Inl (option @ '' is required'')
      | Some v \<Rightarrow> if v = [] then Inl (option @ '' is required'') else Inr v)"

text \<open>The process: its working directory and what the default places depend on.\<close>

record host =
  ho_cwd :: path
  ho_environment :: environment
  ho_home :: string
  ho_platform :: string
  ho_win32_join :: "string list \<Rightarrow> string"

definition state_option :: "host \<Rightarrow> options \<Rightarrow> path" where
  "state_option h options =
     path_resolve (ho_cwd h)
       (case map_get options ''--state'' of
          Some v \<Rightarrow> v
        | None \<Rightarrow> defaultKeposPeerStatePath (ho_win32_join h) (ho_environment h) (ho_home h) (ho_platform h))"

definition config_option :: "host \<Rightarrow> options \<Rightarrow> path" where
  "config_option h options =
     path_resolve (ho_cwd h)
       (case map_get options ''--config'' of
          Some v \<Rightarrow> v
        | None \<Rightarrow> defaultKeposConfigPath (ho_win32_join h) (ho_environment h) (ho_home h) (ho_platform h))"

section \<open>Administration\<close>

definition admin_options :: "admin_action \<Rightarrow> string list" where
  "admin_options action =
     (case action of
        Grant \<Rightarrow> [''--state'', ''--key'', ''--ports'']
      | Revoke \<Rightarrow> [''--state'', ''--key'']
      | Invite \<Rightarrow> [''--state'', ''--exclude-address'']
      | Devices \<Rightarrow> [''--state''])"

text \<open>A port as the option writes it: \<open>/^[1-9][0-9]{0,4}$/\<close> and at most 65535.\<close>

definition port_text :: "string \<Rightarrow> bool" where
  "port_text s \<longleftrightarrow>
     s \<noteq> [] \<and> hd s \<noteq> CHR ''0'' \<and> (\<forall>c \<in> set s. is_digit c) \<and> length s \<le> 5 \<and> read_nat s \<le> 65535"

definition admin_ports :: "string \<Rightarrow> error + js" where
  "admin_ports input =
     (if input = ''all'' then Inr (JStr ''all'')
      else
        (let parts = split_on CHR '','' input in
         if (\<exists>part \<in> set parts. \<not> port_text part) \<or> \<not> distinct parts
         then Inl ''--ports must be all or comma-separated TCP ports''
         else Inr (JArr (map (\<lambda>part. JInt (int (read_nat part))) parts))))"

text \<open>The request, in the order in which its fields are set.\<close>

definition admin_request :: "admin_action \<Rightarrow> options \<Rightarrow> error + (string, js) js_map" where
  "admin_request action options =
     (case action of
        Devices \<Rightarrow> Inr [(''action'', JStr ''list'')]
      | Invite \<Rightarrow>
          (if map_get options ''--exclude-address'' = None then Inr [(''action'', JStr ''invite'')]
           else
             (case required options ''--exclude-address'' of
                Inl e \<Rightarrow> Inl e
              | Inr a \<Rightarrow> Inr [(''action'', JStr ''invite''), (''excludeAddress'', JStr a)]))
      | Revoke \<Rightarrow>
          (case required options ''--key'' of
             Inl e \<Rightarrow> Inl e
           | Inr key \<Rightarrow> Inr [(''action'', JStr ''revoke''), (''key'', JStr key)])
      | Grant \<Rightarrow>
          (case required options ''--key'' of
             Inl e \<Rightarrow> Inl e
           | Inr key \<Rightarrow>
               (case required options ''--ports'' of
                  Inl e \<Rightarrow> Inl e
                | Inr input \<Rightarrow>
                    (case admin_ports input of
                       Inl e \<Rightarrow> Inl e
                     | Inr value \<Rightarrow>
                         Inr [(''action'', JStr ''grant''), (''key'', JStr key), (''ports'', value)]))))"

text \<open>The line that is printed for the answer; \<open>stringify\<close> is \<open>JSON.stringify\<close>.\<close>

definition admin_output :: "(js \<Rightarrow> string) \<Rightarrow> admin_action \<Rightarrow> js \<Rightarrow> error + string" where
  "admin_output stringify action result =
     (if action = Invite then
        (case result of
           JObj ps \<Rightarrow>
             (case prop_of ps ''invitation'' of
                JStr invitation \<Rightarrow> Inr invitation | _ \<Rightarrow> Inl ''receiver request failed'')
         | _ \<Rightarrow> Inl ''receiver request failed'')
      else Inr (stringify result))"

text \<open>
  The whole command; \<open>exchange\<close> is \<open>receiverRequest\<close>, which sends the request to the receiver of a
  state directory and gives its answer.
\<close>

definition receiverAdminCommand ::
  "host \<Rightarrow> (js \<Rightarrow> string) \<Rightarrow> (path \<Rightarrow> (string, js) js_map \<Rightarrow> error + js) \<Rightarrow> admin_action \<Rightarrow> string list \<Rightarrow>
   error + string" where
  "receiverAdminCommand h stringify exchange action arguments =
     (case parseArguments arguments (admin_options action) of
        Inl e \<Rightarrow> Inl e
      | Inr options \<Rightarrow>
          (case admin_request action options of
             Inl e \<Rightarrow> Inl e
           | Inr request \<Rightarrow>
               (case exchange (state_option h options) request of
                  Inl e \<Rightarrow> Inl e
                | Inr result \<Rightarrow> admin_output stringify action result)))"

section \<open>Usage and the process\<close>

definition usage_lines :: "string list" where
  "usage_lines =
     [''Usage: kepos <command> [options]'',
      [],
      ''Commands:'',
      ''  setup peer       Initialize one canonical peer identity'',
      ''  peer key         Print the public key for a peer state directory'',
      ''  peer status      Inspect identity and configuration'',
      ''  peer pair        Add an explicitly approved peer to the config'',
      ''  peer join        Join a managed receiver using a private invitation'',
      ''  peer vpn         Run the exclusive Linux VPN runtime'',
      ''  peer receiver    Run a managed receiver with a device address pool'',
      ''  peer invite      Create a one-use invitation on the running receiver'',
      ''  peer devices     List receiver devices'',
      ''  peer grant       Set a device's inbound TCP grant'',
      ''  peer revoke      Revoke a receiver device'',
      [],
      ''peer join [--state PATH] [--config PATH] reads the invitation privately from a terminal.'',
      ''Defaults: $XDG_STATE_HOME/kepos-neo/peer and $XDG_CONFIG_HOME/kepos/config.toml'',
      ''(or ~/.local/state and ~/.config when XDG variables are unset).'']"

definition CLI_USAGE :: string where
  "CLI_USAGE = join [CHR 10] usage_lines"

text \<open>A command line that runs no command: what is printed, or the error.\<close>

definition no_command :: "cli_command \<Rightarrow> (error + string) option" where
  "no_command c =
     (case c of
        Cmd_usage \<Rightarrow> Some (Inr CLI_USAGE)
      | Cmd_unknown \<Rightarrow> Some (Inl (''unknown command'' @ [CHR 10, CHR 10] @ CLI_USAGE))
      | _ \<Rightarrow> None)"

text \<open>How the process ends: what it prints as an error, and its exit code.\<close>

definition process_end :: "error + 'a \<Rightarrow> string option \<times> nat" where
  "process_end result = (case result of Inl message \<Rightarrow> (Some message, 1) | Inr _ \<Rightarrow> (None, 0))"

text \<open>Every command that is dispatched has its line in the usage.\<close>

lemma usage_complete:
  assumes "no_command (dispatch (noun # action # rest)) = None"
  shows "\<exists>l \<in> set usage_lines. starts_with (''  '' @ noun @ '' '' @ action @ '' '') l"
proof -
  from assms have "noun = ''setup'' \<and> action = ''peer'' \<or> noun = ''peer'' \<and>
      action \<in> {''key'', ''status'', ''pair'', ''join'', ''vpn'', ''receiver'', ''invite'', ''devices'', ''grant'', ''revoke''}"
    by (auto simp: dispatch_def peer_command_def no_command_def split: if_splits)
  then show ?thesis by (auto simp: usage_lines_def starts_with_def)
qed

end
