(* ===== verification/Cli_Properties.thy ===== *)
theory Cli_Properties
  imports Cli Receiver_Process_Properties
begin

text \<open>
  The command line: which arguments are accepted, and that the receiver does what an administration
  command asks for.
\<close>

section \<open>Options\<close>

definition option_ok :: "string list \<Rightarrow> string \<times> string \<Rightarrow> bool" where
  "option_ok allowed = (\<lambda>(option, v).
     option \<noteq> [] \<and> option \<in> set allowed \<and> v \<noteq> [] \<and> \<not> starts_with ''--'' v)"

definition arguments_of :: "options \<Rightarrow> string list" where
  "arguments_of options = concat (map (\<lambda>(option, v). [option, v]) options)"

lemma parse_options_iff:
  "distinct (map_keys acc) \<Longrightarrow>
   parse_options allowed args acc = Inr options \<longleftrightarrow>
     (\<exists>new. options = acc @ new \<and> args = arguments_of new \<and> distinct (map_keys options) \<and>
        (\<forall>p \<in> set new. option_ok allowed p))"
proof (induction allowed args acc rule: parse_options.induct)
  case (1 allowed acc)
  have "arguments_of new = [] \<longleftrightarrow> new = []" for new by (cases new) (auto simp: arguments_of_def)
  with 1 show ?case by (auto simp: arguments_of_def)
next
  case (2 allowed option acc)
  have "[option] \<noteq> arguments_of new" for new by (cases new) (auto simp: arguments_of_def)
  then show ?case by simp
next
  case (3 allowed option v rest acc)
  have cons: "option # v # rest = arguments_of new \<longleftrightarrow> (\<exists>new'. new = (option, v) # new' \<and> rest = arguments_of new')"
    for new by (cases new) (auto simp: arguments_of_def)
  show ?case
  proof (cases "option_ok allowed (option, v) \<and> map_get acc option = None")
    case True
    then have new: "option \<notin> set (map_keys acc)" by (simp add: map_of_eq_None_iff)
    then have set: "map_set option v acc = acc @ [(option, v)]" by (induction acc) auto
    with new 3 True show ?thesis unfolding cons by (auto simp: option_ok_def)
  next
    case False
    then have "\<not> (\<exists>new. option # v # rest = arguments_of new \<and> distinct (map_keys (acc @ new)) \<and>
        (\<forall>p \<in> set new. option_ok allowed p))"
      unfolding cons by (auto simp: map_of_eq_None_iff)
    with False show ?thesis by (auto simp: option_ok_def)
  qed
qed

text \<open>
  The options that are accepted are exactly the pairs of an allowed option, given once, and a
  value that is not empty and does not look like an option; they are stored under the options in
  the order given.
\<close>

theorem parseArguments_exact:
  "parseArguments args allowed = Inr options \<longleftrightarrow>
     args = arguments_of options \<and> distinct (map_keys options) \<and> (\<forall>p \<in> set options. option_ok allowed p)"
  using parse_options_iff [of "[]" allowed args options] by (auto simp: parseArguments_def)

theorem parseArguments_exact_witness:
  "parseArguments [''--state'', ''x'', ''--key'', ''y''] [''--state'', ''--key'', ''--ports''] =
     Inr [(''--state'', ''x''), (''--key'', ''y'')]"
  using parseArguments_exact [of _ _ "[(''--state'', ''x''), (''--key'', ''y'')]"]
  by (simp add: arguments_of_def option_ok_def starts_with_def)


section \<open>Administration\<close>















end
