(* ===== verification/Cli_Commands.thy ===== *)
theory Cli_Commands
  imports Cli App_Config Peer_State Pair Linux_Tun Runtime_Lock
begin

text \<open>
  The commands of \<open>src/cli/main.ts\<close> that work on the identity and the configuration file, as
  programs over the disk: \<open>setup peer\<close>, \<open>peer key\<close>, \<open>peer status\<close>, \<open>peer pair\<close> and \<open>peer join\<close>.
  Each gives the line that it prints.  Those that take the lock of the runtime run between its
  acquisition and its release, on the kernel of \<open>Runtime_Lock\<close>.
\<close>

section \<open>What the commands use\<close>

record services =
  sv_windows :: bool
  sv_json :: "string \<Rightarrow> js option"
  sv_parse :: "string \<Rightarrow> error + js"
  sv_stringify :: "js \<Rightarrow> error + string"
  sv_keyPair :: key_maker
  sv_random :: bytes

text \<open>The configuration at a path that is given, so a missing file is a failure.\<close>

definition load_config :: "services \<Rightarrow> path \<Rightarrow> peer_config option io" where
  "load_config s configPath = loadKeposConfig (sv_parse s) (Some configPath) configPath"

definition save_config :: "services \<Rightarrow> peer_config \<Rightarrow> path \<Rightarrow> unit io" where
  "save_config s config configPath =
     saveKeposConfig (sv_parse s) (sv_stringify s) (config_value config) configPath"

definition setup_peer :: "services \<Rightarrow> path \<Rightarrow> (bool \<times> string) io" where
  "setup_peer s stateDir = setupPeer (sv_windows s) (sv_json s) (sv_keyPair s) (sv_random s) stateDir"

definition load_identity :: "services \<Rightarrow> path \<Rightarrow> string io" where
  "load_identity s stateDir = loadPeerIdentity (sv_windows s) (sv_json s) stateDir"

definition public_key :: "services \<Rightarrow> path \<Rightarrow> string io" where
  "public_key s stateDir = getPeerPublicKey (sv_windows s) (sv_json s) (sv_keyPair s) stateDir"

definition isMissingConfigError :: "failure \<Rightarrow> bool" where
  "isMissingConfigError e \<longleftrightarrow> fl_cause e = Some ''ENOENT''"

definition load_existing :: "services \<Rightarrow> path \<Rightarrow> peer_config option io" where
  "load_existing s configPath =
     catch (load_config s configPath)
       (\<lambda>e. if isMissingConfigError e then return None else throw e)"

definition emptyPeerConfig :: peer_config where
  "emptyPeerConfig = \<lparr>pc_vpn = None, pc_network = None, pc_peers = []\<rparr>"

definition configured :: "peer_config option \<Rightarrow> bool" where
  "configured existing \<longleftrightarrow>
     (case existing of None \<Rightarrow> False | Some c \<Rightarrow> pc_peers c \<noteq> [] \<or> pc_vpn c \<noteq> None)"

section \<open>Commands under the lock\<close>

datatype cli_failure = Cli_error failure | Cli_lock lock_error

text \<open>The outcome, the lines printed, the disk and the kernel.\<close>

type_synonym cli_result = "(cli_failure + unit) \<times> string list \<times> disk \<times> kernel"

text \<open>\<open>try { body } finally { await lock.release() }\<close>: a release that fails replaces the outcome.\<close>

definition with_lock :: "path \<Rightarrow> string io \<Rightarrow> disk \<times> kernel \<Rightarrow> cli_result" where
  "with_lock stateDir body = (\<lambda>(d, k).
     case acquirePeerRuntimeLock stateDir k of
       (Inl e, k1) \<Rightarrow> (Inl (Cli_lock e), [], d, k1)
     | (Inr l, k1) \<Rightarrow>
         (case body d of (r, d1) \<Rightarrow>
           (case release l k1 of (released, _, k2) \<Rightarrow>
              (case released of
                 Some e \<Rightarrow> Inl (Cli_lock e)
               | None \<Rightarrow> (case r of Inl e \<Rightarrow> Inl (Cli_error e) | Inr _ \<Rightarrow> Inr ()),
               case r of Inl _ \<Rightarrow> [] | Inr line \<Rightarrow> [line], d1, k2))))"

definition refused :: "error \<Rightarrow> disk \<times> kernel \<Rightarrow> cli_result" where
  "refused e = (\<lambda>(d, k). (Inl (Cli_error (failure_of e)), [], d, k))"

section \<open>Setting up\<close>

definition setup_body :: "services \<Rightarrow> path \<Rightarrow> path \<Rightarrow> string io" where
  "setup_body s stateDir configPath =
     seq (load_existing s configPath) (\<lambda>existing.
     seq (if configured existing then seq (load_identity s stateDir) (\<lambda>_. return ()) else return ()) (\<lambda>_.
     seq (setup_peer s stateDir) (\<lambda>result.
     seq (if existing = None then save_config s emptyPeerConfig configPath else return ()) (\<lambda>_.
       return (''Peer key: '' @ snd result)))))"

definition setupPeerCommand :: "host \<Rightarrow> services \<Rightarrow> string list \<Rightarrow> disk \<times> kernel \<Rightarrow> cli_result" where
  "setupPeerCommand h s arguments =
     (case parseArguments arguments [''--state'', ''--config''] of
        Inl e \<Rightarrow> refused e
      | Inr options \<Rightarrow>
          with_lock (state_option h options) (setup_body s (state_option h options) (config_option h options)))"

section \<open>Joining a receiver\<close>

text \<open>
  What joining meets: the invitation that is read; the outcome of pairing, given the invitation, the
  seed and the network (a reason, another error, or a configuration); the addresses and routes of
  the host; what other programs make of the configuration file until it is read again
  (\<open>jn_meanwhile\<close>), and what they make of it after that and before the rename that replaces it
  (\<open>jn_late\<close>).  Saving does not look at the file before that rename, so a change at any point of
  that window is one right after the second reading.
\<close>

record joining =
  jn_invitation :: "error + string"
  jn_pair :: "string \<Rightarrow> string \<Rightarrow> peer_network option \<Rightarrow> pair_failure option + peer_config"
  jn_local :: "(string \<times> string) list"
  jn_routes :: "error + js list"
  jn_meanwhile :: "entry option \<Rightarrow> entry option"
  jn_late :: "entry option \<Rightarrow> entry option"

definition failure_name :: "pair_failure \<Rightarrow> string" where
  "failure_name f =
     (case f of
        Unusable \<Rightarrow> ''unusable'' | Unavailable \<Rightarrow> ''unavailable'' | Unknown \<Rightarrow> ''unknown''
      | Not_enrolled r \<Rightarrow> rejection_name r)"

definition pairing_message :: "pair_failure option \<Rightarrow> error" where
  "pairing_message reason =
     (case reason of
        Some Unknown \<Rightarrow> ''Pairing outcome unknown; the receiver may have admitted this identity. Ask its administrator to inspect peer devices before taking further action; do not replay the invitation.''
      | Some f \<Rightarrow> ''Pairing '' @ failure_name f @ ''; no admission confirmed. Ask the receiver administrator for guidance.''
      | None \<Rightarrow> ''Pairing failed; the receiver may have admitted this identity. Ask its administrator to inspect peer devices; do not replay the invitation.'')"

definition unsaved_message :: "failure \<Rightarrow> error" where
  "unsaved_message e =
     ''Receiver accepted this identity but local configuration was not saved: '' @ fl_message e @
     ''. Ask its administrator to inspect peer devices before taking further action; do not replay the invitation.''"

text \<open>Until the receiver has accepted: the configuration found and the one to be saved.\<close>

definition join_receiver :: "services \<Rightarrow> joining \<Rightarrow> path \<Rightarrow> path \<Rightarrow> (peer_config option \<times> peer_config) io" where
  "join_receiver s j stateDir configPath =
     seq (load_existing s configPath) (\<lambda>existing.
     seq (if configured existing then
            throw (failure_of ''Config already contains peers or VPN settings; preserve it and use a separate identity and config'')
          else return ()) (\<lambda>_.
     seq (setup_peer s stateDir) (\<lambda>_.
     seq (load_identity s stateDir) (\<lambda>seed.
     seq (of_result (jn_invitation j)) (\<lambda>invitation.
       case jn_pair j invitation seed (Option.bind existing pc_network) of
         Inl reason \<Rightarrow> throw (failure_of (pairing_message reason))
       | Inr config \<Rightarrow> return (existing, config))))))"

text \<open>Another program that changes one file.\<close>

definition meanwhile :: "path \<Rightarrow> (entry option \<Rightarrow> entry option) \<Rightarrow> unit io" where
  "meanwhile p f d =
     (Inr (), mutate (case f (entry_at d p) of
                        None \<Rightarrow> map_delete p (dk_files d) | Some e \<Rightarrow> map_set p e (dk_files d)) d)"

definition save_joined :: "services \<Rightarrow> joining \<Rightarrow> path \<Rightarrow> peer_config option \<Rightarrow> peer_config \<Rightarrow> unit io" where
  "save_joined s j configPath existing config =
     (case pc_vpn config of
        None \<Rightarrow> throw (failure_of ''TypeError'')
      | Some vpn \<Rightarrow>
          (case checkDialerAddresses (vc_address vpn) (map vp_address (vc_peers vpn)) (jn_local j) (jn_routes j) of
             Some e \<Rightarrow> throw (failure_of e)
           | None \<Rightarrow>
               seq (load_existing s configPath) (\<lambda>current.
                 if current \<noteq> existing then
                   throw (failure_of ''Config changed during pairing; preserve the current file'')
                 else seq (meanwhile configPath (jn_late j)) (\<lambda>_. save_config s config configPath))))"

definition join_body :: "services \<Rightarrow> joining \<Rightarrow> path \<Rightarrow> path \<Rightarrow> string io" where
  "join_body s j stateDir configPath =
     seq (join_receiver s j stateDir configPath) (\<lambda>(existing, config).
     seq (meanwhile configPath (jn_meanwhile j)) (\<lambda>_.
     seq (catch (save_joined s j configPath existing config) (\<lambda>e. throw (failure_of (unsaved_message e)))) (\<lambda>_.
       return (''Joined receiver; configuration saved to '' @ show_path configPath))))"

definition peerJoinCommand :: "host \<Rightarrow> services \<Rightarrow> joining \<Rightarrow> string list \<Rightarrow> disk \<times> kernel \<Rightarrow> cli_result" where
  "peerJoinCommand h s j arguments =
     (if ho_platform h \<noteq> ''linux'' then refused ''peer join is supported only on Linux''
      else
        (case parseArguments arguments [''--state'', ''--config''] of
           Inl e \<Rightarrow> refused e
         | Inr options \<Rightarrow>
             with_lock (state_option h options) (join_body s j (state_option h options) (config_option h options))))"

section \<open>Looking up\<close>

definition peerKeyCommand :: "host \<Rightarrow> services \<Rightarrow> string list \<Rightarrow> string io" where
  "peerKeyCommand h s arguments =
     seq (of_result (parseArguments arguments [''--state''])) (\<lambda>options.
     seq (public_key s (state_option h options)) (\<lambda>key. return (''Peer key: '' @ key)))"

text \<open>\<open>JSON.stringify\<close> of the status; a public key needs no escapes.\<close>

definition quoted :: "string \<Rightarrow> string" where
  "quoted t = CHR 0x22 # t @ [CHR 0x22]"

definition status_text :: "string \<Rightarrow> nat \<Rightarrow> string" where
  "status_text key n =
     ''{'' @ quoted ''role'' @ '':'' @ quoted ''peer'' @ '','' @ quoted ''peerKey'' @ '':'' @ quoted key @ '','' @
     quoted ''config'' @ '':{'' @ quoted ''peers'' @ '':'' @ show_nat n @ ''}}''"

definition peerStatusCommand :: "host \<Rightarrow> services \<Rightarrow> string list \<Rightarrow> string io" where
  "peerStatusCommand h s arguments =
     seq (of_result (parseArguments arguments [''--state'', ''--config''])) (\<lambda>options.
     seq (load_config s (config_option h options)) (\<lambda>config.
     seq (public_key s (state_option h options)) (\<lambda>key.
       case config of
         None \<Rightarrow> return (status_text key 0)
       | Some c \<Rightarrow>
           seq (of_result (parsePeerConfig (config_value c))) (\<lambda>canonical.
             return (status_text key (length (pc_peers canonical)))))))"

section \<open>Approving a peer\<close>

definition conflicts :: "string \<Rightarrow> string \<Rightarrow> peer_definition \<Rightarrow> bool" where
  "conflicts label publicKey p \<longleftrightarrow>
     (pf_label p = label \<or> pf_publicKey p = publicKey) \<and> (pf_label p \<noteq> label \<or> pf_publicKey p \<noteq> publicKey)"

text \<open>The configuration with the definition in place of the same peer's, at the end.\<close>

definition approve :: "string \<Rightarrow> string \<Rightarrow> connection \<Rightarrow> peer_config \<Rightarrow> peer_config" where
  "approve label publicKey direction c =
     c\<lparr>pc_peers := filter (\<lambda>p. pf_publicKey p \<noteq> publicKey \<and> pf_label p \<noteq> label) (pc_peers c) @
        [\<lparr>pf_label = label, pf_publicKey = publicKey, pf_connection = direction\<rparr>]\<rparr>"

definition pair_body :: "services \<Rightarrow> path \<Rightarrow> string \<Rightarrow> string \<Rightarrow> connection \<Rightarrow> string io" where
  "pair_body s configPath label publicKey direction =
     seq (load_config s configPath) (\<lambda>found.
       let existing = (case found of None \<Rightarrow> emptyPeerConfig | Some c \<Rightarrow> c) in
       if \<exists>p \<in> set (pc_peers existing). conflicts label publicKey p then
         throw (failure_of ''peer label or public key belongs to a different peer'')
       else
         seq (of_result (parsePeerConfig (config_value (approve label publicKey direction existing)))) (\<lambda>next.
         seq (save_config s next configPath) (\<lambda>_.
           return (''Peer approved: '' @ label @ '' ('' @ publicKey @ '')''))))"

definition direction_option :: "options \<Rightarrow> error + connection" where
  "direction_option options =
     (case map_get options ''--connection'' of
        None \<Rightarrow> Inr Accept
      | Some v \<Rightarrow>
          if v = ''dial'' then Inr Dial else if v = ''accept'' then Inr Accept
          else Inl ''--connection must be dial or accept'')"

definition peerPairCommand :: "host \<Rightarrow> services \<Rightarrow> string list \<Rightarrow> string io" where
  "peerPairCommand h s arguments =
     seq (of_result (parseArguments arguments [''--config'', ''--label'', ''--public-key'', ''--connection''])) (\<lambda>options.
     seq (of_result (required options ''--label'')) (\<lambda>label.
     seq (of_result (required options ''--public-key'')) (\<lambda>publicKey.
     seq (of_result (direction_option options)) (\<lambda>direction.
       pair_body s (config_option h options) label publicKey direction))))"

end
