(* ===== verification/Disk_Frame.thy ===== *)
theory Disk_Frame
  imports State_Files_Properties Peer_State
begin

text \<open>
  What a program leaves alone: the entries below a path, now and in every state it passes through.
  The rules are those of the calls and of their combination; the writers of \<open>State_Files\<close> leave
  alone what lies apart from their target and its temporary neighbour.
\<close>

section \<open>Frames\<close>

definition frame :: "path \<Rightarrow> disk \<Rightarrow> disk \<Rightarrow> bool" where
  "frame p d d' \<longleftrightarrow> dk_suffix d' = dk_suffix d \<and> (\<exists>n. dk_faults d' = drop n (dk_faults d)) \<and>
     (\<forall>q. below p q \<longrightarrow> entry_at d' q = entry_at d q) \<and>
     (\<exists>passed. dk_past d' = passed @ dk_past d \<and>
        (\<forall>fs \<in> set passed. \<forall>q. below p q \<longrightarrow> map_get fs q = entry_at d q))"

lemma frame_refl [simp]: "frame p d d"
  by (simp add: frame_def exI [of _ 0])

lemma frame_trans:
  assumes "frame p d d1" and "frame p d1 d2" shows "frame p d d2"
proof -
  from assms obtain m n where "dk_faults d1 = drop m (dk_faults d)" "dk_faults d2 = drop n (dk_faults d1)"
    unfolding frame_def by blast
  then have faults: "dk_faults d2 = drop (n + m) (dk_faults d)" by simp
  from assms obtain passed passed' where
      past: "dk_past d1 = passed @ dk_past d" "dk_past d2 = passed' @ dk_past d1"
      "\<forall>fs \<in> set passed. \<forall>q. below p q \<longrightarrow> map_get fs q = entry_at d q"
      "\<forall>fs \<in> set passed'. \<forall>q. below p q \<longrightarrow> map_get fs q = entry_at d1 q"
    unfolding frame_def by blast
  have "\<forall>q. below p q \<longrightarrow> entry_at d1 q = entry_at d q" using assms by (simp add: frame_def)
  with past have "\<exists>passed. dk_past d2 = passed @ dk_past d \<and>
      (\<forall>fs \<in> set passed. \<forall>q. below p q \<longrightarrow> map_get fs q = entry_at d q)"
    by (intro exI [of _ "passed' @ passed"]) auto
  then show ?thesis using assms faults unfolding frame_def by auto
qed

lemma frame_fault: "fault d = (r, d1) \<Longrightarrow> frame p d d1"
proof (cases "dk_faults d")
  case Nil
  assume "fault d = (r, d1)"
  with Nil show ?thesis by (simp add: fault_def)
next
  case (Cons f fs)
  assume "fault d = (r, d1)"
  with Cons have "d1 = d\<lparr>dk_faults := drop 1 (dk_faults d)\<rparr>" by (simp add: fault_def)
  then show ?thesis by (auto simp: frame_def entry_at_def)
qed

lemma frame_mutate:
  assumes "\<And>q. below p q \<Longrightarrow> map_get fs q = entry_at d q" shows "frame p d (mutate fs d)"
  unfolding frame_def
  by (auto simp: assms mutate_def entry_at_def intro!: exI [of _ "[dk_files d]"] exI [of _ "0::nat"])

lemma frame_set: "\<not> below p q \<Longrightarrow> frame p d (mutate (map_set q e (dk_files d)) d)"
  by (rule frame_mutate) (auto simp: map_get_set entry_at_def)

section \<open>Programs\<close>

definition leaves :: "path \<Rightarrow> string \<Rightarrow> 'a io \<Rightarrow> bool" where
  "leaves p s m \<longleftrightarrow> (\<forall>d r d'. dk_suffix d = s \<longrightarrow> m d = (r, d') \<longrightarrow> frame p d d')"

named_theorems leaves_rules

lemma leavesD: "leaves p s m \<Longrightarrow> m d = (r, d') \<Longrightarrow> dk_suffix d = s \<Longrightarrow> frame p d d'"
  by (auto simp: leaves_def)

lemma leaves_return [leaves_rules]: "leaves p s (return x)"
  by (simp add: leaves_def return_def)

lemma leaves_throw [leaves_rules]: "leaves p s (throw e)"
  by (simp add: leaves_def throw_def)

lemma leaves_of_result [leaves_rules]: "leaves p s (of_result r)"
  by (cases r) (simp_all add: of_result_def leaves_return leaves_throw)

lemma frame_suffix: "frame p d d' \<Longrightarrow> dk_suffix d' = dk_suffix d"
  by (simp add: frame_def)

lemma seq_cases:
  assumes "seq m f d = (r, d')"
  obtains (fails) e where "m d = (Inl e, d')" and "r = Inl e"
  | (goes_on) x d1 where "m d = (Inr x, d1)" and "f x d1 = (r, d')"
  using assms by (auto simp: seq_def split: prod.splits sum.splits)

lemma leaves_seq_value:
  assumes "leaves p s m" and "\<And>x d d1. dk_suffix d = s \<Longrightarrow> m d = (Inr x, d1) \<Longrightarrow> leaves p s (f x)"
  shows "leaves p s (seq m f)"
  unfolding leaves_def
proof (intro allI impI)
  fix d r d' assume s: "dk_suffix d = s" and "seq m f d = (r, d')"
  from this(2) show "frame p d d'"
  proof (cases rule: seq_cases)
    case (fails e)
    then show ?thesis using leavesD [OF assms(1)] s by blast
  next
    case (goes_on x d1)
    have "frame p d d1" using leavesD [OF assms(1) goes_on(1) s] .
    moreover from this have "dk_suffix d1 = s" using s frame_suffix by simp
    ultimately show ?thesis using leavesD [OF assms(2) [OF s goes_on(1)] goes_on(2)] frame_trans by blast
  qed
qed

lemma leaves_seq [leaves_rules]: "leaves p s m \<Longrightarrow> (\<And>x. leaves p s (f x)) \<Longrightarrow> leaves p s (seq m f)"
  by (rule leaves_seq_value)

lemma leaves_catch [leaves_rules]:
  assumes "leaves p s m" and "\<And>e. leaves p s (h e)" shows "leaves p s (catch m h)"
  unfolding leaves_def
proof (intro allI impI)
  fix d r d' assume s: "dk_suffix d = s" and c: "catch m h d = (r, d')"
  obtain r1 d1 where m: "m d = (r1, d1)" by fastforce
  have f: "frame p d d1" using leavesD [OF assms(1) m s] .
  then have "dk_suffix d1 = s" using s frame_suffix by simp
  then show "frame p d d'"
    using c m f leavesD [OF assms(2)] frame_trans by (cases r1) (auto simp: catch_def)
qed

lemma leaves_each [leaves_rules]: "(\<And>x. x \<in> set xs \<Longrightarrow> leaves p s (f x)) \<Longrightarrow> leaves p s (each f xs)"
  by (induction xs) (auto intro: leaves_return leaves_seq)

lemma leaves_calling:
  assumes "\<And>d r d'. dk_suffix d = s \<Longrightarrow> m d = (r, d') \<Longrightarrow> frame p d d'"
  shows "leaves p s (calling m)"
  unfolding leaves_def
proof (intro allI impI)
  fix d r d' assume s: "dk_suffix d = s" and c: "calling m d = (r, d')"
  obtain f d1 where f: "fault d = (f, d1)" by fastforce
  note fr = frame_fault [OF f, of p]
  then have "dk_suffix d1 = s" using s frame_suffix by simp
  with c f fr show "frame p d d'"
    using assms frame_trans [OF fr] by (cases f) (auto simp: calling_def)
qed

section \<open>The calls\<close>

lemma leaves_reading [leaves_rules]: "leaves p s (lstat q)" "leaves p s (readdir q)" "leaves p s (readFile q)"
  unfolding lstat_def readdir_def readFile_def
  by (rule leaves_calling; auto split: option.splits entry.splits)+

lemma leaves_mkdir_recursive:
  assumes "\<not> below p q" shows "leaves p s (mkdir_recursive q mode)"
proof -
  have "leaves p s (make_missing mode as)" if "\<forall>a \<in> set as. \<not> below p a" for as
    using that
  proof (induction as)
    case (Cons a as)
    then have ih: "leaves p s (make_missing mode as)" by simp
    show ?case unfolding leaves_def
    proof (intro allI impI)
      fix d r d' assume s: "dk_suffix d = s" and m: "make_missing mode (a # as) d = (r, d')"
      have set: "frame p d (mutate (map_set a (Directory mode) (dk_files d)) d)"
        using Cons.prems by (intro frame_set) simp
      show "frame p d d'"
      proof (cases "entry_at d a")
        case None
        with m have "make_missing mode as (mutate (map_set a (Directory mode) (dk_files d)) d) = (r, d')" by simp
        then show ?thesis using leavesD [OF ih] frame_suffix [OF set] s frame_trans [OF set] by blast
      next
        case (Some e)
        with m s show ?thesis using leavesD [OF ih] by (cases e) auto
      qed
    qed
  qed (simp add: leaves_return)
  moreover have "\<forall>a \<in> set (ancestors [] q). \<not> below p a"
    using ancestors_below [of _ "[]" q] assms below_trans by auto
  ultimately have "leaves p s (make_missing mode (ancestors [] q))" by blast
  then show ?thesis
    unfolding mkdir_recursive_def by (intro leaves_calling) (auto dest: leavesD)
qed

lemma leaves_mkdtemp_seq:
  assumes "\<not> below p (parent @ [prefix @ s])" and "leaves p s (f (parent @ [prefix @ s]))"
  shows "leaves p s (seq (mkdtemp parent prefix) f)"
proof (rule leaves_seq_value)
  show "leaves p s (mkdtemp parent prefix)"
    unfolding mkdtemp_def
    using assms(1) by (intro leaves_calling) (auto simp: Let_def intro: frame_set split: if_splits)
next
  fix t d d1 assume s: "dk_suffix d = s" and m: "mkdtemp parent prefix d = (Inr t, d1)"
  then have "t = parent @ [prefix @ s]"
    by (auto simp: mkdtemp_def calling_def Let_def dest!: fault_shape split: prod.splits option.splits if_splits)
  with assms(2) show "leaves p s (f t)" by simp
qed

lemma leaves_chmod: "\<not> below p q \<Longrightarrow> leaves p s (chmod q mode)"
  unfolding chmod_def
  by (rule leaves_calling) (auto intro: frame_set split: option.splits entry.splits)

lemma leaves_writeFile:
  assumes "\<not> below p q" shows "leaves p s (writeFile q contents mode exclusive)"
proof -
  have opened: "frame p d (mutate (map_set q e' (dk_files d1)) d1)"
    if "fault (mutate (map_set q e (dk_files d)) d) = (r, d1)" for d e r d1 e'
    using frame_set [OF assms] frame_fault [OF that] frame_trans by blast
  show ?thesis
    unfolding writeFile_def
    by (rule leaves_calling) (auto simp: Let_def dest: opened split: prod.splits option.splits if_splits)
qed

lemma leaves_rm_recursive:
  assumes "\<not> below p q" and "\<not> below q p" shows "leaves p s (rm_recursive q)"
proof -
  have "\<not> below q r" if "below p r" for r
    using that assms by (metis append_eq_append_conv2 below_append belowD)
  then show ?thesis
    unfolding rm_recursive_def
    by (intro leaves_calling) (auto intro!: frame_mutate simp: map_get_removed entry_at_def)
qed

lemma leaves_rename_directory:
  assumes "\<not> below t q" "\<not> below q t" and "\<not> below p t" "\<not> below t p" "\<not> below p q" "\<not> below q p"
  shows "leaves p s (rename t q)"
proof -
  have apart: "\<not> below u r" if "below p r" "\<not> below p u" "\<not> below u p" for u r
    using that by (metis append_eq_append_conv2 below_append belowD)
  have "frame p d (mutate (moved t q (dk_files d)) d)" for d
    using apart assms by (intro frame_mutate) (simp add: map_get_moved entry_at_def)
  moreover have "frame p d (mutate (map_set q e (map_delete t (dk_files d))) d)" for d e
    using apart [of _ t] assms(3-6) by (intro frame_mutate) (auto simp: map_get_set map_get_delete entry_at_def)
  ultimately show ?thesis
    unfolding rename_def by (intro leaves_calling) (auto split: option.splits entry.splits if_splits)
qed

section \<open>The writers\<close>

lemma leaves_validate [leaves_rules]: "leaves p s (validateStateDirectory w q names)"
proof -
  have "leaves p s (validate_entry w q name)" for name
    unfolding validate_entry_def requireOwnerOnly_def Let_def
    by (auto intro!: leaves_rules split: entry.split)
  then show ?thesis
    unfolding validateStateDirectory_def by (auto intro!: leaves_rules split: entry.split)
qed

text \<open>Two places of which neither is inside the other.\<close>

definition apart :: "path \<Rightarrow> path \<Rightarrow> bool" where
  "apart p q \<longleftrightarrow> \<not> below p q \<and> \<not> below q p"

lemma apart_child: "apart p q \<Longrightarrow> \<not> below p (q @ [name])"
  by (metis apart_def append_butlast_last_id append_eq_append_conv2 below_append belowD butlast_append
      butlast_snoc self_append_conv)

lemma apart_parent: "apart p q \<Longrightarrow> \<not> below p (dirname q)"
  unfolding apart_def dirname_def
  by (metis append_butlast_last_id below_append below_trans butlast.simps(1))

definition temporary :: "path \<Rightarrow> string \<Rightarrow> path" where
  "temporary q s = dirname q @ [(basename q @ ''.tmp-'') @ s]"

lemma leaves_write_directory:
  assumes "apart p q" and "apart p (temporary q s)" and "q \<noteq> []"
  shows "leaves p s (writeStateDirectoryAtomically w q entries)"
proof -
  let ?t = "temporary q s"
  have q: "q = dirname q @ [basename q]"
    using assms(3) by (simp add: dirname_def basename_def)
  have "basename q \<noteq> (basename q @ ''.tmp-'') @ s" by simp
  note siblings [OF this, of "dirname q"] siblings [OF this [symmetric], of "dirname q"]
  then have tq: "\<not> below ?t q" "\<not> below q ?t" unfolding temporary_def by (metis q)+
  have "leaves p s (rename ?t q)"
    using tq assms(1,2) by (intro leaves_rename_directory) (simp_all add: apart_def)
  moreover have "leaves p s (write_entry ?t nc)" for nc
    using apart_child [OF assms(2)] by (cases nc) (simp add: write_entry_def leaves_writeFile)
  moreover have "leaves p s (rm_recursive ?t)" "leaves p s (chmod ?t 448)"
    using assms(2) by (simp_all add: apart_def leaves_rm_recursive leaves_chmod)
  moreover have "leaves p s (mkdir_recursive (dirname q) 448)"
    by (rule leaves_mkdir_recursive [OF apart_parent [OF assms(1)]])
  moreover have "\<not> below p ?t" using assms(2) by (simp add: apart_def)
  ultimately show ?thesis
    unfolding writeStateDirectoryAtomically_def
    by (intro leaves_seq leaves_mkdtemp_seq) (auto simp: temporary_def intro!: leaves_rules)
qed

section \<open>The identity\<close>

lemma leaves_exists [leaves_rules]: "leaves p s (pathExists q)"
  unfolding pathExists_def by (intro leaves_rules) (simp add: leaves_rules)

lemma leaves_load [leaves_rules]: "leaves p s (loadPeerIdentity w json q)"
  unfolding loadPeerIdentity_def readStateJson_def
  by (auto intro!: leaves_rules split: option.split)

lemma leaves_setup:
  assumes "apart p q" and "apart p (temporary q s)" and "q \<noteq> []"
  shows "leaves p s (setupPeer w json keyPair random q)"
  unfolding setupPeer_def create_identity_def
  using leaves_write_directory [OF assms] by (auto intro!: leaves_rules)

end
