(* ===== verification/Cli_Commands_Properties.thy ===== *)
theory Cli_Commands_Properties
  imports Cli_Commands Disk_Frame App_Config_Properties Peer_State_Properties Receiver_Properties
    Runtime_Lock_Properties
begin

text \<open>
  The commands and the configuration file: joining saves only when reading the file once more gives
  what was there at first, a configuration without peers and VPN settings; approving a peer keeps
  everything else.  What another program writes after that second reading is lost.
\<close>

section \<open>A configuration that is accepted reads as itself\<close>

lemma parse_each_back:
  "parse_each f i (map g xs) = Inr ys \<Longrightarrow> (\<And>j x y. f j (g x) = Inr y \<Longrightarrow> y = x) \<Longrightarrow> ys = xs"
  by (induction xs arbitrary: i ys) (auto split: sum.splits)

lemma definition_value_back: "parsePeerDefinition (definition_value p) field = Inr q \<Longrightarrow> q = p"
  by (cases p; cases "pf_connection p")
    (auto simp: parsePeerDefinition_def definition_value_def isRecord_def rejectUnknownFields_def
      prop_of_def parseKeyHex_def js_connection_def split: if_splits)

lemma js_grant_back: "parse_allowTcp (js_grant g) field = Inr g' \<Longrightarrow> g' = g"
  by (cases g) (auto simp: parse_allowTcp_def js_grant_def parsePeerPort_Inr
      split: sum.splits if_splits dest!: parse_each_back)

lemma vpn_peers_value_back:
  "parse_vpn_peers peers ks as i (map vpn_peer_value vs) = Inr vs' \<Longrightarrow> vs' = vs"
  by (induction vs arbitrary: ks as i vs')
    (auto simp: vpn_peer_value_def isRecord_def rejectUnknownFields_def prop_of_def Let_def
      parsePeerReference_Inr parseVpnAddress_Inr
      split: sum.splits option.splits if_splits dest!: js_grant_back)

lemma vpn_value_back: "parsePeerVpn (vpn_value v) peers = Inr v' \<Longrightarrow> v' = v"
  by (cases v) (auto simp: parsePeerVpn_def vpn_value_def isRecord_def rejectUnknownFields_def prop_of_def
      parseVpnAddress_Inr split: sum.splits option.splits if_splits dest!: vpn_peers_value_back)

lemma config_value_back:
  assumes "parsePeerConfig (config_value c) = Inr c'" and "\<And>n. pc_network c = Some n \<Longrightarrow> network_ok n"
  shows "c' = c"
proof -
  have undefined: "vpn_value v \<noteq> JUndefined" "network_value n \<noteq> JUndefined" for v n
    by (simp_all add: vpn_value_def network_value_def)
  have definitions: "ps = peers"
    if "parse_each (\<lambda>i entry. parsePeerDefinition entry (indexed ''peers'' i)) 0 (map definition_value peers) = Inr ps" for ps peers
    using parse_each_back [OF that] definition_value_back by blast
  show ?thesis
    using assms undefined
    by (cases c; cases "pc_vpn c"; cases "pc_network c")
      (auto simp: parsePeerConfig_def config_value_def isRecord_def rejectUnknownFields_def prop_of_def
        parse_optional_def network_value_parse split: sum.splits option.splits if_splits
        dest!: definitions vpn_value_back)
qed

section \<open>Reading the configuration\<close>

text \<open>No other failure looks like a missing file.\<close>

definition honest :: "disk \<Rightarrow> bool" where
  "honest d \<longleftrightarrow> (\<forall>f. Some f \<in> set (dk_faults d) \<longrightarrow> fl_code (ft_failure f) \<noteq> Some ''ENOENT'')"

lemma honest_frame: "frame p d d' \<Longrightarrow> honest d \<Longrightarrow> honest d'"
  unfolding frame_def honest_def by (metis in_set_dropD)

text \<open>What a file means as a configuration; nothing when there is no file.\<close>

definition config_at :: "(string \<Rightarrow> error + js) \<Rightarrow> entry option \<Rightarrow> peer_config option \<Rightarrow> bool" where
  "config_at parse e found \<longleftrightarrow>
     (case found of
        None \<Rightarrow> e = None \<or> e = Some (Symlink None)
      | Some c \<Rightarrow> \<exists>t. (e = Some (Symlink (Some t)) \<or> (\<exists>m. e = Some (File t m))) \<and> parseKeposConfig parse t = Inr c)"

lemma leaves_load_config [leaves_rules]: "leaves p s (load_config sv configPath)"
  unfolding load_config_def loadKeposConfig_def readKeposConfigSource_def Let_def missing_default_def
  by (auto intro!: leaves_rules split: option.split)

lemma leaves_load_existing [leaves_rules]: "leaves p s (load_existing sv configPath)"
  unfolding load_existing_def by (auto intro!: leaves_rules)

lemma load_config_Inr:
  "load_config s p d = (Inr found, d1) \<Longrightarrow> found \<noteq> None \<and> config_at (sv_parse s) (entry_at d p) found"
  by (auto simp: load_config_def loadKeposConfig_def readKeposConfigSource_def missing_default_def config_at_def
      seq_def catch_def throw_def return_def of_result_def dest!: reading(3) split: prod.splits sum.splits)

lemma readFile_Inl:
  "readFile p d = (Inl e, d1) \<Longrightarrow> honest d \<Longrightarrow> fl_code e = Some ''ENOENT'' \<Longrightarrow>
     entry_at d p = None \<or> entry_at d p = Some (Symlink None)"
  by (auto simp: readFile_def calling_def fault_def honest_def io_error_def entry_at_def
      split: list.splits option.splits entry.splits)

lemma load_existing_Inr:
  assumes "load_existing s p d = (Inr found, d1)" and "honest d"
  shows "config_at (sv_parse s) (entry_at d p) found"
proof (cases "load_config s p d")
  case (Pair r d2)
  show ?thesis
  proof (cases r)
    case (Inr x)
    with Pair assms(1) load_config_Inr [of s p d x d2] show ?thesis
      by (simp add: load_existing_def catch_def)
  next
    case (Inl e)
    with Pair assms(1) have "found = None" "isMissingConfigError e"
      by (auto simp: load_existing_def catch_def throw_def return_def split: if_splits)
    moreover from this(2) Inl Pair assms(2) have "entry_at d p = None \<or> entry_at d p = Some (Symlink None)"
      by (auto simp: isMissingConfigError_def load_config_def loadKeposConfig_def readKeposConfigSource_def
          missing_default_def seq_def catch_def throw_def return_def of_result_def failure_of_def
          dest: readFile_Inl split: prod.splits sum.splits option.splits)
    ultimately show ?thesis by (simp add: config_at_def)
  qed
qed

lemma frame_always: "frame p d d' \<Longrightarrow> about p P \<Longrightarrow> always P d \<Longrightarrow> always P d'"
proof -
  assume f: "frame p d d'" and P: "about p P" and d: "always P d"
  then have now: "P (dk_files d)" by (simp add: always_def)
  from f obtain passed where "dk_past d' = passed @ dk_past d"
      "\<forall>fs \<in> set passed. \<forall>q. below p q \<longrightarrow> map_get fs q = entry_at d q"
    unfolding frame_def by blast
  moreover from f have "\<forall>q. below p q \<longrightarrow> map_get (dk_files d') q = entry_at d q"
    unfolding frame_def entry_at_def by blast
  ultimately show ?thesis
    using d aboutD [OF P now] by (auto simp: always_def entry_at_def)
qed

lemma always_at:
  "always (\<lambda>fs. Q (map_get fs p)) d \<longleftrightarrow> (\<forall>fs \<in> set (dk_files d # dk_past d). Q (map_get fs p))"
  by (auto simp: always_def)

lemma about_at: "about p (\<lambda>fs. Q (map_get fs p))"
  unfolding about_def by (metis below_refl)

section \<open>Joining\<close>

text \<open>
  A file that joining has saved: the configuration that an accepted pairing gave, for the network of
  the configuration that was there.
\<close>

definition joined_entry :: "services \<Rightarrow> joining \<Rightarrow> peer_config option \<Rightarrow> entry option \<Rightarrow> bool" where
  "joined_entry s j existing e \<longleftrightarrow>
     (\<exists>invitation seed config source.
        jn_invitation j = Inr invitation \<and> jn_pair j invitation seed (Option.bind existing pc_network) = Inr config \<and>
        serializeKeposConfig (sv_parse s) (sv_stringify s) (config_value config) = Inr source \<and>
        e = Some (File source 384))"

text \<open>No configuration that joining may lose: none at all, or one without peers and VPN settings.\<close>

definition blank :: "peer_config option \<Rightarrow> bool" where
  "blank existing \<longleftrightarrow> (\<forall>c. existing = Some c \<longrightarrow> pc_peers c = [] \<and> pc_vpn c = None)"

lemma not_configured: "\<not> configured existing \<longleftrightarrow> blank existing"
  by (cases existing) (simp_all add: configured_def blank_def)

lemma join_receiver_leaves:
  assumes "apart p stateDir" and "apart p (temporary stateDir x)" and "stateDir \<noteq> []"
  shows "leaves p x (join_receiver s j stateDir configPath)"
  unfolding join_receiver_def setup_peer_def load_identity_def
  using leaves_setup [OF assms] by (auto intro!: leaves_rules split: sum.split)

lemma paired_Inr:
  "(case x of Inl reason \<Rightarrow> throw (g reason) | Inr c \<Rightarrow> return (found, c)) d = (Inr y, d') \<longleftrightarrow>
     (\<exists>c. x = Inr c \<and> y = (found, c) \<and> d' = d)"
  by (cases x) (auto simp: return_def throw_def)

lemma of_result_Inr: "of_result x d = (Inr y, d') \<longleftrightarrow> x = Inr y \<and> d' = d"
  by (cases x) (auto simp: of_result_def return_def throw_def)

lemma join_receiver_Inr:
  assumes "join_receiver s j stateDir configPath d = (Inr (existing, config), d1)" and "honest d"
  shows "config_at (sv_parse s) (entry_at d configPath) existing" and "blank existing"
    and "\<exists>invitation seed. jn_invitation j = Inr invitation \<and>
      jn_pair j invitation seed (Option.bind existing pc_network) = Inr config"
proof -
  from assms(1) obtain found d2 where found: "load_existing s configPath d = (Inr found, d2)"
    and rest: "\<exists>seed invitation. \<not> configured found \<and> jn_invitation j = Inr invitation \<and>
      jn_pair j invitation seed (Option.bind found pc_network) = Inr config \<and> found = existing"
    unfolding join_receiver_def
    by (auto simp: seq_Inr of_result_Inr paired_Inr throw_def split: if_splits)
  with load_existing_Inr [OF found assms(2)] show "config_at (sv_parse s) (entry_at d configPath) existing"
    and "blank existing"
    and "\<exists>invitation seed. jn_invitation j = Inr invitation \<and>
      jn_pair j invitation seed (Option.bind existing pc_network) = Inr config"
    by (auto simp: not_configured)
qed

text \<open>Saving what was accepted, on a disk where the file may have been changed.\<close>

definition saves_as :: "services \<Rightarrow> peer_config \<Rightarrow> path \<Rightarrow> (files \<Rightarrow> bool) \<Rightarrow> bool" where
  "saves_as s config p P \<longleftrightarrow>
     (\<forall>source fs. serializeKeposConfig (sv_parse s) (sv_stringify s) (config_value config) = Inr source \<longrightarrow>
        map_get fs p = Some (File source 384) \<longrightarrow> P fs)"

lemma save_config_outcome:
  assumes "save_config s config p d = (r, d')" and "always P d" and "about p P"
    and "p \<noteq> []" and "last p \<noteq> ''.config-'' @ dk_suffix d"
    and "saves_as s config p P"
  shows "always P d'"
    and "r = Inr () \<Longrightarrow> \<exists>source. serializeKeposConfig (sv_parse s) (sv_stringify s) (config_value config) = Inr source \<and>
      entry_at d' p = Some (File source 384)"
proof -
  have "always P d' \<and> (r = Inr () \<longrightarrow> (\<exists>source.
      serializeKeposConfig (sv_parse s) (sv_stringify s) (config_value config) = Inr source \<and>
      entry_at d' p = Some (File source 384)))"
  proof (cases "serializeKeposConfig (sv_parse s) (sv_stringify s) (config_value config)")
    case (Inl e)
    with assms(1,2) show ?thesis
      by (auto simp: save_config_def saveKeposConfig_def of_result_def seq_def throw_def)
  next
    case (Inr source)
    have "\<And>fs. map_get fs p = Some (File source 384) \<Longrightarrow> P fs"
      using assms(6) Inr by (simp add: saves_as_def)
    note t = saveKeposConfig_triple [OF assms(4,5,3) this Inr]
    have d: "safe P (dk_suffix d) d" using assms(2) by (simp add: safe_def)
    show ?thesis
    proof (cases r)
      case (Inl e)
      with triple_InlD [OF t d] assms(1) show ?thesis by (simp add: save_config_def safe_def)
    next
      case ok: (Inr u)
      with triple_InrD [OF t d] assms(1) Inr show ?thesis by (simp add: save_config_def safe_def)
    qed
  qed
  then show "always P d'" and "r = Inr () \<Longrightarrow> \<exists>source.
      serializeKeposConfig (sv_parse s) (sv_stringify s) (config_value config) = Inr source \<and>
      entry_at d' p = Some (File source 384)" by auto
qed

lemma meanwhile_at: "meanwhile p f d = (Inr (), d') \<Longrightarrow> entry_at d' p = f (entry_at d p) \<and>
    dk_suffix d' = dk_suffix d \<and> dk_faults d' = dk_faults d"
  by (auto simp: meanwhile_def map_get_set map_get_delete split: option.splits)

lemma meanwhile_always:
  assumes "meanwhile p f d = (Inr (), d')" and "always P d"
    and "\<And>fs. map_get fs p = f (entry_at d p) \<Longrightarrow> P fs"
  shows "always P d'"
  using assms by (auto simp: meanwhile_def always_def mutate_def map_get_set map_get_delete split: option.splits)

text \<open>
  The file may take what was read and what others write after that; the configuration to be saved is
  there only if the second reading gave what was there at first.
\<close>

lemma save_joined_outcome:
  assumes "save_joined s j p existing config d = (r, d')" and "honest d" and "always P d" and "about p P"
    and "p \<noteq> []" and "last p \<noteq> ''.config-'' @ dk_suffix d"
    and "\<And>fs. map_get fs p = jn_late j (entry_at d p) \<Longrightarrow> P fs"
    and "config_at (sv_parse s) (entry_at d p) existing \<Longrightarrow> saves_as s config p P"
  shows "always P d' \<and> (r = Inr () \<longrightarrow> config_at (sv_parse s) (entry_at d p) existing \<and>
      (\<exists>source. serializeKeposConfig (sv_parse s) (sv_stringify s) (config_value config) = Inr source \<and>
        entry_at d' p = Some (File source 384)))"
proof (cases "\<exists>vpn. pc_vpn config = Some vpn \<and>
    checkDialerAddresses (vc_address vpn) (map vp_address (vc_peers vpn)) (jn_local j) (jn_routes j) = None")
  case False
  with assms(1,3) show ?thesis by (auto simp: save_joined_def throw_def split: option.splits)
next
  case True
  with assms(1) have "seq (load_existing s p) (\<lambda>current.
      if current \<noteq> existing then throw (failure_of ''Config changed during pairing; preserve the current file'')
      else seq (meanwhile p (jn_late j)) (\<lambda>_. save_config s config p)) d = (r, d')"
    by (auto simp: save_joined_def)
  then show ?thesis
  proof (cases rule: seq_cases)
    case (fails e)
    have "frame p d d'" using leavesD [OF leaves_load_existing fails(1) refl] .
    from frame_always [OF this assms(4,3)] fails show ?thesis by simp
  next
    case (goes_on current d1)
    have f: "frame p d d1" using leavesD [OF leaves_load_existing goes_on(1) refl] .
    note P1 = frame_always [OF this assms(4,3)]
    have at1: "entry_at d1 p = entry_at d p" using f by (simp add: frame_def)
    show ?thesis
    proof (cases "current = existing")
      case False
      with goes_on(2) P1 show ?thesis by (auto simp: throw_def)
    next
      case True
      note same = load_existing_Inr [OF goes_on(1) assms(2), unfolded True]
      obtain d2 where d2: "meanwhile p (jn_late j) d1 = (Inr (), d2)" by (simp add: meanwhile_def)
      have P2: "always P d2" using meanwhile_always [OF d2 P1] assms(7) at1 by simp
      have "last p \<noteq> ''.config-'' @ dk_suffix d2" using assms(6) frame_suffix [OF f] meanwhile_at [OF d2] by simp
      moreover from goes_on(2) True have "save_config s config p d2 = (r, d')"
        by (simp add: seq_def [of "meanwhile _ _"] d2)
      ultimately show ?thesis
        using save_config_outcome [OF _ P2 assms(4,5) _ assms(8) [OF same]] same by simp
    qed
  qed
qed

lemma catch_unsaved:
  assumes "catch m (\<lambda>e. throw (g e)) d = (r, d')"
  obtains r' where "m d = (r', d')" and "r' = Inr x \<longleftrightarrow> r = Inr x"
  using assms by (cases "m d"; cases "fst (m d)") (auto simp: catch_def throw_def)

lemma save_or_unsaved:
  assumes "seq (catch m (\<lambda>e. throw (g e))) (\<lambda>_. return line) d = (r, d')"
  shows "\<exists>r'. m d = (r', d') \<and> (r' = Inr () \<longleftrightarrow> r = Inr line) \<and> (\<forall>l. r = Inr l \<longrightarrow> l = line)"
  using assms by (cases "m d"; cases "fst (m d)") (auto simp: seq_def catch_def throw_def return_def)

text \<open>
  An entry that joining may have saved: the configuration that was there at first and the one that
  others left mean the same, one that can be given up, and the entry is what was accepted for it.
\<close>

definition saved_over :: "services \<Rightarrow> joining \<Rightarrow> entry option \<Rightarrow> entry option \<Rightarrow> entry option \<Rightarrow> bool" where
  "saved_over s j old left e \<longleftrightarrow>
     (\<exists>existing. blank existing \<and> config_at (sv_parse s) old existing \<and> config_at (sv_parse s) left existing \<and>
        joined_entry s j existing e)"

definition joined_or_left :: "services \<Rightarrow> joining \<Rightarrow> entry option \<Rightarrow> entry option \<Rightarrow> entry option \<Rightarrow> bool" where
  "joined_or_left s j old left e \<longleftrightarrow> e \<in> {old, left, jn_late j left} \<or> saved_over s j old left e"

text \<open>What follows the acceptance.\<close>

lemma join_saves:
  assumes "seq (meanwhile p (jn_meanwhile j)) (\<lambda>_.
      seq (catch (save_joined s j p existing config) (\<lambda>e. throw (failure_of (unsaved_message e)))) (\<lambda>_. return line)) d1 =
      (r, d')"
    and "honest d1" and P1: "always (\<lambda>fs. joined_or_left s j old left (map_get fs p)) d1"
    and "p \<noteq> []" and "last p \<noteq> ''.config-'' @ dk_suffix d1"
    and at1: "entry_at d1 p = old" and left: "left = jn_meanwhile j old"
    and "config_at (sv_parse s) old existing" and "blank existing"
    and "\<exists>invitation seed. jn_invitation j = Inr invitation \<and>
      jn_pair j invitation seed (Option.bind existing pc_network) = Inr config"
  shows "always (\<lambda>fs. joined_or_left s j old left (map_get fs p)) d' \<and>
    (\<forall>l. r = Inr l \<longrightarrow> saved_over s j old left (entry_at d' p))"
proof -
  let ?P = "\<lambda>fs. joined_or_left s j old left (map_get fs p)"
  obtain d2 where d2: "meanwhile p (jn_meanwhile j) d1 = (Inr (), d2)" by (simp add: meanwhile_def)
  note m = meanwhile_at [OF d2, unfolded at1, folded left]
  have P2: "always ?P d2" using meanwhile_always [OF d2 P1] at1 left by (simp add: joined_or_left_def)
  have h2: "honest d2" using assms(2) m by (simp add: honest_def)
  from assms(1) have "seq (catch (save_joined s j p existing config) (\<lambda>e. throw (failure_of (unsaved_message e))))
      (\<lambda>_. return line) d2 = (r, d')"
    by (simp add: seq_def [of "meanwhile _ _"] d2)
  from save_or_unsaved [OF this] obtain r' where save: "save_joined s j p existing config d2 = (r', d')"
    and r': "\<And>l. r = Inr l \<Longrightarrow> r' = Inr ()" by auto
  have over: "saved_over s j old left e"
    if "config_at (sv_parse s) left existing" and "e = Some (File source 384)"
      and "serializeKeposConfig (sv_parse s) (sv_stringify s) (config_value config) = Inr source" for e source
    using assms(8-10) that unfolding saved_over_def joined_entry_def by blast
  then have saves: "saves_as s config p ?P" if "config_at (sv_parse s) left existing"
    using that by (simp add: saves_as_def joined_or_left_def)
  have "last p \<noteq> ''.config-'' @ dk_suffix d2" using assms(5) m by simp
  from save_joined_outcome [OF save h2 P2 about_at assms(4) this _ saves] m
  have "always ?P d' \<and> (r' = Inr () \<longrightarrow> config_at (sv_parse s) left existing \<and>
      (\<exists>source. serializeKeposConfig (sv_parse s) (sv_stringify s) (config_value config) = Inr source \<and>
        entry_at d' p = Some (File source 384)))"
    by (simp add: joined_or_left_def)
  with over r' show ?thesis by blast
qed

text \<open>
  C2: Joining saves only over what it has found.  Whichever calls fail and whatever other programs do
  to the configuration file, before it is read again and after that, in every state of the disk the
  file is what was there, what the others left at one of the two times, or the configuration of an
  accepted pairing; and the last of these only if what was there and what the second reading found
  mean the same configuration, one without peers and VPN settings, or no file at all.  So a file that
  another program has changed by then is never replaced, also when joining fails.  When joining
  reports success, the accepted configuration is there.
\<close>

theorem join_guards_config:
  assumes "join_body s j stateDir configPath d = (r, d')" and "dk_past d = []" and "honest d"
    and "configPath \<noteq> []" and "last configPath \<noteq> ''.config-'' @ dk_suffix d" and "stateDir \<noteq> []"
    and "apart configPath stateDir" and "apart configPath (temporary stateDir (dk_suffix d))"
    and "old = entry_at d configPath" and "left = jn_meanwhile j old"
  shows "(\<forall>fs \<in> set (dk_files d' # dk_past d').
      map_get fs configPath \<in> {old, left, jn_late j left} \<or> saved_over s j old left (map_get fs configPath)) \<and>
    (\<forall>line. r = Inr line \<longrightarrow> saved_over s j old left (entry_at d' configPath))"
proof -
  let ?P = "\<lambda>fs. joined_or_left s j old left (map_get fs configPath)"
  have P0: "always ?P d" using assms(2,9) by (simp add: always_def entry_at_def joined_or_left_def)
  note leaves = join_receiver_leaves [OF assms(7,8,6), of s j configPath]
  from assms(1) have "always ?P d' \<and> (\<forall>line. r = Inr line \<longrightarrow> saved_over s j old left (entry_at d' configPath))"
    unfolding join_body_def
  proof (cases rule: seq_cases)
    case (fails e)
    with frame_always [OF leavesD [OF leaves fails(1) refl] about_at P0] show ?thesis by simp
  next
    case (goes_on x d1)
    obtain existing config where x: "x = (existing, config)" by fastforce
    note f1 = leavesD [OF leaves goes_on(1) refl]
    note P1 = frame_always [OF f1 about_at P0]
    have at1: "entry_at d1 configPath = old" using f1 assms(9) by (simp add: frame_def)
    have last: "last configPath \<noteq> ''.config-'' @ dk_suffix d1" using assms(5) frame_suffix [OF f1] by simp
    note accepted = join_receiver_Inr [OF goes_on(1) [unfolded x] assms(3), folded assms(9)]
    from join_saves [OF _ honest_frame [OF f1 assms(3)] P1 assms(4) last at1 assms(10) accepted] goes_on(2)
    show ?thesis by (simp add: x)
  qed
  then show ?thesis unfolding always_at [of "joined_or_left s j old left"] unfolding joined_or_left_def by blast
qed

text \<open>
  The comparison and the rename are two steps: what another program writes after the second reading
  is replaced all the same, whatever it is, and joining reports success.
\<close>

lemma late_change_is_lost:
  assumes "save_config s config configPath (snd (meanwhile configPath (jn_late j) d1)) = (Inr (), d')"
    and "load_existing s configPath d = (Inr existing, d1)" and "pc_vpn config = Some vpn"
    and "checkDialerAddresses (vc_address vpn) (map vp_address (vc_peers vpn)) (jn_local j) (jn_routes j) = None"
  shows "save_joined s j configPath existing config d = (Inr (), d')"
  using assms by (simp add: save_joined_def seq_def meanwhile_def)

section \<open>Approving a peer\<close>

text \<open>
  A file that approving a peer has saved: the network and the VPN settings are those of the
  configuration found, every peer of another label is there as it was and in its place, and the
  definition of this peer comes last.  No other peer had this key, and this label had no other key.
\<close>

definition approved_entry ::
  "services \<Rightarrow> string \<Rightarrow> string \<Rightarrow> connection \<Rightarrow> entry option \<Rightarrow> entry option \<Rightarrow> bool" where
  "approved_entry s label publicKey direction old e \<longleftrightarrow>
     (\<exists>c c' source. config_at (sv_parse s) old (Some c) \<and> config_ok c' \<and>
        pc_network c' = pc_network c \<and> pc_vpn c' = pc_vpn c \<and>
        pc_peers c' = filter (\<lambda>p. pf_label p \<noteq> label) (pc_peers c) @
          [\<lparr>pf_label = label, pf_publicKey = publicKey, pf_connection = direction\<rparr>] \<and>
        (\<forall>p \<in> set (pc_peers c). pf_label p = label \<longleftrightarrow> pf_publicKey p = publicKey) \<and>
        serializeKeposConfig (sv_parse s) (sv_stringify s) (config_value c') = Inr source \<and>
        e = Some (File source 384))"

lemma no_conflict: "\<not> conflicts label publicKey p \<longleftrightarrow> (pf_label p = label \<longleftrightarrow> pf_publicKey p = publicKey)"
  by (auto simp: conflicts_def)

lemma approve_keeps:
  assumes "\<forall>p \<in> set (pc_peers c). \<not> conflicts label publicKey p"
  shows "pc_network (approve label publicKey direction c) = pc_network c"
    and "pc_vpn (approve label publicKey direction c) = pc_vpn c"
    and "pc_peers (approve label publicKey direction c) = filter (\<lambda>p. pf_label p \<noteq> label) (pc_peers c) @
      [\<lparr>pf_label = label, pf_publicKey = publicKey, pf_connection = direction\<rparr>]"
  using assms by (auto simp: approve_def no_conflict intro!: filter_cong)

lemma parseKeposConfig_ok: "parseKeposConfig parse t = Inr c \<Longrightarrow> config_ok c"
  unfolding parseKeposConfig_def config_of_toml_def
  by (auto split: sum.split_asm js.split_asm dest: parsePeerConfig_ok)

lemma config_at_ok: "config_at parse e (Some c) \<Longrightarrow> config_ok c"
  by (auto simp: config_at_def dest: parseKeposConfig_ok)

text \<open>How approving a peer may go: nothing is read, or refused, or the approved configuration is saved.\<close>

lemma pair_body_cases:
  assumes "pair_body s configPath label publicKey direction d = (r, d')"
  obtains (unread) e where "load_config s configPath d = (Inl e, d')" and "r = Inl e"
  | (refused) found where "load_config s configPath d = (Inr found, d')" and "isl r"
  | (saves) c d1 r' where "load_config s configPath d = (Inr (Some c), d1)"
      and "\<forall>p \<in> set (pc_peers c). \<not> conflicts label publicKey p" and "config_ok (approve label publicKey direction c)"
      and "config_at (sv_parse s) (entry_at d configPath) (Some c)"
      and "save_config s (approve label publicKey direction c) configPath d1 = (r', d')"
      and "\<And>line. r = Inr line \<Longrightarrow> r' = Inr ()"
  using assms unfolding pair_body_def
proof (cases rule: seq_cases)
  case (fails e)
  then show thesis by (rule unread)
next
  case (goes_on found d1)
  from load_config_Inr [OF goes_on(1)] obtain c where c: "found = Some c"
    "config_at (sv_parse s) (entry_at d configPath) (Some c)" by auto
  have "config_ok c" using config_at_ok [OF c(2)] .
  then have network: "network_ok n" if "pc_network (approve label publicKey direction c) = Some n" for n
    using that by (simp add: approve_def config_ok_def)
  show thesis
  proof (cases "\<not> (\<exists>p \<in> set (pc_peers c). conflicts label publicKey p) \<and>
      \<not> isl (parsePeerConfig (config_value (approve label publicKey direction c)))")
    case False
    with goes_on(2) have "d' = d1 \<and> isl r"
      by (auto simp: c(1) Let_def throw_def seq_def of_result_def split: if_splits sum.splits)
    with goes_on(1) show thesis using refused by blast
  next
    case True
    then obtain c' where c': "parsePeerConfig (config_value (approve label publicKey direction c)) = Inr c'"
      by (auto simp: isl_def split: sum.splits) (metis sum.exhaust)
    then have same: "c' = approve label publicKey direction c" using network by (rule config_value_back)
    from goes_on(2) True have "seq (save_config s (approve label publicKey direction c) configPath)
        (\<lambda>_. return (''Peer approved: '' @ label @ '' ('' @ publicKey @ '')'')) d1 = (r, d')"
      using c' same by (simp add: c(1) Let_def seq_of_result)
    then obtain r' where "save_config s (approve label publicKey direction c) configPath d1 = (r', d')"
      and "\<And>line. r = Inr line \<Longrightarrow> r' = Inr ()"
      by (auto simp: seq_def return_def split: prod.splits sum.splits)
    moreover have "config_ok (approve label publicKey direction c)" using parsePeerConfig_ok [OF c'] same by simp
    ultimately show thesis using saves goes_on(1) c True by blast
  qed
qed

text \<open>
  C37: Approving a peer keeps everything else.  In every state of the disk the configuration file is
  the old one, or one with the network, the VPN settings and the other peers of the old
  configuration and the definition of this peer; the latter is valid, it is there only when no peer
  shares just the label or just the key, and it is what is there when the command reports success.
\<close>

theorem pair_keeps_config:
  assumes "pair_body s configPath label publicKey direction d = (r, d')" and "dk_past d = []"
    and "configPath \<noteq> []" and "last configPath \<noteq> ''.config-'' @ dk_suffix d"
  shows "(\<forall>fs \<in> set (dk_files d' # dk_past d').
      map_get fs configPath = entry_at d configPath \<or>
      approved_entry s label publicKey direction (entry_at d configPath) (map_get fs configPath)) \<and>
    (\<forall>line. r = Inr line \<longrightarrow>
      approved_entry s label publicKey direction (entry_at d configPath) (entry_at d' configPath))"
proof -
  let ?old = "entry_at d configPath"
  let ?new = "approved_entry s label publicKey direction ?old"
  let ?Q = "\<lambda>e. e = ?old \<or> ?new e"
  let ?P = "\<lambda>fs. ?Q (map_get fs configPath)"
  have about: "about configPath ?P" by (rule about_at)
  have P0: "always ?P d" using assms(2) by (simp add: always_def entry_at_def)
  note leaves = leavesD [OF leaves_load_config _ refl, of s configPath d]
  from assms(1) have "always ?P d' \<and> (\<forall>line. r = Inr line \<longrightarrow> ?new (entry_at d' configPath))"
  proof (cases rule: pair_body_cases)
    case (unread e)
    with frame_always [OF leaves [OF unread(1)] about P0] show ?thesis by simp
  next
    case (refused found)
    with frame_always [OF leaves [OF refused(1)] about P0] show ?thesis by (auto simp: isl_def)
  next
    case (saves c d1 r')
    note f1 = leaves [OF saves(1)]
    have new: "?new (Some (File source 384))"
      if "serializeKeposConfig (sv_parse s) (sv_stringify s) (config_value (approve label publicKey direction c)) = Inr source" for source
      using that saves(2-4) approve_keeps [OF saves(2)] unfolding approved_entry_def no_conflict by blast
    then have P: "saves_as s (approve label publicKey direction c) configPath ?P" by (simp add: saves_as_def)
    have "last configPath \<noteq> ''.config-'' @ dk_suffix d1" using assms(4) frame_suffix [OF f1] by simp
    note saved = save_config_outcome [OF saves(5) frame_always [OF f1 about P0] about assms(3) this P]
    with new saves(6) show ?thesis by auto
  qed
  then show ?thesis unfolding always_at [of ?Q] by blast
qed

section \<open>The lock\<close>

lemma with_lock_effect:
  assumes "kernel_inv k" and "with_lock stateDir body (d, k) = (res, out, d', k')"
  shows "map_get (kn_handles k') = map_get (kn_handles k) \<and> map_get (kn_owners k') = map_get (kn_owners k) \<and>
    (map_get (kn_owners k) (peerRuntimeLockPath stateDir) \<noteq> None \<longrightarrow> isl res \<and> out = [] \<and> d' = d)"
proof -
  obtain r k1 where acquire: "acquirePeerRuntimeLock stateDir k = (r, k1)" by fastforce
  note effect = acquire_effect [OF assms(1) acquire [unfolded acquirePeerRuntimeLock_def]]
  show ?thesis
  proof (cases r)
    case (Inl e)
    with effect acquire assms(2) show ?thesis by (auto simp: with_lock_def acquired_def)
  next
    case (Inr l)
    obtain b d1 where body: "body d = (b, d1)" by fastforce
    obtain c l' k2 where released: "release l k1 = (c, l', k2)" by (metis prod_cases3)
    have k': "k' = k2" using assms(2) acquire Inr body released by (simp add: with_lock_def)
    have got: "kernel_inv k1" "rl_released l = None" "map_get (kn_owners k) (peerRuntimeLockPath stateDir) = None"
      "map_get (kn_handles k) (rl_handle l) = None"
      "map_get (kn_owners k1) = (map_get (kn_owners k))(peerRuntimeLockPath stateDir \<mapsto> rl_handle l)"
      "map_get (kn_handles k1) = (map_get (kn_handles k))(rl_handle l \<mapsto> peerRuntimeLockPath stateDir)"
      using effect by (simp_all add: Inr acquired_def)
    note gone = release_effect(4,5) [OF got(1,2) released]
    have "map_get (kn_owners k) p \<noteq> Some (rl_handle l)" for p
      using assms(1) got(4) unfolding kernel_inv_def by fastforce
    then have "map_get (kn_owners k2) = map_get (kn_owners k)"
      unfolding gone(1) got(5) using got(3) by (auto simp: fun_eq_iff)
    moreover have "map_get (kn_handles k2) = map_get (kn_handles k)"
      unfolding gone(2) got(6) using got(4) by auto
    ultimately show ?thesis using got(3) by (simp add: k')
  qed
qed

text \<open>
  C38: A command that changes the identity or the configuration runs alone.  While a runtime of the
  state directory holds its lock, setting up and joining fail without touching the disk; in every
  other case they leave the descriptors and locks as they found them.
\<close>

theorem commands_respect_lock:
  assumes "run = setupPeerCommand h s arguments \<or> run = peerJoinCommand h s j arguments"
    and "run (d, k) = (res, out, d', k')" and "kernel_inv k"
    and "parseArguments arguments [''--state'', ''--config''] = Inr options"
  shows "map_get (kn_handles k') = map_get (kn_handles k) \<and> map_get (kn_owners k') = map_get (kn_owners k) \<and>
    (map_get (kn_owners k) (peerRuntimeLockPath (state_option h options)) \<noteq> None \<longrightarrow>
       isl res \<and> out = [] \<and> d' = d)"
  using assms with_lock_effect [OF assms(3)]
  by (auto simp: setupPeerCommand_def peerJoinCommand_def refused_def split: if_splits)

section \<open>Examples\<close>

definition ex_receiver_peer :: peer_definition where
  "ex_receiver_peer = \<lparr>pf_label = ''receiver'', pf_publicKey = ex_key CHR ''a'', pf_connection = Dial\<rparr>"

text \<open>A text \<open>t\<close> that means the configuration \<open>c\<close>, and a text \<open>o\<close> that means the empty one.\<close>

definition ex_services :: "peer_config \<Rightarrow> services" where
  "ex_services c = \<lparr>sv_windows = False, sv_json = ex_identity_json,
     sv_parse = (\<lambda>t. Inr (toml_value (if t = ''o'' then emptyPeerConfig else c))),
     sv_stringify = (\<lambda>_. Inr ''t''), sv_keyPair = ex_key_pair, sv_random = ex_random\<rparr>"

definition ex_joined :: peer_config where
  "ex_joined = \<lparr>pc_vpn = Some \<lparr>vc_address = ''10.0.0.2'',
       vc_peers = [\<lparr>vp_peer = ''receiver'', vp_address = ''10.0.0.1'', vp_allowTcp = Ports []\<rparr>]\<rparr>,
     pc_network = None, pc_peers = [ex_receiver_peer]\<rparr>"

definition ex_joining :: joining where
  "ex_joining = \<lparr>jn_invitation = Inr ''i'', jn_pair = (\<lambda>_ _ _. Inr ex_joined), jn_local = [], jn_routes = Inr [],
     jn_meanwhile = (\<lambda>e. e), jn_late = (\<lambda>e. e)\<rparr>"

lemma ex_services_serialize:
  assumes "config_ok c" and "serializable c"
  shows "serializeKeposConfig (sv_parse (ex_services c)) (sv_stringify (ex_services c)) (config_value c) = Inr ''t''"
  using config_value_parse [OF assms(1)] toml_value_parse [OF assms(1)] assms(2)
  by (simp add: serializeKeposConfig_def parseKeposConfig_def ex_services_def)

lemma ex_joined_ok: "config_ok ex_joined \<and> serializable ex_joined"
proof -
  have "\<not> key_hex ''receiver''" by (auto dest: key_hex_length)
  with ex_hex show ?thesis
    by (simp add: config_ok_def ex_joined_def ex_receiver_peer_def definition_ok_def label_ok_def trim_def is_space_def
      byteLength_def control_char_def vpn_ok_def vpn_peer_ok_def reference_ok_def resolves_def tcp_grant_ok_def
      vpn_keys_def reference_key_def serializable_def peerLabelMaximumBytes_def ex_addresses)
qed

lemma ex_join:
  "\<exists>d'. join_body (ex_services ex_joined) ex_joining [''peer''] [''c''] ex_root =
     (Inr ''Joined receiver; configuration saved to /c'', d')"
  using ex_services_serialize [of ex_joined] ex_joined_ok
  by (simp add: join_body_def join_receiver_def load_existing_def load_config_def loadKeposConfig_def
      readKeposConfigSource_def missing_default_def isMissingConfigError_def configured_def setup_peer_def load_identity_def
      setupPeer_def pathExists_def create_identity_def generatePeerSeed_def identity_seed [OF ex_seed]
      serializePeerIdentity_def derivePeerPublicKey_def deriveKeyPair_def ex_seed ex_key_pair_def
      writeStateDirectoryAtomically_def write_entry_def validateStateDirectory_def validate_entry_def requireOwnerOnly_def
      loadPeerIdentity_def readStateJson_def ex_identity_json_def meanwhile_def save_joined_def
      checkDialerAddresses_def check_target_def host_route_def
      save_config_def saveKeposConfig_def show_path_def ex_joining_def ex_services_def ex_joined_def
      ex_root_def io_error_def identityFileName_def disk_calls Let_def)

theorem join_guards_config_witness:
  "\<exists>d'. joined_entry (ex_services ex_joined) ex_joining None (entry_at d' [''c'']) \<and>
     config_at (sv_parse (ex_services ex_joined)) (entry_at ex_root [''c'']) None"
proof -
  obtain d' where run: "join_body (ex_services ex_joined) ex_joining [''peer''] [''c''] ex_root =
     (Inr ''Joined receiver; configuration saved to /c'', d')" using ex_join by blast
  have "dk_past ex_root = []" "honest ex_root" "last [''c''] \<noteq> ''.config-'' @ dk_suffix ex_root"
    "apart [''c''] [''peer'']" "apart [''c''] (temporary [''peer''] (dk_suffix ex_root))"
    by (simp_all add: ex_root_def honest_def apart_def below_def starts_with_def temporary_def dirname_def basename_def)
  with join_guards_config [OF run] obtain existing
    where "config_at (sv_parse (ex_services ex_joined)) (entry_at ex_root [''c'']) existing"
      "joined_entry (ex_services ex_joined) ex_joining existing (entry_at d' [''c''])"
    unfolding saved_over_def by blast
  moreover from this have "existing = None"
    by (simp add: config_at_def ex_root_def entry_at_def split: option.splits)
  ultimately show ?thesis by blast
qed

definition ex_approved :: peer_config where
  "ex_approved = approve ''receiver'' (ex_key CHR ''a'') Dial emptyPeerConfig"

definition ex_configured_disk :: disk where
  "ex_configured_disk =
     \<lparr>dk_files = [([], Directory 493), ([''c''], File ''o'' 384)], dk_past = [], dk_faults = [], dk_suffix = ''x''\<rparr>"

lemma ex_approved_ok: "config_ok ex_approved \<and> serializable ex_approved" "config_ok emptyPeerConfig \<and> serializable emptyPeerConfig"
  using ex_hex
  by (simp_all add: config_ok_def ex_approved_def approve_def emptyPeerConfig_def definition_ok_def label_ok_def
      trim_def is_space_def byteLength_def control_char_def serializable_def peerLabelMaximumBytes_def)

lemma ex_pair_body:
  "\<exists>d'. pair_body (ex_services ex_approved) [''c''] ''receiver'' (ex_key CHR ''a'') Dial ex_configured_disk =
     (Inr (''Peer approved: receiver ('' @ ex_key CHR ''a'' @ '')''), d')"
proof -
  have "parseKeposConfig (sv_parse (ex_services ex_approved)) ''o'' = Inr emptyPeerConfig"
    using toml_value_parse [of emptyPeerConfig] ex_approved_ok(2) by (simp add: parseKeposConfig_def ex_services_def)
  moreover have "parsePeerConfig (config_value (approve ''receiver'' (ex_key CHR ''a'') Dial emptyPeerConfig)) = Inr ex_approved"
    using config_value_parse ex_approved_ok(1) by (simp add: ex_approved_def)
  moreover have "\<not> (\<exists>p \<in> set (pc_peers emptyPeerConfig). conflicts ''receiver'' (ex_key CHR ''a'') p)"
    by (simp add: emptyPeerConfig_def)
  ultimately show ?thesis
    using ex_services_serialize [of ex_approved] ex_approved_ok(1)
    by (simp add: pair_body_def load_config_def loadKeposConfig_def readKeposConfigSource_def missing_default_def
        save_config_def saveKeposConfig_def ex_configured_disk_def disk_calls Let_def)
qed

theorem pair_keeps_config_witness:
  "\<exists>d'. approved_entry (ex_services ex_approved) ''receiver'' (ex_key CHR ''a'') Dial (Some (File ''o'' 384))
     (entry_at d' [''c''])"
proof -
  obtain d' where run: "pair_body (ex_services ex_approved) [''c''] ''receiver'' (ex_key CHR ''a'') Dial ex_configured_disk =
     (Inr (''Peer approved: receiver ('' @ ex_key CHR ''a'' @ '')''), d')" using ex_pair_body by blast
  have "dk_past ex_configured_disk = []" "last [''c''] \<noteq> ''.config-'' @ dk_suffix ex_configured_disk"
    by (simp_all add: ex_configured_disk_def)
  moreover have "entry_at ex_configured_disk [''c''] = Some (File ''o'' 384)"
    by (simp add: ex_configured_disk_def entry_at_def)
  ultimately show ?thesis using pair_keeps_config [OF run] by auto
qed

definition ex_locked :: kernel where
  "ex_locked = \<lparr>kn_handles = [(3, [''.peer.peer.runtime.lock''])], kn_owners = [([''.peer.peer.runtime.lock''], 3)],
     kn_next = 4, kn_faults = []\<rparr>"

definition ex_host :: host where
  "ex_host = \<lparr>ho_cwd = [], ho_environment = [], ho_home = ''/h'', ho_platform = ''linux'', ho_win32_join = concat\<rparr>"

theorem commands_respect_lock_witness:
  "\<exists>res k'. peerJoinCommand ex_host (ex_services ex_joined) ex_joining [''--state'', ''/peer''] (ex_root, ex_locked) =
     (res, [], ex_root, k') \<and> isl res"
proof -
  let ?run = "peerJoinCommand ex_host (ex_services ex_joined) ex_joining [''--state'', ''/peer'']"
  obtain res out d' k' where run: "?run (ex_root, ex_locked) = (res, out, d', k')" by (metis prod_cases4)
  have options: "parseArguments [''--state'', ''/peer''] [''--state'', ''--config''] = Inr [(''--state'', ''/peer'')]"
    by (simp add: parseArguments_def starts_with_def)
  have "kernel_inv ex_locked" by (auto simp: kernel_inv_def ex_locked_def map_wf_def split: if_splits)
  moreover have "map_get (kn_owners ex_locked) (peerRuntimeLockPath (state_option ex_host [(''--state'', ''/peer'')])) \<noteq> None"
    by (simp add: state_option_def path_resolve_def path_step_def starts_with_def peerRuntimeLockPath_def
        dirname_def basename_def ex_locked_def ex_host_def)
  ultimately show ?thesis using commands_respect_lock [OF disjI2 [OF refl] run _ options] run by simp
qed

end
