(* ===== verification/Cli_Runtime.thy ===== *)
theory Cli_Runtime
  imports Cli_Commands
begin

text \<open>
  The commands of \<open>src/cli/main.ts\<close> that run until they are told to stop, \<open>peer vpn\<close> and
  \<open>peer receiver\<close>, with \<open>src/cli/signals.ts\<close>.  A command is a machine: its promises are fields, and
  what it awaits are events, which may come in any order in which the code can meet them.
\<close>

section \<open>Before the lock\<close>

definition requireConfig :: "peer_config option \<Rightarrow> error + peer_config" where
  "requireConfig config =
     (case config of
        None \<Rightarrow> Inl ''peer vpn requires a config.toml''
      | Some c \<Rightarrow> parsePeerConfig (config_value c))"

text \<open>The state directory, the helper and the configuration that \<open>peer vpn\<close> starts with.\<close>

definition vpn_arguments :: "host \<Rightarrow> services \<Rightarrow> string list \<Rightarrow> (path \<times> path \<times> peer_config) io" where
  "vpn_arguments h s arguments =
     seq (of_result (parseArguments arguments [''--state'', ''--config'', ''--tun-helper''])) (\<lambda>options.
     seq (of_result (required options ''--tun-helper'')) (\<lambda>helper.
     seq (load_config s (config_option h options)) (\<lambda>found.
     seq (of_result (requireConfig found)) (\<lambda>config.
       return (state_option h options, path_resolve (ho_cwd h) helper, config)))))"

text \<open>The same for \<open>peer receiver\<close>, which also needs a pool.\<close>

definition receiver_arguments :: "host \<Rightarrow> services \<Rightarrow> string list \<Rightarrow> (path \<times> path \<times> string \<times> peer_config) io" where
  "receiver_arguments h s arguments =
     seq (of_result (parseArguments arguments [''--state'', ''--config'', ''--tun-helper'', ''--pool''])) (\<lambda>options.
     seq (load_config s (config_option h options)) (\<lambda>found.
     seq (of_result (requireConfig found)) (\<lambda>config.
     seq (of_result (required options ''--tun-helper'')) (\<lambda>helper.
     seq (of_result (required options ''--pool'')) (\<lambda>pool.
       return (state_option h options, path_resolve (ho_cwd h) helper, pool, config))))))"

section \<open>Waiting for a signal\<close>

text \<open>
  \<open>waitForSignal\<close>: the first signal calls \<open>stop\<close>, whose outcome settles the wait, as aborting does;
  each of the signals is listened to once.
\<close>

datatype wait_event = Signal string | Stop_settled "error option" | Aborted

record waiting =
  wt_listening :: "string list"
  wt_stopping :: bool
  wt_result :: "error option option"

definition signals :: "string \<Rightarrow> string list" where
  "signals platform =
     (if platform = ''win32'' then [''SIGINT'', ''SIGTERM'', ''SIGBREAK''] else [''SIGINT'', ''SIGTERM''])"

definition new_wait :: "string \<Rightarrow> bool \<Rightarrow> waiting" where
  "new_wait platform aborted =
     \<lparr>wt_listening = if aborted then [] else signals platform, wt_stopping = False,
      wt_result = if aborted then Some None else None\<rparr>"

definition wait_settle :: "error option \<Rightarrow> waiting \<Rightarrow> waiting" where
  "wait_settle result w =
     (if wt_result w = None then w\<lparr>wt_result := Some result, wt_listening := []\<rparr> else w)"

text \<open>The new state and whether \<open>stop\<close> is called.\<close>

fun wait_step :: "wait_event \<Rightarrow> waiting \<Rightarrow> waiting \<times> bool" where
  "wait_step (Signal s) w =
     (if s \<in> set (wt_listening w)
      then (w\<lparr>wt_listening := removeAll s (wt_listening w), wt_stopping := True\<rparr>, \<not> wt_stopping w)
      else (w, False))"
| "wait_step (Stop_settled result) w = (if wt_stopping w then (wait_settle result w, False) else (w, False))"
| "wait_step Aborted w = (wait_settle None w, False)"

section \<open>The state of a running command\<close>

text \<open>\<open>peer vpn\<close> reloads its configuration; \<open>peer receiver\<close> does not.\<close>

datatype runtime_kind = Vpn | Receiver

text \<open>What the reload task awaits, what the handler of the signal awaits, and how far the command is.\<close>

datatype reload = Reload_idle | Reload_loading | Reload_stopping peer_config | Reload_starting peer_config

datatype handler = Handler_none | Handler_waiting | Handler_stopping | Handler_done

datatype main_phase =
  Main_starting |
  Main_racing |
  Main_waiting "error option" |
  Main_stopping "error option" |
  Main_releasing "error option" |
  Main_ended "error option"

text \<open>
  \<open>cr_running\<close> is the variable \<open>running\<close>; \<open>cr_live\<close> has the instances that were started and whose
  stop has not succeeded, with the configuration they were started with.  \<open>cr_race\<close> is what has
  settled first, the signal or a failure.
\<close>

record cli_runtime =
  cr_kind :: runtime_kind
  cr_running :: "nat option"
  cr_live :: "(nat \<times> peer_config) list"
  cr_next :: nat
  cr_current :: peer_config
  cr_closing :: bool
  cr_race :: "error option option"
  cr_queue :: nat
  cr_reload :: reload
  cr_handler :: handler
  cr_main :: main_phase
  cr_locked :: bool
  cr_stop_failed :: bool
  cr_lines :: "string list"

definition new_runtime :: "runtime_kind \<Rightarrow> peer_config \<Rightarrow> cli_runtime" where
  "new_runtime kind config =
     \<lparr>cr_kind = kind, cr_running = None, cr_live = [], cr_next = 0, cr_current = config, cr_closing = False,
      cr_race = None, cr_queue = 0, cr_reload = Reload_idle, cr_handler = Handler_none, cr_main = Main_starting,
      cr_locked = True, cr_stop_failed = False, cr_lines = []\<rparr>"

section \<open>Parts of the steps\<close>

text \<open>\<open>start\<close>: the new instance; the answer of the runtime is its key and interface.\<close>

definition started_line :: "runtime_kind \<Rightarrow> string \<times> string \<Rightarrow> string" where
  "started_line kind instance =
     (case kind of
        Vpn \<Rightarrow> ''VPN running: key='' @ fst instance @ '' interface='' @ snd instance
      | Receiver \<Rightarrow> ''Receiver running'')"

definition start_instance :: "peer_config \<Rightarrow> string \<times> string \<Rightarrow> cli_runtime \<Rightarrow> cli_runtime" where
  "start_instance config instance r =
     r\<lparr>cr_running := Some (cr_next r), cr_live := (cr_next r, config) # cr_live r, cr_next := Suc (cr_next r),
       cr_lines := cr_lines r @ [started_line (cr_kind r) instance]\<rparr>"

text \<open>\<open>running.stop()\<close> with its outcome.\<close>

definition stop_instance :: "error option \<Rightarrow> cli_runtime \<Rightarrow> cli_runtime" where
  "stop_instance outcome r =
     (case outcome of
        None \<Rightarrow> r\<lparr>cr_live := filter (\<lambda>i. Some (fst i) \<noteq> cr_running r) (cr_live r)\<rparr>
      | Some _ \<Rightarrow> r\<lparr>cr_stop_failed := True\<rparr>)"

text \<open>Settling the race, which only the first does.\<close>

definition race_with :: "error option \<Rightarrow> cli_runtime \<Rightarrow> cli_runtime" where
  "race_with result r = (if cr_race r = None then r\<lparr>cr_race := Some result\<rparr> else r)"

definition begin_cleanup :: "error option \<Rightarrow> cli_runtime \<Rightarrow> cli_runtime" where
  "begin_cleanup result r = r\<lparr>cr_main := Main_waiting result, cr_closing := True\<rparr>"

text \<open>The reload queue is empty and nothing of it runs.\<close>

definition reload_settled :: "cli_runtime \<Rightarrow> bool" where
  "reload_settled r \<longleftrightarrow> cr_queue r = 0 \<and> cr_reload r = Reload_idle"

section \<open>Steps\<close>

datatype runtime_event =
  First_started "error + string \<times> string" |
  Tick |
  Reload_begins |
  Loaded "error + peer_config" |
  Reload_stopped "error option" |
  Reload_started "error + string \<times> string" |
  Instance_failed nat error |
  Signalled |
  Handler_ready |
  Handler_stopped "error option" |
  Race_won |
  Main_ready |
  Main_stopped "error option" |
  Lock_released "error option"

text \<open>The reload task.\<close>

definition reload_begins :: "cli_runtime \<Rightarrow> cli_runtime option" where
  "reload_begins r =
     (if cr_reload r = Reload_idle \<and> 0 < cr_queue r
      then Some (r\<lparr>cr_queue := cr_queue r - 1, cr_reload := if cr_closing r then Reload_idle else Reload_loading\<rparr>)
      else None)"

definition reload_loaded :: "error + peer_config \<Rightarrow> cli_runtime \<Rightarrow> cli_runtime option" where
  "reload_loaded outcome r =
     (if cr_reload r \<noteq> Reload_loading then None
      else
        (case outcome of
           Inl e \<Rightarrow> Some (race_with (Some e) (r\<lparr>cr_reload := Reload_idle\<rparr>))
         | Inr config \<Rightarrow>
             if config = cr_current r then Some (r\<lparr>cr_reload := Reload_idle\<rparr>)
             else if cr_running r = None then Some (r\<lparr>cr_current := config, cr_reload := Reload_starting config\<rparr>)
             else Some (r\<lparr>cr_reload := Reload_stopping config\<rparr>)))"

definition reload_stopped :: "error option \<Rightarrow> cli_runtime \<Rightarrow> cli_runtime option" where
  "reload_stopped outcome r =
     (case cr_reload r of
        Reload_stopping config \<Rightarrow>
          (case outcome of
             None \<Rightarrow>
               Some ((stop_instance None r)\<lparr>cr_running := None, cr_current := config,
                       cr_reload := Reload_starting config\<rparr>)
           | Some e \<Rightarrow> Some (race_with (Some e) ((stop_instance (Some e) r)\<lparr>cr_reload := Reload_idle\<rparr>)))
      | _ \<Rightarrow> None)"

definition reload_started :: "error + string \<times> string \<Rightarrow> cli_runtime \<Rightarrow> cli_runtime option" where
  "reload_started outcome r =
     (case cr_reload r of
        Reload_starting config \<Rightarrow>
          (case outcome of
             Inl e \<Rightarrow> Some (race_with (Some e) (r\<lparr>cr_reload := Reload_idle\<rparr>))
           | Inr instance \<Rightarrow> Some ((start_instance config instance r)\<lparr>cr_reload := Reload_idle\<rparr>))
      | _ \<Rightarrow> None)"

text \<open>The handler of the signal.\<close>

definition handler_ready :: "cli_runtime \<Rightarrow> cli_runtime option" where
  "handler_ready r =
     (if cr_handler r = Handler_waiting \<and> reload_settled r then
        (if cr_running r = None then Some (race_with None (r\<lparr>cr_handler := Handler_done\<rparr>))
         else Some (r\<lparr>cr_handler := Handler_stopping\<rparr>))
      else None)"

definition handler_stopped :: "error option \<Rightarrow> cli_runtime \<Rightarrow> cli_runtime option" where
  "handler_stopped outcome r =
     (if cr_handler r = Handler_stopping
      then Some (race_with outcome ((stop_instance outcome r)\<lparr>cr_handler := Handler_done\<rparr>)) else None)"

text \<open>The \<open>finally\<close> block: a later failure replaces an earlier one.\<close>

definition main_ready :: "cli_runtime \<Rightarrow> cli_runtime option" where
  "main_ready r =
     (case cr_main r of
        Main_waiting result \<Rightarrow>
          if \<not> reload_settled r then None
          else Some (r\<lparr>cr_main := if cr_running r = None then Main_releasing result else Main_stopping result\<rparr>)
      | _ \<Rightarrow> None)"

definition main_stopped :: "error option \<Rightarrow> cli_runtime \<Rightarrow> cli_runtime option" where
  "main_stopped outcome r =
     (case cr_main r of
        Main_stopping result \<Rightarrow>
          Some ((stop_instance outcome r)\<lparr>cr_main := Main_releasing (if outcome = None then result else outcome)\<rparr>)
      | _ \<Rightarrow> None)"

definition lock_released :: "error option \<Rightarrow> cli_runtime \<Rightarrow> cli_runtime option" where
  "lock_released outcome r =
     (case cr_main r of
        Main_releasing result \<Rightarrow>
          Some (r\<lparr>cr_main := Main_ended (if outcome = None then result else outcome), cr_locked := False\<rparr>)
      | _ \<Rightarrow> None)"

text \<open>
  The next state, if the command can meet the event.  Ticks of the timer and signals are tasks of the
  event loop.  Once something has settled the race, the command goes on with its \<open>finally\<close> block
  in the microtasks that follow, which clears the timer and removes the handler of the signals, so
  no task comes in between; reloads that are waiting may, since they are microtasks themselves.
\<close>

fun runtime_next :: "runtime_event \<Rightarrow> cli_runtime \<Rightarrow> cli_runtime option" where
  "runtime_next (First_started outcome) r =
     (if cr_main r \<noteq> Main_starting then None
      else
        (case outcome of
           Inl e \<Rightarrow> Some (begin_cleanup (Some e) r)
         | Inr instance \<Rightarrow> Some ((start_instance (cr_current r) instance r)\<lparr>cr_main := Main_racing\<rparr>)))"
| "runtime_next Tick r =
     (if cr_kind r = Vpn \<and> cr_main r = Main_racing \<and> \<not> cr_closing r \<and> cr_race r = None
      then Some (r\<lparr>cr_queue := Suc (cr_queue r)\<rparr>) else None)"
| "runtime_next Reload_begins r = reload_begins r"
| "runtime_next (Loaded outcome) r = reload_loaded outcome r"
| "runtime_next (Reload_stopped outcome) r = reload_stopped outcome r"
| "runtime_next (Reload_started outcome) r = reload_started outcome r"
| "runtime_next (Instance_failed i e) r =
     (if cr_running r = Some i \<and> cr_race r = None \<and> (cr_kind r = Receiver \<or> \<not> cr_closing r)
      then Some (race_with (Some e) r) else None)"
| "runtime_next Signalled r =
     (if cr_main r = Main_racing \<and> cr_handler r = Handler_none \<and> cr_race r = None
      then Some (r\<lparr>cr_handler := Handler_waiting, cr_closing := True\<rparr>) else None)"
| "runtime_next Handler_ready r = handler_ready r"
| "runtime_next (Handler_stopped outcome) r = handler_stopped outcome r"
| "runtime_next Race_won r =
     (case cr_race r of
        Some result \<Rightarrow> if cr_main r = Main_racing then Some (begin_cleanup result r) else None
      | None \<Rightarrow> None)"
| "runtime_next Main_ready r = main_ready r"
| "runtime_next (Main_stopped outcome) r = main_stopped outcome r"
| "runtime_next (Lock_released outcome) r = lock_released outcome r"

text \<open>A run of a command: what it meets, from the first state.\<close>

inductive runtime_run :: "cli_runtime \<Rightarrow> runtime_event list \<Rightarrow> cli_runtime \<Rightarrow> bool" where
  runtime_start: "runtime_run r [] r"
| runtime_step: "runtime_run r evs r1 \<Longrightarrow> runtime_next ev r1 = Some r2 \<Longrightarrow> runtime_run r (evs @ [ev]) r2"

section \<open>Cleaning up\<close>

text \<open>
  \<open>cleanupAll\<close> of \<open>src/runtime/cleanup.ts\<close>: every step is started, whatever the others do; when all
  have settled, the first failure in their order is the failure of the whole.
\<close>

definition cleanupAll :: "error option list \<Rightarrow> error option" where
  "cleanupAll results = (case find (\<lambda>r. r \<noteq> None) results of None \<Rightarrow> None | Some r \<Rightarrow> r)"

end
