(* ===== verification/Cli_Runtime_Properties.thy ===== *)
theory Cli_Runtime_Properties
  imports Cli_Runtime
begin

text \<open>
  A running command keeps at most one instance, under the lock, and once it is told to stop or has
  met a failure it ends after a bounded number of steps, with the lock released.
\<close>

section \<open>Waiting for a signal\<close>

text \<open>However many signals come, \<open>stop\<close> is called at most once.\<close>

fun wait_run :: "wait_event list \<Rightarrow> waiting \<Rightarrow> waiting \<times> nat" where
  "wait_run [] w = (w, 0)"
| "wait_run (ev # evs) w =
     (let (w1, called) = wait_step ev w; (w2, n) = wait_run evs w1 in (w2, (if called then 1 else 0) + n))"

lemma wait_run_stops: "snd (wait_run evs w) \<le> (if wt_stopping w then 0 else 1)"
proof (induction evs arbitrary: w)
  case (Cons ev evs)
  obtain w1 called where step: "wait_step ev w = (w1, called)" by fastforce
  then have "wt_stopping w1 = (wt_stopping w \<or> called)" "called \<longrightarrow> \<not> wt_stopping w"
    by (cases ev; auto simp: wait_settle_def split: if_splits)+
  with Cons.IH [of w1] step show ?case by (auto simp: split_beta split: if_splits)
qed simp

section \<open>The invariant\<close>

definition live_ok :: "cli_runtime \<Rightarrow> bool" where
  "live_ok r \<longleftrightarrow> cr_live r = [] \<or> (\<exists>i. cr_live r = [(i, cr_current r)] \<and> cr_running r = Some i)"

definition reload_ok :: "cli_runtime \<Rightarrow> bool" where
  "reload_ok r \<longleftrightarrow>
     (case cr_reload r of
        Reload_starting c \<Rightarrow> cr_running r = None \<and> c = cr_current r
      | Reload_stopping c \<Rightarrow> cr_running r \<noteq> None
      | _ \<Rightarrow> True)"

definition handler_ok :: "cli_runtime \<Rightarrow> bool" where
  "handler_ok r \<longleftrightarrow>
     (cr_handler r \<noteq> Handler_none \<longrightarrow> cr_closing r) \<and>
     (cr_handler r \<in> {Handler_stopping, Handler_done} \<longrightarrow> reload_settled r) \<and>
     (cr_handler r = Handler_stopping \<longrightarrow> cr_running r \<noteq> None) \<and>
     (cr_handler r = Handler_done \<longrightarrow> cr_race r \<noteq> None)"

text \<open>What has ended without an error has stopped its instance on a signal.\<close>

definition result_ok :: "error option \<Rightarrow> cli_runtime \<Rightarrow> bool" where
  "result_ok result r \<longleftrightarrow> (result = None \<longrightarrow> cr_handler r = Handler_done)"

definition main_ok :: "cli_runtime \<Rightarrow> bool" where
  "main_ok r \<longleftrightarrow>
     (cr_race r = Some None \<longrightarrow> cr_handler r = Handler_done) \<and>
     (case cr_main r of
        Main_starting \<Rightarrow>
          reload_settled r \<and> cr_running r = None \<and> cr_handler r = Handler_none \<and> \<not> cr_closing r \<and>
          cr_race r = None
      | Main_racing \<Rightarrow> cr_closing r \<longrightarrow> cr_handler r \<noteq> Handler_none
      | Main_waiting result \<Rightarrow> cr_closing r \<and> result_ok result r
      | Main_stopping result \<Rightarrow> cr_closing r \<and> reload_settled r \<and> cr_running r \<noteq> None \<and> result_ok result r
      | Main_releasing result \<Rightarrow>
          cr_closing r \<and> reload_settled r \<and> (cr_live r = [] \<or> (cr_stop_failed r \<and> result \<noteq> None)) \<and> result_ok result r
      | Main_ended result \<Rightarrow>
          cr_closing r \<and> reload_settled r \<and> (cr_live r = [] \<or> (cr_stop_failed r \<and> result \<noteq> None)) \<and> result_ok result r) \<and>
     (cr_locked r \<longleftrightarrow> (\<forall>result. cr_main r \<noteq> Main_ended result))"

definition runtime_ok :: "cli_runtime \<Rightarrow> bool" where
  "runtime_ok r \<longleftrightarrow>
     (cr_running r = None \<longrightarrow> cr_live r = []) \<and> live_ok r \<and> reload_ok r \<and> handler_ok r \<and> main_ok r"

lemmas runtime_oks = runtime_ok_def live_ok_def reload_ok_def handler_ok_def main_ok_def result_ok_def reload_settled_def

lemmas runtime_ops =
  reload_begins_def reload_loaded_def reload_stopped_def reload_started_def handler_ready_def handler_stopped_def
  main_ready_def main_stopped_def lock_released_def

text \<open>The fields that the parts of a step leave alone.\<close>

lemma stop_fields [simp]:
  "cr_running (stop_instance x r) = cr_running r" "cr_queue (stop_instance x r) = cr_queue r"
  "cr_reload (stop_instance x r) = cr_reload r" "cr_handler (stop_instance x r) = cr_handler r"
  "cr_main (stop_instance x r) = cr_main r" "cr_race (stop_instance x r) = cr_race r"
  "cr_closing (stop_instance x r) = cr_closing r" "cr_locked (stop_instance x r) = cr_locked r"
  "cr_current (stop_instance x r) = cr_current r"
  "cr_stop_failed (stop_instance x r) \<longleftrightarrow> cr_stop_failed r \<or> x \<noteq> None"
  by (cases x; simp add: stop_instance_def)+

lemma stop_live:
  "live_ok r \<Longrightarrow> cr_live (stop_instance x r) = (if x = None \<and> cr_running r \<noteq> None then [] else cr_live r)"
  by (cases x) (auto simp: live_ok_def stop_instance_def)

lemma race_fields [simp]:
  "cr_running (race_with x r) = cr_running r" "cr_queue (race_with x r) = cr_queue r"
  "cr_reload (race_with x r) = cr_reload r" "cr_handler (race_with x r) = cr_handler r"
  "cr_main (race_with x r) = cr_main r" "cr_live (race_with x r) = cr_live r"
  "cr_stop_failed (race_with x r) = cr_stop_failed r" "cr_closing (race_with x r) = cr_closing r"
  "cr_locked (race_with x r) = cr_locked r" "cr_current (race_with x r) = cr_current r"
  "cr_race (race_with x r) = (if cr_race r = None then Some x else cr_race r)"
  by (simp_all add: race_with_def)

lemma start_fields [simp]:
  "cr_running (start_instance c x r) = Some (cr_next r)" "cr_queue (start_instance c x r) = cr_queue r"
  "cr_reload (start_instance c x r) = cr_reload r" "cr_handler (start_instance c x r) = cr_handler r"
  "cr_main (start_instance c x r) = cr_main r" "cr_live (start_instance c x r) = (cr_next r, c) # cr_live r"
  "cr_stop_failed (start_instance c x r) = cr_stop_failed r" "cr_closing (start_instance c x r) = cr_closing r"
  "cr_locked (start_instance c x r) = cr_locked r" "cr_current (start_instance c x r) = cr_current r"
  "cr_race (start_instance c x r) = cr_race r"
  by (simp_all add: start_instance_def)

lemma cleanup_fields [simp]:
  "cr_running (begin_cleanup x r) = cr_running r" "cr_queue (begin_cleanup x r) = cr_queue r"
  "cr_reload (begin_cleanup x r) = cr_reload r" "cr_handler (begin_cleanup x r) = cr_handler r"
  "cr_main (begin_cleanup x r) = Main_waiting x" "cr_live (begin_cleanup x r) = cr_live r"
  "cr_stop_failed (begin_cleanup x r) = cr_stop_failed r" "cr_closing (begin_cleanup x r)"
  "cr_locked (begin_cleanup x r) = cr_locked r" "cr_current (begin_cleanup x r) = cr_current r"
  "cr_race (begin_cleanup x r) = cr_race r"
  by (simp_all add: begin_cleanup_def)

lemma new_runtime_ok: "runtime_ok (new_runtime kind config)"
  by (simp add: runtime_oks new_runtime_def)

text \<open>Each operation keeps the invariant.\<close>

lemma reload_begins_ok:
  assumes "runtime_ok r" and "reload_begins r = Some r'" shows "runtime_ok r'"
proof -
  from assms(2) have "cr_reload r = Reload_idle" "0 < cr_queue r"
    and r': "r' = r\<lparr>cr_queue := cr_queue r - 1, cr_reload := if cr_closing r then Reload_idle else Reload_loading\<rparr>"
    by (simp_all add: reload_begins_def split: if_splits)
  with assms(1) show ?thesis
    unfolding r' by (cases "cr_main r"; cases "cr_closing r") (auto simp: runtime_oks)
qed

lemma reload_loaded_ok:
  assumes ok: "runtime_ok r" and "reload_loaded outcome r = Some r'" shows "runtime_ok r'"
proof -
  have loading: "cr_reload r = Reload_loading" using assms(2) by (simp add: reload_loaded_def split: if_splits)
  have "runtime_ok (race_with (Some e) (r\<lparr>cr_reload := Reload_idle\<rparr>))" "runtime_ok (r\<lparr>cr_reload := Reload_idle\<rparr>)"
    "cr_running r = None \<Longrightarrow> runtime_ok (r\<lparr>cr_current := c, cr_reload := Reload_starting c\<rparr>)"
    "cr_running r \<noteq> None \<Longrightarrow> runtime_ok (r\<lparr>cr_reload := Reload_stopping c\<rparr>)" for e c
    using ok loading by (cases "cr_main r"; auto simp: runtime_oks)+
  with assms(2) loading show ?thesis by (auto simp: reload_loaded_def split: sum.splits if_splits)
qed

lemma reload_stopped_ok:
  assumes ok: "runtime_ok r" and "reload_stopped outcome r = Some r'" shows "runtime_ok r'"
proof -
  from assms(2) obtain c where stopping: "cr_reload r = Reload_stopping c"
    by (auto simp: reload_stopped_def split: reload.splits)
  have "live_ok r" using ok by (simp add: runtime_ok_def)
  note live = stop_live [OF this, of outcome]
  have "outcome = None \<Longrightarrow> runtime_ok ((stop_instance None r)\<lparr>cr_running := None, cr_current := c, cr_reload := Reload_starting c\<rparr>)"
    "outcome = Some e \<Longrightarrow> runtime_ok (race_with (Some e) ((stop_instance (Some e) r)\<lparr>cr_reload := Reload_idle\<rparr>))" for e
    using ok stopping live by (cases "cr_main r"; auto simp: runtime_oks)+
  with assms(2) stopping show ?thesis by (auto simp: reload_stopped_def split: option.splits)
qed

lemma reload_started_ok:
  assumes ok: "runtime_ok r" and "reload_started outcome r = Some r'" shows "runtime_ok r'"
proof -
  from assms(2) obtain c where starting: "cr_reload r = Reload_starting c"
    by (auto simp: reload_started_def split: reload.splits)
  have "runtime_ok (race_with (Some e) (r\<lparr>cr_reload := Reload_idle\<rparr>))"
    "runtime_ok ((start_instance c x r)\<lparr>cr_reload := Reload_idle\<rparr>)" for e x
    using ok starting by (cases "cr_main r"; auto simp: runtime_oks)+
  with assms(2) starting show ?thesis by (auto simp: reload_started_def split: sum.splits)
qed

lemma handler_ready_ok:
  assumes ok: "runtime_ok r" and "handler_ready r = Some r'" shows "runtime_ok r'"
proof -
  have waiting: "cr_handler r = Handler_waiting" "reload_settled r"
    using assms(2) by (simp_all add: handler_ready_def split: if_splits)
  have "cr_running r = None \<Longrightarrow> runtime_ok (race_with None (r\<lparr>cr_handler := Handler_done\<rparr>))"
    "cr_running r \<noteq> None \<Longrightarrow> runtime_ok (r\<lparr>cr_handler := Handler_stopping\<rparr>)"
    using ok waiting by (cases "cr_main r"; auto simp: runtime_oks)+
  with assms(2) waiting show ?thesis by (auto simp: handler_ready_def split: if_splits)
qed

lemma handler_stopped_ok:
  assumes ok: "runtime_ok r" and "handler_stopped outcome r = Some r'" shows "runtime_ok r'"
proof -
  have stopping: "cr_handler r = Handler_stopping"
    and r': "r' = race_with outcome ((stop_instance outcome r)\<lparr>cr_handler := Handler_done\<rparr>)"
    using assms(2) by (simp_all add: handler_stopped_def split: if_splits)
  have "live_ok r" using ok by (simp add: runtime_ok_def)
  then show ?thesis
    unfolding r' using ok stopping stop_live [of r outcome] by (cases "cr_main r") (auto simp: runtime_oks)
qed

lemma main_ready_ok:
  assumes ok: "runtime_ok r" and "main_ready r = Some r'" shows "runtime_ok r'"
proof -
  from assms(2) obtain result where "cr_main r = Main_waiting result" "reload_settled r"
    and r': "r' = r\<lparr>cr_main := if cr_running r = None then Main_releasing result else Main_stopping result\<rparr>"
    by (auto simp: main_ready_def split: main_phase.splits if_splits)
  with ok show ?thesis
    unfolding r' by (cases "cr_running r") (auto simp: runtime_oks)
qed

lemma main_stopped_ok:
  assumes ok: "runtime_ok r" and "main_stopped outcome r = Some r'" shows "runtime_ok r'"
proof -
  from assms(2) obtain result where stopping: "cr_main r = Main_stopping result"
    and r': "r' = (stop_instance outcome r)\<lparr>cr_main := Main_releasing (if outcome = None then result else outcome)\<rparr>"
    by (auto simp: main_stopped_def split: main_phase.splits)
  have "live_ok r" using ok by (simp add: runtime_ok_def)
  then show ?thesis
    unfolding r' using ok stopping stop_live [of r outcome] by (cases outcome) (auto simp: runtime_oks)
qed

lemma lock_released_ok:
  assumes ok: "runtime_ok r" and "lock_released outcome r = Some r'" shows "runtime_ok r'"
proof -
  from assms(2) obtain result where "cr_main r = Main_releasing result"
    and r': "r' = r\<lparr>cr_main := Main_ended (if outcome = None then result else outcome), cr_locked := False\<rparr>"
    by (auto simp: lock_released_def split: main_phase.splits)
  with ok show ?thesis unfolding r' by (cases outcome) (auto simp: runtime_oks)
qed

lemma runtime_next_ok:
  assumes ok: "runtime_ok r" and "runtime_next ev r = Some r'" shows "runtime_ok r'"
proof (cases ev)
  case (First_started outcome)
  then have starting: "cr_main r = Main_starting" using assms(2) by (simp split: if_splits)
  have "runtime_ok (begin_cleanup (Some e) r)"
    "runtime_ok ((start_instance (cr_current r) x r)\<lparr>cr_main := Main_racing\<rparr>)" for e x
    using ok starting by (auto simp: runtime_oks)
  with assms(2) First_started starting show ?thesis by (auto split: sum.splits)
next
  case Tick
  then have "cr_main r = Main_racing" "\<not> cr_closing r" and r': "r' = r\<lparr>cr_queue := Suc (cr_queue r)\<rparr>"
    using assms(2) by (simp_all split: if_splits)
  with ok show ?thesis unfolding r' by (cases "cr_reload r") (auto simp: runtime_oks)
next
  case (Instance_failed i e)
  then have "cr_race r = None" "cr_running r = Some i" and r': "r' = race_with (Some e) r"
    using assms(2) by (simp_all split: if_splits)
  with ok show ?thesis unfolding r' by (cases "cr_main r"; cases "cr_reload r") (auto simp: runtime_oks)
next
  case Signalled
  then have "cr_main r = Main_racing" "cr_handler r = Handler_none"
    and r': "r' = r\<lparr>cr_handler := Handler_waiting, cr_closing := True\<rparr>"
    using assms(2) by (simp_all split: if_splits)
  with ok show ?thesis unfolding r' by (cases "cr_reload r") (auto simp: runtime_oks)
next
  case Race_won
  with assms(2) obtain result where "cr_race r = Some result" "cr_main r = Main_racing" "r' = begin_cleanup result r"
    by (auto split: option.splits if_splits)
  with ok show ?thesis by (cases "cr_reload r") (auto simp: runtime_oks)
next
  case Reload_begins
  with assms show ?thesis by (simp add: reload_begins_ok)
next
  case (Loaded x)
  with assms show ?thesis by (simp add: reload_loaded_ok)
next
  case (Reload_stopped x)
  with assms show ?thesis by (simp add: reload_stopped_ok)
next
  case (Reload_started x)
  with assms show ?thesis by (simp add: reload_started_ok)
next
  case Handler_ready
  with assms show ?thesis by (simp add: handler_ready_ok)
next
  case (Handler_stopped x)
  with assms show ?thesis by (simp add: handler_stopped_ok)
next
  case Main_ready
  with assms show ?thesis by (simp add: main_ready_ok)
next
  case (Main_stopped x)
  with assms show ?thesis by (simp add: main_stopped_ok)
next
  case (Lock_released x)
  with assms show ?thesis by (simp add: lock_released_ok)
qed

lemma runtime_run_ok: "runtime_run r evs r' \<Longrightarrow> runtime_ok r \<Longrightarrow> runtime_ok r'"
  by (induction rule: runtime_run.induct) (auto intro: runtime_next_ok)

text \<open>The configurations that a command knows: the first one and those it has loaded.\<close>

definition known :: "peer_config \<Rightarrow> runtime_event list \<Rightarrow> peer_config \<Rightarrow> bool" where
  "known config evs c \<longleftrightarrow> c = config \<or> Loaded (Inr c) \<in> set evs"

lemma runtime_next_known:
  assumes "runtime_next ev r = Some r'" and "known config evs (cr_current r)"
    and "\<And>c. cr_reload r \<in> {Reload_stopping c, Reload_starting c} \<Longrightarrow> known config evs c"
  shows "known config (evs @ [ev]) (cr_current r') \<and>
    (\<forall>c. cr_reload r' \<in> {Reload_stopping c, Reload_starting c} \<longrightarrow> known config (evs @ [ev]) c)"
  using assms
  by (cases ev) (auto simp: runtime_ops known_def split: if_splits sum.splits option.splits reload.splits main_phase.splits)

lemma runtime_run_known:
  assumes "runtime_run (new_runtime kind config) evs r"
  shows "known config evs (cr_current r) \<and>
    (\<forall>c. cr_reload r \<in> {Reload_stopping c, Reload_starting c} \<longrightarrow> known config evs c)"
  using assms
proof (induction "new_runtime kind config" evs r rule: runtime_run.induct)
  case (runtime_step evs r1 ev r2)
  from runtime_next_known [OF runtime_step(3)] runtime_step(2) show ?case by blast
qed (simp add: new_runtime_def known_def)

text \<open>
  C8: A running command has at most one instance of the VPN, the one it knows, with the
  configuration that it regards as current: the one it was started with or one that it has loaded.
  It has an instance only while it holds the lock, unless stopping an instance has failed.  If it
  ends without an error, it was told to stop and no instance is left.
\<close>

theorem runtime_keeps_one_instance:
  assumes "runtime_run (new_runtime kind config) evs r"
  shows "(cr_live r = [] \<or> (\<exists>i. cr_live r = [(i, cr_current r)] \<and> cr_running r = Some i)) \<and>
    (cr_current r = config \<or> Loaded (Inr (cr_current r)) \<in> set evs) \<and>
    (cr_live r \<noteq> [] \<longrightarrow> cr_locked r \<or> cr_stop_failed r) \<and>
    (cr_main r = Main_ended None \<longrightarrow> Signalled \<in> set evs \<and> cr_live r = [])"
proof -
  have ok: "runtime_ok r" using runtime_run_ok [OF assms new_runtime_ok] .
  have "cr_handler r \<noteq> Handler_none \<longrightarrow> Signalled \<in> set evs"
    using assms
  proof (induction "new_runtime kind config" evs r rule: runtime_run.induct)
    case (runtime_step evs r1 ev r2)
    show ?case
    proof (cases "ev = Signalled")
      case False
      with runtime_step(3) have "cr_handler r2 \<noteq> Handler_none \<Longrightarrow> cr_handler r1 \<noteq> Handler_none"
        by (cases ev) (auto simp: runtime_ops split: if_splits sum.splits option.splits reload.splits main_phase.splits)
      with runtime_step(2) show ?thesis by auto
    qed simp
  qed (simp add: new_runtime_def)
  moreover have "cr_main r = Main_ended None \<longrightarrow> cr_handler r = Handler_done \<and> cr_live r = []"
    using ok by (auto simp: runtime_oks)
  moreover have "cr_live r \<noteq> [] \<longrightarrow> cr_locked r \<or> cr_stop_failed r"
    using ok by (auto simp: runtime_oks split: main_phase.splits)
  ultimately show ?thesis using ok runtime_run_known [OF assms] by (auto simp: runtime_ok_def live_ok_def known_def)
qed

section \<open>Termination\<close>

definition runtime_measure :: "cli_runtime \<Rightarrow> nat" where
  "runtime_measure r = 4 * cr_queue r +
     (case cr_reload r of Reload_idle \<Rightarrow> 0 | Reload_loading \<Rightarrow> 3 | Reload_stopping _ \<Rightarrow> 2 | Reload_starting _ \<Rightarrow> 1) +
     (case cr_handler r of Handler_waiting \<Rightarrow> 2 | Handler_stopping \<Rightarrow> 1 | _ \<Rightarrow> 0) +
     (case cr_main r of Main_starting \<Rightarrow> 5 | Main_racing \<Rightarrow> 4 | Main_waiting _ \<Rightarrow> 3 | Main_stopping _ \<Rightarrow> 2
      | Main_releasing _ \<Rightarrow> 1 | Main_ended _ \<Rightarrow> 0) +
     (if cr_race r = None then 1 else 0)"

text \<open>A command that is going to end, and stays so, and a step of it that goes down.\<close>

definition going :: "cli_runtime \<Rightarrow> bool" where
  "going r \<longleftrightarrow> cr_closing r \<or> cr_race r \<noteq> None"

definition goes_down :: "cli_runtime \<Rightarrow> cli_runtime \<Rightarrow> bool" where
  "goes_down r r' \<longleftrightarrow> (going r \<longrightarrow> going r' \<and> runtime_measure r' < runtime_measure r)"

lemma going_fields [simp]:
  "going (race_with x r)" "going (begin_cleanup x r)" "going (stop_instance x r) = going r"
  "going (start_instance c y r) = going r" "going (r\<lparr>cr_reload := rl\<rparr>) = going r"
  "going (r\<lparr>cr_queue := n\<rparr>) = going r" "going (r\<lparr>cr_main := m\<rparr>) = going r" "going (r\<lparr>cr_running := i\<rparr>) = going r"
  "going (r\<lparr>cr_current := c\<rparr>) = going r" "going (r\<lparr>cr_handler := h\<rparr>) = going r"
  "going (r\<lparr>cr_locked := b\<rparr>) = going r" "going (r\<lparr>cr_closing := True\<rparr>)"
  by (simp_all add: going_def)

lemma reload_goes_down:
  "reload_begins r = Some r' \<Longrightarrow> goes_down r r'"
  "reload_loaded loaded r = Some r' \<Longrightarrow> goes_down r r'"
  "reload_stopped stopped r = Some r' \<Longrightarrow> goes_down r r'"
  "reload_started started r = Some r' \<Longrightarrow> goes_down r r'"
  by (auto simp: goes_down_def runtime_ops runtime_measure_def split: if_splits sum.splits reload.splits option.splits)

lemma handler_goes_down:
  "handler_ready r = Some r' \<Longrightarrow> goes_down r r'"
  "handler_stopped outcome r = Some r' \<Longrightarrow> goes_down r r'"
  by (auto simp: goes_down_def runtime_ops runtime_measure_def split: if_splits)

lemma main_goes_down:
  "main_ready r = Some r' \<Longrightarrow> goes_down r r'"
  "main_stopped outcome r = Some r' \<Longrightarrow> goes_down r r'"
  "lock_released outcome r = Some r' \<Longrightarrow> goes_down r r'"
  by (auto simp: goes_down_def runtime_ops runtime_measure_def split: if_splits main_phase.splits)

lemma runtime_next_going:
  assumes "runtime_next ev r = Some r'" and "going r" and "runtime_ok r"
  shows "going r' \<and> runtime_measure r' < runtime_measure r"
proof (cases ev)
  case (First_started x)
  with assms show ?thesis by (simp add: runtime_ok_def main_ok_def going_def split: if_splits)
next
  case Tick
  with assms show ?thesis by (simp add: going_def split: if_splits)
next
  case (Instance_failed i e)
  then have "cr_race r = None" "r' = race_with (Some e) r" using assms(1) by (simp_all split: if_splits)
  with assms(2) show ?thesis by (simp add: runtime_measure_def)
next
  case Signalled
  with assms show ?thesis by (simp add: runtime_ok_def main_ok_def going_def split: if_splits)
next
  case Race_won
  with assms(1) obtain result where "cr_main r = Main_racing" "r' = begin_cleanup result r"
    by (auto split: option.splits if_splits)
  then show ?thesis by (simp add: runtime_measure_def)
next
  case Reload_begins
  with assms reload_goes_down(1) show ?thesis by (simp add: goes_down_def)
next
  case (Loaded x)
  with assms reload_goes_down(2) show ?thesis by (simp add: goes_down_def)
next
  case (Reload_stopped x)
  with assms reload_goes_down(3) show ?thesis by (simp add: goes_down_def)
next
  case (Reload_started x)
  with assms reload_goes_down(4) show ?thesis by (simp add: goes_down_def)
next
  case Handler_ready
  with assms handler_goes_down(1) show ?thesis by (simp add: goes_down_def)
next
  case (Handler_stopped x)
  with assms handler_goes_down(2) show ?thesis by (simp add: goes_down_def)
next
  case Main_ready
  with assms main_goes_down(1) show ?thesis by (simp add: goes_down_def)
next
  case (Main_stopped x)
  with assms main_goes_down(2) show ?thesis by (simp add: goes_down_def)
next
  case (Lock_released x)
  with assms main_goes_down(3) show ?thesis by (simp add: goes_down_def)
qed

text \<open>While it is going to end and has not ended, something can happen.\<close>

lemma runtime_progress:
  assumes "going r" and "runtime_ok r" and "\<forall>result. cr_main r \<noteq> Main_ended result"
  shows "\<exists>ev. runtime_next ev r \<noteq> None"
proof (cases "reload_settled r")
  case False
  show ?thesis
  proof (cases "cr_reload r")
    case Reload_idle
    with False show ?thesis
      by (intro exI [of _ Reload_begins]) (simp add: reload_settled_def reload_begins_def)
  next
    case Reload_loading
    then show ?thesis by (intro exI [of _ "Loaded (Inl [])"]) (simp add: reload_loaded_def)
  next
    case (Reload_stopping c)
    then show ?thesis by (intro exI [of _ "Reload_stopped None"]) (simp add: reload_stopped_def)
  next
    case (Reload_starting c)
    then show ?thesis by (intro exI [of _ "Reload_started (Inl [])"]) (simp add: reload_started_def)
  qed
next
  case True
  show ?thesis
  proof (cases "cr_main r")
    case Main_racing
    show ?thesis
    proof (cases "cr_handler r")
      case Handler_none
      with assms(1,2) Main_racing obtain result where "cr_race r = Some result"
        by (auto simp: runtime_ok_def main_ok_def going_def)
      with Main_racing show ?thesis by (intro exI [of _ Race_won]) simp
    next
      case Handler_waiting
      with True show ?thesis by (intro exI [of _ Handler_ready]) (simp add: handler_ready_def)
    next
      case Handler_stopping
      then show ?thesis by (intro exI [of _ "Handler_stopped None"]) (simp add: handler_stopped_def)
    next
      case Handler_done
      with assms(2) obtain result where "cr_race r = Some result" by (auto simp: runtime_ok_def handler_ok_def)
      with Main_racing show ?thesis by (intro exI [of _ Race_won]) simp
    qed
  next
    case (Main_waiting result)
    with True show ?thesis by (intro exI [of _ Main_ready]) (simp add: main_ready_def)
  next
    case (Main_stopping result)
    then show ?thesis by (intro exI [of _ "Main_stopped None"]) (simp add: main_stopped_def)
  next
    case (Main_releasing result)
    then show ?thesis by (intro exI [of _ "Lock_released None"]) (simp add: lock_released_def)
  qed (use assms in \<open>simp_all add: runtime_ok_def main_ok_def going_def\<close>)
qed

lemma runtime_run_measure:
  "runtime_run r evs r' \<Longrightarrow> going r \<Longrightarrow> runtime_ok r \<Longrightarrow>
     going r' \<and> runtime_ok r' \<and> length evs + runtime_measure r' \<le> runtime_measure r"
proof (induction rule: runtime_run.induct)
  case (runtime_step r evs r1 ev r2)
  then have r1: "going r1" "runtime_ok r1" "length evs + runtime_measure r1 \<le> runtime_measure r" by simp_all
  note step = runtime_step(2)
  from r1 runtime_next_going [OF step r1(1,2)] runtime_next_ok [OF r1(2) step] show ?case by simp
qed simp

text \<open>The events that end a command: a signal, and the failures that it may meet while it runs.\<close>

fun ends_command :: "runtime_event \<Rightarrow> bool" where
  "ends_command Signalled = True"
| "ends_command (First_started outcome) = isl outcome"
| "ends_command (Loaded outcome) = isl outcome"
| "ends_command (Reload_stopped outcome) = (outcome \<noteq> None)"
| "ends_command (Reload_started outcome) = isl outcome"
| "ends_command (Instance_failed i e) = True"
| "ends_command _ = False"

lemma ends_command_going:
  "runtime_next ev r = Some r' \<Longrightarrow> ends_command ev \<Longrightarrow> going r'"
  by (cases ev) (auto simp: runtime_ops split: if_splits sum.splits option.splits reload.splits)

lemma runtime_next_stays:
  "runtime_next ev r = Some r' \<Longrightarrow> going r \<Longrightarrow> going r'"
  by (cases ev) (auto simp: runtime_ops split: if_splits sum.splits option.splits reload.splits main_phase.splits)

lemma runtime_run_going: "runtime_run r0 evs r \<Longrightarrow> ev \<in> set evs \<Longrightarrow> ends_command ev \<Longrightarrow> going r"
  by (induction rule: runtime_run.induct) (auto intro: runtime_next_stays ends_command_going)

text \<open>
  C7: A command that has been told to stop, or has met a failure of its first start, of a reload or
  of the instance that it runs, ends: it meets at most ten events more, and four for each reload
  that is waiting, and it can always meet one until it has ended, with the lock released.
\<close>

theorem runtime_terminates:
  assumes "runtime_run (new_runtime kind config) evs r" and "ev \<in> set evs" and "ends_command ev" and "runtime_run r evs' r'"
  shows "length evs' \<le> 4 * cr_queue r + 10 \<and>
    ((\<exists>ev. runtime_next ev r' \<noteq> None) \<or> ((\<exists>result. cr_main r' = Main_ended result) \<and> \<not> cr_locked r'))"
proof -
  have ok: "runtime_ok r" using runtime_run_ok [OF assms(1) new_runtime_ok] .
  have going: "going r" using runtime_run_going [OF assms(1-3)] .
  then have main: "cr_main r \<noteq> Main_starting" using ok by (auto simp: runtime_ok_def main_ok_def going_def)
  note run = runtime_run_measure [OF assms(4) going ok]
  have "runtime_measure r \<le> 4 * cr_queue r + 10"
    using main by (auto simp: runtime_measure_def split: reload.split handler.split main_phase.split)
  with run have "length evs' \<le> 4 * cr_queue r + 10" by simp
  moreover have "(\<exists>ev. runtime_next ev r' \<noteq> None) \<or> ((\<exists>result. cr_main r' = Main_ended result) \<and> \<not> cr_locked r')"
  proof (cases "\<forall>result. cr_main r' \<noteq> Main_ended result")
    case True
    with run runtime_progress show ?thesis by blast
  next
    case False
    with run show ?thesis by (auto simp: runtime_ok_def main_ok_def)
  qed
  ultimately show ?thesis by blast
qed

section \<open>Examples\<close>

text \<open>A reload that replaces the instance, and then a signal.\<close>

definition ex_config_a :: peer_config where "ex_config_a = emptyPeerConfig"

definition ex_config_b :: peer_config where
  "ex_config_b = emptyPeerConfig\<lparr>pc_network := Some \<lparr>nw_bootstrap = None, nw_route = Some Public\<rparr>\<rparr>"

definition ex_running_events :: "runtime_event list" where
  "ex_running_events = [First_started (Inr (''k'', ''kep0'')), Tick, Reload_begins, Loaded (Inr ex_config_b),
     Reload_stopped None, Reload_started (Inr (''k'', ''kep1'')), Signalled]"

definition ex_ending_events :: "runtime_event list" where
  "ex_ending_events =
     [Handler_ready, Handler_stopped None, Race_won, Main_ready, Main_stopped None, Lock_released None]"

fun runtime_after :: "runtime_event list \<Rightarrow> cli_runtime \<Rightarrow> cli_runtime option" where
  "runtime_after [] r = Some r"
| "runtime_after (ev # evs) r = Option.bind (runtime_next ev r) (runtime_after evs)"

lemma runtime_after_run: "runtime_run r0 evs0 r \<Longrightarrow> runtime_after evs r = Some r' \<Longrightarrow> runtime_run r0 (evs0 @ evs) r'"
proof (induction evs arbitrary: evs0 r)
  case (Cons ev evs)
  then obtain r1 where "runtime_next ev r = Some r1" "runtime_after evs r1 = Some r'" by (auto simp: bind_eq_Some_conv)
  with Cons.IH [OF runtime_run.runtime_step [OF Cons.prems(1)]] show ?case by fastforce
qed simp

lemma ex_configs: "ex_config_a \<noteq> ex_config_b"
  by (simp add: ex_config_a_def ex_config_b_def emptyPeerConfig_def)

lemma ex_runtime_running:
  "\<exists>r. runtime_after ex_running_events (new_runtime Vpn ex_config_a) = Some r \<and> cr_closing r \<and> cr_queue r = 0 \<and>
     cr_live r = [(1, ex_config_b)] \<and>
     (\<exists>r'. runtime_after ex_ending_events r = Some r' \<and> cr_main r' = Main_ended None)"
  using ex_configs
  by (simp add: ex_running_events_def ex_ending_events_def new_runtime_def runtime_ops start_instance_def
      stop_instance_def race_with_def begin_cleanup_def reload_settled_def)

theorem runtime_keeps_one_instance_witness:
  "\<exists>r. runtime_after ex_running_events (new_runtime Vpn ex_config_a) = Some r \<and> cr_live r = [(1, cr_current r)] \<and>
     (cr_locked r \<or> cr_stop_failed r)"
proof -
  obtain r where r: "runtime_after ex_running_events (new_runtime Vpn ex_config_a) = Some r" "cr_live r = [(1, ex_config_b)]"
    using ex_runtime_running by blast
  from runtime_keeps_one_instance [OF runtime_after_run [OF runtime_run.runtime_start r(1)]] r show ?thesis by auto
qed

theorem runtime_terminates_witness:
  "\<exists>r r'. runtime_after ex_running_events (new_runtime Vpn ex_config_a) = Some r \<and>
     runtime_after ex_ending_events r = Some r' \<and> length ex_ending_events \<le> 10"
proof -
  obtain r r' where r: "runtime_after ex_running_events (new_runtime Vpn ex_config_a) = Some r"
      "cr_queue r = 0" "runtime_after ex_ending_events r = Some r'"
    using ex_runtime_running by blast
  note run = runtime_after_run [OF runtime_run.runtime_start r(1)]
  have "Signalled \<in> set ([] @ ex_running_events)" by (simp add: ex_running_events_def)
  from runtime_terminates [OF run this _ runtime_after_run [OF runtime_run.runtime_start r(3)]] r show ?thesis by simp
qed

end
