(* ===== verification/Worklet_Bridge.thy ===== *)
theory Worklet_Bridge
  imports Config_Toml Peer_State Pair
begin

text \<open>
  The bridge between the provider's process and one engine, \<open>src/vpn/worklet-bridge.ts\<close>.  Frames
  are read one by one; the start of the engine and its shutdown go on beside them.  What the bridge
  awaits are events of a machine, what it does are effects.  A control message is the value that
  \<open>JSON.parse\<close> gives, \<open>None\<close> when it throws.
\<close>

section \<open>State\<close>

datatype bridge_state = Initial | Settings | Starting | Running | Stopped

text \<open>The states in the order in which a bridge goes through them.\<close>

primrec bridge_rank :: "bridge_state \<Rightarrow> nat" where
  "bridge_rank Initial = 0"
| "bridge_rank Settings = 1"
| "bridge_rank Starting = 2"
| "bridge_rank Running = 3"
| "bridge_rank Stopped = 4"

lemma bridge_rank_inject: "bridge_rank x = bridge_rank y \<longleftrightarrow> x = y"
  by (cases x; cases y) simp_all

instantiation bridge_state :: linorder
begin

definition less_eq_bridge_state :: "bridge_state \<Rightarrow> bridge_state \<Rightarrow> bool" where
  "x \<le> y \<longleftrightarrow> bridge_rank x \<le> bridge_rank y"

definition less_bridge_state :: "bridge_state \<Rightarrow> bridge_state \<Rightarrow> bool" where
  "x < y \<longleftrightarrow> bridge_rank x < bridge_rank y"

instance
  by standard (auto simp: less_eq_bridge_state_def less_bridge_state_def bridge_rank_inject)

end

text \<open>The promise \<open>startup\<close>.\<close>

datatype startup = No_startup | Startup_pending | Startup_settled

text \<open>The promise \<open>stopped\<close>: what \<open>shutdown\<close> awaits, or how it has settled.\<close>

datatype shutdown = No_shutdown | Awaiting_startup | Awaiting_runtime | Shutdown_done "error option"

text \<open>What reading the frames awaits.\<close>

datatype reading = Reading | Awaiting_pair | Awaiting_stop | Reading_over

type_synonym key_pair = "bytes \<times> bytes"

record bridge =
  br_state :: bridge_state
  br_config :: "peer_config option"
  br_keyPair :: "key_pair option"
  br_startup :: startup
  br_runtime :: bool
  br_deliver :: bool
  br_stopping :: bool
  br_shutdown :: shutdown
  br_reading :: reading
  br_sink :: bool
  br_destroyed :: bool
  br_outcome :: "error option option"

definition new_bridge :: bridge where
  "new_bridge =
     \<lparr>br_state = Initial, br_config = None, br_keyPair = None, br_startup = No_startup, br_runtime = False,
      br_deliver = False, br_stopping = False, br_shutdown = No_shutdown, br_reading = Reading, br_sink = True,
      br_destroyed = False, br_outcome = None\<rparr>"

datatype bridge_effect =
  Bridge_send js |
  Bridge_pair string key_pair |
  Engine_begin peer_config key_pair |
  Engine_stop |
  Bridge_deliver bytes |
  Device_closed |
  Stream_destroyed

type_synonym bridge_result = "bridge \<times> bridge_effect list"

section \<open>Messages\<close>

definition message_of :: "string \<Rightarrow> (string \<times> js) list \<Rightarrow> js" where
  "message_of kind props = JObj ((''type'', JStr kind) # props)"

definition peer_setting :: "peer_definition \<Rightarrow> vpn_peer \<Rightarrow> js" where
  "peer_setting d entry =
     JObj [(''publicKey'', JStr (pf_publicKey d)), (''label'', JStr (pf_label d)),
           (''address'', JStr (vp_address entry)), (''connected'', JBool False)]"

definition settings_message :: "string \<Rightarrow> string \<Rightarrow> js list \<Rightarrow> js" where
  "settings_message publicKey addr peers =
     message_of ''settings'' [(''publicKey'', JStr publicKey), (''address'', JStr addr), (''peers'', JArr peers)]"

definition pair_reason :: "pair_failure option \<Rightarrow> string" where
  "pair_reason reason =
     (case reason of
        None \<Rightarrow> ''unknown''
      | Some f \<Rightarrow>
          (case f of
             Unusable \<Rightarrow> ''unusable'' | Unavailable \<Rightarrow> ''unavailable'' | Unknown \<Rightarrow> ''unknown''
           | Not_enrolled r \<Rightarrow> rejection_name r))"

text \<open>The answer to a pairing; a configuration without the fields that are read is a failure.\<close>

definition paired_message :: "pair_failure option + peer_config \<Rightarrow> js" where
  "paired_message result =
     (case result of
        Inl reason \<Rightarrow> message_of ''pair-error'' [(''reason'', JStr (pair_reason reason))]
      | Inr c \<Rightarrow>
          (case (pc_vpn c, pc_peers c) of
             (Some vpn, d # _) \<Rightarrow>
               (case vc_peers vpn of
                  entry # _ \<Rightarrow>
                    message_of ''paired'' [(''address'', JStr (vc_address vpn)),
                      (''receiverAddress'', JStr (vp_address entry)), (''receiverKey'', JStr (pf_publicKey d))]
                | [] \<Rightarrow> message_of ''pair-error'' [(''reason'', JStr ''unknown'')])
           | _ \<Rightarrow> message_of ''pair-error'' [(''reason'', JStr ''unknown'')]))"

section \<open>Shutting down\<close>

definition begin_shutdown :: "bridge \<Rightarrow> bridge" where
  "begin_shutdown b =
     (if br_shutdown b = No_shutdown
      then b\<lparr>br_state := Stopped, br_stopping := True, br_shutdown := Awaiting_startup\<rparr> else b)"

text \<open>The end of \<open>runWorkletBridge\<close>, once reading is over and \<open>shutdown\<close> has settled.\<close>

definition bridge_returns :: "bridge \<Rightarrow> bridge_result" where
  "bridge_returns b =
     (case br_shutdown b of
        Shutdown_done result \<Rightarrow>
          if br_reading b = Reading_over \<and> br_outcome b = None then
            (case result of
               None \<Rightarrow> (b\<lparr>br_destroyed := True, br_outcome := Some None\<rparr>, [Stream_destroyed])
             | Some e \<Rightarrow> (b\<lparr>br_outcome := Some (Some e)\<rparr>, []))
          else (b, [])
      | _ \<Rightarrow> (b, []))"

text \<open>Reading ends: with an error, that is told if the stream is still there, or without one.\<close>

definition end_reading :: "bool \<Rightarrow> bridge \<Rightarrow> bridge_result" where
  "end_reading failed b =
     (let (b1, out) = bridge_returns (begin_shutdown (b\<lparr>br_reading := Reading_over\<rparr>))
      in (b1, (if failed \<and> \<not> br_destroyed b then [Bridge_send (message_of ''error'' [])] else []) @ out))"

text \<open>The end of \<open>shutdown\<close>: whoever awaits it goes on.\<close>

definition shutdown_settles :: "error option \<Rightarrow> bridge \<Rightarrow> bridge_result" where
  "shutdown_settles result b =
     (let b1 = (case result of
                  None \<Rightarrow> b\<lparr>br_shutdown := Shutdown_done None, br_keyPair := None, br_sink := False\<rparr>
                | Some e \<Rightarrow> b\<lparr>br_shutdown := Shutdown_done (Some e)\<rparr>);
          closed = (if result = None then [Device_closed] else []) in
      if br_reading b = Awaiting_stop then
        (case result of
           None \<Rightarrow> (b1\<lparr>br_reading := Reading\<rparr>, closed @ [Bridge_send (message_of ''stopped'' [])])
         | Some _ \<Rightarrow> (let (b2, out) = end_reading True b1 in (b2, closed @ out)))
      else (let (b2, out) = bridge_returns b1 in (b2, closed @ out)))"

section \<open>Control messages\<close>

definition seed_ok :: "js \<Rightarrow> bool" where
  "seed_ok v = (case v of JStr seed \<Rightarrow> key_hex seed | _ \<Rightarrow> False)"

definition keyPairFromSeed :: "key_maker \<Rightarrow> js \<Rightarrow> key_pair" where
  "keyPairFromSeed keyPair v = (case v of JStr seed \<Rightarrow> keyPair (hex_decode seed) | _ \<Rightarrow> keyPair [])"

definition pair_control :: "key_maker \<Rightarrow> (string, js) js_map \<Rightarrow> bridge \<Rightarrow> error + bridge_result" where
  "pair_control keyPair value b =
     (case prop_of value ''invitation'' of
        JStr invitation \<Rightarrow>
          if joined_keys (map_keys value) \<noteq> ''invitation,seed,type'' \<or> length invitation > 256 \<or>
             \<not> seed_ok (prop_of value ''seed'')
          then Inl ''invalid pairing message''
          else
            (let kp = keyPairFromSeed keyPair (prop_of value ''seed'') in
             Inr (b\<lparr>br_state := Starting, br_keyPair := Some kp, br_reading := Awaiting_pair\<rparr>,
                  [Bridge_pair invitation kp]))
      | _ \<Rightarrow> Inl ''invalid pairing message'')"

text \<open>The peers of the settings, found as the engine finds its peers.\<close>

definition bridge_peer :: "string \<Rightarrow> peer_definition list \<Rightarrow> vpn_peer \<Rightarrow> error + js" where
  "bridge_peer publicKey definitions entry =
     (case find (\<lambda>d. pf_label d = vp_peer entry \<or> pf_publicKey d = vp_peer entry) definitions of
        None \<Rightarrow> Inl ''TypeError''
      | Some d \<Rightarrow> if pf_publicKey d = publicKey then Inl ''self peer'' else Inr (peer_setting d entry))"

definition start_control ::
  "key_maker \<Rightarrow> (string \<Rightarrow> error + js) \<Rightarrow> (string, js) js_map \<Rightarrow> bridge \<Rightarrow> error + bridge_result" where
  "start_control keyPair parse value b =
     (case prop_of value ''config'' of
        JStr source \<Rightarrow>
          if joined_keys (map_keys value) \<noteq> ''config,seed,type'' \<or> \<not> seed_ok (prop_of value ''seed'')
          then Inl ''invalid startup message''
          else
            (case parseKeposConfig parse source of
               Inl e \<Rightarrow> Inl e
             | Inr config \<Rightarrow>
                 (case pc_vpn config of
                    None \<Rightarrow> Inl ''missing VPN configuration''
                  | Some vpn \<Rightarrow>
                      (let kp = keyPairFromSeed keyPair (prop_of value ''seed'');
                           publicKey = hex_encode (fst kp) in
                       case all_ok (map (bridge_peer publicKey (pc_peers config)) (vc_peers vpn)) of
                         Inl e \<Rightarrow> Inl e
                       | Inr peers \<Rightarrow>
                           Inr (b\<lparr>br_state := Settings, br_config := Some config, br_keyPair := Some kp\<rparr>,
                                [Bridge_send (settings_message publicKey (vc_address vpn) peers)]))))
      | _ \<Rightarrow> Inl ''invalid startup message'')"

text \<open>
  A control message.  The fields that a message sets before it fails are not read again, since a
  failure ends the reading.
\<close>

definition control ::
  "key_maker \<Rightarrow> (string \<Rightarrow> error + js) \<Rightarrow> js option \<Rightarrow> bridge \<Rightarrow> error + bridge_result" where
  "control keyPair parse message b =
     (case message of
        Some (JObj value) \<Rightarrow>
          (let kind = prop_of value ''type'' in
           if kind = JStr ''pair'' \<and> br_state b = Initial then pair_control keyPair value b
           else if kind = JStr ''start'' \<and> br_state b = Initial then start_control keyPair parse value b
           else if kind = JStr ''ready'' \<and> length value = 1 \<and> br_state b = Settings then
             (case (br_config b, br_keyPair b) of
                (Some config, Some kp) \<Rightarrow>
                  Inr (b\<lparr>br_state := Starting, br_startup := Startup_pending\<rparr>, [Engine_begin config kp])
              | _ \<Rightarrow> Inl ''TypeError'')
           else if kind = JStr ''stop'' \<and> length value = 1 \<and> br_state b \<noteq> Stopped then
             Inr ((begin_shutdown b)\<lparr>br_reading := Awaiting_stop\<rparr>, [])
           else Inl ''unexpected control message'')
      | _ \<Rightarrow> Inl ''invalid control message'')"

section \<open>Steps\<close>

text \<open>
  \<open>Input_failed\<close> is the failure of the stream, of the framing or of an answer that reading awaits,
  \<open>Send_failed\<close> that of a message that a callback of the engine sends.  \<open>Device_receives\<close> and
  \<open>Device_closes\<close> are the engine's calls of its packet device.
\<close>

datatype bridge_event =
  Control "js option" |
  Packet bytes |
  Pairing_done "pair_failure option + peer_config" |
  Engine_started "error option" |
  Device_receives |
  Peer_status string string bool |
  Engine_failed |
  Diagnostic string |
  Startup_awaited |
  Runtime_stopped "error option" |
  Input_ended |
  Input_failed |
  Send_failed |
  Device_closes

fun bridge_step :: "key_maker \<Rightarrow> (string \<Rightarrow> error + js) \<Rightarrow> bridge_event \<Rightarrow> bridge \<Rightarrow> bridge_result" where
  "bridge_step keyPair parse (Control message) b =
     (if br_reading b \<noteq> Reading then (b, [])
      else (case control keyPair parse message b of Inl _ \<Rightarrow> end_reading True b | Inr result \<Rightarrow> result))"
| "bridge_step keyPair parse (Packet payload) b =
     (if br_reading b \<noteq> Reading then (b, [])
      else if br_state b \<noteq> Running \<or> \<not> br_deliver b \<or> length payload < 20 \<or> length payload > VPN_MTU
      then end_reading True b
      else (b, [Bridge_deliver payload]))"
| "bridge_step keyPair parse (Pairing_done result) b =
     (if br_reading b = Awaiting_pair then (b\<lparr>br_reading := Reading\<rparr>, [Bridge_send (paired_message result)])
      else (b, []))"
| "bridge_step keyPair parse (Engine_started outcome) b =
     (if br_startup b \<noteq> Startup_pending then (b, [])
      else
        (case outcome of
           Some _ \<Rightarrow> (b\<lparr>br_startup := Startup_settled, br_destroyed := True\<rparr>, [Stream_destroyed])
         | None \<Rightarrow>
             if br_stopping b then (b\<lparr>br_startup := Startup_settled, br_runtime := True\<rparr>, [])
             else (b\<lparr>br_startup := Startup_settled, br_runtime := True, br_state := Running\<rparr>,
                   [Bridge_send (message_of ''running'' [])])))"
| "bridge_step keyPair parse Device_receives b =
     (if br_startup b = No_startup then (b, []) else (b\<lparr>br_deliver := True\<rparr>, []))"
| "bridge_step keyPair parse (Peer_status key label connected) b =
     (if br_startup b = No_startup then (b, [])
      else (b, [Bridge_send (message_of ''peer''
                  [(''publicKey'', JStr key), (''label'', JStr label), (''connected'', JBool connected)])]))"
| "bridge_step keyPair parse Engine_failed b =
     (if br_state b = Running \<and> \<not> br_stopping b then (b\<lparr>br_destroyed := True\<rparr>, [Stream_destroyed]) else (b, []))"
| "bridge_step keyPair parse (Diagnostic name) b =
     (if br_sink b \<and> \<not> br_destroyed b then (b, [Bridge_send (message_of ''acceptance-diagnostic'' [(''event'', JStr name)])])
      else (b, []))"
| "bridge_step keyPair parse Startup_awaited b =
     (if br_shutdown b = Awaiting_startup \<and> br_startup b \<noteq> Startup_pending then
        (if br_runtime b then (b\<lparr>br_shutdown := Awaiting_runtime\<rparr>, [Engine_stop]) else shutdown_settles None b)
      else (b, []))"
| "bridge_step keyPair parse (Runtime_stopped outcome) b =
     (if br_shutdown b = Awaiting_runtime then shutdown_settles outcome b else (b, []))"
| "bridge_step keyPair parse Input_ended b =
     (if br_reading b = Reading then end_reading False b else (b, []))"
| "bridge_step keyPair parse Input_failed b =
     (if br_reading b = Reading then end_reading True b else (b, []))"
| "bridge_step keyPair parse Send_failed b =
     (if br_startup b = No_startup then (b, []) else (b\<lparr>br_destroyed := True\<rparr>, [Stream_destroyed]))"
| "bridge_step keyPair parse Device_closes b = (b\<lparr>br_deliver := False\<rparr>, [])"

fun bridge_run :: "key_maker \<Rightarrow> (string \<Rightarrow> error + js) \<Rightarrow> bridge_event list \<Rightarrow> bridge \<Rightarrow> bridge_result" where
  "bridge_run keyPair parse [] b = (b, [])"
| "bridge_run keyPair parse (ev # evs) b =
     (let (b1, out) = bridge_step keyPair parse ev b; (b2, out') = bridge_run keyPair parse evs b1
      in (b2, out @ out'))"

end
