(* ===== verification/Worklet_Bridge_Properties.thy ===== *)
theory Worklet_Bridge_Properties
  imports Worklet_Bridge Config_Engine Config_Toml_Properties Peer_State_Properties
begin

text \<open>
  What the provider may rely on: the engine that the bridge starts has the peers that the settings
  announced, no message depends on the seed beyond its public key, and a bridge that returns has
  stopped what it started and forgotten the keys.
\<close>

section \<open>The settings and the engine\<close>

definition announced_peer :: "peer \<Rightarrow> js" where
  "announced_peer p =
     JObj [(''publicKey'', JStr (pr_key p)), (''label'', JStr (pr_label p)),
           (''address'', JStr (pr_address p)), (''connected'', JBool False)]"

definition engine_settings :: "engine \<Rightarrow> js" where
  "engine_settings e = settings_message (en_peerKey e) (en_address e) (map announced_peer (en_peers e))"

lemma bridge_peer_engine:
  "bridge_peer key ds v = Inr x \<Longrightarrow> \<exists>p. engine_peer key ds v = Inr p \<and> announced_peer p = x"
  by (auto simp: bridge_peer_def engine_peer_def announced_peer_def peer_setting_def split: option.splits if_splits)

lemma bridge_peers_engine:
  "all_ok (map (bridge_peer key ds) vs) = Inr xs \<Longrightarrow>
   \<exists>ps. all_ok (map (engine_peer key ds) vs) = Inr ps \<and> map announced_peer ps = xs"
proof (induction vs arbitrary: xs)
  case (Cons v vs)
  then show ?case using bridge_peer_engine [of key ds v] by (fastforce simp: all_ok_Cons_iff)
qed simp

text \<open>The engine for a configuration and a key has been announced.\<close>

definition announced :: "peer_config \<Rightarrow> key_pair \<Rightarrow> bridge_effect list \<Rightarrow> bool" where
  "announced c kp out \<longleftrightarrow>
     (\<exists>e. start_engine (hex_encode (fst kp)) c False = Inr e \<and> Bridge_send (engine_settings e) \<in> set out)"

lemma announced_mono: "announced c kp out \<Longrightarrow> announced c kp (out @ out')"
  by (auto simp: announced_def)

section \<open>The invariant\<close>

text \<open>Every start of the engine comes after its announcement, and there is at most one.\<close>

definition begins :: "bridge_effect list \<Rightarrow> bridge_effect list" where
  "begins out = filter (\<lambda>x. case x of Engine_begin _ _ \<Rightarrow> True | _ \<Rightarrow> False) out"

definition stops :: "bridge_effect list \<Rightarrow> nat" where
  "stops out = count_list out Engine_stop"

lemma begins_append [simp]: "begins (xs @ ys) = begins xs @ begins ys" and begins_Nil [simp]: "begins [] = []"
  by (simp_all add: begins_def)

lemma stops_append [simp]: "stops (xs @ ys) = stops xs + stops ys" and stops_Nil [simp]: "stops [] = 0"
  by (simp_all add: stops_def)

lemma begins_Cons [simp]:
  "begins (Engine_begin c kp # out) = Engine_begin c kp # begins out" "begins (Engine_stop # out) = begins out"
  "begins (Bridge_send m # out) = begins out" "begins (Bridge_pair i kp # out) = begins out"
  "begins (Bridge_deliver p # out) = begins out" "begins (Device_closed # out) = begins out"
  "begins (Stream_destroyed # out) = begins out"
  by (simp_all add: begins_def)

lemma stops_Cons [simp]:
  "stops (Engine_begin c kp # out) = stops out" "stops (Engine_stop # out) = Suc (stops out)"
  "stops (Bridge_send m # out) = stops out" "stops (Bridge_pair i kp # out) = stops out"
  "stops (Bridge_deliver p # out) = stops out" "stops (Device_closed # out) = stops out"
  "stops (Stream_destroyed # out) = stops out"
  by (simp_all add: stops_def)

definition told_stopped :: "bridge_effect list \<Rightarrow> bool" where
  "told_stopped out \<longleftrightarrow> Bridge_send (message_of ''stopped'' []) \<in> set out"

lemma told_append [simp]: "told_stopped (xs @ ys) \<longleftrightarrow> told_stopped xs \<or> told_stopped ys"
  and told_Nil [simp]: "\<not> told_stopped []"
  by (auto simp: told_stopped_def)

lemma told_Cons [simp]:
  "told_stopped (Bridge_send m # out) \<longleftrightarrow> m = message_of ''stopped'' [] \<or> told_stopped out"
  "told_stopped (Engine_begin c kp # out) \<longleftrightarrow> told_stopped out" "told_stopped (Engine_stop # out) \<longleftrightarrow> told_stopped out"
  "told_stopped (Bridge_pair i kp # out) \<longleftrightarrow> told_stopped out" "told_stopped (Bridge_deliver p # out) \<longleftrightarrow> told_stopped out"
  "told_stopped (Device_closed # out) \<longleftrightarrow> told_stopped out" "told_stopped (Stream_destroyed # out) \<longleftrightarrow> told_stopped out"
  by (auto simp: told_stopped_def)

lemma start_control_announces:
  assumes "start_control keyPair parse value b = Inr (b', out)"
  obtains c kp where "b' = b\<lparr>br_state := Settings, br_config := Some c, br_keyPair := Some kp\<rparr>"
    and "announced c kp out" and "begins out = []" and "stops out = 0" and "\<not> told_stopped out"
proof -
  let ?kp = "keyPairFromSeed keyPair (prop_of value ''seed'')"
  let ?key = "hex_encode (fst ?kp)"
  from assms obtain c vpn peers where
      b': "b' = b\<lparr>br_state := Settings, br_config := Some c, br_keyPair := Some ?kp\<rparr>"
      and out: "out = [Bridge_send (settings_message ?key (vc_address vpn) peers)]"
      and vpn: "pc_vpn c = Some vpn"
      and peers: "all_ok (map (bridge_peer ?key (pc_peers c)) (vc_peers vpn)) = Inr peers"
    by (auto simp: start_control_def Let_def split: js.splits if_splits sum.splits option.splits)
  from bridge_peers_engine [OF peers] vpn out have "announced c ?kp out"
    by (fastforce simp: announced_def start_engine_def engine_peers_def engine_settings_def)
  then show thesis
    by (rule that [OF b']) (simp_all add: out settings_message_def message_of_def)
qed

definition begun_once :: "bridge_effect list \<Rightarrow> bool" where
  "begun_once out \<longleftrightarrow>
     (\<exists>pre c kp post. out = pre @ Engine_begin c kp # post \<and> announced c kp pre \<and> begins pre = [] \<and> begins post = [])"

definition history_ok :: "bridge \<Rightarrow> bridge_effect list \<Rightarrow> bool" where
  "history_ok b out \<longleftrightarrow>
     (if br_startup b = No_startup then begins out = [] else begun_once out) \<and>
     (br_state b \<in> {Initial, Settings} \<longrightarrow> br_startup b = No_startup) \<and>
     (br_state b = Settings \<longrightarrow>
        (\<exists>c kp. br_config b = Some c \<and> br_keyPair b = Some kp \<and> announced c kp out))"

text \<open>What has been started is stopped once, and only then is it said to be stopped.\<close>

definition shutdown_ok :: "bridge \<Rightarrow> bridge_effect list \<Rightarrow> bool" where
  "shutdown_ok b out \<longleftrightarrow>
     (case br_shutdown b of
        No_shutdown \<Rightarrow> stops out = 0 \<and> \<not> br_stopping b \<and> br_state b \<noteq> Stopped \<and> br_reading b \<in> {Reading, Awaiting_pair}
      | Awaiting_startup \<Rightarrow> stops out = 0 \<and> br_stopping b \<and> br_state b = Stopped \<and> br_reading b \<in> {Awaiting_stop, Reading_over}
      | Awaiting_runtime \<Rightarrow> stops out = 1 \<and> br_stopping b \<and> br_state b = Stopped \<and> br_reading b \<in> {Awaiting_stop, Reading_over} \<and>
          br_runtime b
      | Shutdown_done result \<Rightarrow>
          stops out = (if br_runtime b then 1 else 0) \<and> br_stopping b \<and> br_state b = Stopped \<and> br_startup b \<noteq> Startup_pending \<and>
          (if result = None then br_keyPair b = None \<and> \<not> br_sink b \<and> br_reading b \<in> {Reading, Reading_over}
           else br_reading b = Reading_over))"

definition life_ok :: "bridge \<Rightarrow> bridge_effect list \<Rightarrow> bool" where
  "life_ok b out \<longleftrightarrow>
     shutdown_ok b out \<and>
     (br_runtime b \<longrightarrow> br_startup b = Startup_settled) \<and>
     (told_stopped out \<longrightarrow> br_shutdown b = Shutdown_done None) \<and>
     (br_outcome b = None \<longrightarrow> (\<forall>result. br_reading b = Reading_over \<longrightarrow> br_shutdown b \<noteq> Shutdown_done result)) \<and>
     (\<forall>result. br_outcome b = Some result \<longrightarrow>
        br_reading b = Reading_over \<and> br_shutdown b = Shutdown_done result \<and> (result = None \<longrightarrow> br_destroyed b))"

lemma new_bridge_ok: "history_ok new_bridge []" "life_ok new_bridge []"
  by (simp_all add: history_ok_def life_ok_def shutdown_ok_def new_bridge_def)

section \<open>One step\<close>

text \<open>The end of \<open>shutdown\<close> and of reading, in terms of the fields.\<close>

lemma begin_shutdown_fields [simp]:
  "br_config (begin_shutdown b) = br_config b" "br_keyPair (begin_shutdown b) = br_keyPair b"
  "br_startup (begin_shutdown b) = br_startup b" "br_runtime (begin_shutdown b) = br_runtime b"
  "br_reading (begin_shutdown b) = br_reading b" "br_sink (begin_shutdown b) = br_sink b"
  "br_destroyed (begin_shutdown b) = br_destroyed b" "br_outcome (begin_shutdown b) = br_outcome b"
  "br_shutdown (begin_shutdown b) = (if br_shutdown b = No_shutdown then Awaiting_startup else br_shutdown b)"
  "br_state (begin_shutdown b) = (if br_shutdown b = No_shutdown then Stopped else br_state b)"
  "br_stopping (begin_shutdown b) \<longleftrightarrow> br_shutdown b = No_shutdown \<or> br_stopping b"
  by (simp_all add: begin_shutdown_def)

text \<open>What the two parts leave alone, and what they may not do.\<close>

definition still :: "bridge_effect list \<Rightarrow> bool" where
  "still out \<longleftrightarrow> begins out = [] \<and> stops out = 0 \<and> \<not> told_stopped out"

definition keeps_start :: "bridge \<Rightarrow> bridge \<Rightarrow> bool" where
  "keeps_start b b' \<longleftrightarrow> br_startup b' = br_startup b \<and>
     (br_state b' = br_state b \<and> br_config b' = br_config b \<and> br_keyPair b' = br_keyPair b \<or>
      br_state b' \<notin> {Initial, Settings})"

lemma begun_once_mono: "begun_once out \<Longrightarrow> begins out' = [] \<Longrightarrow> begun_once (out @ out')"
  unfolding begun_once_def by (metis append.assoc append_Cons append_Nil2 begins_append)

lemma keeps_start_history:
  "keeps_start b b' \<Longrightarrow> begins out' = [] \<Longrightarrow> history_ok b out \<Longrightarrow> history_ok b' (out @ out')"
  by (auto simp: keeps_start_def history_ok_def begun_once_mono announced_mono split: if_splits)

lemma bridge_returns_keeps:
  assumes "bridge_returns b = (b', out)"
  shows "still out" and "keeps_start b b'"
  using assms by (auto simp: bridge_returns_def still_def keeps_start_def split: shutdown.splits option.splits if_splits)

lemma end_reading_keeps:
  assumes "end_reading failed b = (b', out)"
  shows "still out" and "keeps_start b b'"
proof -
  let ?b = "begin_shutdown (b\<lparr>br_reading := Reading_over\<rparr>)"
  obtain b1 out1 where r: "bridge_returns ?b = (b1, out1)" by fastforce
  with assms have b': "b' = b1" and out: "out = (if failed \<and> \<not> br_destroyed b then [Bridge_send (message_of ''error'' [])] else []) @ out1"
    by (auto simp: end_reading_def)
  show "still out" using bridge_returns_keeps(1) [OF r] by (simp add: out still_def message_of_def)
  show "keeps_start b b'" using bridge_returns_keeps(2) [OF r] by (auto simp: b' keeps_start_def split: if_splits)
qed

lemma end_reading_facts:
  "end_reading failed b = (b', out) \<Longrightarrow> begins out = [] \<and> stops out = 0 \<and> \<not> told_stopped out \<and> keeps_start b b'"
  using end_reading_keeps unfolding still_def by blast

lemma shutdown_settles_keeps:
  assumes "shutdown_settles result b = (b', out)" and "br_state b = Stopped"
  shows "begins out = []" and "stops out = 0" and "keeps_start b b'"
    and "told_stopped out \<Longrightarrow> result = None \<and> br_reading b = Awaiting_stop"
proof -
  have end_ok: "still out1 \<and> keeps_start c b1" if "end_reading f c = (b1, out1)" for f c b1 out1
    using end_reading_keeps [OF that] by blast
  have returns_ok: "still out1 \<and> keeps_start c b1" if "bridge_returns c = (b1, out1)" for c b1 out1
    using bridge_returns_keeps [OF that] by blast
  show "begins out = []" "stops out = 0" "keeps_start b b'"
    "told_stopped out \<Longrightarrow> result = None \<and> br_reading b = Awaiting_stop"
    using assms
    by (auto simp: shutdown_settles_def Let_def keeps_start_def still_def
        split: option.splits if_splits prod.splits dest!: end_ok returns_ok)
qed

lemma settles_facts:
  "shutdown_settles result b = (b', out) \<Longrightarrow> br_state b = Stopped \<longrightarrow> begins out = [] \<and> keeps_start b b'"
  using shutdown_settles_keeps by blast

lemma control_history:
  assumes "control keyPair parse message b = Inr (b', out')" and "history_ok b out" and "life_ok b out"
  shows "history_ok b' (out @ out')"
proof -
  from assms(1) obtain props where message: "message = Some (JObj props)"
    by (auto simp: control_def split: option.splits js.splits)
  note c = assms(1) [unfolded message control_def, simplified option.case js.case Let_def]
  from c consider
      (pair) "br_state b = Initial" "pair_control keyPair props b = Inr (b', out')"
    | (start) "br_state b = Initial" "start_control keyPair parse props b = Inr (b', out')"
    | (ready) config kp where "br_state b = Settings" "br_config b = Some config" "br_keyPair b = Some kp"
        "b' = b\<lparr>br_state := Starting, br_startup := Startup_pending\<rparr>" "out' = [Engine_begin config kp]"
    | (stop) "br_state b \<noteq> Stopped" "b' = (begin_shutdown b)\<lparr>br_reading := Awaiting_stop\<rparr>" "out' = []"
    by (auto split: if_splits option.splits)
  then show ?thesis
  proof cases
    case pair
    then have "keeps_start b b'" "begins out' = []"
      by (auto simp: pair_control_def keeps_start_def Let_def split: js.splits if_splits)
    then show ?thesis using assms(2) by (rule keeps_start_history)
  next
    case start
    then obtain c kp where "b' = b\<lparr>br_state := Settings, br_config := Some c, br_keyPair := Some kp\<rparr>"
        "announced c kp out'" "begins out' = []"
      by (auto elim: start_control_announces)
    with assms(2) start(1) show ?thesis by (auto simp: history_ok_def announced_def)
  next
    case ready
    with assms(2) have "announced config kp out" "begins out = []" by (auto simp: history_ok_def)
    then have "begun_once (out @ out')" unfolding begun_once_def ready(5) by (metis begins_Nil)
    with ready(4) show ?thesis by (simp add: history_ok_def)
  next
    case stop
    then have "keeps_start b b'" "begins out' = []"
      by (simp_all add: keeps_start_def)
    then show ?thesis using assms(2) by (rule keeps_start_history)
  qed
qed

lemma bridge_step_history:
  assumes "bridge_step keyPair parse ev b = (b', out')" and "history_ok b out" and "life_ok b out"
  shows "history_ok b' (out @ out')"
proof (cases "\<exists>message. ev = Control message \<and> br_reading b = Reading \<and> (\<exists>x. control keyPair parse message b = Inr x)")
  case True
  with assms control_history show ?thesis by auto
next
  case False
  have stopped: "br_state b = Stopped" if "br_shutdown b \<in> {Awaiting_startup, Awaiting_runtime}"
    using assms(3) that by (auto simp: life_ok_def shutdown_ok_def)
  have settings: "br_startup b = No_startup" if "br_state b \<in> {Initial, Settings}"
    using assms(2) that by (auto simp: history_ok_def)
  show ?thesis
  proof (cases "br_startup b = Startup_pending \<and> (\<exists>x. ev = Engine_started x)")
    case True
    with assms(1,2) settings show ?thesis
      by (auto simp: history_ok_def begun_once_mono split: option.splits if_splits)
  next
    case other: False
    have "keeps_start b b' \<and> begins out' = []"
    proof (cases ev)
      case (Control message)
      with assms(1) False show ?thesis
        by (auto simp: keeps_start_def split: if_splits sum.splits dest!: end_reading_facts)
    qed (use assms(1) other stopped in \<open>auto simp: keeps_start_def still_def message_of_def
        split: if_splits option.splits dest!: end_reading_facts settles_facts\<close>)
    then show ?thesis using keeps_start_history assms(2) by blast
  qed
qed

text \<open>The life of what has been started.\<close>

definition settled_ok :: "bridge \<Rightarrow> bridge_effect list \<Rightarrow> bool" where
  "settled_ok b out \<longleftrightarrow>
     shutdown_ok b out \<and> (br_runtime b \<longrightarrow> br_startup b = Startup_settled) \<and>
     (told_stopped out \<longrightarrow> br_shutdown b = Shutdown_done None) \<and> br_outcome b = None"

lemma still_shutdown: "stops out' = 0 \<Longrightarrow> shutdown_ok b (out @ out') = shutdown_ok b out"
  by (cases "br_shutdown b") (simp_all add: shutdown_ok_def)

lemma still_settled: "still out' \<Longrightarrow> settled_ok b (out @ out') = settled_ok b out"
  by (simp add: settled_ok_def still_def still_shutdown)

lemma bridge_returns_life:
  assumes "bridge_returns b = (b', out')" and "settled_ok b out"
  shows "life_ok b' (out @ out')"
  using assms
  by (auto simp: bridge_returns_def life_ok_def settled_ok_def shutdown_ok_def split: shutdown.splits option.splits if_splits)

lemma end_reading_life:
  assumes "end_reading failed b = (b', out')" and "settled_ok (begin_shutdown (b\<lparr>br_reading := Reading_over\<rparr>)) out"
  shows "life_ok b' (out @ out')"
proof -
  let ?b = "begin_shutdown (b\<lparr>br_reading := Reading_over\<rparr>)"
  let ?told = "if failed \<and> \<not> br_destroyed b then [Bridge_send (message_of ''error'' [])] else []"
  obtain b1 out1 where r: "bridge_returns ?b = (b1, out1)" by fastforce
  have "still ?told" by (simp add: still_def message_of_def)
  with assms(2) have "settled_ok ?b (out @ ?told)" by (simp add: still_settled)
  with r have "life_ok b1 ((out @ ?told) @ out1)" by (rule bridge_returns_life)
  with assms(1) r show ?thesis by (auto simp: end_reading_def)
qed

lemma life_settled:
  "life_ok b out \<Longrightarrow> br_reading b = Reading \<Longrightarrow> settled_ok (begin_shutdown (b\<lparr>br_reading := Reading_over\<rparr>)) out"
  by (auto simp: life_ok_def settled_ok_def shutdown_ok_def split: shutdown.splits if_splits)

lemma shutdown_settles_life:
  assumes "shutdown_settles result b = (b', out')" and "life_ok b out"
    and "br_shutdown b = Awaiting_startup \<and> \<not> br_runtime b \<and> br_startup b \<noteq> Startup_pending \<or> br_shutdown b = Awaiting_runtime"
  shows "life_ok b' (out @ out')"
proof (cases result)
  case None
  let ?b = "b\<lparr>br_shutdown := Shutdown_done None, br_keyPair := None, br_sink := False\<rparr>"
  have ok: "settled_ok ?b (out @ [Device_closed])" if "br_reading b = Reading_over"
    using assms(2,3) that by (auto simp: life_ok_def settled_ok_def shutdown_ok_def)
  obtain b1 out1 where r: "bridge_returns ?b = (b1, out1)" by fastforce
  show ?thesis
  proof (cases "br_reading b = Awaiting_stop")
    case True
    with assms(1) None have "b' = ?b\<lparr>br_reading := Reading\<rparr>" "out' = [Device_closed, Bridge_send (message_of ''stopped'' [])]"
      by (auto simp: shutdown_settles_def)
    with True assms(2,3) show ?thesis by (auto simp: life_ok_def shutdown_ok_def)
  next
    case False
    with assms(2,3) have "br_reading b = Reading_over" by (auto simp: life_ok_def shutdown_ok_def)
    moreover from False assms(1) None r have "b' = b1" "out' = Device_closed # out1"
      by (auto simp: shutdown_settles_def)
    ultimately show ?thesis using bridge_returns_life [OF r ok] by simp
  qed
next
  case (Some e)
  let ?b = "b\<lparr>br_shutdown := Shutdown_done (Some e)\<rparr>"
  have b: "begin_shutdown (?b\<lparr>br_reading := Reading_over\<rparr>) = ?b\<lparr>br_reading := Reading_over\<rparr>"
    by (simp add: begin_shutdown_def)
  have told: "\<not> told_stopped out" using assms(2,3) by (auto simp: life_ok_def)
  have ok: "settled_ok (?b\<lparr>br_reading := Reading_over\<rparr>) out"
    using assms(2,3) told by (auto simp: life_ok_def settled_ok_def shutdown_ok_def)
  obtain b1 out1 where r: "end_reading True ?b = (b1, out1)" by fastforce
  obtain b2 out2 where r2: "bridge_returns ?b = (b2, out2)" by fastforce
  have same: "?b = ?b\<lparr>br_reading := Reading_over\<rparr>" if "br_reading b = Reading_over" using that by simp
  show ?thesis
  proof (cases "br_reading b = Awaiting_stop")
    case True
    with assms(1) Some r have "b' = b1" "out' = out1" by (auto simp: shutdown_settles_def)
    with end_reading_life [OF r, unfolded b, OF ok] show ?thesis by simp
  next
    case False
    with assms(2,3) have "br_reading b = Reading_over" by (auto simp: life_ok_def shutdown_ok_def)
    with assms(1) Some r2 ok same bridge_returns_life [OF r2] show ?thesis by (auto simp: shutdown_settles_def)
  qed
qed

lemma still_life: "still out' \<Longrightarrow> life_ok b (out @ out') = life_ok b out"
  by (simp add: life_ok_def still_def still_shutdown)

lemma life_frame:
  assumes "life_ok b out" and "still out'" and "b' = b\<lparr>br_deliver := br_deliver b', br_destroyed := br_destroyed b'\<rparr>"
    and "br_destroyed b \<longrightarrow> br_destroyed b'"
  shows "life_ok b' (out @ out')"
proof -
  obtain d x where "b' = b\<lparr>br_deliver := d, br_destroyed := x\<rparr>" "br_destroyed b \<longrightarrow> x"
    using assms(3,4) by metis
  with assms(1) have "life_ok b' out"
    by (cases "br_shutdown b") (auto simp: life_ok_def shutdown_ok_def)
  with assms(2) show ?thesis by (simp add: still_life)
qed

lemma control_life:
  assumes "control keyPair parse message b = Inr (b', out')" and "life_ok b out" and "history_ok b out"
    and "br_reading b = Reading"
  shows "life_ok b' (out @ out')"
proof -
  from assms(1) obtain props where message: "message = Some (JObj props)"
    by (auto simp: control_def split: option.splits js.splits)
  note c = assms(1) [unfolded message control_def, simplified option.case js.case Let_def]
  have runtime: "br_state b \<in> {Initial, Settings} \<Longrightarrow> \<not> br_runtime b"
    using assms(2,3) by (auto simp: life_ok_def history_ok_def)
  have new: "br_state b \<noteq> Stopped \<Longrightarrow> br_shutdown b = No_shutdown"
    using assms(2) by (cases "br_shutdown b") (auto simp: life_ok_def shutdown_ok_def)
  from c consider
      (pair) "br_state b = Initial" "pair_control keyPair props b = Inr (b', out')"
    | (start) "br_state b = Initial" "start_control keyPair parse props b = Inr (b', out')"
    | (ready) config kp where "br_state b = Settings"
        "b' = b\<lparr>br_state := Starting, br_startup := Startup_pending\<rparr>" "out' = [Engine_begin config kp]"
    | (stop) "br_state b \<noteq> Stopped" "b' = (begin_shutdown b)\<lparr>br_reading := Awaiting_stop\<rparr>" "out' = []"
    by (auto split: if_splits option.splits)
  then show ?thesis
  proof cases
    case pair
    with new assms(2) show ?thesis
      by (auto simp: pair_control_def Let_def life_ok_def shutdown_ok_def split: js.splits if_splits)
  next
    case start
    then obtain c kp where "b' = b\<lparr>br_state := Settings, br_config := Some c, br_keyPair := Some kp\<rparr>" "still out'"
      by (auto elim: start_control_announces simp: still_def)
    with new start(1) assms(2) show ?thesis by (simp add: life_ok_def shutdown_ok_def still_def)
  next
    case ready
    with new runtime assms(2) show ?thesis by (simp add: life_ok_def shutdown_ok_def)
  next
    case stop
    with new assms(2) show ?thesis by (auto simp: life_ok_def shutdown_ok_def)
  qed
qed

lemma bridge_step_life:
  assumes "bridge_step keyPair parse ev b = (b', out')" and "life_ok b out" and "history_ok b out"
  shows "life_ok b' (out @ out')"
proof -
  have end_ok: "life_ok b' (out @ out')" if "end_reading f b = (b', out')" "br_reading b = Reading" for f
    using end_reading_life [OF that(1) life_settled [OF assms(2) that(2)]] .
  show ?thesis
  proof (cases ev)
    case (Control message)
    with assms end_ok control_life [OF _ assms(2,3)] show ?thesis by (auto split: if_splits sum.splits)
  next
    case (Engine_started outcome)
    with assms(1,2) show ?thesis
      by (cases "br_shutdown b") (auto simp: life_ok_def shutdown_ok_def message_of_def split: option.splits if_splits)
  next
    case Startup_awaited
    with assms(1,2) show ?thesis
      by (auto split: if_splits intro: shutdown_settles_life) (auto simp: life_ok_def shutdown_ok_def)
  next
    case (Runtime_stopped outcome)
    with assms(1,2) show ?thesis by (auto split: if_splits intro: shutdown_settles_life)
  next
    case (Pairing_done result)
    have "still [Bridge_send (paired_message result)]"
      by (simp add: still_def paired_message_def message_of_def split: sum.splits option.splits list.splits)
    with Pairing_done assms(1,2) still_life [of "[Bridge_send (paired_message result)]" b out] show ?thesis
      by (cases "br_shutdown b") (auto simp: life_ok_def shutdown_ok_def still_def split: if_splits)
  next
    case (Packet payload)
    with assms end_ok still_life [of "[Bridge_deliver payload]" b out] show ?thesis
      by (auto simp: still_def split: if_splits)
  next
    case Input_ended
    with assms end_ok show ?thesis by (auto split: if_splits)
  next
    case Input_failed
    with assms end_ok show ?thesis by (auto split: if_splits)
  next
    case (Diagnostic name)
    with assms(1) show ?thesis by (intro life_frame [OF assms(2)]) (auto simp: still_def message_of_def split: if_splits)
  qed (use assms(1) in \<open>intro life_frame [OF assms(2)]; auto simp: still_def message_of_def split: if_splits\<close>)+
qed

text \<open>A bridge never goes back to a state that it has left.\<close>

lemmas bridge_order = less_eq_bridge_state_def

lemma state_le_Stopped [simp]: "(x :: bridge_state) \<le> Stopped" and state_Initial_le [simp]: "Initial \<le> (x :: bridge_state)"
  by (cases x; simp add: bridge_order)+

lemma Settings_le_Starting [simp]: "Settings \<le> Starting"
  by (simp add: bridge_order)

lemma returns_forward: "bridge_returns b = (b', out) \<Longrightarrow> br_state b' = br_state b"
  by (auto simp: bridge_returns_def split: shutdown.splits option.splits if_splits)

lemma end_reading_forward: "end_reading failed b = (b', out) \<Longrightarrow> br_state b \<le> br_state b'"
  by (auto simp: end_reading_def split: prod.splits if_splits dest!: returns_forward)

lemma settles_forward: "shutdown_settles result b = (b', out) \<Longrightarrow> br_state b \<le> br_state b'"
  by (auto simp: shutdown_settles_def Let_def split: option.splits prod.splits if_splits
      dest!: returns_forward end_reading_forward)

lemma control_forward:
  "control keyPair parse message b = Inr (b', out) \<Longrightarrow> br_state b \<le> br_state b'"
  by (auto simp: control_def pair_control_def start_control_def Let_def begin_shutdown_def
      split: option.splits js.splits if_splits sum.splits)

theorem bridge_moves_forward:
  assumes "bridge_step keyPair parse ev b = (b', out')" and "life_ok b out"
  shows "br_state b \<le> br_state b'"
proof (cases ev)
  case (Engine_started outcome)
  have "br_state b \<noteq> Stopped" if "\<not> br_stopping b"
    using assms(2) that by (cases "br_shutdown b") (auto simp: life_ok_def shutdown_ok_def)
  with assms(1) Engine_started show ?thesis
    by (cases "br_state b") (auto simp: bridge_order split: option.splits if_splits)
qed (use assms(1) in \<open>auto split: if_splits sum.splits dest: end_reading_forward settles_forward control_forward\<close>)

lemma bridge_run_ok:
  assumes "bridge_run keyPair parse evs b = (b', out')" and "history_ok b out" and "life_ok b out"
  shows "history_ok b' (out @ out') \<and> life_ok b' (out @ out')"
  using assms
proof (induction evs arbitrary: b b' out out')
  case (Cons ev evs)
  obtain b1 o1 where step: "bridge_step keyPair parse ev b = (b1, o1)" by fastforce
  obtain b2 o2 where run: "bridge_run keyPair parse evs b1 = (b2, o2)" by fastforce
  from Cons.prems(1) step run have "b' = b2" "out' = o1 @ o2" by auto
  with Cons.IH [OF run bridge_step_history [OF step Cons.prems(2,3)] bridge_step_life [OF step Cons.prems(3,2)]]
  show ?case by simp
qed simp

lemmas new_run_ok = bridge_run_ok [OF _ new_bridge_ok, unfolded append_Nil]

section \<open>The started engine is the announced one\<close>

lemma begins_takeWhile:
  "begins pre = [] \<Longrightarrow> takeWhile (\<lambda>x. begins [x] = []) (pre @ Engine_begin c kp # post) = pre"
  by (induction pre) (auto simp: begins_def split: bridge_effect.splits if_splits)

lemma begins_unique:
  assumes "pre @ Engine_begin c kp # post = pre' @ Engine_begin c' kp' # post'" and "begins pre' = []" and "begins post' = []"
  shows "pre = pre' \<and> c = c' \<and> kp = kp' \<and> post = post'"
proof -
  have "begins pre @ Engine_begin c kp # begins post = [Engine_begin c' kp']"
    using arg_cong [OF assms(1), of begins] assms(2,3) by simp
  then have "begins pre = []" by (cases "begins pre") auto
  then have "pre = pre'"
    using arg_cong [OF assms(1), of "takeWhile (\<lambda>x. begins [x] = [])"] assms(2) by (simp only: begins_takeWhile)
  with assms(1) show ?thesis by simp
qed

text \<open>
  C3: The engine is started at most once, and only after the provider has been sent the settings of
  exactly that engine: the engine starts on the configuration without an error, and its own key and
  address and the key, label and address of each of its peers are those that were announced.
\<close>

theorem engine_is_announced:
  assumes "bridge_run keyPair parse evs new_bridge = (b, pre @ Engine_begin c kp # post)"
  shows "(\<exists>e. start_engine (hex_encode (fst kp)) c False = Inr e \<and> Bridge_send (engine_settings e) \<in> set pre) \<and>
    (\<forall>c' kp'. Engine_begin c' kp' \<notin> set pre \<and> Engine_begin c' kp' \<notin> set post)"
proof -
  let ?out = "pre @ Engine_begin c kp # post"
  have "history_ok b ?out" using new_run_ok [OF assms] by blast
  then have "begun_once ?out" by (auto simp: history_ok_def split: if_splits)
  then obtain c' kp' pre' post' where once: "?out = pre' @ Engine_begin c' kp' # post'" "announced c' kp' pre'"
      "begins pre' = []" "begins post' = []"
    by (auto simp: begun_once_def)
  from begins_unique [OF once(1,3,4)] once(2-4) have "announced c kp pre" "begins pre = []" "begins post = []"
    by auto
  then show ?thesis by (auto simp: announced_def begins_def filter_empty_conv)
qed

section \<open>Shutting down\<close>

text \<open>What is said to be stopped is stopped, and the keys are forgotten.\<close>

theorem stopped_is_clean:
  assumes "bridge_run keyPair parse evs new_bridge = (b, out)" and "told_stopped out \<or> br_outcome b = Some None"
  shows "br_keyPair b = None \<and> \<not> br_sink b \<and> br_startup b \<noteq> Startup_pending \<and>
    count_list out Engine_stop = (if br_runtime b then 1 else 0)"
proof -
  have "life_ok b out" using new_run_ok [OF assms(1)] by blast
  with assms(2) show ?thesis by (auto simp: life_ok_def shutdown_ok_def stops_def)
qed

lemma bridge_run_Cons:
  "fst (bridge_run keyPair parse (ev # evs) b) = fst (bridge_run keyPair parse evs (fst (bridge_step keyPair parse ev b)))"
  by (simp add: split_beta)

lemma end_reading_shuts_down:
  assumes "life_ok b out" and "br_reading b = Reading"
  obtains b1 out1 where "end_reading failed b = (b1, out1)" and "br_reading b1 = Reading_over"
    and "br_runtime b1 = br_runtime b" and "br_startup b1 = br_startup b"
    and "br_outcome b1 = Some None \<or> br_outcome b1 = None \<and> br_shutdown b1 = Awaiting_startup \<and> br_stopping b1"
proof -
  have "br_shutdown b = No_shutdown \<or> br_shutdown b = Shutdown_done None" "br_outcome b = None"
    using assms by (cases "br_shutdown b"; auto simp: life_ok_def shutdown_ok_def split: if_splits)+
  moreover obtain b1 out1 where r: "end_reading failed b = (b1, out1)" by fastforce
  ultimately show thesis
    by (intro that [OF r])
      (auto simp: end_reading_def bridge_returns_def Let_def split: prod.splits if_splits)
qed

text \<open>How reading may end: by the input or a message, or because a stop that was asked for has failed.\<close>

lemma reading_ends:
  assumes "bridge_step keyPair parse ending b = (b1, out1)" and "br_reading b \<noteq> Reading_over"
    and "br_reading b1 = Reading_over"
  obtains (reads) failed where "br_reading b = Reading" and "end_reading failed b = (b1, out1)"
  | (awaits) e where "br_reading b = Awaiting_stop" and "ending = Runtime_stopped (Some e)"
      and "br_shutdown b = Awaiting_runtime"
proof -
  have settles: "result \<noteq> None \<and> br_reading b = Awaiting_stop" if "shutdown_settles result b = (b1, out1)" for result
    using that assms(2,3) by (cases result) (auto simp: shutdown_settles_def bridge_returns_def Let_def split: if_splits)
  have controls: "br_reading b2 \<noteq> Reading_over"
    if "control keyPair parse message b = Inr (b2, out2)" and "br_reading b = Reading" for message b2 out2
    using that by (auto simp: control_def pair_control_def start_control_def Let_def
        split: option.splits js.splits if_splits sum.splits)
  show thesis
  proof (cases ending)
    case (Control message)
    with assms controls [of message b1 out1] show thesis
      by (cases "control keyPair parse message b") (auto split: if_splits intro: reads)
  next
    case (Startup_awaited)
    with assms settles [of None] show thesis by (auto split: if_splits)
  next
    case (Runtime_stopped outcome)
    with assms settles [of outcome] show thesis by (cases outcome) (auto split: if_splits intro: awaits)
  qed (use assms in \<open>auto split: if_splits option.splits intro: reads\<close>)
qed

text \<open>A shutdown that has settled stays so.\<close>

lemma settled_stays:
  assumes "br_shutdown b = Shutdown_done result" and "br_startup b \<noteq> Startup_pending"
  shows "bridge_run keyPair parse [Engine_started started, Startup_awaited, Runtime_stopped stopped] b = (b, [])"
  using assms by simp

lemma reading_over_returns:
  assumes "history_ok b out" and "life_ok b out" and "bridge_step keyPair parse ending b = (b1, out1)"
    and "br_reading b \<noteq> Reading_over" and "br_reading b1 = Reading_over"
    and "bridge_run keyPair parse [Engine_started started, Startup_awaited, Runtime_stopped stopped] b1 = (b', out')"
  shows "br_outcome b' = Some None \<or> (\<exists>e. br_outcome b' = Some (Some e) \<and>
      br_runtime b' \<and> (ending = Runtime_stopped (Some e) \<or> stopped = Some e))"
proof -
  have "bridge_run keyPair parse [ending] b = (b1, out1)" using assms(3) by simp
  from bridge_run_ok [OF this assms(1,2)] have ok1: "life_ok b1 (out @ out1)" by blast
  show ?thesis
    using assms(3,4,5)
  proof (cases rule: reading_ends)
    case (awaits e)
    with assms(3,5,2) have b1: "br_outcome b1 = Some (Some e)" "br_runtime b1"
      by (auto simp: shutdown_settles_def end_reading_def bridge_returns_def Let_def life_ok_def shutdown_ok_def
          split: prod.splits if_splits)
    with ok1 have "br_shutdown b1 = Shutdown_done (Some e)" "br_startup b1 \<noteq> Startup_pending"
      by (auto simp: life_ok_def shutdown_ok_def)
    from settled_stays [OF this] assms(6) b1 awaits(2) show ?thesis by simp
  next
    case (reads failed)
    obtain b2 out2 where b2: "end_reading failed b = (b2, out2)" "br_reading b2 = Reading_over"
        "br_runtime b2 = br_runtime b" "br_startup b2 = br_startup b"
        "br_outcome b2 = Some None \<or> br_outcome b2 = None \<and> br_shutdown b2 = Awaiting_startup \<and> br_stopping b2"
      by (rule end_reading_shuts_down [OF assms(2) reads(1)])
    with reads(2) have b1: "br_outcome b1 = Some None \<or>
        br_outcome b1 = None \<and> br_shutdown b1 = Awaiting_startup \<and> br_stopping b1" by simp
    show ?thesis
    proof (cases "br_outcome b1 = Some None")
      case True
      with ok1 have "br_shutdown b1 = Shutdown_done None" "br_startup b1 \<noteq> Startup_pending"
        by (auto simp: life_ok_def shutdown_ok_def)
      from settled_stays [OF this] assms(6) True show ?thesis by simp
    next
      case False
      with b1 have b1': "br_outcome b1 = None" "br_shutdown b1 = Awaiting_startup" "br_stopping b1" by blast+
      from assms(6) show ?thesis
        using assms(5) b1' by (cases started; cases stopped; cases "br_startup b1"; cases "br_runtime b1")
          (auto simp: shutdown_settles_def bridge_returns_def split: prod.splits)
    qed
  qed
qed

text \<open>
  C36: However the reading of the input ends - with the stream, by a failure of it, by a bad message
  or packet, or because stopping the engine at the host's request has failed - the bridge returns
  once the engine has started, or failed to, and its stop has settled, and it has asked the engine
  to stop exactly once if there is one.  When it returns without an error it has forgotten the keys,
  unset the diagnostics and closed the stream; the only error that it returns with is the one with
  which stopping the engine has failed.
\<close>

theorem bridge_shuts_down:
  assumes "bridge_run keyPair parse evs new_bridge = (b, out)" and "br_reading b \<noteq> Reading_over"
    and "bridge_step keyPair parse ending b = (b1, out1)" and "br_reading b1 = Reading_over"
    and "bridge_run keyPair parse [Engine_started started, Startup_awaited, Runtime_stopped stopped] b1 = (b', out')"
  shows "br_outcome b' \<noteq> None \<and>
    count_list (out @ out1 @ out') Engine_stop = (if br_runtime b' then 1 else 0) \<and>
    (br_outcome b' = Some None \<longrightarrow> br_keyPair b' = None \<and> \<not> br_sink b' \<and> br_destroyed b') \<and>
    (\<forall>e. br_outcome b' = Some (Some e) \<longrightarrow>
       br_runtime b' \<and> (ending = Runtime_stopped (Some e) \<or> stopped = Some e))"
proof -
  have ok: "history_ok b out" "life_ok b out" using new_run_ok [OF assms(1)] by blast+
  have "bridge_run keyPair parse [ending] b = (b1, out1)" using assms(3) by simp
  then have ok1: "history_ok b1 (out @ out1)" "life_ok b1 (out @ out1)" using bridge_run_ok [OF _ ok] by blast+
  have life: "life_ok b' (out @ out1 @ out')" using bridge_run_ok [OF assms(5) ok1] by simp
  note result = reading_over_returns [OF ok assms(3,2,4,5)]
  with life show ?thesis by (auto simp: life_ok_def shutdown_ok_def stops_def)
qed

text \<open>When stopping the engine fails, the keys stay and the stream is left open.\<close>

lemma failed_stop_keeps_keys:
  "shutdown_settles (Some e) (b\<lparr>br_reading := Reading_over, br_outcome := None\<rparr>) =
     (b\<lparr>br_reading := Reading_over, br_shutdown := Shutdown_done (Some e), br_outcome := Some (Some e)\<rparr>, [])"
  by (simp add: shutdown_settles_def bridge_returns_def)

section \<open>The seed stays inside\<close>

definition sent :: "bridge_effect list \<Rightarrow> js list" where
  "sent out = concat (map (\<lambda>x. case x of Bridge_send m \<Rightarrow> [m] | _ \<Rightarrow> []) out)"

lemma sent_simps [simp]:
  "sent [] = []" "sent (Bridge_send m # out) = m # sent out" "sent (Engine_begin c kp # out) = sent out"
  "sent (Engine_stop # out) = sent out" "sent (Bridge_pair i kp # out) = sent out"
  "sent (Bridge_deliver p # out) = sent out" "sent (Device_closed # out) = sent out"
  "sent (Stream_destroyed # out) = sent out" "sent (xs @ ys) = sent xs @ sent ys"
  by (simp_all add: sent_def)

text \<open>Two messages with the same properties, but for valid seeds of the same public key.\<close>

definition same_but_seed :: "key_maker \<Rightarrow> key_maker \<Rightarrow> js option \<Rightarrow> js option \<Rightarrow> bool" where
  "same_but_seed K K' m m' \<longleftrightarrow>
     (m = m' \<and> (\<forall>props. m = Some (JObj props) \<longrightarrow> \<not> seed_ok (prop_of props ''seed''))) \<or>
     (\<exists>props seed seed'. m = Some (JObj props) \<and> map_get props ''seed'' = Some seed \<and>
        m' = Some (JObj (map_set ''seed'' seed' props)) \<and> seed_ok seed \<and> seed_ok seed' \<and>
        fst (keyPairFromSeed K seed) = fst (keyPairFromSeed K' seed'))"

definition same_event :: "key_maker \<Rightarrow> key_maker \<Rightarrow> bridge_event \<Rightarrow> bridge_event \<Rightarrow> bool" where
  "same_event K K' ev ev' \<longleftrightarrow>
     (case ev of
        Control m \<Rightarrow> \<exists>m'. ev' = Control m' \<and> same_but_seed K K' m m'
      | _ \<Rightarrow> ev' = ev)"

definition same_bridge :: "bridge \<Rightarrow> bridge \<Rightarrow> bool" where
  "same_bridge b b' \<longleftrightarrow>
     b'\<lparr>br_keyPair := None\<rparr> = b\<lparr>br_keyPair := None\<rparr> \<and> map_option fst (br_keyPair b') = map_option fst (br_keyPair b)"

definition same_result :: "bridge_result \<Rightarrow> bridge_result \<Rightarrow> bool" where
  "same_result r r' \<longleftrightarrow> same_bridge (fst r) (fst r') \<and> sent (snd r') = sent (snd r)"

lemma same_bridgeE:
  assumes "same_bridge b b'"
  obtains kp where "b' = b\<lparr>br_keyPair := kp\<rparr>" and "map_option fst kp = map_option fst (br_keyPair b)"
  using assms by (intro that [of "br_keyPair b'"]; cases b; cases b') (simp_all add: same_bridge_def)

lemma same_returns: "same_bridge b b' \<Longrightarrow> same_result (bridge_returns b) (bridge_returns b')"
  by (erule same_bridgeE)
    (simp add: same_bridge_def same_result_def bridge_returns_def split: shutdown.splits option.splits)

lemma same_end_reading:
  assumes "same_bridge b b'"
  shows "same_result (end_reading failed b) (end_reading failed b')"
proof -
  let ?over = "\<lambda>b. begin_shutdown (b\<lparr>br_reading := Reading_over\<rparr>)"
  from assms have "same_bridge (?over b) (?over b')" and "br_destroyed b' = br_destroyed b"
    by (elim same_bridgeE; simp add: same_bridge_def begin_shutdown_def)+
  with same_returns [of "?over b" "?over b'"] show ?thesis
    by (simp add: end_reading_def same_result_def split_beta)
qed

lemma same_settles:
  assumes "same_bridge b b'"
  shows "same_result (shutdown_settles result b) (shutdown_settles result b')"
proof -
  let ?done = "\<lambda>b. case result of None \<Rightarrow> b\<lparr>br_shutdown := Shutdown_done None, br_keyPair := None, br_sink := False\<rparr>
      | Some e \<Rightarrow> b\<lparr>br_shutdown := Shutdown_done (Some e)\<rparr>"
  from assms have same: "same_bridge (?done b) (?done b')" "br_reading b' = br_reading b"
    by (elim same_bridgeE; simp add: same_bridge_def split: option.splits)+
  then have "same_bridge (?done b\<lparr>br_reading := Reading\<rparr>) (?done b'\<lparr>br_reading := Reading\<rparr>)"
    by (elim same_bridgeE) (simp add: same_bridge_def)
  with same same_returns [OF same(1)] same_end_reading [OF same(1), of True] show ?thesis
    by (cases result) (simp_all add: shutdown_settles_def same_result_def split_beta Let_def)
qed

lemma reseeded:
  assumes "map_get props ''seed'' = Some seed" and "props' = map_set ''seed'' seed' props"
  shows "map_keys props' = map_keys props" and "length props' = length props"
    and "prop_of props' ''seed'' = seed'" and "prop_of props ''seed'' = seed"
    and "k \<noteq> ''seed'' \<Longrightarrow> prop_of props' k = prop_of props k"
proof -
  have "''seed'' \<in> set (map_keys props)" using assms(1) by (metis jm.key_iff option.distinct(1))
  then show keys: "map_keys props' = map_keys props" by (simp add: assms(2) update_keys)
  then show "length props' = length props" by (metis length_map)
qed (use assms in \<open>simp_all add: prop_of_def map_simps\<close>)

lemma same_pair:
  assumes "same_bridge b b'" and "map_get props ''seed'' = Some seed" and "seed_ok seed" and "seed_ok seed'"
    and "fst (keyPairFromSeed K seed) = fst (keyPairFromSeed K' seed')"
  shows "rel_sum (\<lambda>_ _. True) same_result (pair_control K props b) (pair_control K' (map_set ''seed'' seed' props) b')"
  using assms(1,3-5)
  by (elim same_bridgeE)
    (simp add: pair_control_def Let_def reseeded [OF assms(2) refl] same_result_def same_bridge_def split: js.splits)

lemma same_start:
  assumes "same_bridge b b'" and "map_get props ''seed'' = Some seed" and "seed_ok seed" and "seed_ok seed'"
    and "fst (keyPairFromSeed K seed) = fst (keyPairFromSeed K' seed')"
  shows "rel_sum (\<lambda>_ _. True) same_result (start_control K parse props b)
    (start_control K' parse (map_set ''seed'' seed' props) b')"
  using assms(1,3-5)
  by (elim same_bridgeE)
    (simp add: start_control_def Let_def reseeded [OF assms(2) refl] same_result_def same_bridge_def
      split: js.splits sum.splits option.splits)

lemma unseeded:
  assumes "\<not> seed_ok (prop_of props ''seed'')"
  shows "\<exists>e. pair_control K props b = Inl e" and "\<exists>e. start_control K parse props b = Inl e"
  using assms by (auto simp: pair_control_def start_control_def split: js.splits)

lemma same_control:
  assumes "same_bridge b b'" and "same_but_seed K K' m m'"
  shows "rel_sum (\<lambda>_ _. True) same_result (control K parse m b) (control K' parse m' b')"
proof (cases "\<exists>props. m = Some (JObj props)")
  case False
  with assms(2) show ?thesis by (auto simp: same_but_seed_def control_def split: option.splits js.splits)
next
  case True
  then obtain props where m: "m = Some (JObj props)" by blast
  obtain kp where b': "b' = b\<lparr>br_keyPair := kp\<rparr>" and kp: "map_option fst kp = map_option fst (br_keyPair b)"
    using assms(1) by (rule same_bridgeE)
  from assms(2) consider
      (plain) "m' = m" "\<not> seed_ok (prop_of props ''seed'')"
    | (seeds) seed seed' where "m' = Some (JObj (map_set ''seed'' seed' props))" "map_get props ''seed'' = Some seed"
        "seed_ok seed" "seed_ok seed'" "fst (keyPairFromSeed K seed) = fst (keyPairFromSeed K' seed')"
    by (auto simp: same_but_seed_def m)
  then obtain props' where m': "m' = Some (JObj props')"
      and same: "prop_of props' ''type'' = prop_of props ''type''" "length props' = length props"
      and pair: "rel_sum (\<lambda>_ _. True) same_result (pair_control K props b) (pair_control K' props' b')"
      and start: "rel_sum (\<lambda>_ _. True) same_result (start_control K parse props b) (start_control K' parse props' b')"
  proof cases
    case plain
    obtain e1 e2 e3 e4 where "pair_control K props b = Inl e1" "pair_control K' props b' = Inl e2"
        "start_control K parse props b = Inl e3" "start_control K' parse props b' = Inl e4"
      using unseeded [OF plain(2)] by metis
    with plain m show thesis by (intro that [of props]) simp_all
  next
    case seeds
    then show thesis
      by (intro that [of "map_set ''seed'' seed' props"])
        (simp_all add: reseeded [OF seeds(2) refl] same_pair [OF assms(1)] same_start [OF assms(1)])
  qed
  show ?thesis
    using pair start kp
    by (auto simp: control_def m m' same b' Let_def same_result_def same_bridge_def begin_shutdown_def
        split: option.splits)
qed

lemma same_step:
  assumes "same_bridge b b'" and "same_event K K' ev ev'"
  shows "same_result (bridge_step K parse ev b) (bridge_step K' parse ev' b')"
  using assms(1)
proof (cases ev)
  case (Control m)
  with assms(2) obtain m' where ev': "ev' = Control m'" and m': "same_but_seed K K' m m'"
    by (auto simp: same_event_def)
  have "br_reading b' = br_reading b" using assms(1) by (auto elim: same_bridgeE)
  with same_control [OF assms(1) m', of parse] same_end_reading [OF assms(1), of True] assms(1) Control ev' show ?thesis
    by (auto simp: same_result_def split: sum.splits)
next
  case (Packet payload)
  with assms show ?thesis
    using same_end_reading [OF assms(1), of True]
    by (elim same_bridgeE) (simp add: same_event_def same_result_def same_bridge_def)
next
  case Startup_awaited
  with assms show ?thesis
    using same_settles [OF assms(1), of None]
    by (elim same_bridgeE) (simp add: same_event_def same_result_def same_bridge_def)
next
  case (Runtime_stopped outcome)
  with assms show ?thesis
    using same_settles [OF assms(1), of outcome]
    by (elim same_bridgeE) (simp add: same_event_def same_result_def same_bridge_def)
next
  case Input_ended
  with assms show ?thesis
    using same_end_reading [OF assms(1), of False]
    by (elim same_bridgeE) (simp add: same_event_def same_result_def same_bridge_def)
next
  case Input_failed
  with assms show ?thesis
    using same_end_reading [OF assms(1), of True]
    by (elim same_bridgeE) (simp add: same_event_def same_result_def same_bridge_def)
qed (use assms(2) in \<open>elim same_bridgeE; simp add: same_event_def same_result_def same_bridge_def split: option.splits\<close>)+

text \<open>
  C4: What the provider is sent does not depend on the seed beyond its public key: two runs on the
  same events, but for valid seeds of the same public key in the control messages, send the same
  messages, whatever the keys are made by.
\<close>

theorem seed_stays_inside:
  assumes "list_all2 (same_event K K') evs evs'"
  shows "sent (snd (bridge_run K' parse evs' new_bridge)) = sent (snd (bridge_run K parse evs new_bridge))"
proof -
  have "same_result (bridge_run K parse evs b) (bridge_run K' parse evs' b')" if "same_bridge b b'" for b b'
    using assms that
  proof (induction arbitrary: b b' rule: list_all2_induct)
    case (Cons ev evs ev' evs')
    from same_step [OF Cons.prems Cons.hyps(1), of parse] Cons.IH
    show ?case by (simp add: same_result_def split_beta)
  qed (simp add: same_result_def)
  moreover have "same_bridge new_bridge new_bridge" by (simp add: same_bridge_def)
  ultimately show ?thesis by (simp add: same_result_def)
qed

section \<open>A start\<close>

text \<open>The two messages that start an engine, on a configuration that is accepted.\<close>

definition ex_start_message :: "string \<Rightarrow> js option" where
  "ex_start_message seed = Some (JObj [(''type'', JStr ''start''), (''seed'', JStr seed), (''config'', JStr ''t'')])"

definition ex_bridge_events :: "string \<Rightarrow> bridge_event list" where
  "ex_bridge_events seed =
     [Control (ex_start_message seed), Control (Some (JObj [(''type'', JStr ''ready'')])), Engine_started None]"

definition ex_bridge_parse :: "string \<Rightarrow> error + js" where
  "ex_bridge_parse source = Inr (toml_value ex_config)"

lemma ex_bridge_config: "parseKeposConfig ex_bridge_parse source = Inr ex_config"
  using toml_value_parse [OF ex_config_ok]
  by (simp add: parseKeposConfig_def ex_bridge_parse_def serializable_def ex_config_def)

definition ex_own_key :: string where "ex_own_key = hex_encode (fst (ex_key_pair []))"

lemma ex_own_key: "ex_own_key \<noteq> ex_key CHR ''c''"
proof -
  have "hd (hex_encode (replicate (Suc 31) 17)) = CHR ''1''"
    unfolding replicate_Suc by (simp add: hex_encode_def hex_digit_def char_of_eq_iff)
  then have "hd ex_own_key = CHR ''1''" by (simp add: ex_own_key_def ex_key_pair_def)
  moreover have "hd (ex_key CHR ''c'') = CHR ''c''" by (simp add: ex_key_def)
  ultimately show ?thesis by (auto dest: arg_cong [of _ _ hd])
qed

lemma ex_joined: "joined_keys [''type'', ''seed'', ''config''] = ''config,seed,type''"
  by (simp add: eval_simps)

lemma ex_bridge_run:
  assumes "key_hex seed"
  shows "bridge_run ex_key_pair ex_bridge_parse (ex_bridge_events seed) new_bridge =
    (new_bridge\<lparr>br_state := Running, br_config := Some ex_config, br_keyPair := Some (ex_key_pair []), br_startup := Startup_settled,
       br_runtime := True\<rparr>,
     [Bridge_send (settings_message ex_own_key ''10.0.0.1'' [announced_peer ex_peer]), Engine_begin ex_config (ex_key_pair []),
      Bridge_send (message_of ''running'' [])])"
proof -
  let ?kp = "keyPairFromSeed ex_key_pair (JStr seed)"
  have kp: "?kp = ex_key_pair []" by (simp add: keyPairFromSeed_def ex_key_pair_def)
  have peers: "all_ok (map (bridge_peer ex_own_key (pc_peers ex_config)) (vc_peers vpn)) = Inr [announced_peer ex_peer]"
    if "pc_vpn ex_config = Some vpn" for vpn
    using that ex_own_key by (auto simp: bridge_peer_def ex_config_def ex_peer_def announced_peer_def peer_setting_def)
  have "start_control ex_key_pair ex_bridge_parse [(''type'', JStr ''start''), (''seed'', JStr seed), (''config'', JStr ''t'')] new_bridge =
    Inr (new_bridge\<lparr>br_state := Settings, br_config := Some ex_config, br_keyPair := Some (ex_key_pair [])\<rparr>,
      [Bridge_send (settings_message ex_own_key ''10.0.0.1'' [announced_peer ex_peer])])"
    using assms peers kp
    by (simp add: start_control_def seed_ok_def ex_joined ex_bridge_config prop_of_def ex_own_key_def [symmetric] Let_def
        split: option.splits) (simp add: ex_config_def)
  then show ?thesis
    by (simp add: ex_bridge_events_def ex_start_message_def control_def new_bridge_def prop_of_def)
qed

theorem engine_is_announced_witness:
  "\<exists>e. start_engine ex_own_key ex_config False = Inr e \<and>
     engine_settings e = settings_message ex_own_key ''10.0.0.1'' [announced_peer ex_peer]"
proof -
  let ?pre = "[Bridge_send (settings_message ex_own_key ''10.0.0.1'' [announced_peer ex_peer])]"
  have key: "key_hex (ex_key CHR ''c'')" by simp
  have "bridge_run ex_key_pair ex_bridge_parse (ex_bridge_events (ex_key CHR ''c'')) new_bridge =
    (fst (bridge_run ex_key_pair ex_bridge_parse (ex_bridge_events (ex_key CHR ''c'')) new_bridge),
     ?pre @ Engine_begin ex_config (ex_key_pair []) # [Bridge_send (message_of ''running'' [])])"
    by (simp add: ex_bridge_run [OF key])
  from engine_is_announced [OF this] show ?thesis by (auto simp: ex_own_key_def)
qed

theorem bridge_shuts_down_witness:
  "\<exists>b b1 b'. fst (bridge_run ex_key_pair ex_bridge_parse (ex_bridge_events (ex_key CHR ''c'')) new_bridge) = b \<and>
     fst (bridge_step ex_key_pair ex_bridge_parse (Packet []) b) = b1 \<and>
     fst (bridge_run ex_key_pair ex_bridge_parse [Engine_started None, Startup_awaited, Runtime_stopped None] b1) = b' \<and>
     br_outcome b' = Some None \<and> br_keyPair b' = None"
proof -
  have key: "key_hex (ex_key CHR ''c'')" by simp
  obtain b out where run: "bridge_run ex_key_pair ex_bridge_parse (ex_bridge_events (ex_key CHR ''c'')) new_bridge = (b, out)"
    by fastforce
  then have b: "br_reading b = Reading" "br_shutdown b = No_shutdown"
    unfolding ex_bridge_run [OF key] by (auto simp: new_bridge_def)
  obtain b1 out1 where step: "bridge_step ex_key_pair ex_bridge_parse (Packet []) b = (b1, out1)" by fastforce
  with b have b1: "br_reading b1 = Reading_over"
    by (auto simp: end_reading_def bridge_returns_def split: prod.splits)
  obtain b' out' where rest: "bridge_run ex_key_pair ex_bridge_parse
      [Engine_started None, Startup_awaited, Runtime_stopped None] b1 = (b', out')" by fastforce
  have "br_reading b \<noteq> Reading_over" using b by simp
  from bridge_shuts_down [OF run this step b1 rest] have "br_outcome b' = Some None" "br_keyPair b' = None"
    by (cases "br_outcome b'"; auto)+
  then show ?thesis
    by (intro exI [of _ b] exI [of _ b1] exI [of _ b']) (simp only: run step rest fst_conv simp_thms)
qed

theorem seed_stays_inside_witness:
  "sent (snd (bridge_run ex_key_pair ex_bridge_parse (ex_bridge_events (ex_key CHR ''d'')) new_bridge)) =
     [settings_message ex_own_key ''10.0.0.1'' [announced_peer ex_peer], message_of ''running'' []]"
proof -
  have keys: "key_hex (ex_key CHR ''c'')" "key_hex (ex_key CHR ''d'')" by simp_all
  have "list_all2 (same_event ex_key_pair ex_key_pair) (ex_bridge_events (ex_key CHR ''c'')) (ex_bridge_events (ex_key CHR ''d''))"
    using keys by (simp add: ex_bridge_events_def same_event_def same_but_seed_def ex_start_message_def prop_of_def
        seed_ok_def keyPairFromSeed_def ex_key_pair_def)
  from seed_stays_inside [OF this, of ex_bridge_parse] show ?thesis by (simp add: ex_bridge_run [OF keys(1)])
qed

end
