(* ===== verification/Vpn_Runtime.thy ===== *)
theory Vpn_Runtime
  imports Worklet_Bridge_Properties Linux_Tun
begin

text \<open>
  The start of the engine on Linux, \<open>src/vpn/runtime.ts\<close>: the identity is read, the engine is set
  up on the configuration, and the packet device is asked for with the addresses of the peers.
\<close>

section \<open>The adapter\<close>

text \<open>The addresses of the peers that some definition with their reference dials.\<close>

definition dialer_addresses :: "peer_config \<Rightarrow> peer_vpn \<Rightarrow> string list" where
  "dialer_addresses config vpn =
     map vp_address
       (filter (\<lambda>peer. \<exists>definition \<in> set (pc_peers config).
            (pf_label definition = vp_peer peer \<or> pf_publicKey definition = vp_peer peer) \<and>
            pf_connection definition = Dial)
          (vc_peers vpn))"

text \<open>What the engine asks the device for, with what the adapter adds.\<close>

definition device_options :: "string \<Rightarrow> peer_config \<Rightarrow> peer_vpn \<Rightarrow> engine \<Rightarrow> tun_options" where
  "device_options helper config vpn e =
     \<lparr>to_helper = helper, to_address = vc_address vpn, to_peerAddresses = map pr_address (en_peers e),
      to_checkRouteConflicts = en_enrollment e, to_dialerPeerAddresses = dialer_addresses config vpn\<rparr>"

definition startVpn ::
  "bool \<Rightarrow> (string \<Rightarrow> js option) \<Rightarrow> key_maker \<Rightarrow> path \<Rightarrow> string \<Rightarrow> bool \<Rightarrow> peer_config \<Rightarrow> (engine \<times> tun_options) io" where
  "startVpn windows json keyPair stateDir helper enrollment config =
     (case pc_vpn config of
        None \<Rightarrow> of_result (Inl ''VPN mode requires a [vpn] configuration'')
      | Some vpn \<Rightarrow>
          seq (loadPeerIdentity windows json stateDir) (\<lambda>seed.
          seq (of_result (start_engine (hex_encode (fst (keyPairFromSeed keyPair (JStr seed)))) config enrollment)) (\<lambda>e.
            return (e, device_options helper config vpn e))))"

section \<open>The dialed peers\<close>

lemma dialed_iff:
  assumes "labels_apart ds" and "distinct (map pf_label ds)" and "distinct (map pf_publicKey ds)"
    and "engine_peer key ds v = Inr p"
  shows "(\<exists>d \<in> set ds. (pf_label d = vp_peer v \<or> pf_publicKey d = vp_peer v) \<and> pf_connection d = Dial) \<longleftrightarrow>
    pr_direction p = Dial"
proof -
  from assms(4) obtain d where d: "find (\<lambda>d. pf_label d = vp_peer v \<or> pf_publicKey d = vp_peer v) ds = Some d"
      and p: "pr_direction p = pf_connection d"
    by (auto simp: engine_peer_def split: option.splits if_splits)
  then have "d \<in> set ds" "pf_label d = vp_peer v \<or> pf_publicKey d = vp_peer v"
    by (auto simp: find_Some_iff)
  with p reference_unique [OF assms(1-3)] show ?thesis by metis
qed

lemma dialed_addresses:
  assumes "labels_apart ds" and "distinct (map pf_label ds)" and "distinct (map pf_publicKey ds)"
    and "all_ok (map (engine_peer key ds) vs) = Inr ps"
  shows "map vp_address (filter (\<lambda>v. \<exists>d \<in> set ds.
      (pf_label d = vp_peer v \<or> pf_publicKey d = vp_peer v) \<and> pf_connection d = Dial) vs) =
    map pr_address (filter (\<lambda>p. pr_direction p = Dial) ps)"
  using assms(4)
proof (induction vs arbitrary: ps)
  case (Cons v vs)
  then obtain p ps' where ps: "ps = p # ps'" "engine_peer key ds v = Inr p" and rest: "all_ok (map (engine_peer key ds) vs) = Inr ps'"
    by (auto simp: all_ok_Cons_iff)
  have "pr_address p = vp_address v"
    using ps(2) by (auto simp: engine_peer_def split: option.splits if_splits)
  then show ?case using Cons.IH [OF rest] dialed_iff [OF assms(1-3) ps(2)] by (simp add: ps(1))
qed simp

text \<open>
  C39: The device is asked for with the engine's own address and the addresses of its peers, and
  what is checked against the addresses and routes of the host are exactly the peers that the
  engine dials, for every accepted configuration without a label that is another's public key.
\<close>

theorem dialed_peers_are_checked:
  assumes "parsePeerConfig v = Inr config" and "labels_apart (pc_peers config)"
    and "startVpn windows json keyPair stateDir helper enrollment config d = (Inr (e, opts), d')"
  shows "to_address opts = en_address e \<and> to_peerAddresses opts = map pr_address (en_peers e) \<and>
    to_dialerPeerAddresses opts = map pr_address (filter (\<lambda>p. pr_direction p = Dial) (en_peers e)) \<and>
    to_checkRouteConflicts opts = enrollment"
proof -
  have ok: "config_ok config" using assms(1) by (rule parsePeerConfig_ok)
  from assms(3) obtain vpn key where vpn: "pc_vpn config = Some vpn"
      and e: "start_engine key config enrollment = Inr e" and opts: "opts = device_options helper config vpn e"
    by (auto simp: startVpn_def seq_def of_result_def return_def throw_def split: option.splits sum.splits prod.splits)
  from e vpn have peers: "all_ok (map (engine_peer key (pc_peers config)) (vc_peers vpn)) = Inr (en_peers e)"
      and fields: "en_address e = vc_address vpn" "en_enrollment e = enrollment"
    by (auto simp: start_engine_def engine_peers_def split: sum.splits)
  have "distinct (map pf_label (pc_peers config))" "distinct (map pf_publicKey (pc_peers config))"
    using ok by (simp_all add: config_ok_def)
  from dialed_addresses [OF assms(2) this peers] fields show ?thesis
    by (simp add: opts device_options_def dialer_addresses_def)
qed

section \<open>A start\<close>

text \<open>A state directory with an identity, and a configuration that dials its peer.\<close>

definition ex_peer_disk :: disk where
  "ex_peer_disk =
     \<lparr>dk_files = [([], Directory 493), ([''peer''], Directory 448),
        ([''peer'', identityFileName], File (identity_text (hex_encode ex_random)) 384)],
      dk_past = [], dk_faults = [], dk_suffix = ''x''\<rparr>"

definition ex_dialing :: peer_config where
  "ex_dialing = ex_config\<lparr>pc_peers := [\<lparr>pf_label = ''c'', pf_publicKey = ex_key CHR ''c'', pf_connection = Dial\<rparr>]\<rparr>"

lemma ex_dialing_parse: "parsePeerConfig (config_value ex_dialing) = Inr ex_dialing"
proof (rule config_value_parse)
  show "config_ok ex_dialing"
    using ex_config_ok
    by (simp add: config_ok_def ex_dialing_def ex_config_def definition_ok_def vpn_ok_def vpn_peer_ok_def reference_ok_def
        resolves_def vpn_keys_def reference_key_def)
qed

lemma ex_peer_load:
  "loadPeerIdentity False ex_identity_json [''peer''] ex_peer_disk = (Inr (hex_encode ex_random), ex_peer_disk)"
proof (rule load_written)
  show "holds_files False [''peer''] (identity_entries ex_random) (dk_files ex_peer_disk)"
    by (simp add: holds_files_def identity_entries_def ex_peer_disk_def identityFileName_def)
  show "sort (names_in (dk_files ex_peer_disk) [''peer'']) = [identityFileName]"
    by (simp add: names_in_def ex_peer_disk_def identityFileName_def)
qed (simp_all add: ex_peer_disk_def ex_seed ex_identity_json_def)

theorem dialed_peers_are_checked_witness:
  "\<exists>e opts. startVpn False ex_identity_json ex_key_pair [''peer''] ''tun'' False ex_dialing ex_peer_disk = (Inr (e, opts), ex_peer_disk) \<and>
     to_dialerPeerAddresses opts = [''10.0.0.2'']"
proof -
  have "find (\<lambda>d. pf_label d = ''c'' \<or> pf_publicKey d = ''c'') (pc_peers ex_dialing) = Some (hd (pc_peers ex_dialing))"
    by (simp add: ex_dialing_def)
  then have "engine_peers ex_own_key ex_dialing = Inr [ex_peer\<lparr>pr_direction := Dial\<rparr>]"
    using ex_own_key by (auto simp: engine_peers_def engine_peer_def ex_dialing_def ex_config_def ex_peer_def)
  then obtain e where e: "start_engine ex_own_key ex_dialing False = Inr e"
      "map pr_address (filter (\<lambda>p. pr_direction p = Dial) (en_peers e)) = [''10.0.0.2'']"
    by (simp add: start_engine_def ex_dialing_def ex_config_def ex_peer_def)
  then obtain opts where start: "startVpn False ex_identity_json ex_key_pair [''peer''] ''tun'' False ex_dialing ex_peer_disk = (Inr (e, opts), ex_peer_disk)"
    by (simp add: startVpn_def ex_dialing_def ex_config_def seq_def of_result_def return_def ex_peer_load ex_own_key_def
      keyPairFromSeed_def ex_key_pair_def)
  have "labels_apart (pc_peers ex_dialing)" by (simp add: labels_apart_def ex_dialing_def)
  from dialed_peers_are_checked [OF ex_dialing_parse this start] start e(2) show ?thesis by auto
qed

end
