(* ===== verification/Invitation_Input.thy ===== *)
theory Invitation_Input
  imports Prelude
begin

text \<open>
  Reading an invitation from a terminal without echo, \<open>src/cli/invitation-input.ts\<close>.  Bytes come
  in chunks until a line ends, the input is cancelled, fails or ends; the terminal is put back as
  it was.
\<close>

section \<open>Typing\<close>

datatype typing = Typing string | Typed "error + string"

definition input_byte :: "8 word \<Rightarrow> string \<Rightarrow> typing" where
  "input_byte b value =
     (if b = 3 \<or> b = 4 then Typed (Inl ''Invitation input cancelled'')
      else if b = 10 \<or> b = 13 then Typed (Inr value)
      else
        (let value' = (if b = 127 \<or> b = 8 then butlast value
                       else if 32 \<le> b \<and> b \<le> 126 then value @ [char_of (unat b)] else value) in
         if length value' > 4096 then Typed (Inl ''Invitation too long'') else Typing value'))"

fun input_chunk :: "bytes \<Rightarrow> string \<Rightarrow> typing" where
  "input_chunk [] value = Typing value"
| "input_chunk (b # bs) value =
     (case input_byte b value of Typing value' \<Rightarrow> input_chunk bs value' | Typed r \<Rightarrow> Typed r)"

datatype input_event = Input_data bytes | Input_error | Input_end

text \<open>\<open>None\<close> while nothing has settled the promise; then the listeners are gone.\<close>

fun input_events :: "input_event list \<Rightarrow> string \<Rightarrow> (error + string) option" where
  "input_events [] value = None"
| "input_events (Input_data chunk # evs) value =
     (case input_chunk chunk value of Typing value' \<Rightarrow> input_events evs value' | Typed r \<Rightarrow> Some r)"
| "input_events (Input_error # evs) value = Some (Inl ''Cannot read invitation'')"
| "input_events (Input_end # evs) value = Some (Inl ''Invitation input ended'')"

datatype terminal_effect = Prompt string | Raw_mode bool | Resume_input | Pause_input

definition readInvitation ::
  "bool \<Rightarrow> bool \<Rightarrow> bool \<Rightarrow> input_event list \<Rightarrow> (error + string) option \<times> terminal_effect list" where
  "readInvitation input_tty output_tty was_raw evs =
     (if \<not> input_tty \<or> \<not> output_tty then (Some (Inl ''Invitation requires an interactive terminal''), [])
      else
        (let begun = [Prompt ''Invitation (input hidden): '', Raw_mode True, Resume_input] in
         case input_events evs [] of
           None \<Rightarrow> (None, begun)
         | Some r \<Rightarrow> (Some r, begun @ [Raw_mode was_raw, Pause_input, Prompt [char_of (10 :: nat)]])))"

section \<open>What is read\<close>

text \<open>How the bytes are cut into chunks does not matter.\<close>

lemma input_chunk_append:
  "input_chunk (xs @ ys) value =
     (case input_chunk xs value of Typing value' \<Rightarrow> input_chunk ys value' | Typed r \<Rightarrow> Typed r)"
  by (induction xs arbitrary: "value") (auto split: typing.splits)

theorem typing_chunk_independent:
  "input_events (map Input_data chunks @ evs) value =
     (case input_chunk (concat chunks) value of Typing value' \<Rightarrow> input_events evs value' | Typed r \<Rightarrow> Some r)"
  by (induction chunks arbitrary: "value") (auto simp: input_chunk_append split: typing.splits)

definition typed_ok :: "string \<Rightarrow> bool" where
  "typed_ok value \<longleftrightarrow> length value \<le> 4096 \<and> (\<forall>c \<in> set value. 32 \<le> (of_char c :: nat) \<and> (of_char c :: nat) \<le> 126)"

lemma input_byte_ok:
  assumes "typed_ok value"
  shows "input_byte b value = Typing value' \<Longrightarrow> typed_ok value'"
    and "input_byte b value = Typed (Inr v) \<Longrightarrow> typed_ok v"
proof -
  have printable: "32 \<le> unat b \<and> unat b \<le> 126" if "32 \<le> b" "b \<le> 126"
    using that by (simp add: word_le_nat_alt)
  show "input_byte b value = Typing value' \<Longrightarrow> typed_ok value'"
    using assms printable by (auto simp: input_byte_def typed_ok_def Let_def dest: in_set_butlastD split: if_splits)
  show "input_byte b value = Typed (Inr v) \<Longrightarrow> typed_ok v"
    using assms by (auto simp: input_byte_def Let_def split: if_splits)
qed

lemma input_chunk_ok:
  assumes "typed_ok value"
  shows "input_chunk bs value = Typing value' \<Longrightarrow> typed_ok value'"
    and "input_chunk bs value = Typed (Inr v) \<Longrightarrow> typed_ok v"
  using assms
  by (induction bs arbitrary: "value") (auto split: typing.splits dest: input_byte_ok)

lemma input_events_ok: "typed_ok value \<Longrightarrow> input_events evs value = Some (Inr v) \<Longrightarrow> typed_ok v"
  by (induction evs "value" rule: input_events.induct) (auto split: typing.splits dest: input_chunk_ok)

text \<open>
  An invitation that is read has at most 4096 characters, all of them printable, and whatever is
  read the terminal is put back into the mode it was in and paused.
\<close>

theorem invitation_read_ok:
  assumes "readInvitation True True was_raw evs = (Some r, out)"
  shows "(\<forall>v. r = Inr v \<longrightarrow> typed_ok v) \<and>
    out = [Prompt ''Invitation (input hidden): '', Raw_mode True, Resume_input,
           Raw_mode was_raw, Pause_input, Prompt [char_of (10 :: nat)]]"
proof -
  have "typed_ok []" by (simp add: typed_ok_def)
  with assms input_events_ok show ?thesis by (auto simp: readInvitation_def Let_def split: option.splits)
qed

end
