(* ===== verification/Observability.thy ===== *)
theory Observability
  imports Complex_Main Peer_State
begin

text \<open>
  What may be shown of a connection: \<open>src/mux/observability.ts\<close>, the snapshots of
  \<open>src/mux/hyperdht.ts\<close>, and the options of a node.  An observed value is data; the native stream
  is read through its getters, which may throw.
\<close>

section \<open>Observed values\<close>

text \<open>A finite number is the rational that the double stands for.\<close>

datatype observed =
  Ob_undefined | Ob_null | Ob_bool bool | Ob_number rat | Ob_not_finite | Ob_string string | Ob_buffer bytes |
  Ob_array "observed list" | Ob_object "(string \<times> observed) list"

definition lower_char :: "char \<Rightarrow> char" where
  "lower_char c =
     (let n = (of_char c :: nat) in
      if 65 \<le> n \<and> n \<le> 90 \<or> 192 \<le> n \<and> n \<le> 222 \<and> n \<noteq> 215 then char_of (n + 32) else c)"

definition toLowerCase :: "string \<Rightarrow> string" where
  "toLowerCase s = map lower_char s"

fun contains_text :: "string \<Rightarrow> string \<Rightarrow> bool" where
  "contains_text [] part \<longleftrightarrow> part = []"
| "contains_text (c # s) part \<longleftrightarrow> take (length part) (c # s) = part \<or> contains_text s part"

definition secret_key :: "string \<Rightarrow> bool" where
  "secret_key key \<longleftrightarrow>
     (let k = toLowerCase key in contains_text k ''secret'' \<or> contains_text k ''seed'' \<or> contains_text k ''token'')"

definition public_key_field :: "string \<Rightarrow> bool" where
  "public_key_field key \<longleftrightarrow> toLowerCase key \<in> {''publickey'', ''remotepublickey''}"

text \<open>A key is cut to sixteen characters; \<open>None\<close> when the value is not one.\<close>

definition short_key :: "observed \<Rightarrow> string option" where
  "short_key v =
     (case v of
        Ob_string s \<Rightarrow> Some (take 16 s)
      | Ob_buffer b \<Rightarrow> Some (take 16 (hex_encode b))
      | _ \<Rightarrow> None)"

text \<open>
  What becomes of one field, given the sanitized value.  Assigning to \<open>__proto__\<close> makes no property
  of the new object.
\<close>

definition sanitized_field :: "string \<Rightarrow> observed \<Rightarrow> observed \<Rightarrow> (string \<times> observed) list" where
  "sanitized_field key v sanitized =
     (if secret_key key \<or> key = ''__proto__'' then []
      else if public_key_field key \<and> short_key v \<noteq> None then [(key, Ob_string (the (short_key v)))]
      else [(key, sanitized)])"

fun sanitizeObservation :: "observed \<Rightarrow> observed" where
  "sanitizeObservation (Ob_array vs) = Ob_array (map sanitizeObservation vs)"
| "sanitizeObservation (Ob_buffer b) = Ob_string (hex_encode b)"
| "sanitizeObservation (Ob_object props) =
     Ob_object (concat (map (\<lambda>(key, v). sanitized_field key v (sanitizeObservation v)) props))"
| "sanitizeObservation v = v"

section \<open>Snapshots\<close>

type_synonym getters = "string \<Rightarrow> error + observed"

definition readProperty :: "getters \<Rightarrow> string \<Rightarrow> observed" where
  "readProperty source key = (case source key of Inl _ \<Rightarrow> Ob_undefined | Inr v \<Rightarrow> v)"

definition booleanFields :: "getters \<Rightarrow> string list \<Rightarrow> (string \<times> observed) list" where
  "booleanFields source keys =
     concat (map (\<lambda>key. case readProperty source key of Ob_bool b \<Rightarrow> [(key, Ob_bool b)] | _ \<Rightarrow> []) keys)"

definition keyFields :: "getters \<Rightarrow> string list \<Rightarrow> (string \<times> observed) list" where
  "keyFields source keys =
     concat (map (\<lambda>key.
       let v = readProperty source key in case v of Ob_string _ \<Rightarrow> [(key, v)] | Ob_buffer _ \<Rightarrow> [(key, v)] | _ \<Rightarrow> []) keys)"

definition numericFields :: "getters \<Rightarrow> string list \<Rightarrow> (string \<times> observed) list" where
  "numericFields source keys =
     concat (map (\<lambda>key. case readProperty source key of Ob_number q \<Rightarrow> [(key, Ob_number q)] | _ \<Rightarrow> []) keys)"

definition safe_count :: "rat \<Rightarrow> bool" where
  "safe_count q \<longleftrightarrow> snd (quotient_of q) = 1 \<and> 0 \<le> q \<and> q \<le> 9007199254740991"

definition safeCountField :: "getters \<Rightarrow> string \<Rightarrow> (string \<times> observed) list" where
  "safeCountField source key =
     (case readProperty source key of
        Ob_number q \<Rightarrow> if safe_count q then [(key, Ob_number q)] else []
      | _ \<Rightarrow> [])"

text \<open>The native stream: its getters, and the socket, which is read without a guard.\<close>

record native_stream =
  ns_fields :: getters
  ns_socket :: "error + getters option"

definition udx_fields :: "string list" where
  "udx_fields =
     [''rtt'', ''cwnd'', ''inflight'', ''rtoCount'', ''retransmits'', ''fastRecoveries'', ''bbrState'', ''bbrBandwidth'',
      ''bytesTransmitted'', ''packetsTransmitted'', ''bytesReceived'', ''packetsReceived'']"

definition udx_counters :: "getters \<Rightarrow> getters option \<Rightarrow> (string \<times> observed) list" where
  "udx_counters raw socket =
     numericFields raw udx_fields @
     (case socket of None \<Rightarrow> [] | Some s \<Rightarrow> safeCountField s ''packetsDroppedByKernel'')"

definition udxStreamSnapshot :: "native_stream option \<Rightarrow> error + (string \<times> observed) list option" where
  "udxStreamSnapshot rawStream =
     (case rawStream of
        None \<Rightarrow> Inr None
      | Some raw \<Rightarrow>
          (case ns_socket raw of
             Inl e \<Rightarrow> Inl e
           | Inr socket \<Rightarrow>
               (let snapshot = udx_counters (ns_fields raw) socket in
                Inr (if snapshot \<noteq> [] then Some snapshot else None))))"

text \<open>What \<open>toJSON\<close> gives: an object to be read, anything else counts as an empty one.\<close>

definition snapshot_source :: "observed option \<Rightarrow> getters" where
  "snapshot_source snapshot key =
     Inr (case snapshot of
            Some (Ob_object props) \<Rightarrow> (case map_get props key of None \<Rightarrow> Ob_undefined | Some v \<Rightarrow> v)
          | _ \<Rightarrow> Ob_undefined)"

definition dhtStreamSnapshot :: "observed option \<Rightarrow> native_stream option \<Rightarrow> error + observed" where
  "dhtStreamSnapshot snapshot rawStream =
     (let source = snapshot_source snapshot;
          base = booleanFields source [''isInitiator'', ''connected'', ''destroying'', ''destroyed''] @
                 keyFields source [''publicKey'', ''remotePublicKey''] in
      case udxStreamSnapshot rawStream of
        Inl e \<Rightarrow> Inl e
      | Inr udx \<Rightarrow>
          Inr (sanitizeObservation
                 (Ob_object (base @ (case udx of None \<Rightarrow> [] | Some counters \<Rightarrow> [(''udx'', Ob_object counters)])))))"

section \<open>Nothing secret is shown\<close>












definition finite_numbers :: "string list \<Rightarrow> (string \<times> observed) list \<Rightarrow> bool" where
  "finite_numbers keys props \<longleftrightarrow> (\<forall>(key, v) \<in> set props. key \<in> set keys \<and> (\<exists>q. v = Ob_number q))"

lemma numeric_fields_finite: "finite_numbers keys (numericFields source keys)"
  by (auto simp: finite_numbers_def numericFields_def split: observed.splits)

lemma count_field_finite: "finite_numbers [key] (safeCountField source key)"
  by (auto simp: finite_numbers_def safeCountField_def split: observed.splits)

lemma finite_numbers_append:
  "finite_numbers ks xs \<Longrightarrow> finite_numbers ks' ys \<Longrightarrow> finite_numbers (ks @ ks') (xs @ ys)"
  by (fastforce simp: finite_numbers_def)

lemma udx_finite:
  assumes "udxStreamSnapshot rawStream = Inr (Some counters)"
  shows "finite_numbers (udx_fields @ [''packetsDroppedByKernel'']) counters"
proof -
  obtain raw socket where counters: "counters = udx_counters raw socket"
    using assms by (auto simp: udxStreamSnapshot_def Let_def split: option.splits sum.splits if_splits)
  have "finite_numbers [''packetsDroppedByKernel'']
      (case socket of None \<Rightarrow> [] | Some s \<Rightarrow> safeCountField s ''packetsDroppedByKernel'')"
    using count_field_finite by (cases socket) (simp_all add: finite_numbers_def)
  then show ?thesis
    unfolding counters udx_counters_def by (intro finite_numbers_append numeric_fields_finite)
qed

lemma sanitize_finite:
  assumes "finite_numbers keys props"
  obtains props' where "sanitizeObservation (Ob_object props) = Ob_object props'" and "finite_numbers keys props'"
proof (rule that)
  show "finite_numbers keys (concat (map (\<lambda>(key, v). sanitized_field key v (sanitizeObservation v)) props))"
    using assms by (fastforce simp: finite_numbers_def sanitized_field_def short_key_def split: if_splits)
qed simp

text \<open>What a snapshot may contain.\<close>

definition shown :: "string \<times> observed \<Rightarrow> bool" where
  "shown f \<longleftrightarrow>
     (case f of (key, v) \<Rightarrow>
        (key \<in> {''isInitiator'', ''connected'', ''destroying'', ''destroyed''} \<and> (\<exists>b. v = Ob_bool b)) \<or>
        (key \<in> {''publicKey'', ''remotePublicKey''} \<and> (\<exists>s. v = Ob_string s \<and> length s \<le> 16)) \<or>
        (key = ''udx'' \<and> (\<exists>counters. v = Ob_object counters \<and>
           finite_numbers (udx_fields @ [''packetsDroppedByKernel'']) counters)))"

lemma shown_boolean:
  assumes "(key, v) \<in> set (booleanFields source [''isInitiator'', ''connected'', ''destroying'', ''destroyed''])"
    and "f \<in> set (sanitized_field key v (sanitizeObservation v))"
  shows "shown f"
  using assms by (auto simp: booleanFields_def sanitized_field_def shown_def short_key_def split: observed.splits if_splits)

lemma public_key_names: "public_key_field ''publicKey''" "public_key_field ''remotePublicKey''"
  by (simp_all add: public_key_field_def toLowerCase_def lower_char_def char_of_eq_iff)

lemma shown_key:
  assumes "(key, v) \<in> set (keyFields source [''publicKey'', ''remotePublicKey''])"
    and "f \<in> set (sanitized_field key v (sanitizeObservation v))"
  shows "shown f"
  using assms public_key_names
  by (auto simp: keyFields_def Let_def sanitized_field_def shown_def short_key_def split: observed.splits if_splits)

lemma shown_udx:
  assumes "finite_numbers (udx_fields @ [''packetsDroppedByKernel'']) counters"
    and "f \<in> set (sanitized_field ''udx'' (Ob_object counters) (sanitizeObservation (Ob_object counters)))"
  shows "shown f"
proof -
  obtain props where "sanitizeObservation (Ob_object counters) = Ob_object props"
      "finite_numbers (udx_fields @ [''packetsDroppedByKernel'']) props"
    by (rule sanitize_finite [OF assms(1)])
  with assms(2) show ?thesis by (auto simp: sanitized_field_def short_key_def shown_def split: if_splits)
qed

text \<open>
  A snapshot of a connection shows its four flags, at most sixteen characters of the two public
  keys, and finite counters of the native stream under their own names, whatever the connection
  reports and whichever of its getters throw.
\<close>

theorem snapshot_shows_only:
  assumes "dhtStreamSnapshot snapshot rawStream = Inr v"
  shows "\<exists>props. v = Ob_object props \<and> (\<forall>f \<in> set props. shown f)"
proof -
  let ?source = "snapshot_source snapshot"
  let ?flags = "booleanFields ?source [''isInitiator'', ''connected'', ''destroying'', ''destroyed'']"
  let ?keys = "keyFields ?source [''publicKey'', ''remotePublicKey'']"
  from assms obtain udx where udx: "udxStreamSnapshot rawStream = Inr udx"
    by (auto simp: dhtStreamSnapshot_def Let_def split: sum.splits)
  let ?udx = "case udx of None \<Rightarrow> [] | Some counters \<Rightarrow> [(''udx'', Ob_object counters)]"
  have v: "v = Ob_object (concat (map (\<lambda>(key, v). sanitized_field key v (sanitizeObservation v)) ((?flags @ ?keys) @ ?udx)))"
    using assms udx by (simp add: dhtStreamSnapshot_def Let_def del: map_append concat_append)
  have "shown f" if "(key, x) \<in> set ?udx" "f \<in> set (sanitized_field key x (sanitizeObservation x))" for f key x
  proof -
    from that(1) obtain counters where "udx = Some counters" "key = ''udx''" "x = Ob_object counters"
      by (auto split: option.splits)
    with that(2) shown_udx [OF udx_finite [of rawStream counters]] udx show ?thesis by simp
  qed
  with shown_boolean shown_key show ?thesis unfolding v by fastforce
qed

text \<open>A connection with a secret among its properties and a native stream that reports its counters.\<close>

definition ex_observed :: observed where
  "ex_observed =
     Ob_object [(''connected'', Ob_bool True), (''publicKey'', Ob_buffer (replicate 32 17)),
       (''handshakeSecret'', Ob_string ''s'')]"

definition ex_native :: native_stream where
  "ex_native =
     \<lparr>ns_fields = (\<lambda>key. if key = ''rtt'' then Inr (Ob_number 12) else if key = ''cwnd'' then Inr Ob_not_finite
        else if key = ''inflight'' then Inl ''closed'' else Inr Ob_undefined),
      ns_socket = Inr (Some (\<lambda>key. Inr (Ob_number 3)))\<rparr>"


theorem snapshot_shows_only_witness:
  "\<exists>v. dhtStreamSnapshot (Some ex_observed) (Some ex_native) = Inr v \<and> (\<exists>props. v = Ob_object props \<and> (\<forall>f \<in> set props. shown f))"
proof -
  obtain v where "dhtStreamSnapshot (Some ex_observed) (Some ex_native) = Inr v"
    by (simp add: dhtStreamSnapshot_def udxStreamSnapshot_def ex_native_def Let_def)
  with snapshot_shows_only [OF this] show ?thesis by blast
qed

end
