(* ===== verification/Spec2Isabelle.thy ===== *)
theory Spec2Isabelle
  imports Acceptance Framing_Properties Receiver_Process_Properties Pair_Properties
    App_Config_Properties Peer_State_Properties Runtime_Lock_Properties
    Network_Properties Engine_Startup_Properties Control_Socket_Properties Receiver_Files
    Cli_Properties Cli_Commands_Properties Cli_Runtime_Properties Worklet_Bridge_Properties Vpn_Runtime
    Invitation_Input Observability
begin

text \<open>
  Kepos is a peer-to-peer VPN for IPv4 between devices that trust each other's keys.  This library
  models its TypeScript program, everything under \<open>src/\<close> of the repository's \<open>src\<close> directory, and
  proves what makes its parts correct.  Paths below are relative to that directory.

  \<^bold>\<open>How the program works.\<close>  A peer has an identity, a seed in a private state directory
  (\<open>state/peer.ts\<close>, \<open>keys.ts\<close>, \<open>state/files.ts\<close>), and a configuration file (\<open>app-config.ts\<close>,
  \<open>config-toml.ts\<close>, \<open>config.ts\<close>).  The command line (\<open>cli/main.ts\<close>) sets them up and runs one
  engine under a lock (\<open>runtime/runtime-lock.ts\<close>).  The engine (\<open>vpn/engine.ts\<close>) accepts and dials
  authenticated streams of configured peers, asks one packet policy for each session
  (\<open>vpn/packet-policy.ts\<close>) about every packet, and moves packets between the streams
  (\<open>vpn/framing.ts\<close>) and a TUN device (\<open>vpn/linux-tun.ts\<close>, \<open>vpn/runtime.ts\<close>) or a provider
  process (\<open>vpn/worklet-framing.ts\<close>, \<open>vpn/worklet-bridge.ts\<close>).  A managed receiver
  (\<open>vpn/receiver.ts\<close>) keeps enrolled devices in a durable store (\<open>vpn/receiver-state.ts\<close>), answers
  administration requests on a socket, and restarts its engine when the devices change; a device
  enrolls with an invitation (\<open>vpn/invitation.ts\<close>) by pairing (\<open>vpn/pair.ts\<close>).

  \<^bold>\<open>How it is modelled.\<close>  Objects, closures and interfaces are records, unions are datatypes, and a
  thrown error is its message in the left side of a sum.  Bytes are \<open>8 word\<close>, sequence numbers
  \<open>32 word\<close> with their wrap-around; other numbers are integers, exact where JavaScript's are below
  \<open>2 ^ 53\<close>.  Strings hold characters below 256.  \<open>Map\<close> and \<open>Set\<close> are lists in insertion order, behind
  the locale \<open>ordered_map\<close>.  A function that awaits is split at its awaits: the state between
  them is explicit, and what it awaits comes back as an event or an argument, in any order that the
  code permits.  What a part does to the outside is a list of effects.  File operations are programs
  over a disk that fails before or during any call and remembers every state it has been in.  What
  is not in the repository is a parameter: SHA-256, \<open>HyperDHT.keyPair\<close>, random bytes, \<open>JSON.parse\<close>,
  \<open>JSON.stringify\<close>, the TOML library, \<open>path.win32.join\<close>; one reading of the clock is an argument of each callback.

  \<^bold>\<open>Shared theories.\<close>  \<open>Prelude\<close> has the bytes, decimal texts, splitting and joining, and the
  collections \<open>eval_simps\<close>, \<open>byte_simps\<close>, \<open>string_simps\<close>, \<open>inv_intros\<close>; \<open>Js_Map\<close>, \<open>Js_Value\<close> and
  \<open>Js_Number\<close> the JavaScript values; \<open>Ipv4\<close> addresses and pools with their round trips; \<open>Paths\<close> the
  default locations of \<open>platform/paths.ts\<close>.

  \<^bold>\<open>The packet path.\<close>  \<open>Checksum\<close>, \<open>Packet_Policy\<close>: parsing, checksums, the flow table, ICMP;
  \<open>Policy_Properties\<close>: the bound of 4096 flows and the rest of the invariant, default denial,
  revocation by \<open>clear\<close>, damage to one byte, the serial comparison.  \<open>Packet_Gate\<close> is what the engine
  needs of a policy, as a locale, interpreted on it.  \<open>Engine\<close>: every callback of \<open>startVpnEngine\<close> over one
  record; \<open>Engine_Invariant\<close>, \<open>Engine_Properties\<close> (which packets cross), \<open>Engine_Lifecycle\<close> (the
  status reports refine a table of connected peers), \<open>Engine_Admission\<close> (how often handshakes pass),
  \<open>Config_Engine\<close> (every accepted configuration starts).  \<open>Engine_Startup\<close>, \<open>Engine_Startup_Properties\<close>:
  the course around them, the start, the dial loops and the closing, which refines the engine's
  runs.  \<open>Network\<close>, \<open>Network_Properties\<close>: engines of several hosts joined by streams whose frames may
  be lost, with anyone at the keys of other hosts; packets come from the device of the host whose
  key authenticates the stream, in order.  \<open>Length_Prefix\<close>, \<open>Framing\<close>,
  \<open>Worklet_Framing\<close>, \<open>Framing_Properties\<close>: both framings share the locale \<open>framed_stream\<close>; reading
  inverts writing for every chunking.  \<open>Linux_Tun\<close>, \<open>Linux_Tun_Properties\<close>, \<open>Vpn_Runtime\<close>: route and
  address checks, the \<open>ip\<close> commands, and that the dialed peers are the checked ones.

  \<^bold>\<open>The receiver.\<close>  \<open>Receiver_State\<close>: the store with every outcome of its writes; \<open>Receiver_Invariant\<close>,
  \<open>Receiver_Steps\<close>: the contract of its five operations is the locale \<open>store_operation\<close>;
  \<open>Receiver_Properties\<close>: validity after any run, single use of invitations, reopening.  \<open>Invitation\<close>:
  the bearer text and the enrollment frame.  \<open>Receiver\<close>, \<open>Receiver_Process\<close> (the locale
  \<open>device_operation\<close> extends that of the store), \<open>Receiver_Process_Properties\<close>: the running engine is
  authorised by the store, grants change only between engines, and packets reach the device only
  from enrolled devices on granted ports.  \<open>Control_Socket\<close>, \<open>Control_Socket_Properties\<close>: both ends of the control socket, for every
  chunking; \<open>Receiver_Files\<close>: where they meet.  \<open>Pair\<close>, \<open>Pair_Properties\<close>: the request is sent once, and the answer of a receiver that
  has enrolled a device gives a configuration on which the device's engine starts.

  \<^bold>\<open>Configuration and files.\<close>  \<open>Config\<close>, \<open>Config_Properties\<close>, \<open>Config_Toml\<close>, \<open>Config_Toml_Properties\<close>:
  every check with its message, and the round trips.  \<open>Disk\<close>, \<open>Disk_Logic\<close> (triples with a failure
  postcondition), \<open>Disk_Steps\<close>, \<open>Disk_Frame\<close> (what a program leaves alone); \<open>State_Files\<close>, \<open>Peer_State\<close>,
  \<open>App_Config\<close> with their \<open>Properties\<close>: the atomic writes, in every state of the disk.
  \<open>Runtime_Lock\<close>, \<open>Runtime_Lock_Properties\<close>: one holder, no descriptor left open.

  \<^bold>\<open>The commands.\<close>  \<open>Cli\<close>, \<open>Cli_Properties\<close>: arguments and administration, up to what the receiver
  does.  \<open>Cli_Commands\<close>, \<open>Cli_Commands_Properties\<close>: joining saves only over what it
  has found at first and again after the pairing; approving a peer keeps the others.
  \<open>Cli_Runtime\<close>, \<open>Cli_Runtime_Properties\<close>: \<open>peer vpn\<close> and \<open>peer receiver\<close> with \<open>cli/signals.ts\<close> and
  \<open>runtime/cleanup.ts\<close>; one instance at a time, and termination by a measure.  \<open>Invitation_Input\<close>:
  the hidden prompt.  \<open>Worklet_Bridge\<close>, \<open>Worklet_Bridge_Properties\<close>: the provider's protocol, how it
  shuts down, and that nothing it sends depends on the seed.  \<open>Acceptance\<close>, \<open>Observability\<close>: what diagnostics may show.

  \<^bold>\<open>Bounds.\<close>  Nothing runs on fuel: loops are structural or have a measure (the reader of frames, the
  search for an address), and runs are finite sequences of events of any length.  A command that
  ends meets at most ten events more, and four for each reload that waits.

  \<^bold>\<open>Not modelled.\<close>  The DHT, its streams and timers, the terminal, sockets and processes are sources of
  events, and a stream of the DHT is an ordered channel that knows the keys of its ends;
  \<open>createDht\<close> and \<open>vpn/worklet-entry.ts\<close> only call the libraries; \<open>types/vendor.d.ts\<close> only
  declares them.  Characters above 255, ancestors that are symbolic links, getters of parsed values and
  rounding of numbers are left out.  The Swift applications, the C helper, the web site and the build
  scripts are other programs.
\<close>

end
